(* ===== verification/Prelude.thy ===== *)
theory Prelude
  imports Main "HOL-Library.AList" "HOL-Library.Multiset"
begin

text \<open>
  The vocabulary every component theory shares: Python exceptions as values, the result
  type of code that may raise, the loop combinators of that type, Python dictionaries as
  insertion-ordered association lists, and generic list lemmas.

  \<^item> \<open>'a res\<close> is \<open>pyexn + 'a\<close>: \<open>Inl e\<close> is a raised exception and \<open>Inr x\<close> a returned value.
    \<open>rbind\<close> sequences two computations and stops at the first exception, \<open>rmap\<close> is a list
    comprehension whose body may raise, \<open>rfold\<close> a \<open>for\<close> loop over an accumulator.
  \<^item> \<open>dset\<close>, \<open>ddel\<close>, \<open>dmerge\<close> are \<open>d[k] = v\<close>, \<open>d.pop(k, None)\<close> and \<open>d.update(e)\<close>: an update
    keeps the position of an existing key and appends a new one, as Python does.
\<close>

section \<open>Collections of rules\<close>

named_theorems py_simps \<open>evaluation rules for the Python runtime operations\<close>
named_theorems wf_intros \<open>introduction rules for well-formedness predicates\<close>

section \<open>Exceptions and results\<close>

datatype pyexn =
    TypeError
  | KeyError
  | AttributeError
  | IndexError
  | ValueError string
  | NotImplementedError
  | RecursionError

type_synonym 'a res = "pyexn + 'a"

definition rbind :: "'a res \<Rightarrow> ('a \<Rightarrow> 'b res) \<Rightarrow> 'b res" where
  "rbind m f = (case m of Inl e \<Rightarrow> Inl e | Inr x \<Rightarrow> f x)"

lemma rbind_Inl [simp]: "rbind (Inl e) f = Inl e"
  by (simp add: rbind_def)

lemma rbind_Inr [simp]: "rbind (Inr x) f = f x"
  by (simp add: rbind_def)

lemma rbind_eq_Inr: "rbind m f = Inr y \<longleftrightarrow> (\<exists>x. m = Inr x \<and> f x = Inr y)"
  by (cases m) auto

lemma rbind_InrE:
  assumes "rbind m f = Inr y"
  obtains x where "m = Inr x" "f x = Inr y"
  using assms by (cases m) auto

lemma rbind_cong [fundef_cong]:
  "m = m' \<Longrightarrow> (\<And>x. m' = Inr x \<Longrightarrow> f x = g x) \<Longrightarrow> rbind m f = rbind m' g"
  by (cases m') auto

lemma rbind_assoc: "rbind (rbind m f) g = rbind m (\<lambda>x. rbind (f x) g)"
  by (cases m) auto

fun rmap :: "('a \<Rightarrow> 'b res) \<Rightarrow> 'a list \<Rightarrow> 'b list res" where
  "rmap f [] = Inr []"
| "rmap f (x # xs) = rbind (f x) (\<lambda>y. rbind (rmap f xs) (\<lambda>ys. Inr (y # ys)))"

fun rfold :: "('s \<Rightarrow> 'a \<Rightarrow> 's res) \<Rightarrow> 's \<Rightarrow> 'a list \<Rightarrow> 's res" where
  "rfold f s [] = Inr s"
| "rfold f s (x # xs) = rbind (f s x) (\<lambda>s'. rfold f s' xs)"

lemma rmap_cong [fundef_cong]:
  "xs = ys \<Longrightarrow> (\<And>x. x \<in> set ys \<Longrightarrow> f x = g x) \<Longrightarrow> rmap f xs = rmap g ys"
  by (induction ys arbitrary: xs) auto

lemma rfold_cong [fundef_cong]:
  "s = t \<Longrightarrow> xs = ys \<Longrightarrow> (\<And>s x. x \<in> set ys \<Longrightarrow> f s x = g s x) \<Longrightarrow> rfold f s xs = rfold g t ys"
proof (induction ys arbitrary: xs s t)
  case (Cons y ys)
  then show ?case by (auto intro: rbind_cong)
qed auto

lemma rmap_Inr_map: "(\<And>x. x \<in> set xs \<Longrightarrow> f x = Inr (g x)) \<Longrightarrow> rmap f xs = Inr (map g xs)"
  by (induction xs) auto

lemma rfold_Inr_fold:
  "(\<And>s x. x \<in> set xs \<Longrightarrow> f s x = Inr (g x s)) \<Longrightarrow> rfold f s xs = Inr (fold g xs s)"
  by (induction xs arbitrary: s) auto

lemma rbind_return: "rbind m Inr = m"
  by (cases m) simp_all

lemma rfold_append: "rfold f s (xs @ ys) = rbind (rfold f s xs) (\<lambda>s. rfold f s ys)"
  by (induction xs arbitrary: s) (auto simp: rbind_assoc)

lemma rmap_append: "rmap f (xs @ ys) = rbind (rmap f xs) (\<lambda>a. rbind (rmap f ys) (\<lambda>b. Inr (a @ b)))"
  by (induction xs) (simp_all add: rbind_assoc rbind_return)

lemma rmap_comp: "rmap (\<lambda>x. f (g x)) xs = rmap f (map g xs)"
  by (induction xs) simp_all

lemma rmap_length: "rmap f xs = Inr ys \<Longrightarrow> length ys = length xs"
  by (induction xs arbitrary: ys) (auto elim!: rbind_InrE)

lemma rmap_nth:
  "rmap f xs = Inr ys \<Longrightarrow> i < length xs \<Longrightarrow> f (xs ! i) = Inr (ys ! i)"
proof (induction xs arbitrary: ys i)
  case (Cons x xs)
  then show ?case by (cases i) (auto elim!: rbind_InrE)
qed simp

lemma rmap_update:
  "rmap f xs = Inr ys \<Longrightarrow> f y = Inr z \<Longrightarrow> rmap f (xs[i := y]) = Inr (ys[i := z])"
proof (induction xs arbitrary: ys i)
  case (Cons x xs)
  then show ?case by (cases i) (auto elim!: rbind_InrE)
qed simp

section \<open>Ordered dictionaries\<close>

definition dset :: "('k \<times> 'v) list \<Rightarrow> 'k \<Rightarrow> 'v \<Rightarrow> ('k \<times> 'v) list" where
  "dset d k v = AList.update k v d"

definition ddel :: "('k \<times> 'v) list \<Rightarrow> 'k \<Rightarrow> ('k \<times> 'v) list" where
  "ddel d k = AList.delete k d"

definition dhas :: "('k \<times> 'v) list \<Rightarrow> 'k \<Rightarrow> bool" where
  "dhas d k = (k \<in> set (map fst d))"

definition dmerge :: "('k \<times> 'v) list \<Rightarrow> ('k \<times> 'v) list \<Rightarrow> ('k \<times> 'v) list" where
  "dmerge d e = fold (\<lambda>(k, v) acc. dset acc k v) e d"

abbreviation dkeys :: "('k \<times> 'v) list \<Rightarrow> 'k list" where
  "dkeys d \<equiv> map fst d"

lemma dset_simps [simp]:
  "dset [] k v = [(k, v)]"
  "dset ((k', w) # d) k v = (if k' = k then (k, v) # d else (k', w) # dset d k v)"
  by (auto simp: dset_def)

lemma ddel_simps [simp]:
  "ddel [] k = []"
  "ddel ((k', w) # d) k = (if k' = k then ddel d k else (k', w) # ddel d k)"
  by (auto simp: ddel_def)

lemma map_of_dset: "map_of (dset d k v) = (map_of d)(k \<mapsto> v)"
  by (simp add: dset_def update_conv')

lemma map_of_ddel: "map_of (ddel d k) = (map_of d)(k := None)"
  by (simp add: ddel_def delete_conv')

lemma map_of_dset_same [simp]: "map_of (dset d k v) k = Some v"
  by (simp add: map_of_dset)

lemma map_of_dset_other [simp]: "k' \<noteq> k \<Longrightarrow> map_of (dset d k v) k' = map_of d k'"
  by (simp add: map_of_dset)

lemma map_of_ddel_same [simp]: "map_of (ddel d k) k = None"
  by (simp add: map_of_ddel)

lemma map_of_ddel_other [simp]: "k' \<noteq> k \<Longrightarrow> map_of (ddel d k) k' = map_of d k'"
  by (simp add: map_of_ddel)

lemma set_dkeys_dset [simp]: "fst ` set (dset d k v) = insert k (fst ` set d)"
proof -
  have "dom (map_of (dset d k v)) = insert k (dom (map_of d))"
    by (simp add: map_of_dset)
  then show ?thesis by (simp only: dom_map_of_conv_image_fst)
qed

lemma set_ddel: "set (ddel d k) = {p \<in> set d. fst p \<noteq> k}"
  by (auto simp: ddel_def AList.delete_eq)

lemma set_dkeys_ddel [simp]: "fst ` set (ddel d k) = fst ` set d - {k}"
  by (auto simp: set_ddel)

lemma distinct_dset [simp]: "distinct (dkeys d) \<Longrightarrow> distinct (dkeys (dset d k v))"
  by (simp add: dset_def distinct_update)

lemma distinct_ddel [simp]: "distinct (dkeys d) \<Longrightarrow> distinct (dkeys (ddel d k))"
  by (simp add: ddel_def distinct_delete)

lemma dhas_map_of: "dhas d k \<longleftrightarrow> map_of d k \<noteq> None"
  by (simp add: dhas_def map_of_eq_None_iff)

lemma dhas_simps [simp]:
  "\<not> dhas [] k"
  "dhas ((k', w) # d) k \<longleftrightarrow> k' = k \<or> dhas d k"
  by (auto simp: dhas_def)

lemma dhas_dset [simp]: "dhas (dset d k v) k' \<longleftrightarrow> k' = k \<or> dhas d k'"
  by (auto simp: dhas_map_of map_of_dset)

lemma dhas_ddel [simp]: "dhas (ddel d k) k' \<longleftrightarrow> k' \<noteq> k \<and> dhas d k'"
  by (auto simp: dhas_map_of map_of_ddel)

lemma length_dset: "length (dset d k v) = (if dhas d k then length d else Suc (length d))"
  by (induction d) auto

lemma length_dset_new: "\<not> dhas d k \<Longrightarrow> dset d k v = d @ [(k, v)]"
  by (induction d) auto

lemma length_ddel: "distinct (dkeys d) \<Longrightarrow>
  length (ddel d k) = (if dhas d k then length d - 1 else length d)"
proof (induction d)
  case (Cons a d)
  then show ?case by (cases a, cases d) (auto simp: dhas_def)
qed simp

lemma length_ddel_le: "length (ddel d k) \<le> length d"
  by (induction d) auto

lemma ddel_absent: "\<not> dhas d k \<Longrightarrow> ddel d k = d"
  by (induction d) auto

lemma dset_dset_same [simp]: "dset (dset d k v) k w = dset d k w"
  by (induction d) auto

lemma map_of_dmerge: "map_of (dmerge d e) = map_of d ++ map_of (rev e)"
proof (induction e arbitrary: d)
  case (Cons p e)
  then show ?case
    by (cases p) (auto simp: dmerge_def map_of_dset map_add_def fun_eq_iff split: option.split)
qed (simp add: dmerge_def)

lemma ran_dset: "ran (map_of (dset d k v)) \<subseteq> insert v (ran (map_of d))"
proof
  fix b
  assume "b \<in> ran (map_of (dset d k v))"
  then obtain a where "map_of (dset d k v) a = Some b" by (auto simp: ran_def)
  then show "b \<in> insert v (ran (map_of d))" by (cases "a = k") (auto intro: ranI)
qed

lemma map_of_filter_dist:
  "distinct (dkeys d) \<Longrightarrow>
   map_of (filter P d) k = (case map_of d k of Some v \<Rightarrow> if P (k, v) then Some v else None | None \<Rightarrow> None)"
proof (induction d)
  case (Cons p d)
  have "map_of (filter P d) (fst p) = None"
    using Cons.prems by (auto simp: map_of_eq_None_iff)
  with Cons show ?case by (cases p) (auto split: option.splits)
qed simp

lemma distinct_filter_keys: "distinct (dkeys d) \<Longrightarrow> distinct (dkeys (filter P d))"
  by (induction d) auto

lemma fold_ddel: "fold (\<lambda>k d. ddel d k) ks d = filter (\<lambda>p. fst p \<notin> set ks) d"
proof (induction ks arbitrary: d)
  case (Cons k ks)
  then show ?case by (auto simp: ddel_def AList.delete_eq intro: filter_cong)
qed simp

text \<open>Deleting the keys of the entries that satisfy a test removes exactly those entries.\<close>

lemma fold_ddel_filter:
  "distinct (dkeys d) \<Longrightarrow>
   fold (\<lambda>k d. ddel d k) (map fst (filter P d)) d = filter (\<lambda>p. \<not> P p) d"
  unfolding fold_ddel by (rule filter_cong) (auto simp: distinct_map inj_on_def)

section \<open>Lists\<close>

lemma filter_concat_map: "filter P (concat (map f xs)) = concat (map (\<lambda>x. filter P (f x)) xs)"
  by (induction xs) auto

lemma concat_map_filter_single: "concat (map (\<lambda>x. filter P [x]) xs) = filter P xs"
  by (induction xs) auto

lemma filter_distinct_single: "distinct xs \<Longrightarrow> x \<in> set xs \<Longrightarrow> filter (\<lambda>y. y = x) xs = [x]"
  by (induction xs) (auto simp: filter_empty_conv)

lemma mset_filter_split: "mset (filter P xs @ filter (\<lambda>x. \<not> P x) xs) = mset xs"
  by (induction xs) auto

lemma takeWhile_dropWhile_length: "length (takeWhile P xs) + length (dropWhile P xs) = length xs"
  by (metis length_append takeWhile_dropWhile_id)

lemma length_dropWhile_le': "length (dropWhile P xs) \<le> length xs"
  by (simp add: length_dropWhile_le)


section \<open>Indexed lists\<close>

text \<open>
  A scan that emits, for each element, entries located at its index: replacing one element
  by another that emits a filtered list filters the result of the whole scan.
\<close>

lemma indexed_scan_update:
  assumes "\<And>i x q. q \<in> set (f i x) \<Longrightarrow> loc q = i"
    and "f (n + j) y = filter P (f (n + j) (xs ! j))"
    and "\<And>q. loc q \<noteq> n + j \<Longrightarrow> P q" and "j < length xs"
  shows "concat (map (\<lambda>(i, x). f i x) (enumerate n (xs[j := y]))) =
    filter P (concat (map (\<lambda>(i, x). f i x) (enumerate n xs)))"
  using assms(2,3,4)
proof (induction xs arbitrary: n j)
  case (Cons x xs)
  have keep: "filter P (concat (map (\<lambda>(i, x). f i x) (enumerate m zs))) =
      concat (map (\<lambda>(i, x). f i x) (enumerate m zs))" if "\<And>q. m \<le> loc q \<Longrightarrow> P q" for m zs
    using that
  proof (induction zs arbitrary: m)
    case (Cons z zs)
    have "filter P (f m z) = f m z"
      using assms(1) Cons.prems by (intro filter_True) force
    moreover have "filter P (concat (map (\<lambda>(i, x). f i x) (enumerate (Suc m) zs))) =
        concat (map (\<lambda>(i, x). f i x) (enumerate (Suc m) zs))"
      by (rule Cons.IH) (use Cons.prems in auto)
    ultimately show ?case by simp
  qed simp
  show ?case
  proof (cases j)
    case 0
    with Cons.prems have "f n y = filter P (f n x)" by simp
    moreover have "filter P (concat (map (\<lambda>(i, x). f i x) (enumerate (Suc n) xs))) =
        concat (map (\<lambda>(i, x). f i x) (enumerate (Suc n) xs))"
      by (rule keep) (use Cons.prems(2) 0 in force)
    ultimately show ?thesis using 0 by simp
  next
    case (Suc k)
    have "filter P (f n x) = f n x"
      using assms(1) Cons.prems(2) Suc by (intro filter_True) force
    moreover have "concat (map (\<lambda>(i, x). f i x) (enumerate (Suc n) (xs[k := y]))) =
        filter P (concat (map (\<lambda>(i, x). f i x) (enumerate (Suc n) xs)))"
      by (rule Cons.IH) (use Cons.prems Suc in auto)
    ultimately show ?thesis using Suc by simp
  qed
qed simp

lemma indexed_scan_member:
  "q \<in> set (concat (map (\<lambda>(i, x). f i x) (enumerate n xs))) \<longleftrightarrow>
   (\<exists>j < length xs. q \<in> set (f (n + j) (xs ! j)))"
proof (induction xs arbitrary: n)
  case (Cons x xs)
  show ?case
    unfolding enumerate_simps list.map concat.simps set_append Un_iff Cons.IH prod.case
    by (auto simp: less_Suc_eq_0_disj)
qed simp

lemma indexed_scan_distinct:
  assumes "\<And>i x q. q \<in> set (f i x) \<Longrightarrow> loc q = i" and "\<And>i x. distinct (f i x)"
  shows "distinct (concat (map (\<lambda>(i, x). f i x) (enumerate n xs)))"
proof (induction xs arbitrary: n)
  case (Cons x xs)
  have "loc q \<noteq> n" if "q \<in> set (concat (map (\<lambda>(i, x). f i x) (enumerate (Suc n) xs)))" for q
    using that assms(1) unfolding indexed_scan_member by fastforce
  then have "set (f n x) \<inter> set (concat (map (\<lambda>(i, x). f i x) (enumerate (Suc n) xs))) = {}"
    using assms(1) by blast
  with Cons.IH assms(2) show ?case by simp
qed simp

lemma filter_take_drop_distinct:
  "distinct xs \<Longrightarrow> filter (\<lambda>x. x \<notin> set (take n xs)) xs = drop n xs"
proof (induction xs arbitrary: n)
  case (Cons x xs)
  show ?case
  proof (cases n)
    case (Suc m)
    have "filter (\<lambda>y. y \<notin> set (take n (x # xs))) (x # xs) = filter (\<lambda>y. y \<notin> set (take m xs)) xs"
      using Cons.prems Suc by (auto intro: filter_cong)
    with Cons Suc show ?thesis by simp
  qed simp
qed simp

end
