(* ===== verification/PyValue.thy ===== *)
theory PyValue
  imports Prelude
begin

text \<open>
  Python values as the JSON-shaped data of the gateway uses them, and the parts of the
  language the modelled code calls on them.

  \<^item> \<open>pyval\<close> is a dynamically typed value. A dict is an insertion-ordered association list
    (\<open>PDict\<close>). A string is a list of characters, each the code point of the same number, so
    the model covers texts of code points below 256. A float is kept as the text of its
    \<open>repr\<close>: the code modelled here stores and compares floats but does no arithmetic on them.
  \<^item> \<open>pdict\<close> is the type of a parameter the source annotates with \<open>dict[str, Any]\<close> or with a
    TypedDict: a method call on it needs no type check, while its values stay dynamic.
  \<^item> \<open>py_get\<close>, \<open>py_item\<close>, \<open>py_iter\<close>, \<open>py_hash\<close> raise what Python raises on a value of the
    wrong type; \<open>py_truthy\<close>, \<open>py_eq\<close>, \<open>py_str\<close>, \<open>py_repr\<close> are \<open>bool(x)\<close>, \<open>x == y\<close>,
    \<open>str(x)\<close> and \<open>repr(x)\<close>.
\<close>

section \<open>Values\<close>

datatype pyval =
    PNone
  | PBool bool
  | PInt int
  | PFloat string
  | PStr string
  | PList "pyval list"
  | PDict "(string \<times> pyval) list"

type_synonym pdict = "(string \<times> pyval) list"

fun is_dict :: "pyval \<Rightarrow> bool" where
  "is_dict (PDict d) = True"
| "is_dict _ = False"

fun is_list :: "pyval \<Rightarrow> bool" where
  "is_list (PList xs) = True"
| "is_list _ = False"

fun is_str :: "pyval \<Rightarrow> bool" where
  "is_str (PStr s) = True"
| "is_str _ = False"

text \<open>\<open>isinstance\<close> tests that give access to the value.\<close>

definition as_dict :: "pyval \<Rightarrow> (string \<times> pyval) list option" where
  "as_dict v = (case v of PDict d \<Rightarrow> Some d | _ \<Rightarrow> None)"

definition as_list :: "pyval \<Rightarrow> pyval list option" where
  "as_list v = (case v of PList xs \<Rightarrow> Some xs | _ \<Rightarrow> None)"

definition as_str :: "pyval \<Rightarrow> string option" where
  "as_str v = (case v of PStr s \<Rightarrow> Some s | _ \<Rightarrow> None)"

lemma as_dict_Some [simp]: "as_dict v = Some d \<longleftrightarrow> v = PDict d"
  by (cases v) (auto simp: as_dict_def)

lemma as_list_Some [simp]: "as_list v = Some xs \<longleftrightarrow> v = PList xs"
  by (cases v) (auto simp: as_list_def)

lemma as_str_Some [simp]: "as_str v = Some s \<longleftrightarrow> v = PStr s"
  by (cases v) (auto simp: as_str_def)

lemma as_simps [simp]:
  "as_dict (PDict d) = Some d" "as_list (PList xs) = Some xs" "as_str (PStr s) = Some s"
  "as_dict PNone = None" "as_dict (PBool b) = None" "as_dict (PInt i) = None"
  "as_dict (PFloat f) = None" "as_dict (PStr s) = None" "as_dict (PList xs) = None"
  "as_list PNone = None" "as_list (PBool b) = None" "as_list (PInt i) = None"
  "as_list (PFloat f) = None" "as_list (PStr s) = None" "as_list (PDict d) = None"
  "as_str PNone = None" "as_str (PBool b) = None" "as_str (PInt i) = None"
  "as_str (PFloat f) = None" "as_str (PList xs) = None" "as_str (PDict d) = None"
  by (simp_all add: as_dict_def as_list_def as_str_def)

fun py_truthy :: "pyval \<Rightarrow> bool" where
  "py_truthy PNone = False"
| "py_truthy (PBool b) = b"
| "py_truthy (PInt i) = (i \<noteq> 0)"
| "py_truthy (PFloat s) = (s \<noteq> ''0.0'' \<and> s \<noteq> ''-0.0'')"
| "py_truthy (PStr s) = (s \<noteq> [])"
| "py_truthy (PList xs) = (xs \<noteq> [])"
| "py_truthy (PDict d) = (d \<noteq> [])"

lemma is_dict_iff: "is_dict v \<longleftrightarrow> (\<exists>d. v = PDict d)"
  by (cases v) auto

lemma is_list_iff: "is_list v \<longleftrightarrow> (\<exists>xs. v = PList xs)"
  by (cases v) auto

lemma is_str_iff: "is_str v \<longleftrightarrow> (\<exists>s. v = PStr s)"
  by (cases v) auto

section \<open>Access\<close>

definition dget_or :: "pdict \<Rightarrow> string \<Rightarrow> pyval \<Rightarrow> pyval" where
  "dget_or d k v = (case map_of d k of None \<Rightarrow> v | Some w \<Rightarrow> w)"

abbreviation dget :: "pdict \<Rightarrow> string \<Rightarrow> pyval" where
  "dget d k \<equiv> dget_or d k PNone"

definition ditem :: "pdict \<Rightarrow> string \<Rightarrow> pyval res" where
  "ditem d k = (case map_of d k of None \<Rightarrow> Inl KeyError | Some w \<Rightarrow> Inr w)"

fun py_get :: "pyval \<Rightarrow> string \<Rightarrow> pyval \<Rightarrow> pyval res" where
  "py_get (PDict d) k v = Inr (dget_or d k v)"
| "py_get _ k v = Inl AttributeError"

fun py_item :: "pyval \<Rightarrow> string \<Rightarrow> pyval res" where
  "py_item (PDict d) k = ditem d k"
| "py_item _ k = Inl TypeError"

fun py_iter :: "pyval \<Rightarrow> pyval list res" where
  "py_iter (PList xs) = Inr xs"
| "py_iter (PStr s) = Inr (map (\<lambda>c. PStr [c]) s)"
| "py_iter (PDict d) = Inr (map (\<lambda>kv. PStr (fst kv)) d)"
| "py_iter _ = Inl TypeError"

text \<open>A value used as a dict key or a set member: containers are unhashable, and a bool
  hashes and compares as the integer it is.\<close>

fun py_hash :: "pyval \<Rightarrow> pyval res" where
  "py_hash (PList _) = Inl TypeError"
| "py_hash (PDict _) = Inl TypeError"
| "py_hash (PBool b) = Inr (PInt (if b then 1 else 0))"
| "py_hash v = Inr v"

lemma py_hash_eq_PStr [simp]:
  "py_hash v = Inr (PStr s) \<longleftrightarrow> v = PStr s"
  "Inr (PStr s) = py_hash v \<longleftrightarrow> v = PStr s"
  by (cases v; auto)+

text \<open>\<open>x in {''a'', ''b''}\<close> for a set of string literals: the left operand is hashed first.\<close>

definition py_in_strs :: "pyval \<Rightarrow> string list \<Rightarrow> bool res" where
  "py_in_strs v ss = rbind (py_hash v) (\<lambda>h. Inr (h \<in> set (map PStr ss)))"

lemma dget_or_simps [simp]:
  "dget_or [] k v = v"
  "dget_or ((k', w) # d) k v = (if k' = k then w else dget_or d k v)"
  by (auto simp: dget_or_def)

lemma ditem_simps [simp]:
  "ditem [] k = Inl KeyError"
  "ditem ((k', w) # d) k = (if k' = k then Inr w else ditem d k)"
  by (auto simp: ditem_def)

lemma dget_or_dset [simp]: "dget_or (dset d k v) k' w = (if k' = k then v else dget_or d k' w)"
  by (auto simp: dget_or_def)

lemma dget_or_ddel [simp]: "dget_or (ddel d k) k' w = (if k' = k then w else dget_or d k' w)"
  by (auto simp: dget_or_def)

lemma ditem_dhas: "dhas d k \<Longrightarrow> ditem d k = Inr (dget d k)"
  by (auto simp: ditem_def dget_or_def dhas_map_of split: option.splits)

lemma ditem_Inr_iff: "ditem d k = Inr v \<longleftrightarrow> map_of d k = Some v"
  by (auto simp: ditem_def split: option.splits)

lemma dget_not_None_dhas: "dget d k \<noteq> PNone \<Longrightarrow> dhas d k"
  by (auto simp: dget_or_def dhas_map_of split: option.splits)

lemma dget_truthy_dhas: "py_truthy (dget d k) \<Longrightarrow> dhas d k"
  by (rule dget_not_None_dhas) auto

lemma dget_or_absent: "\<not> dhas d k \<Longrightarrow> dget_or d k v = v"
  by (auto simp: dget_or_def dhas_map_of split: option.splits)

lemma dget_or_present: "dhas d k \<Longrightarrow> dget_or d k v = dget d k"
  by (auto simp: dget_or_def dhas_map_of split: option.splits)

text \<open>\<open>v[k] = w\<close> on a dict; other values do not take a string key.\<close>

definition set_key :: "pyval \<Rightarrow> string \<Rightarrow> pyval \<Rightarrow> pyval res" where
  "set_key v k w = (case v of PDict d \<Rightarrow> Inr (PDict (dset d k w)) | _ \<Rightarrow> Inl TypeError)"

text \<open>\<open>d.get(v)\<close> with a dynamic key on a dict whose keys are strings.\<close>

definition dget_dyn :: "(string \<times> 'v) list \<Rightarrow> pyval \<Rightarrow> 'v option res" where
  "dget_dyn d k = rbind (py_hash k) (\<lambda>_. Inr (case k of PStr s \<Rightarrow> map_of d s | _ \<Rightarrow> None))"

section \<open>Copied fields\<close>

text \<open>
  A sequence of \<open>if src in d: r[dst] = d[src]\<close>, one for each pair of \<open>fs\<close>.
\<close>

definition copy_fields :: "(string \<times> string) list \<Rightarrow> pdict \<Rightarrow> pdict \<Rightarrow> pdict" where
  "copy_fields fs d r =
     foldl (\<lambda>r (src, dst). case map_of d src of Some v \<Rightarrow> dset r dst v | None \<Rightarrow> r) r fs"

definition same_names :: "string list \<Rightarrow> (string \<times> string) list" where
  "same_names ks = map (\<lambda>k. (k, k)) ks"

lemma copy_fields_simps [simp]:
  "copy_fields [] d r = r"
  "copy_fields ((src, dst) # fs) d r =
     copy_fields fs d (case map_of d src of Some v \<Rightarrow> dset r dst v | None \<Rightarrow> r)"
  by (simp_all add: copy_fields_def)

lemma copy_fields_other: "k \<notin> snd ` set fs \<Longrightarrow> map_of (copy_fields fs d r) k = map_of r k"
proof (induction fs arbitrary: r)
  case (Cons f fs)
  then show ?case by (cases f) (auto split: option.splits)
qed simp

lemma map_of_copy_fields:
  "distinct (map snd fs) \<Longrightarrow> (src, k) \<in> set fs \<Longrightarrow>
   map_of (copy_fields fs d r) k = (case map_of d src of Some v \<Rightarrow> Some v | None \<Rightarrow> map_of r k)"
proof (induction fs arbitrary: r)
  case (Cons f fs)
  show ?case
  proof (cases "f = (src, k)")
    case True
    with Cons.prems have "k \<notin> snd ` set fs" by simp
    with True show ?thesis by (auto simp: copy_fields_other split: option.splits)
  next
    case False
    obtain a b where f: "f = (a, b)" by (cases f)
    have "b \<noteq> k" using Cons.prems False f by (auto simp: image_iff)
    with Cons False f show ?thesis by (auto split: option.splits)
  qed
qed simp

section \<open>Sets of hashable values\<close>

text \<open>
  A Python set as the list of its members in insertion order; two members are the same when
  their hash keys are. Python leaves the iteration order of a set open, so code that
  iterates over one takes the order as a parameter.
\<close>

definition pset_mem :: "pyval \<Rightarrow> pyval list \<Rightarrow> bool" where
  "pset_mem v S = list_ex (\<lambda>w. py_hash w = py_hash v) S"

definition pset_add :: "pyval \<Rightarrow> pyval list \<Rightarrow> pyval list" where
  "pset_add v S = (if pset_mem v S then S else S @ [v])"

definition pset_of :: "pyval list \<Rightarrow> pyval list res" where
  "pset_of vs = rfold (\<lambda>S v. rbind (py_hash v) (\<lambda>_. Inr (pset_add v S))) [] vs"

definition pset_union :: "pyval list \<Rightarrow> pyval list \<Rightarrow> pyval list" where
  "pset_union S T = fold pset_add T S"

definition pset_diff :: "pyval list \<Rightarrow> pyval list \<Rightarrow> pyval list" where
  "pset_diff S T = filter (\<lambda>v. \<not> pset_mem v T) S"

definition pset_disjoint :: "pyval list \<Rightarrow> pyval list \<Rightarrow> bool" where
  "pset_disjoint S T = list_all (\<lambda>v. \<not> pset_mem v T) S"

lemma pset_mem_iff: "pset_mem v S \<longleftrightarrow> py_hash v \<in> py_hash ` set S"
  by (auto simp: pset_mem_def list_ex_iff image_iff intro: sym)

lemma pset_disjoint_iff: "pset_disjoint S T \<longleftrightarrow> (\<forall>v. pset_mem v S \<longrightarrow> \<not> pset_mem v T)"
  unfolding pset_disjoint_def list_all_iff pset_mem_iff by (metis imageE imageI)

lemma pset_mem_member: "v \<in> set S \<Longrightarrow> pset_mem v S"
  by (auto simp: pset_mem_iff)

lemma pset_mem_add [simp]: "pset_mem w (pset_add v S) \<longleftrightarrow> py_hash w = py_hash v \<or> pset_mem w S"
  by (auto simp: pset_add_def pset_mem_iff)

lemma pset_mem_union [simp]: "pset_mem w (pset_union S T) \<longleftrightarrow> pset_mem w S \<or> pset_mem w T"
proof (induction T arbitrary: S)
  case (Cons v T)
  then show ?case by (auto simp: pset_union_def pset_mem_iff pset_add_def)
qed (simp add: pset_union_def pset_mem_iff)

lemma set_pset_add: "set (pset_add v S) \<subseteq> insert v (set S)"
  by (auto simp: pset_add_def)

lemma set_pset_union: "set (pset_union S T) \<subseteq> set S \<union> set T"
proof (induction T arbitrary: S)
  case (Cons v T)
  then show ?case using set_pset_add by (fastforce simp: pset_union_def)
qed (simp add: pset_union_def)

lemma pset_of_loop:
  assumes "rfold (\<lambda>S v. rbind (py_hash v) (\<lambda>_. Inr (pset_add v S))) S0 vs = Inr S"
  shows "S = pset_union S0 vs"
  using assms
  by (induction vs arbitrary: S0) (auto simp: pset_union_def elim!: rbind_InrE)

lemma pset_of_union: "pset_of vs = Inr S \<Longrightarrow> S = pset_union [] vs"
  unfolding pset_of_def by (rule pset_of_loop)

lemma pset_of_mem: "pset_of vs = Inr S \<Longrightarrow> pset_mem w S \<longleftrightarrow> pset_mem w vs"
  by (drule pset_of_union) (simp add: pset_mem_def [of w "[]"])

lemma pset_of_subset: "pset_of vs = Inr S \<Longrightarrow> set S \<subseteq> set vs"
  using set_pset_union [of "[]" vs] by (auto dest: pset_of_union)

lemma pset_of_Nil_iff:
  assumes "pset_of vs = Inr S"
  shows "S = [] \<longleftrightarrow> vs = []"
proof
  assume "S = []"
  then have "\<not> pset_mem w vs" for w
    using pset_of_mem [OF assms, of w] by (simp add: pset_mem_def [of w "[]"])
  then show "vs = []" by (cases vs) (auto simp: pset_mem_iff)
next
  assume "vs = []"
  with pset_of_subset [OF assms] show "S = []" by simp
qed

lemma pset_of_hashable: "(\<And>v. v \<in> set vs \<Longrightarrow> \<exists>h. py_hash v = Inr h) \<Longrightarrow> \<exists>S. pset_of vs = Inr S"
proof -
  assume h: "\<And>v. v \<in> set vs \<Longrightarrow> \<exists>h. py_hash v = Inr h"
  have "\<exists>S. rfold (\<lambda>S v. rbind (py_hash v) (\<lambda>_. Inr (pset_add v S))) S0 vs = Inr S" for S0
    using h
  proof (induction vs arbitrary: S0)
    case (Cons v vs)
    then obtain k where "py_hash v = Inr k" by auto
    with Cons show ?case by simp
  qed simp
  then show ?thesis by (simp add: pset_of_def)
qed

section \<open>Equality\<close>

text \<open>
  \<open>x == y\<close>: lists compare elementwise, dicts as finite maps whatever their order, and a bool
  is the integer 0 or 1. A float equals a float of the same \<open>repr\<close>.
\<close>

function (sequential) py_eq :: "pyval \<Rightarrow> pyval \<Rightarrow> bool" where
  "py_eq (PList []) (PList []) = True"
| "py_eq (PList (x # xs)) (PList (y # ys)) = (py_eq x y \<and> py_eq (PList xs) (PList ys))"
| "py_eq (PDict []) (PDict e) = (e = [])"
| "py_eq (PDict ((k, v) # d)) (PDict e) =
     (case map_of e k of None \<Rightarrow> False
      | Some w \<Rightarrow> py_eq v w \<and> py_eq (PDict d) (PDict (ddel e k)))"
| "py_eq (PBool b) (PBool c) = (b = c)"
| "py_eq (PBool b) (PInt i) = ((if b then 1 else 0) = i)"
| "py_eq (PInt i) (PBool b) = (i = (if b then 1 else 0))"
| "py_eq v w = (v = w)"
  by pat_completeness auto

termination
  by (relation "measure (\<lambda>(v, w). size v)") auto

section \<open>Numbers and strings as text\<close>

definition digit_char :: "nat \<Rightarrow> char" where
  "digit_char n = char_of (48 + n)"

fun nat_str :: "nat \<Rightarrow> string" where
  "nat_str n = (if n < 10 then [digit_char n] else nat_str (n div 10) @ [digit_char (n mod 10)])"

declare nat_str.simps [simp del]

definition int_str :: "int \<Rightarrow> string" where
  "int_str i = (if i < 0 then CHR ''-'' # nat_str (nat (- i)) else nat_str (nat i))"

definition hex_char :: "nat \<Rightarrow> char" where
  "hex_char n = (if n < 10 then char_of (48 + n) else char_of (87 + n))"

definition hex2 :: "char \<Rightarrow> string" where
  "hex2 c = [hex_char (of_char c div 16), hex_char (of_char c mod 16)]"

definition join_with :: "string \<Rightarrow> string list \<Rightarrow> string" where
  "join_with sep xs = (case xs of [] \<Rightarrow> [] | y # ys \<Rightarrow> y @ concat (map (\<lambda>z. sep @ z) ys))"

text \<open>\<open>sep.join(xs)\<close> raises when an element is not a string.\<close>

fun str_of :: "pyval \<Rightarrow> string res" where
  "str_of (PStr s) = Inr s"
| "str_of _ = Inl TypeError"

definition py_join :: "string \<Rightarrow> pyval list \<Rightarrow> string res" where
  "py_join sep xs = rbind (rmap str_of xs) (\<lambda>ss. Inr (join_with sep ss))"

text \<open>\<open>repr\<close> of a string: single quotes unless the text has one and no double quote.\<close>

definition repr_char :: "char \<Rightarrow> char \<Rightarrow> string" where
  "repr_char q c =
     (let n = of_char c :: nat in
      if c = q \<or> n = 92 then [CHR 0x5C, c]
      else if n = 9 then [CHR 0x5C, CHR ''t'']
      else if n = 10 then [CHR 0x5C, CHR ''n'']
      else if n = 13 then [CHR 0x5C, CHR ''r'']
      else if n < 32 \<or> (127 \<le> n \<and> n \<le> 160) \<or> n = 173 then [CHR 0x5C, CHR ''x''] @ hex2 c
      else [c])"

definition repr_str :: "string \<Rightarrow> string" where
  "repr_str s =
     (let q = (if CHR 0x27 \<in> set s \<and> CHR 0x22 \<notin> set s then CHR 0x22 else CHR 0x27)
      in [q] @ concat (map (repr_char q) s) @ [q])"

fun py_repr :: "pyval \<Rightarrow> string" where
  "py_repr PNone = ''None''"
| "py_repr (PBool b) = (if b then ''True'' else ''False'')"
| "py_repr (PInt i) = int_str i"
| "py_repr (PFloat s) = s"
| "py_repr (PStr s) = repr_str s"
| "py_repr (PList xs) = ''['' @ join_with '', '' (map py_repr xs) @ '']''"
| "py_repr (PDict d) =
     ''{'' @ join_with '', '' (map (\<lambda>kv. repr_str (fst kv) @ '': '' @ py_repr (snd kv)) d) @ ''}''"

fun py_str :: "pyval \<Rightarrow> string" where
  "py_str (PStr s) = s"
| "py_str v = py_repr v"

section \<open>Prefixes and slices of strings\<close>

fun starts_with :: "string \<Rightarrow> string \<Rightarrow> bool" where
  "starts_with s [] = True"
| "starts_with [] (p # ps) = False"
| "starts_with (c # s) (p # ps) = (c = p \<and> starts_with s ps)"

definition remove_prefix :: "string \<Rightarrow> string \<Rightarrow> string" where
  "remove_prefix s p = (if starts_with s p then drop (length p) s else s)"

lemma starts_with_iff: "starts_with s p \<longleftrightarrow> (\<exists>t. s = p @ t)"
  by (induction s p rule: starts_with.induct) auto

lemma remove_prefix_append [simp]: "remove_prefix (p @ s) p = s"
  by (auto simp: remove_prefix_def starts_with_iff)

section \<open>Addition, membership and hashed keys\<close>

fun int_of :: "pyval \<Rightarrow> int option" where
  "int_of (PInt i) = Some i"
| "int_of (PBool b) = Some (if b then 1 else 0)"
| "int_of _ = None"

fun is_number :: "pyval \<Rightarrow> bool" where
  "is_number (PInt i) = True"
| "is_number (PBool b) = True"
| "is_number (PFloat s) = True"
| "is_number _ = False"

text \<open>\<open>x + y\<close>; a sum with a float operand is the parameter \<open>fsum\<close>.\<close>

definition py_add :: "(pyval \<Rightarrow> pyval \<Rightarrow> pyval) \<Rightarrow> pyval \<Rightarrow> pyval \<Rightarrow> pyval res" where
  "py_add fsum x y =
     (case (int_of x, int_of y) of
        (Some i, Some j) \<Rightarrow> Inr (PInt (i + j))
      | _ \<Rightarrow>
          if is_number x \<and> is_number y then Inr (fsum x y)
          else (case (x, y) of
              (PStr s, PStr t) \<Rightarrow> Inr (PStr (s @ t))
            | (PList xs, PList ys) \<Rightarrow> Inr (PList (xs @ ys))
            | _ \<Rightarrow> Inl TypeError))"

definition has_substring :: "string \<Rightarrow> string \<Rightarrow> bool" where
  "has_substring s t = list_ex (\<lambda>i. starts_with (drop i s) t) [0..<Suc (length s)]"

text \<open>\<open>k in v\<close> for a text \<open>k\<close>.\<close>

definition py_contains :: "pyval \<Rightarrow> string \<Rightarrow> bool res" where
  "py_contains v k =
     (case v of
        PDict d \<Rightarrow> Inr (dhas d k)
      | PList xs \<Rightarrow> Inr (PStr k \<in> set xs)
      | PStr s \<Rightarrow> Inr (has_substring s k)
      | _ \<Rightarrow> Inl TypeError)"

text \<open>A dict whose keys are arbitrary hashable values, kept under the hash key of each.\<close>

type_synonym 'v hdict = "(pyval \<times> 'v) list"

definition hset :: "'v hdict \<Rightarrow> pyval \<Rightarrow> 'v \<Rightarrow> 'v hdict res" where
  "hset d k v = rbind (py_hash k) (\<lambda>h. Inr (dset d h v))"

definition hget :: "'v hdict \<Rightarrow> pyval \<Rightarrow> 'v option res" where
  "hget d k = rbind (py_hash k) (\<lambda>h. Inr (map_of d h))"

lemma hset_str [simp]: "hset d (PStr s) v = Inr (dset d (PStr s) v)"
  by (simp add: hset_def)

lemma hget_str [simp]: "hget d (PStr s) = Inr (map_of d (PStr s))"
  by (simp add: hget_def)

end
