(* ===== verification/ToolOrphanFix.thy ===== *)
theory ToolOrphanFix
  imports PyValue
begin

text \<open>
  \<open>converters/base/helpers/tool_orphan_fix.py\<close>: pairing of tool calls and tool results in
  IR messages, and removal of a tool choice that no tool definition backs.

  A message is a \<open>pdict\<close>. The log records of the pairing fix are returned beside its result,
  because building one raises on an id that is not a string; the other log calls of the file
  have no effect and are left out. The order in which Python iterates over a set is the
  parameter \<open>enum\<close>. A typographic dash in a message text is written as a hyphen.
\<close>

section \<open>Extraction of ids\<close>

text \<open>The condition and the element of the set comprehension of \<open>extract_part_ids\<close>.\<close>

fun part_id_of :: "string \<Rightarrow> string \<Rightarrow> pyval \<Rightarrow> pyval option" where
  "part_id_of t k (PDict d) =
     (if dget d ''type'' = PStr t \<and> py_truthy (dget d k) then Some (dget d k) else None)"
| "part_id_of t k _ = None"

definition extract_part_ids :: "pyval \<Rightarrow> string \<Rightarrow> string \<Rightarrow> pyval list res" where
  "extract_part_ids parts part_type id_key =
     rbind (py_iter parts) (\<lambda>items. pset_of (List.map_filter (part_id_of part_type id_key) items))"

definition msg_content :: "pdict \<Rightarrow> pyval" where
  "msg_content msg = dget_or msg ''content'' (PList [])"

definition call_ids :: "pdict \<Rightarrow> pyval list res" where
  "call_ids msg = extract_part_ids (msg_content msg) ''tool_call'' ''tool_call_id''"

definition result_ids :: "pdict \<Rightarrow> pyval list res" where
  "result_ids msg = extract_part_ids (msg_content msg) ''tool_result'' ''tool_call_id''"

section \<open>Log records\<close>

definition log_orphan_warnings ::
  "pyval list \<Rightarrow> pyval list \<Rightarrow> string \<Rightarrow> string \<Rightarrow> string list res" where
  "log_orphan_warnings cids rids call_label result_label =
     rbind (if cids = [] then Inr []
            else rbind (py_join '', '' cids) (\<lambda>s.
              Inr [''Fixed '' @ int_str (int (length cids)) @ '' orphaned '' @ call_label
                   @ ''(s) by injecting synthetic results: '' @ s])) (\<lambda>l1.
     rbind (if rids = [] then Inr []
            else rbind (py_join '', '' rids) (\<lambda>s.
              Inr [''Removed '' @ int_str (int (length rids)) @ '' orphaned '' @ result_label
                   @ ''(s) with no matching '' @ call_label @ '': '' @ s])) (\<lambda>l2.
     Inr (l1 @ l2)))"

section \<open>The fix\<close>

definition collect_step ::
  "pyval list \<times> pyval list \<Rightarrow> pdict \<Rightarrow> (pyval list \<times> pyval list) res" where
  "collect_step acc msg =
     (let role = dget msg ''role'' in
      if role = PStr ''assistant'' then
        rbind (call_ids msg) (\<lambda>s. Inr (pset_union (fst acc) s, snd acc))
      else if role = PStr ''tool'' then
        rbind (result_ids msg) (\<lambda>s. Inr (fst acc, pset_union (snd acc) s))
      else Inr acc)"

definition collect_ir_tool_ids :: "pdict list \<Rightarrow> (pyval list \<times> pyval list) res" where
  "collect_ir_tool_ids messages = rfold collect_step ([], []) messages"

definition synthetic_result :: "string \<Rightarrow> pyval \<Rightarrow> pdict" where
  "synthetic_result placeholder tc_id =
     [(''role'', PStr ''tool''),
      (''content'', PList [PDict [(''type'', PStr ''tool_result''),
                                 (''tool_call_id'', tc_id),
                                 (''result'', PStr placeholder)]])]"

record fix_state =
  patched :: "pdict list"
  orphaned_call_ids :: "pyval list"
  orphaned_result_ids :: "pyval list"

text \<open>The part of the loop body after the \<open>continue\<close> of the orphaned-result branch.\<close>

definition keep_step ::
  "(pyval list \<Rightarrow> pyval list) \<Rightarrow> pyval list \<Rightarrow> string \<Rightarrow> fix_state \<Rightarrow> pdict \<Rightarrow> fix_state res" where
  "keep_step enum answered placeholder st msg =
     (let st1 = st\<lparr>patched := patched st @ [msg]\<rparr> in
      if dget msg ''role'' = PStr ''assistant'' then
        rbind (call_ids msg) (\<lambda>ids.
          let unanswered = enum (pset_diff ids answered) in
          Inr (st1\<lparr>patched := patched st1 @ map (synthetic_result placeholder) unanswered,
                   orphaned_call_ids := orphaned_call_ids st1 @ unanswered\<rparr>))
      else Inr st1)"

definition fix_step ::
  "(pyval list \<Rightarrow> pyval list) \<Rightarrow> pyval list \<Rightarrow> pyval list \<Rightarrow> string
   \<Rightarrow> fix_state \<Rightarrow> pdict \<Rightarrow> fix_state res" where
  "fix_step enum known answered placeholder st msg =
     (if dget msg ''role'' = PStr ''tool'' then
        rbind (result_ids msg) (\<lambda>ids.
          if ids \<noteq> [] \<and> pset_disjoint ids known
          then Inr (st\<lparr>orphaned_result_ids := orphaned_result_ids st @ enum ids\<rparr>)
          else keep_step enum answered placeholder st msg)
      else keep_step enum answered placeholder st msg)"

definition fix_orphaned_tool_calls_ir ::
  "(pyval list \<Rightarrow> pyval list) \<Rightarrow> string \<Rightarrow> pdict list \<Rightarrow> (pdict list \<times> string list) res" where
  "fix_orphaned_tool_calls_ir enum placeholder messages =
     rbind (collect_ir_tool_ids messages) (\<lambda>(known, answered).
       if known = [] \<and> answered = [] then Inr (messages, [])
       else
         rbind (rfold (fix_step enum known answered placeholder)
                  \<lparr>patched = [], orphaned_call_ids = [], orphaned_result_ids = []\<rparr> messages)
           (\<lambda>st. rbind (log_orphan_warnings (orphaned_call_ids st) (orphaned_result_ids st)
                          ''tool_call'' ''tool_result'')
             (\<lambda>logs. Inr (patched st, logs))))"

section \<open>Tool configuration without tools\<close>

definition strip_field :: "pdict \<times> string list \<Rightarrow> string \<Rightarrow> pdict \<times> string list" where
  "strip_field acc field =
     (let (req, warns) = acc in
      if dhas req field then
        (ddel req field,
         warns @ [''Stripped orphaned '' @ [CHR 0x27] @ field @ [CHR 0x27] @ '' (value: ''
                  @ py_repr (dget req field)
                  @ '') - no tool definitions present in request''])
      else (req, warns))"

definition strip_orphaned_tool_config :: "pdict \<Rightarrow> pdict \<times> string list" where
  "strip_orphaned_tool_config ir_request =
     (if py_truthy (dget ir_request ''tools'') then (ir_request, [])
      else foldl strip_field (ir_request, []) [''tool_choice'', ''tool_config''])"


section \<open>What the loop computes\<close>

text \<open>The ids of a message as a set up to hash keys; no id where extraction raises.\<close>

definition ids_in :: "pyval list res \<Rightarrow> pyval \<Rightarrow> bool" where
  "ids_in r v = (case r of Inl _ \<Rightarrow> False | Inr S \<Rightarrow> pset_mem v S)"

lemma ids_in_iff: "ids_in r v \<longleftrightarrow> (\<exists>S. r = Inr S \<and> pset_mem v S)"
  by (cases r) (auto simp: ids_in_def)

definition answers :: "pdict list \<Rightarrow> pyval \<Rightarrow> bool" where
  "answers msgs v \<longleftrightarrow> (\<exists>m \<in> set msgs. dget m ''role'' = PStr ''tool'' \<and> ids_in (result_ids m) v)"

definition calls :: "pdict list \<Rightarrow> pyval \<Rightarrow> bool" where
  "calls msgs v \<longleftrightarrow> (\<exists>m \<in> set msgs. dget m ''role'' = PStr ''assistant'' \<and> ids_in (call_ids m) v)"

definition emitted ::
  "(pyval list \<Rightarrow> pyval list) \<Rightarrow> pyval list \<Rightarrow> pyval list \<Rightarrow> string \<Rightarrow> pdict \<Rightarrow> pdict list" where
  "emitted enum known answered placeholder msg =
     (if dget msg ''role'' = PStr ''tool'' then
        (case result_ids msg of Inl _ \<Rightarrow> []
         | Inr ids \<Rightarrow> if ids \<noteq> [] \<and> pset_disjoint ids known then [] else [msg])
      else if dget msg ''role'' = PStr ''assistant'' then
        (case call_ids msg of Inl _ \<Rightarrow> []
         | Inr ids \<Rightarrow> msg # map (synthetic_result placeholder) (enum (pset_diff ids answered)))
      else [msg])"

lemma synthetic_result_facts [simp]:
  "dget (synthetic_result p v) ''role'' = PStr ''tool''"
  "msg_content (synthetic_result p v) =
     PList [PDict [(''type'', PStr ''tool_result''), (''tool_call_id'', v), (''result'', PStr p)]]"
  by (simp_all add: synthetic_result_def msg_content_def)

lemma result_ids_synthetic:
  "py_truthy v \<Longrightarrow> py_hash v = Inr h \<Longrightarrow> result_ids (synthetic_result p v) = Inr [v]"
  by (simp add: result_ids_def extract_part_ids_def List.map_filter_def pset_of_def
      pset_add_def pset_mem_def)

lemma extract_part_ids_truthy:
  assumes "extract_part_ids parts t k = Inr S" and "v \<in> set S"
  shows "py_truthy v"
proof -
  obtain items where "pset_of (List.map_filter (part_id_of t k) items) = Inr S"
    using assms(1) by (auto simp: extract_part_ids_def elim!: rbind_InrE)
  with assms(2) have "v \<in> set (List.map_filter (part_id_of t k) items)"
    using pset_of_subset by blast
  then obtain p where "part_id_of t k p = Some v"
    by (auto simp: List.map_filter_def)
  then show ?thesis by (cases p) (auto split: if_splits)
qed

lemma rfold_hash:
  "rfold (\<lambda>S v. rbind (py_hash v) (\<lambda>_. Inr (pset_add v S))) S0 vs = Inr S
   \<Longrightarrow> v \<in> set vs \<Longrightarrow> \<exists>h. py_hash v = Inr h"
  by (induction vs arbitrary: S0) (auto elim!: rbind_InrE)

lemma extract_part_ids_hashable:
  assumes "extract_part_ids parts t k = Inr S" and "v \<in> set S"
  shows "\<exists>h. py_hash v = Inr h"
proof -
  obtain items where items: "pset_of (List.map_filter (part_id_of t k) items) = Inr S"
    using assms(1) by (auto simp: extract_part_ids_def elim!: rbind_InrE)
  with assms(2) have "v \<in> set (List.map_filter (part_id_of t k) items)"
    using pset_of_subset by blast
  with items show ?thesis unfolding pset_of_def by (rule rfold_hash)
qed

lemma collect_loop:
  assumes "rfold collect_step (k0, a0) msgs = Inr (known, answered)"
  shows "pset_mem v known \<longleftrightarrow> pset_mem v k0 \<or> calls msgs v"
    and "pset_mem v answered \<longleftrightarrow> pset_mem v a0 \<or> answers msgs v"
  using assms
proof (induction msgs arbitrary: k0 a0)
  case Nil
  { case 1 then show ?case by (simp add: calls_def) }
  { case 2 then show ?case by (simp add: answers_def) }
next
  case (Cons m msgs)
  { case 1
    then obtain acc where s: "collect_step (k0, a0) m = Inr acc"
      and r: "rfold collect_step acc msgs = Inr (known, answered)"
      by (auto elim!: rbind_InrE)
    have "pset_mem v (fst acc) \<longleftrightarrow> pset_mem v k0 \<or> calls [m] v"
      using s by (auto simp: collect_step_def Let_def calls_def ids_in_def split: if_splits
          elim!: rbind_InrE)
    moreover have "pset_mem v known \<longleftrightarrow> pset_mem v (fst acc) \<or> calls msgs v"
      using Cons.IH(1) [of "fst acc" "snd acc"] r by simp
    ultimately show ?case by (auto simp: calls_def) }
  { case 2
    then obtain acc where s: "collect_step (k0, a0) m = Inr acc"
      and r: "rfold collect_step acc msgs = Inr (known, answered)"
      by (auto elim!: rbind_InrE)
    have "pset_mem v (snd acc) \<longleftrightarrow> pset_mem v a0 \<or> answers [m] v"
      using s by (auto simp: collect_step_def Let_def answers_def ids_in_def split: if_splits
          elim!: rbind_InrE)
    moreover have "pset_mem v answered \<longleftrightarrow> pset_mem v (snd acc) \<or> answers msgs v"
      using Cons.IH(2) [of "fst acc" "snd acc"] r by simp
    ultimately show ?case by (auto simp: answers_def) }
qed

lemma collect_known:
  assumes "collect_ir_tool_ids msgs = Inr (known, answered)"
  shows "pset_mem v known \<longleftrightarrow> calls msgs v" and "pset_mem v answered \<longleftrightarrow> answers msgs v"
  using collect_loop [of "[]" "[]" msgs known answered v] assms
  by (auto simp: collect_ir_tool_ids_def pset_mem_def)


lemma fix_step_patched:
  "fix_step enum known answered p st m = Inr st' \<Longrightarrow>
   patched st' = patched st @ emitted enum known answered p m"
  by (auto simp: fix_step_def keep_step_def emitted_def Let_def split: if_splits elim!: rbind_InrE)

lemma fix_loop_patched:
  "rfold (fix_step enum known answered p) st msgs = Inr st' \<Longrightarrow>
   patched st' = patched st @ concat (map (emitted enum known answered p) msgs)"
  by (induction msgs arbitrary: st) (auto dest: fix_step_patched elim!: rbind_InrE)

lemma collect_ids_defined:
  assumes "rfold collect_step acc msgs = Inr r" and "m \<in> set msgs"
  shows "dget m ''role'' = PStr ''assistant'' \<Longrightarrow> \<exists>S. call_ids m = Inr S"
    and "dget m ''role'' = PStr ''tool'' \<Longrightarrow> \<exists>S. result_ids m = Inr S"
  using assms
  by (induction msgs arbitrary: acc) (auto simp: collect_step_def Let_def elim!: rbind_InrE)

lemma emitted_nothing_to_fix:
  assumes c: "collect_ir_tool_ids msgs = Inr ([], [])" and m: "m \<in> set msgs"
    and enum: "\<And>S. set (enum S) = set S"
  shows "emitted enum [] [] p m = [m]"
proof -
  note none = collect_known [OF c]
  note defd = collect_ids_defined [OF c [unfolded collect_ir_tool_ids_def] m]
  show ?thesis
  proof (cases "dget m ''role'' = PStr ''tool''")
    case True
    with defd obtain S where S: "result_ids m = Inr S" by auto
    have "S = []"
    proof (rule ccontr)
      assume "S \<noteq> []"
      then have "answers msgs (hd S)"
        using S True m by (auto simp: answers_def ids_in_def intro!: bexI [of _ m] pset_mem_member)
      with none(2) show False by (simp add: pset_mem_def)
    qed
    with S True show ?thesis by (simp add: emitted_def)
  next
    case False
    show ?thesis
    proof (cases "dget m ''role'' = PStr ''assistant''")
      case True
      with defd obtain S where S: "call_ids m = Inr S" by auto
      have "S = []"
      proof (rule ccontr)
        assume "S \<noteq> []"
        then have "calls msgs (hd S)"
          using S True m by (auto simp: calls_def ids_in_def intro!: bexI [of _ m] pset_mem_member)
        with none(1) show False by (simp add: pset_mem_def)
      qed
      moreover have "enum [] = []" using enum [of "[]"] by simp
      ultimately show ?thesis using S False by (simp add: emitted_def pset_diff_def)
    qed (use False in \<open>simp add: emitted_def\<close>)
  qed
qed

lemma fix_output:
  assumes "fix_orphaned_tool_calls_ir enum p msgs = Inr (out, logs)"
    and enum: "\<And>S. set (enum S) = set S"
  obtains known answered where "collect_ir_tool_ids msgs = Inr (known, answered)"
    "out = concat (map (emitted enum known answered p) msgs)"
proof -
  obtain known answered where c: "collect_ir_tool_ids msgs = Inr (known, answered)"
    using assms(1) by (auto simp: fix_orphaned_tool_calls_ir_def elim!: rbind_InrE)
  have "out = concat (map (emitted enum known answered p) msgs)"
  proof (cases "known = [] \<and> answered = []")
    case True
    have "concat (map (emitted enum known answered p) msgs) = concat (map (\<lambda>m. [m]) msgs)"
      using emitted_nothing_to_fix [OF _ _ enum] c True by (intro arg_cong [of _ _ concat] map_cong) auto
    then show ?thesis
      using assms(1) c True by (simp add: fix_orphaned_tool_calls_ir_def)
  next
    case False
    then show ?thesis
      using assms(1) c
      by (auto simp: fix_orphaned_tool_calls_ir_def dest!: fix_loop_patched elim!: rbind_InrE)
  qed
  with c that show thesis by blast
qed

lemma emitted_tool_iff:
  "m' \<in> set (emitted enum known answered p m) \<Longrightarrow> dget m' ''role'' \<noteq> PStr ''tool'' \<Longrightarrow>
   m' = m \<and> dget m ''role'' \<noteq> PStr ''tool''"
  by (auto simp: emitted_def split: if_splits sum.splits)

lemma emitted_non_tool:
  assumes "dget m ''role'' = PStr ''assistant'' \<Longrightarrow> \<exists>S. call_ids m = Inr S"
  shows "filter (\<lambda>m. dget m ''role'' \<noteq> PStr ''tool'') (emitted enum known answered p m) =
         filter (\<lambda>m. dget m ''role'' \<noteq> PStr ''tool'') [m]"
  using assms by (auto simp: emitted_def filter_map comp_def split: sum.splits)

lemma fix_keeps_non_tool:
  assumes f: "fix_orphaned_tool_calls_ir enum p msgs = Inr (out, logs)"
    and enum: "\<And>S. set (enum S) = set S"
  shows "filter (\<lambda>m. dget m ''role'' \<noteq> PStr ''tool'') out =
         filter (\<lambda>m. dget m ''role'' \<noteq> PStr ''tool'') msgs"
proof -
  obtain known answered where c: "collect_ir_tool_ids msgs = Inr (known, answered)"
    and out: "out = concat (map (emitted enum known answered p) msgs)"
    using fix_output [OF f enum] by blast
  have "filter (\<lambda>m. dget m ''role'' \<noteq> PStr ''tool'') out =
        concat (map (\<lambda>m. filter (\<lambda>m. dget m ''role'' \<noteq> PStr ''tool'') [m]) msgs)"
    unfolding out filter_concat_map
    using collect_ids_defined(1) [OF c [unfolded collect_ir_tool_ids_def]]
    by (intro arg_cong [of _ _ concat] map_cong refl emitted_non_tool) auto
  then show ?thesis by (simp only: concat_map_filter_single)
qed

lemma fix_calls_eq:
  assumes "fix_orphaned_tool_calls_ir enum p msgs = Inr (out, logs)"
    and "\<And>S. set (enum S) = set S"
  shows "calls out v \<longleftrightarrow> calls msgs v"
proof -
  have "calls xs v \<longleftrightarrow> calls (filter (\<lambda>m. dget m ''role'' \<noteq> PStr ''tool'') xs) v" for xs
    by (auto simp: calls_def)
  with fix_keeps_non_tool [OF assms] show ?thesis by metis
qed

lemma fix_answers_calls:
  assumes f: "fix_orphaned_tool_calls_ir enum p msgs = Inr (out, logs)"
    and enum: "\<And>S. set (enum S) = set S" and v: "calls out v"
  shows "answers out v"
proof -
  obtain known answered where c: "collect_ir_tool_ids msgs = Inr (known, answered)"
    and out: "out = concat (map (emitted enum known answered p) msgs)"
    using fix_output [OF f enum] by blast
  from v obtain m S where m: "m \<in> set msgs" "dget m ''role'' = PStr ''assistant''"
    and S: "call_ids m = Inr S" "pset_mem v S"
    unfolding fix_calls_eq [OF f enum] by (auto simp: calls_def ids_in_iff)
  show ?thesis
  proof (cases "pset_mem v answered")
    case True
    then obtain t T where t: "t \<in> set msgs" "dget t ''role'' = PStr ''tool''"
      and T: "result_ids t = Inr T" "pset_mem v T"
      unfolding collect_known(2) [OF c] by (auto simp: answers_def ids_in_iff)
    have "pset_mem v known"
      unfolding collect_known(1) [OF c] using m S by (auto simp: calls_def ids_in_def)
    with T(2) have "\<not> pset_disjoint T known"
      unfolding pset_disjoint_iff by blast
    with t T have "t \<in> set (emitted enum known answered p t)" by (simp add: emitted_def)
    with t have "t \<in> set out" unfolding out by fastforce
    with t T show ?thesis by (auto simp: answers_def ids_in_def)
  next
    case False
    obtain w where w: "w \<in> set S" "py_hash w = py_hash v"
      using S(2) by (auto simp: pset_mem_iff)
    with False have "w \<in> set (pset_diff S answered)" by (simp add: pset_diff_def pset_mem_iff)
    then have "synthetic_result p w \<in> set (emitted enum known answered p m)"
      using m S by (simp add: emitted_def enum)
    with m have "synthetic_result p w \<in> set out" unfolding out by fastforce
    moreover obtain h where "py_hash w = Inr h"
      using extract_part_ids_hashable [OF S(1) [unfolded call_ids_def] w(1)] by blast
    moreover have "py_truthy w"
      using extract_part_ids_truthy [OF S(1) [unfolded call_ids_def] w(1)] .
    ultimately show ?thesis
      using w(2) by (auto simp: answers_def ids_in_def result_ids_synthetic pset_mem_def
          intro!: bexI [of _ "synthetic_result p w"])
  qed
qed

lemma fix_results_called:
  assumes f: "fix_orphaned_tool_calls_ir enum p msgs = Inr (out, logs)"
    and enum: "\<And>S. set (enum S) = set S"
    and t: "t \<in> set out" "dget t ''role'' = PStr ''tool''" "result_ids t = Inr T" "T \<noteq> []"
  shows "\<exists>v \<in> set T. calls out v"
proof -
  obtain known answered where c: "collect_ir_tool_ids msgs = Inr (known, answered)"
    and out: "out = concat (map (emitted enum known answered p) msgs)"
    using fix_output [OF f enum] by blast
  have k: "calls out v \<longleftrightarrow> pset_mem v known" for v
    unfolding fix_calls_eq [OF f enum] collect_known(1) [OF c] ..
  from t(1) obtain m where m: "m \<in> set msgs" "t \<in> set (emitted enum known answered p m)"
    unfolding out by auto
  show ?thesis
  proof (cases "dget m ''role'' = PStr ''tool''")
    case True
    with m t have "\<not> pset_disjoint T known" by (auto simp: emitted_def split: sum.splits if_splits)
    then show ?thesis by (auto simp: pset_disjoint_def list_all_iff k)
  next
    case False
    with m t obtain S w where S: "call_ids m = Inr S" "w \<in> set S" "t = synthetic_result p w"
      and r: "dget m ''role'' = PStr ''assistant''"
      by (auto simp: emitted_def enum pset_diff_def split: sum.splits if_splits)
    obtain h where h: "py_hash w = Inr h"
      using extract_part_ids_hashable [OF S(1) [unfolded call_ids_def] S(2)] by blast
    have "py_truthy w"
      using extract_part_ids_truthy [OF S(1) [unfolded call_ids_def] S(2)] .
    with S h t have "T = [w]" by (simp add: result_ids_synthetic)
    moreover have "calls msgs w"
      unfolding calls_def ids_in_iff using m S r by (auto intro!: bexI [of _ m] pset_mem_member)
    ultimately show ?thesis by (simp add: fix_calls_eq [OF f enum])
  qed
qed


section \<open>Well-formed messages never raise\<close>

fun part_ok :: "pyval \<Rightarrow> bool" where
  "part_ok (PDict d) = (dhas d ''tool_call_id'' \<longrightarrow> is_str (dget d ''tool_call_id''))"
| "part_ok _ = True"

definition ir_message_ok :: "pdict \<Rightarrow> bool" where
  "ir_message_ok m = (case msg_content m of PList xs \<Rightarrow> list_all part_ok xs | _ \<Rightarrow> False)"

lemma part_id_of_str:
  "part_ok p \<Longrightarrow> part_id_of t ''tool_call_id'' p = Some v \<Longrightarrow> is_str v"
  by (cases p) (auto dest: dget_truthy_dhas split: if_splits)

lemma str_hash: "is_str v \<Longrightarrow> py_hash v = Inr v"
  by (cases v) auto

lemma extract_ok:
  assumes "ir_message_ok m"
  obtains S where "extract_part_ids (msg_content m) t ''tool_call_id'' = Inr S"
    "\<forall>v \<in> set S. is_str v"
proof -
  obtain xs where xs: "msg_content m = PList xs" "\<forall>p \<in> set xs. part_ok p"
    using assms by (auto simp: ir_message_ok_def list_all_iff split: pyval.splits)
  let ?ids = "List.map_filter (part_id_of t ''tool_call_id'') xs"
  have str: "is_str v" if "v \<in> set ?ids" for v
    using that xs(2) by (auto simp: List.map_filter_def intro: part_id_of_str)
  then obtain S where S: "pset_of ?ids = Inr S"
    using pset_of_hashable [of ?ids] str_hash by metis
  with str pset_of_subset [OF S] have "\<forall>v \<in> set S. is_str v" by auto
  with S xs(1) that show thesis by (simp add: extract_part_ids_def)
qed

lemma collect_step_ok:
  assumes "ir_message_ok m"
  shows "\<exists>acc'. collect_step acc m = Inr acc'"
proof -
  obtain S where "call_ids m = Inr S" unfolding call_ids_def using extract_ok [OF assms] by blast
  moreover obtain T where "result_ids m = Inr T"
    unfolding result_ids_def using extract_ok [OF assms] by blast
  ultimately show ?thesis by (simp add: collect_step_def Let_def)
qed

lemma collect_ok:
  "list_all ir_message_ok msgs \<Longrightarrow> \<exists>r. rfold collect_step acc msgs = Inr r"
proof (induction msgs arbitrary: acc)
  case (Cons m msgs)
  then obtain acc' where "collect_step acc m = Inr acc'" using collect_step_ok by fastforce
  with Cons show ?case by simp
qed simp

definition orphans_ok :: "fix_state \<Rightarrow> bool" where
  "orphans_ok st \<longleftrightarrow> list_all is_str (orphaned_call_ids st) \<and> list_all is_str (orphaned_result_ids st)"

lemma fix_step_ok:
  assumes "ir_message_ok m" and "orphans_ok st" and enum: "\<And>S. set (enum S) = set S"
  shows "\<exists>st'. fix_step enum known answered p st m = Inr st' \<and> orphans_ok st'"
proof -
  obtain S where S: "call_ids m = Inr S" "\<forall>v \<in> set S. is_str v"
    unfolding call_ids_def using extract_ok [OF assms(1)] by blast
  obtain T where T: "result_ids m = Inr T" "\<forall>v \<in> set T. is_str v"
    unfolding result_ids_def using extract_ok [OF assms(1)] by blast
  show ?thesis
    using S T assms(2)
    by (auto simp: fix_step_def keep_step_def Let_def orphans_ok_def enum list_all_iff pset_diff_def)
qed

lemma fix_loop_ok:
  "list_all ir_message_ok msgs \<Longrightarrow> orphans_ok st \<Longrightarrow> (\<And>S. set (enum S) = set S) \<Longrightarrow>
   \<exists>st'. rfold (fix_step enum known answered p) st msgs = Inr st' \<and> orphans_ok st'"
proof (induction msgs arbitrary: st)
  case (Cons m msgs)
  from fix_step_ok [of m st enum known answered p] Cons.prems
  obtain st1 where "fix_step enum known answered p st m = Inr st1" "orphans_ok st1" by auto
  with Cons show ?case by simp
qed simp

lemma py_join_str: "list_all is_str vs \<Longrightarrow> \<exists>s. py_join sep vs = Inr s"
proof -
  assume "list_all is_str vs"
  then have "rmap str_of vs = Inr (map py_str vs)"
    by (intro rmap_Inr_map) (auto simp: list_all_iff is_str_iff)
  then show ?thesis by (simp add: py_join_def)
qed

lemma log_ok:
  assumes "orphans_ok st"
  shows "\<exists>l. log_orphan_warnings (orphaned_call_ids st) (orphaned_result_ids st) a b = Inr l"
proof -
  obtain s where "py_join '', '' (orphaned_call_ids st) = Inr s"
    using assms py_join_str unfolding orphans_ok_def by blast
  moreover obtain t where "py_join '', '' (orphaned_result_ids st) = Inr t"
    using assms py_join_str unfolding orphans_ok_def by blast
  ultimately show ?thesis by (simp add: log_orphan_warnings_def)
qed

lemma fix_ok:
  assumes "list_all ir_message_ok msgs" and enum: "\<And>S. set (enum S) = set S"
  shows "\<exists>out logs. fix_orphaned_tool_calls_ir enum p msgs = Inr (out, logs)"
proof -
  obtain known answered where c: "collect_ir_tool_ids msgs = Inr (known, answered)"
    using collect_ok [OF assms(1), of "([], [])"] by (auto simp: collect_ir_tool_ids_def)
  have "orphans_ok \<lparr>patched = [], orphaned_call_ids = [], orphaned_result_ids = []\<rparr>"
    by (simp add: orphans_ok_def)
  from fix_loop_ok [OF assms(1) this enum, of known answered p] obtain st where
    st: "rfold (fix_step enum known answered p)
           \<lparr>patched = [], orphaned_call_ids = [], orphaned_result_ids = []\<rparr> msgs = Inr st"
    "orphans_ok st" by blast
  obtain l where "log_orphan_warnings (orphaned_call_ids st) (orphaned_result_ids st)
      ''tool_call'' ''tool_result'' = Inr l"
    using log_ok [OF st(2)] by blast
  with c st show ?thesis by (simp add: fix_orphaned_tool_calls_ir_def)
qed

section \<open>A second run changes nothing\<close>

lemma collect_total:
  assumes "\<And>m. m \<in> set msgs \<Longrightarrow> dget m ''role'' = PStr ''assistant'' \<Longrightarrow> \<exists>S. call_ids m = Inr S"
    and "\<And>m. m \<in> set msgs \<Longrightarrow> dget m ''role'' = PStr ''tool'' \<Longrightarrow> \<exists>S. result_ids m = Inr S"
  shows "\<exists>r. rfold collect_step acc msgs = Inr r"
  using assms
proof (induction msgs arbitrary: acc)
  case (Cons m msgs)
  have "\<exists>acc'. collect_step acc m = Inr acc'"
    using Cons.prems(1) [of m] Cons.prems(2) [of m] by (auto simp: collect_step_def Let_def)
  with Cons show ?case by auto
qed simp

lemma fix_loop_paired:
  assumes "\<And>m. m \<in> set msgs \<Longrightarrow> dget m ''role'' = PStr ''assistant'' \<Longrightarrow>
      \<exists>S. call_ids m = Inr S \<and> pset_diff S answered = []"
    and "\<And>m. m \<in> set msgs \<Longrightarrow> dget m ''role'' = PStr ''tool'' \<Longrightarrow>
      \<exists>S. result_ids m = Inr S \<and> (S = [] \<or> \<not> pset_disjoint S known)"
    and enum: "enum [] = []"
  shows "rfold (fix_step enum known answered p) st msgs = Inr (st\<lparr>patched := patched st @ msgs\<rparr>)"
  using assms(1,2)
proof (induction msgs arbitrary: st)
  case (Cons m msgs)
  have "fix_step enum known answered p st m = Inr (st\<lparr>patched := patched st @ [m]\<rparr>)"
    using Cons.prems(1) [of m] Cons.prems(2) [of m]
    by (auto simp: fix_step_def keep_step_def Let_def enum)
  with Cons show ?case by simp
qed simp


lemma ok_call_ids: "ir_message_ok m \<Longrightarrow> \<exists>S. call_ids m = Inr S \<and> (\<forall>v \<in> set S. is_str v)"
  unfolding call_ids_def using extract_ok by blast

lemma ok_result_ids: "ir_message_ok m \<Longrightarrow> \<exists>S. result_ids m = Inr S \<and> (\<forall>v \<in> set S. is_str v)"
  unfolding result_ids_def using extract_ok by blast

definition paired :: "pdict list \<Rightarrow> bool" where
  "paired msgs \<longleftrightarrow>
     (\<forall>v. calls msgs v \<longrightarrow> answers msgs v) \<and>
     (\<forall>t \<in> set msgs. dget t ''role'' = PStr ''tool'' \<longrightarrow>
        (\<forall>T. result_ids t = Inr T \<longrightarrow> T \<noteq> [] \<longrightarrow> (\<exists>v \<in> set T. calls msgs v)))"

lemma paired_fix_id:
  assumes ok: "list_all ir_message_ok msgs" and pr: "paired msgs"
    and enum: "\<And>S. set (enum S) = set S"
  shows "fix_orphaned_tool_calls_ir enum p msgs = Inr (msgs, [])"
proof -
  obtain known answered where c: "collect_ir_tool_ids msgs = Inr (known, answered)"
    using collect_ok [OF ok, of "([], [])"] by (auto simp: collect_ir_tool_ids_def)
  note mem = collect_known [OF c]
  have nil: "enum [] = []" using enum [of "[]"] by simp
  have a: "\<exists>S. call_ids m = Inr S \<and> pset_diff S answered = []"
    if m: "m \<in> set msgs" "dget m ''role'' = PStr ''assistant''" for m
  proof -
    obtain S where S: "call_ids m = Inr S"
      using ok_call_ids ok m(1) by (fastforce simp: list_all_iff)
    have "pset_mem v answered" if "v \<in> set S" for v
    proof -
      have "calls msgs v"
        unfolding calls_def ids_in_iff using m S pset_mem_member [OF that] by blast
      with pr show ?thesis unfolding mem(2) paired_def by blast
    qed
    with S show ?thesis by (simp add: pset_diff_def)
  qed
  have b: "\<exists>S. result_ids t = Inr S \<and> (S = [] \<or> \<not> pset_disjoint S known)"
    if t: "t \<in> set msgs" "dget t ''role'' = PStr ''tool''" for t
  proof -
    obtain T where T: "result_ids t = Inr T"
      using ok_result_ids ok t(1) by (fastforce simp: list_all_iff)
    then have "T = [] \<or> (\<exists>v \<in> set T. pset_mem v known)"
      using pr t unfolding paired_def mem(1) by blast
    with T show ?thesis by (auto simp: pset_disjoint_def list_all_iff)
  qed
  show ?thesis
  proof (cases "known = [] \<and> answered = []")
    case False
    let ?st = "\<lparr>patched = [], orphaned_call_ids = [], orphaned_result_ids = []\<rparr>"
    have "rfold (fix_step enum known answered p) ?st msgs = Inr (?st\<lparr>patched := patched ?st @ msgs\<rparr>)"
      by (rule fix_loop_paired) (use a b nil in blast)+
    then show ?thesis
      using False c by (auto simp: fix_orphaned_tool_calls_ir_def log_orphan_warnings_def)
  qed (simp add: c fix_orphaned_tool_calls_ir_def)
qed

lemma fix_paired:
  assumes "fix_orphaned_tool_calls_ir enum p msgs = Inr (out, logs)"
    and "\<And>S. set (enum S) = set S"
  shows "paired out"
  using fix_answers_calls [OF assms] fix_results_called [OF assms] by (auto simp: paired_def)

lemma fix_out_ok:
  assumes f: "fix_orphaned_tool_calls_ir enum p msgs = Inr (out, logs)"
    and enum: "\<And>S. set (enum S) = set S" and ok: "list_all ir_message_ok msgs"
  shows "list_all ir_message_ok out"
  unfolding list_all_iff
proof
  fix t assume t: "t \<in> set out"
  obtain known answered where out: "out = concat (map (emitted enum known answered p) msgs)"
    using fix_output [OF f enum] by blast
  with t obtain m where m: "m \<in> set msgs" "t \<in> set (emitted enum known answered p m)" by auto
  then have "ir_message_ok m" using ok by (simp add: list_all_iff)
  moreover have "ir_message_ok (synthetic_result p v)" if "is_str v" for v
    using that by (simp add: ir_message_ok_def)
  ultimately show "ir_message_ok t"
    using m(2) ok_call_ids [of m]
    by (auto simp: emitted_def enum pset_diff_def split: if_splits sum.splits)
qed

section \<open>Properties\<close>

text \<open>
  C12. Whenever \<open>fix_orphaned_tool_calls_ir\<close> returns, its output is bidirectionally paired:
  every tool-call id of an assistant message is answered by some tool message, and every tool
  message with result ids answers at least one call of the output. This holds for any set
  iteration order and without a well-formedness assumption on the input.
\<close>

theorem orphan_fix_pairs:
  assumes "fix_orphaned_tool_calls_ir enum p msgs = Inr (out, logs)"
    and "\<And>S. set (enum S) = set S"
  shows "paired out"
  by (rule fix_paired [OF assms])

definition demo_call :: "string \<Rightarrow> pdict" where
  "demo_call i = [(''role'', PStr ''assistant''), (''content'', PList [PDict
     [(''type'', PStr ''tool_call''), (''tool_call_id'', PStr i), (''tool_name'', PStr ''ls'')]])]"

definition demo_result :: "string \<Rightarrow> pdict" where
  "demo_result i = [(''role'', PStr ''tool''), (''content'', PList [PDict
     [(''type'', PStr ''tool_result''), (''tool_call_id'', PStr i), (''result'', PStr ''ok'')]])]"

lemmas fix_eval = fix_orphaned_tool_calls_ir_def collect_ir_tool_ids_def collect_step_def
  call_ids_def result_ids_def extract_part_ids_def msg_content_def List.map_filter_def
  pset_of_def pset_add_def pset_mem_def pset_union_def pset_diff_def pset_disjoint_def
  fix_step_def keep_step_def log_orphan_warnings_def py_join_def join_with_def Let_def

theorem orphan_fix_pairs_witness:
  "\<exists>out logs. fix_orphaned_tool_calls_ir id ''-'' [demo_call ''a'', demo_result ''b''] = Inr (out, logs)
     \<and> length out = 2 \<and> paired out"
proof -
  let ?out = "[demo_call ''a'', synthetic_result ''-'' (PStr ''a'')]"
  have f: "\<exists>logs. fix_orphaned_tool_calls_ir id ''-'' [demo_call ''a'', demo_result ''b''] =
      Inr (?out, logs)"
    by (simp add: fix_eval demo_call_def demo_result_def)
  then show ?thesis using orphan_fix_pairs [of id] by fastforce
qed

text \<open>
  C27. On IR messages whose content is a list and whose tool-call ids are strings the fix never
  raises; it keeps every message that is not a tool message, in order and unchanged; and a
  second run finds nothing to do: it returns its input with no log record.
\<close>

theorem orphan_fix_total_idempotent:
  assumes "list_all ir_message_ok msgs" and "\<And>S. set (enum S) = set S"
  shows "\<exists>out logs. fix_orphaned_tool_calls_ir enum p msgs = Inr (out, logs)
    \<and> filter (\<lambda>m. dget m ''role'' \<noteq> PStr ''tool'') out =
       filter (\<lambda>m. dget m ''role'' \<noteq> PStr ''tool'') msgs
    \<and> fix_orphaned_tool_calls_ir enum p out = Inr (out, [])"
proof -
  obtain out logs where f: "fix_orphaned_tool_calls_ir enum p msgs = Inr (out, logs)"
    using fix_ok [OF assms] by blast
  have "fix_orphaned_tool_calls_ir enum p out = Inr (out, [])"
    by (rule paired_fix_id [OF fix_out_ok [OF f assms(2,1)] fix_paired [OF f assms(2)] assms(2)])
  with f fix_keeps_non_tool [OF f assms(2)] show ?thesis by blast
qed

theorem orphan_fix_total_idempotent_witness:
  "\<exists>out logs. fix_orphaned_tool_calls_ir rev ''-'' [demo_call ''a'', demo_result ''b''] = Inr (out, logs)
     \<and> fix_orphaned_tool_calls_ir rev ''-'' out = Inr (out, [])"
  using orphan_fix_total_idempotent [of "[demo_call ''a'', demo_result ''b'']" rev "''-''"]
  by (auto simp: ir_message_ok_def msg_content_def demo_call_def demo_result_def)

text \<open>
  The fix is the identity on every paired message list, whatever the order of calls and
  results: a tool result that stands before the call it answers is kept where it is. The
  comment of the function promises removal of results without a \<open>preceding\<close> call; the code
  tests membership in the ids of the whole conversation.
\<close>

theorem orphan_fix_ignores_order:
  assumes "list_all ir_message_ok msgs" and "paired msgs" and "\<And>S. set (enum S) = set S"
  shows "fix_orphaned_tool_calls_ir enum p msgs = Inr (msgs, [])"
  by (rule paired_fix_id [OF assms])

theorem orphan_fix_ignores_order_witness:
  "fix_orphaned_tool_calls_ir id ''-'' [demo_result ''a'', demo_call ''a''] =
     Inr ([demo_result ''a'', demo_call ''a''], [])"
proof (rule orphan_fix_ignores_order)
  show "list_all ir_message_ok [demo_result ''a'', demo_call ''a'']"
    by (simp add: ir_message_ok_def msg_content_def demo_call_def demo_result_def)
  show "paired [demo_result ''a'', demo_call ''a'']"
    by (auto simp: paired_def calls_def answers_def ids_in_def fix_eval demo_call_def demo_result_def)
qed simp

end
