(* ===== verification/ToolCallUnwind.thy ===== *)
theory ToolCallUnwind
  imports ToolOrphanFix
begin

text \<open>
  \<open>converters/base/helpers/tool_call_unwind.py\<close>: parallel tool calls of one assistant turn
  are unwound into assistant/tool message pairs. A message of the request is a dynamic value,
  so a message that is not a dict raises where the code calls a method on it. The scan over
  an index is a recursion over the rest of the list.
\<close>

section \<open>Type guards\<close>

definition is_typed :: "string \<Rightarrow> pyval \<Rightarrow> bool" where
  "is_typed t part = (case part of PDict d \<Rightarrow> dget d ''type'' = PStr t | _ \<Rightarrow> False)"

definition is_tool_call_part :: "pyval \<Rightarrow> bool" where
  "is_tool_call_part part = is_typed ''tool_call'' part"

definition is_tool_result_part :: "pyval \<Rightarrow> bool" where
  "is_tool_result_part part = is_typed ''tool_result'' part"

definition is_message :: "pyval \<Rightarrow> bool" where
  "is_message item = (case item of PDict d \<Rightarrow> dhas d ''role'' \<and> dhas d ''content'' | _ \<Rightarrow> False)"

section \<open>Detection and matching\<close>

definition is_parallel_tool_call_message :: "pyval \<Rightarrow> bool res" where
  "is_parallel_tool_call_message message =
     rbind (py_get message ''role'' PNone) (\<lambda>role.
       if role \<noteq> PStr ''assistant'' then Inr False
       else rbind (py_get message ''content'' (PList [])) (\<lambda>content.
              rbind (py_iter content) (\<lambda>parts.
                Inr (1 < length (filter is_tool_call_part parts)))))"

definition is_tool_message :: "pyval \<Rightarrow> bool" where
  "is_tool_message m =
     (is_message m \<and> (case m of PDict d \<Rightarrow> dget d ''role'' = PStr ''tool'' | _ \<Rightarrow> False))"

definition collect_tool_result_messages :: "pyval list \<Rightarrow> pyval list \<times> pyval list" where
  "collect_tool_result_messages rest =
     (takeWhile is_tool_message rest, dropWhile is_tool_message rest)"

type_synonym result_map = "(pyval \<times> pyval) list"

definition map_part :: "pyval \<Rightarrow> result_map \<Rightarrow> pyval \<Rightarrow> result_map res" where
  "map_part msg mapping part =
     (if is_tool_result_part part then
        rbind (py_get part ''tool_call_id'' (PStr [])) (\<lambda>tcid.
          if py_truthy tcid then rbind (py_hash tcid) (\<lambda>h. Inr (dset mapping h msg))
          else Inr mapping)
      else Inr mapping)"

definition map_message :: "result_map \<Rightarrow> pyval \<Rightarrow> result_map res" where
  "map_message mapping msg =
     rbind (py_get msg ''content'' (PList [])) (\<lambda>content.
       rbind (py_iter content) (\<lambda>parts. rfold (map_part msg) mapping parts))"

definition build_result_id_map :: "pyval list \<Rightarrow> result_map res" where
  "build_result_id_map tool_messages = rfold map_message [] tool_messages"

definition find_matching_result ::
  "pyval \<Rightarrow> result_map \<Rightarrow> pyval list \<Rightarrow> nat \<Rightarrow> pyval option res" where
  "find_matching_result tool_call_id mapping tool_messages index =
     (let positional = (if index < length tool_messages then Some (tool_messages ! index) else None)
      in if py_truthy tool_call_id then
           rbind (py_hash tool_call_id) (\<lambda>h.
             case map_of mapping h of Some msg \<Rightarrow> Inr (Some msg) | None \<Rightarrow> Inr positional)
         else Inr positional)"

section \<open>Unwinding\<close>

definition pair_for ::
  "result_map \<Rightarrow> pyval list \<Rightarrow> pyval list \<Rightarrow> nat \<times> pyval \<Rightarrow> pyval list res" where
  "pair_for mapping tool_messages non_tool_call_parts itc =
     (let (idx, tc_part) = itc in
      rbind (py_get tc_part ''tool_call_id'' (PStr [])) (\<lambda>tc_id.
      rbind (find_matching_result tc_id mapping tool_messages idx) (\<lambda>result.
        case result of
          None \<Rightarrow> Inr []
        | Some result_msg \<Rightarrow>
            let content = (if idx = 0 \<and> non_tool_call_parts \<noteq> []
                           then non_tool_call_parts @ [tc_part] else [tc_part])
            in Inr [PDict [(''role'', PStr ''assistant''), (''content'', PList content)],
                    result_msg])))"

definition create_sequential_pairs ::
  "pyval list \<Rightarrow> pyval list \<Rightarrow> pyval list \<Rightarrow> pyval list res" where
  "create_sequential_pairs tool_call_parts tool_messages non_tool_call_parts =
     rbind (build_result_id_map tool_messages) (\<lambda>mapping.
       rbind (rmap (pair_for mapping tool_messages non_tool_call_parts)
                (enumerate 0 tool_call_parts))
         (\<lambda>pss. Inr (concat pss)))"

function unwind_loop :: "pyval list \<Rightarrow> (pyval list \<times> bool) res" where
  "unwind_loop [] = Inr ([], False)"
| "unwind_loop (msg # rest) =
     rbind (is_parallel_tool_call_message msg) (\<lambda>parallel.
       if parallel then
         rbind (py_get msg ''content'' (PList [])) (\<lambda>content.
         rbind (py_iter content) (\<lambda>parts.
           let tool_call_parts = filter is_tool_call_part parts;
               non_tool_call_parts = filter (\<lambda>p. \<not> is_tool_call_part p) parts
           in (case collect_tool_result_messages rest of (tool_messages, next) \<Rightarrow>
                if length tool_messages \<noteq> length tool_call_parts then
                  rbind (unwind_loop rest) (\<lambda>(out, changed). Inr (msg # out, changed))
                else
                  rbind (create_sequential_pairs tool_call_parts tool_messages non_tool_call_parts)
                    (\<lambda>pairs. rbind (unwind_loop next)
                      (\<lambda>(out, changed). Inr (pairs @ out, True))))))
       else rbind (unwind_loop rest) (\<lambda>(out, changed). Inr (msg # out, changed)))"
  by pat_completeness auto
termination
  by (relation "measure length")
    (auto simp: le_imp_less_Suc length_dropWhile_le collect_tool_result_messages_def)

definition unwind_parallel_tool_calls_ir :: "pdict \<Rightarrow> pdict res" where
  "unwind_parallel_tool_calls_ir ir_request =
     (let messages = dget_or ir_request ''messages'' (PList []) in
      if \<not> py_truthy messages then Inr ir_request
      else case messages of
        PList msgs \<Rightarrow>
          rbind (unwind_loop msgs) (\<lambda>(transformed, changed).
            if changed then Inr (dset ir_request ''messages'' (PList transformed))
            else Inr ir_request)
      | PStr _ \<Rightarrow> Inl AttributeError
      | PDict _ \<Rightarrow> Inl KeyError
      | _ \<Rightarrow> Inl TypeError)"

section \<open>Every call of a group gets a pair\<close>

lemma map_part_ran:
  "map_part msg mapping part = Inr mapping' \<Longrightarrow> ran (map_of mapping') \<subseteq> insert msg (ran (map_of mapping))"
  using ran_dset by (fastforce simp: map_part_def split: if_splits elim!: rbind_InrE)

lemma map_message_ran:
  assumes "map_message mapping msg = Inr mapping'"
  shows "ran (map_of mapping') \<subseteq> insert msg (ran (map_of mapping))"
proof -
  obtain parts where "rfold (map_part msg) mapping parts = Inr mapping'"
    using assms by (auto simp: map_message_def elim!: rbind_InrE)
  then show ?thesis
    by (induction parts arbitrary: mapping) (auto elim!: rbind_InrE dest!: map_part_ran)
qed

lemma build_map_ran:
  assumes "build_result_id_map tms = Inr mapping"
  shows "ran (map_of mapping) \<subseteq> set tms"
proof -
  have "rfold map_message m0 tms = Inr mapping \<Longrightarrow>
      ran (map_of mapping) \<subseteq> set tms \<union> ran (map_of m0)" for m0
    by (induction tms arbitrary: m0) (auto elim!: rbind_InrE dest!: map_message_ran)
  with assms show ?thesis by (force simp: build_result_id_map_def)
qed

lemma find_in_range:
  assumes "find_matching_result v mapping tms i = Inr r" and "i < length tms"
    and "ran (map_of mapping) \<subseteq> set tms"
  shows "\<exists>m \<in> set tms. r = Some m"
proof -
  have "r = Some (tms ! i) \<or> (\<exists>h. r = map_of mapping h \<and> r \<noteq> None)"
    using assms(1,2)
    by (fastforce simp: find_matching_result_def Let_def split: if_splits option.splits
        elim!: rbind_InrE)
  with assms(2,3) show ?thesis by (auto simp: subset_iff ran_def)
qed

definition call_message :: "pyval list \<Rightarrow> nat \<Rightarrow> pyval \<Rightarrow> pyval" where
  "call_message non_calls i tc =
     PDict [(''role'', PStr ''assistant''),
            (''content'', PList ((if i = 0 then non_calls else []) @ [tc]))]"

definition pair_shape :: "pyval list \<Rightarrow> pyval list \<Rightarrow> nat \<times> pyval \<Rightarrow> pyval list \<Rightarrow> bool" where
  "pair_shape tms non_calls itc ps \<longleftrightarrow>
     (\<exists>m \<in> set tms. ps = [call_message non_calls (fst itc) (snd itc), m])"

lemma pair_for_shape:
  assumes "pair_for mapping tms non_calls (i, tc) = Inr ps" and "i < length tms"
    and "ran (map_of mapping) \<subseteq> set tms"
  shows "pair_shape tms non_calls (i, tc) ps"
proof -
  obtain v r where r: "find_matching_result v mapping tms i = Inr r"
    and ps: "ps = (case r of None \<Rightarrow> [] | Some m \<Rightarrow> [call_message non_calls i tc, m])"
    using assms(1) by (auto simp: pair_for_def call_message_def Let_def elim!: rbind_InrE
        split: option.splits)
  from find_in_range [OF r assms(2,3)] ps show ?thesis by (auto simp: pair_shape_def)
qed

lemma pairs_shape:
  assumes "rmap (pair_for mapping tms non_calls) (enumerate n tcs) = Inr pss"
    and "n + length tcs \<le> length tms" and "ran (map_of mapping) \<subseteq> set tms"
  shows "list_all2 (pair_shape tms non_calls) (enumerate n tcs) pss"
  using assms
proof (induction tcs arbitrary: n pss)
  case (Cons tc tcs)
  then obtain ps pss' where p: "pair_for mapping tms non_calls (n, tc) = Inr ps"
    and r: "rmap (pair_for mapping tms non_calls) (enumerate (Suc n) tcs) = Inr pss'"
    and pss: "pss = ps # pss'"
    by (auto elim!: rbind_InrE)
  have "pair_shape tms non_calls (n, tc) ps"
    using pair_for_shape [OF p] Cons.prems(2,3) by simp
  moreover have "list_all2 (pair_shape tms non_calls) (enumerate (Suc n) tcs) pss'"
    using Cons.IH [OF r] Cons.prems(2,3) by simp
  ultimately show ?case by (simp add: pss)
qed simp

lemma sequential_pairs_shape:
  assumes "create_sequential_pairs tcs tms non_calls = Inr pairs" and "length tcs \<le> length tms"
  obtains pss where "pairs = concat pss" "list_all2 (pair_shape tms non_calls) (enumerate 0 tcs) pss"
proof -
  obtain mapping pss where m: "build_result_id_map tms = Inr mapping"
    and r: "rmap (pair_for mapping tms non_calls) (enumerate 0 tcs) = Inr pss"
    and p: "pairs = concat pss"
    using assms(1) by (auto simp: create_sequential_pairs_def elim!: rbind_InrE)
  from pairs_shape [OF r _ build_map_ran [OF m]] assms(2)
  have "list_all2 (pair_shape tms non_calls) (enumerate 0 tcs) pss" by simp
  with p that show thesis by blast
qed

section \<open>Unwinding twice\<close>

lemma tool_message_not_parallel: "is_tool_message m \<Longrightarrow> is_parallel_tool_call_message m = Inr False"
  by (cases m) (auto simp: is_tool_message_def is_message_def is_parallel_tool_call_message_def)

lemma parallel_not_tool_message: "is_parallel_tool_call_message m = Inr True \<Longrightarrow> \<not> is_tool_message m"
  by (auto dest: tool_message_not_parallel)

lemma call_message_not_parallel:
  assumes "\<And>p. p \<in> set non_calls \<Longrightarrow> \<not> is_tool_call_part p"
  shows "is_parallel_tool_call_message (call_message non_calls i tc) = Inr False"
proof -
  have "filter is_tool_call_part non_calls = []" using assms by (simp add: filter_empty_conv)
  then show ?thesis
    by (simp add: is_parallel_tool_call_message_def call_message_def)
qed

lemma call_message_not_tool: "\<not> is_tool_message (call_message non_calls i tc)"
  by (simp add: is_tool_message_def call_message_def)

lemma unwind_settled_append:
  assumes "\<And>x. x \<in> set ps \<Longrightarrow> is_parallel_tool_call_message x = Inr False"
    and "unwind_loop out = Inr (out, False)"
  shows "unwind_loop (ps @ out) = Inr (ps @ out, False)"
  using assms by (induction ps) auto

lemma pairs_settled:
  assumes "create_sequential_pairs tcs tms non_calls = Inr pairs" and "length tcs \<le> length tms"
    and "\<And>p. p \<in> set non_calls \<Longrightarrow> \<not> is_tool_call_part p"
    and "\<And>m. m \<in> set tms \<Longrightarrow> is_tool_message m" and "x \<in> set pairs"
  shows "is_parallel_tool_call_message x = Inr False"
proof -
  obtain pss where pss: "pairs = concat pss"
    "list_all2 (pair_shape tms non_calls) (enumerate 0 tcs) pss"
    using sequential_pairs_shape [OF assms(1,2)] by blast
  have "\<exists>ps \<in> set pss. x \<in> set ps" using assms(5) pss(1) by simp
  then obtain i where i: "i < length pss" "x \<in> set (pss ! i)"
    by (metis in_set_conv_nth)
  then have "pair_shape tms non_calls (enumerate 0 tcs ! i) (pss ! i)"
    using pss(2) by (simp add: list_all2_conv_all_nth)
  with i(2) show ?thesis
    using assms(3,4) call_message_not_parallel tool_message_not_parallel
    by (auto simp: pair_shape_def)
qed

lemma pairs_head:
  assumes "create_sequential_pairs (tc # tcs) tms non_calls = Inr pairs"
    and "length (tc # tcs) \<le> length tms"
  shows "\<exists>rest. pairs = call_message non_calls 0 tc # rest"
proof -
  obtain pss where "pairs = concat pss"
    "list_all2 (pair_shape tms non_calls) (enumerate 0 (tc # tcs)) pss"
    using sequential_pairs_shape [OF assms] by blast
  then show ?thesis by (auto simp: list_all2_Cons1 pair_shape_def)
qed

lemma parallel_parts:
  assumes "is_parallel_tool_call_message msg = Inr True"
  obtains d parts where "msg = PDict d" "py_iter (dget_or d ''content'' (PList [])) = Inr parts"
    "1 < length (filter is_tool_call_part parts)"
  using assms
  by (cases msg) (auto simp: is_parallel_tool_call_message_def split: if_splits elim!: rbind_InrE)


lemma unwind_takeWhile:
  "unwind_loop msgs = Inr (out, ch) \<Longrightarrow>
   takeWhile is_tool_message out = takeWhile is_tool_message msgs"
proof (induction msgs arbitrary: out ch rule: unwind_loop.induct)
  case (2 msg rest)
  obtain par where par: "is_parallel_tool_call_message msg = Inr par"
    using "2.prems" by (auto elim!: rbind_InrE)
  show ?case
  proof (cases par)
    case False
    then obtain out' where "unwind_loop rest = Inr (out', ch)" "out = msg # out'"
      using "2.prems" par by (auto elim!: rbind_InrE)
    with "2.IH"(3) [OF par False] show ?thesis by simp
  next
    case True
    with par have no: "\<not> is_tool_message msg" by (simp add: parallel_not_tool_message)
    obtain d parts where parts: "msg = PDict d" "py_iter (dget_or d ''content'' (PList [])) = Inr parts"
      "1 < length (filter is_tool_call_part parts)"
      using parallel_parts [of msg] par True by auto
    then obtain tc tcs where tcs: "filter is_tool_call_part parts = tc # tcs"
      by (cases "filter is_tool_call_part parts") auto
    let ?tms = "takeWhile is_tool_message rest"
    consider (skip) out' where "out = msg # out'"
      | (pairs) pairs out' where "length ?tms = length (tc # tcs)" "out = pairs @ out'"
        "create_sequential_pairs (tc # tcs) ?tms (filter (\<lambda>p. \<not> is_tool_call_part p) parts) = Inr pairs"
      using "2.prems" par True parts tcs
      by (auto simp: collect_tool_result_messages_def Let_def split: if_splits elim!: rbind_InrE)
    then show ?thesis
    proof cases
      case skip
      with no show ?thesis by simp
    next
      case pairs
      from pairs_head [OF pairs(3)] pairs(1) obtain r where
        "pairs = call_message (filter (\<lambda>p. \<not> is_tool_call_part p) parts) 0 tc # r" by auto
      with pairs(2) no show ?thesis by (simp add: call_message_not_tool)
    qed
  qed
qed simp

lemma unwind_loop_settled:
  "unwind_loop msgs = Inr (out, ch) \<Longrightarrow> unwind_loop out = Inr (out, False)"
proof (induction msgs arbitrary: out ch rule: unwind_loop.induct)
  case (2 msg rest)
  obtain par where par: "is_parallel_tool_call_message msg = Inr par"
    using "2.prems" by (auto elim!: rbind_InrE)
  show ?case
  proof (cases par)
    case False
    then obtain out' where o: "unwind_loop rest = Inr (out', ch)" "out = msg # out'"
      using "2.prems" par by (auto elim!: rbind_InrE)
    from "2.IH"(3) [OF par False o(1)] show ?thesis using o(2) par False by simp
  next
    case True
    obtain d parts where parts: "msg = PDict d" "py_iter (dget_or d ''content'' (PList [])) = Inr parts"
      "1 < length (filter is_tool_call_part parts)"
      using parallel_parts [of msg] par True by auto
    let ?tms = "takeWhile is_tool_message rest"
    let ?calls = "filter is_tool_call_part parts"
    let ?others = "filter (\<lambda>p. \<not> is_tool_call_part p) parts"
    consider (skip) out' where "length ?tms \<noteq> length ?calls" "unwind_loop rest = Inr (out', ch)"
        "out = msg # out'"
      | (pairs) pairs out' ch' where "length ?tms = length ?calls"
        "create_sequential_pairs ?calls ?tms ?others = Inr pairs"
        "unwind_loop (dropWhile is_tool_message rest) = Inr (out', ch')" "out = pairs @ out'"
      using "2.prems" par True parts
      by (auto simp: collect_tool_result_messages_def Let_def split: if_splits elim!: rbind_InrE)
    then show ?thesis
    proof cases
      case skip
      have "unwind_loop out' = Inr (out', False)"
        using "2.IH"(1) [OF par True _ parts(2) refl refl _ skip(1) skip(2)] parts(1)
        by (simp add: collect_tool_result_messages_def)
      with skip unwind_takeWhile [OF skip(2)] par True parts show ?thesis
        by (simp add: collect_tool_result_messages_def)
    next
      case pairs
      have "unwind_loop out' = Inr (out', False)"
        using "2.IH"(2) [OF par True _ parts(2) refl refl _ _ pairs(2) pairs(3)] parts(1) pairs(1)
        by (simp add: collect_tool_result_messages_def)
      then show ?thesis unfolding pairs(4)
      proof (rule unwind_settled_append [rotated])
        fix x assume x: "x \<in> set pairs"
        show "is_parallel_tool_call_message x = Inr False"
          by (rule pairs_settled [OF pairs(2) _ _ _ x]) (use pairs(1) in \<open>auto dest: set_takeWhileD\<close>)
      qed
    qed
  qed
qed simp


section \<open>Matching by id\<close>

text \<open>The id of a tool message that carries exactly one tool result.\<close>

fun sole_part :: "pyval \<Rightarrow> pdict option" where
  "sole_part (PList [PDict p]) = Some p"
| "sole_part _ = None"

fun nonempty_str :: "pyval \<Rightarrow> string option" where
  "nonempty_str (PStr s) = (if s = [] then None else Some s)"
| "nonempty_str _ = None"

definition sole_result_id :: "pyval \<Rightarrow> string option" where
  "sole_result_id m =
     (case m of PDict d \<Rightarrow>
        (case sole_part (dget d ''content'') of
           Some p \<Rightarrow> if dget p ''type'' = PStr ''tool_result''
                      then nonempty_str (dget p ''tool_call_id'') else None
         | None \<Rightarrow> None)
      | _ \<Rightarrow> None)"

definition call_id :: "pyval \<Rightarrow> string option" where
  "call_id p = (case p of PDict d \<Rightarrow> nonempty_str (dget d ''tool_call_id'') | _ \<Rightarrow> None)"

lemma sole_part_Some: "sole_part v = Some p \<longleftrightarrow> v = PList [PDict p]"
  by (cases v rule: sole_part.cases) auto

lemma nonempty_str_Some: "nonempty_str v = Some i \<longleftrightarrow> v = PStr i \<and> i \<noteq> []"
  by (cases v) auto

lemma dget_dget_or: "dget d k = w \<Longrightarrow> w \<noteq> PNone \<Longrightarrow> dget_or d k v = w"
  by (auto simp: dget_or_def split: option.splits)

lemma sole_result_idE:
  assumes "sole_result_id m = Some i"
  obtains d p where "m = PDict d" "dget d ''content'' = PList [PDict p]"
    "dget p ''tool_call_id'' = PStr i" "i \<noteq> []" "dget p ''type'' = PStr ''tool_result''"
  using assms
  by (cases m) (auto simp: sole_result_id_def sole_part_Some nonempty_str_Some
      split: option.splits if_splits)

lemma map_message_sole:
  assumes "sole_result_id m = Some i"
  shows "map_message mapping m = Inr (dset mapping (PStr i) m)"
proof -
  obtain d p where m: "m = PDict d" and c: "dget d ''content'' = PList [PDict p]"
    and i: "dget p ''tool_call_id'' = PStr i" "i \<noteq> []" "dget p ''type'' = PStr ''tool_result''"
    using assms by (rule sole_result_idE)
  show ?thesis
    by (simp add: m map_message_def map_part_def dget_dget_or [OF c] dget_dget_or [OF i(1)] i
        is_tool_result_part_def is_typed_def)
qed

lemma build_map_sole:
  assumes "map sole_result_id rs = map Some ks"
  shows "build_result_id_map rs = Inr (fold (\<lambda>(k, m) acc. dset acc (PStr k) m) (zip ks rs) [])"
proof -
  have "rfold map_message mapping rs =
      Inr (fold (\<lambda>(k, m) acc. dset acc (PStr k) m) (zip ks rs) mapping)" for mapping
    using assms
  proof (induction rs arbitrary: ks mapping)
    case (Cons r rs)
    then obtain k ks' where "ks = k # ks'" "sole_result_id r = Some k" by auto
    with Cons show ?case by (simp add: map_message_sole)
  qed simp
  then show ?thesis by (simp add: build_result_id_map_def)
qed

lemma map_of_fold_dset:
  "distinct ks \<Longrightarrow> length ks = length rs \<Longrightarrow>
   map_of (fold (\<lambda>(k, m) acc. dset acc (PStr k) m) (zip ks rs) mapping) (PStr i) =
   (case map_of (zip ks rs) i of Some m \<Rightarrow> Some m | None \<Rightarrow> map_of mapping (PStr i))"
proof (induction ks arbitrary: rs mapping)
  case (Cons k ks)
  then obtain r rs' where rs: "rs = r # rs'" by (cases rs) auto
  have k: "map_of (zip ks rs') k = None"
    using Cons.prems rs by (simp add: map_of_zip_is_None)
  have "map_of (fold (\<lambda>(k, m) acc. dset acc (PStr k) m) (zip ks rs') (dset mapping (PStr k) r)) (PStr i) =
    (case map_of (zip ks rs') i of Some m \<Rightarrow> Some m | None \<Rightarrow> map_of (dset mapping (PStr k) r) (PStr i))"
    using Cons.prems rs by (intro Cons.IH) auto
  with rs k show ?case by (cases "i = k") (simp_all split: option.split)
qed simp

lemma pair_for_matched:
  assumes "call_id tc = Some i" and "map_of mapping (PStr i) = Some m"
  shows "pair_for mapping tms non_calls (n, tc) = Inr [call_message non_calls n tc, m]"
proof -
  obtain d where tc: "tc = PDict d" and i: "dget d ''tool_call_id'' = PStr i" "i \<noteq> []"
    using assms(1) by (cases tc) (auto simp: call_id_def nonempty_str_Some)
  show ?thesis
    by (simp add: tc i assms(2) pair_for_def find_matching_result_def call_message_def
        dget_dget_or [OF i(1)] Let_def)
qed

text \<open>What the code promises for a group whose results are matched by id: the calls in their
  order, each in a message of its own followed by the result message with its id.\<close>

definition sequential_spec :: "pyval list \<Rightarrow> (string \<Rightarrow> pyval option) \<Rightarrow> pyval list \<Rightarrow> pyval list" where
  "sequential_spec non_calls result_of tcs =
     concat (map (\<lambda>(n, tc). [call_message non_calls n tc, the (result_of (the (call_id tc)))])
               (enumerate 0 tcs))"

lemma sequential_pairs_matched:
  assumes rs: "map sole_result_id rs = map Some ks" and cs: "map call_id tcs = map Some cids"
    and d: "distinct ks" and sub: "set cids \<subseteq> set ks"
  shows "create_sequential_pairs tcs rs non_calls =
    Inr (sequential_spec non_calls (map_of (zip ks rs)) tcs)"
proof -
  let ?m = "fold (\<lambda>(k, m) acc. dset acc (PStr k) m) (zip ks rs) []"
  have len: "length ks = length rs" using rs by (metis length_map)
  have "rmap (pair_for ?m rs non_calls) (enumerate 0 tcs) =
    Inr (map (\<lambda>(n, tc). [call_message non_calls n tc, the (map_of (zip ks rs) (the (call_id tc)))])
          (enumerate 0 tcs))"
  proof (rule rmap_Inr_map, clarsimp)
    fix n tc
    assume "(n, tc) \<in> set (enumerate 0 tcs)"
    then have "tc \<in> set tcs" by (auto simp: in_set_enumerate_eq)
    then obtain i where i: "call_id tc = Some i" "i \<in> set cids"
      using cs by (metis (no_types, lifting) image_iff list.set_map)
    then obtain m where m: "map_of (zip ks rs) i = Some m"
      using sub len by (metis map_of_zip_is_None not_None_eq subsetD)
    then show "pair_for ?m rs non_calls (n, tc) =
      Inr [call_message non_calls n tc, the (map_of (zip ks rs) (the (call_id tc)))]"
      using i(1) by (simp add: pair_for_matched map_of_fold_dset [OF d len])
  qed
  with build_map_sole [OF rs] show ?thesis
    by (simp add: create_sequential_pairs_def sequential_spec_def)
qed


lemma map_of_zip_self:
  "distinct ks \<Longrightarrow> length ks = length rs \<Longrightarrow> map (\<lambda>k. the (map_of (zip ks rs) k)) ks = rs"
  by (simp add: list_eq_iff_nth_eq map_of_zip_nth)

lemma results_permuted:
  assumes cs: "map call_id tcs = map Some ids" and p: "mset ks = mset ids"
    and d: "distinct ks" and len: "length ks = length rs"
  shows "mset (map (\<lambda>tc. the (map_of (zip ks rs) (the (call_id tc)))) tcs) = mset rs"
proof -
  have "map (\<lambda>tc. the (call_id tc)) tcs = map the (map call_id tcs)" by simp
  also have "\<dots> = ids" by (simp add: cs)
  finally have ids: "map (\<lambda>tc. the (call_id tc)) tcs = ids" .
  have "map (\<lambda>tc. the (map_of (zip ks rs) (the (call_id tc)))) tcs =
      map (\<lambda>k. the (map_of (zip ks rs) k)) (map (\<lambda>tc. the (call_id tc)) tcs)" by simp
  then have "mset (map (\<lambda>tc. the (map_of (zip ks rs) (the (call_id tc)))) tcs) =
      mset (map (\<lambda>k. the (map_of (zip ks rs) k)) ids)" by (simp only: ids)
  also have "\<dots> = mset (map (\<lambda>k. the (map_of (zip ks rs) k)) ks)"
    by (simp only: mset_map p)
  finally show ?thesis by (simp add: map_of_zip_self [OF d len])
qed

lemma parallel_assistant:
  assumes "dget d ''role'' = PStr ''assistant''" and "dget d ''content'' = PList parts"
  shows "is_parallel_tool_call_message (PDict d) = Inr (1 < length (filter is_tool_call_part parts))"
  using dget_dget_or [OF assms(2), of "PList []"] assms
  by (simp add: is_parallel_tool_call_message_def)

lemma unwind_loop_group:
  assumes r: "dget d ''role'' = PStr ''assistant''" and c: "dget d ''content'' = PList parts"
    and n: "1 < length (filter is_tool_call_part parts)"
    and rs: "\<forall>m \<in> set rs. is_tool_message m" "length rs = length (filter is_tool_call_part parts)"
    and rest: "rest = [] \<or> \<not> is_tool_message (hd rest)"
    and pairs: "create_sequential_pairs (filter is_tool_call_part parts) rs
                  (filter (\<lambda>p. \<not> is_tool_call_part p) parts) = Inr pairs"
    and loop: "unwind_loop rest = Inr (out, ch)"
  shows "unwind_loop (PDict d # rs @ rest) = Inr (pairs @ out, True)"
proof -
  have "takeWhile is_tool_message rest = []" using rest by (cases rest) auto
  then have tw: "takeWhile is_tool_message (rs @ rest) = rs"
    using rs(1) by (simp add: takeWhile_append2)
  have "dropWhile is_tool_message rest = rest" using rest by (cases rest) auto
  then have dw: "dropWhile is_tool_message (rs @ rest) = rest"
    using rs(1) by (simp add: dropWhile_append2)
  show ?thesis
    using tw dw parallel_assistant [OF r c] n rs(2) pairs loop dget_dget_or [OF c, of "PList []"]
    by (simp add: collect_tool_result_messages_def Let_def)
qed

lemma unwind_settled:
  assumes "unwind_parallel_tool_calls_ir req = Inr req'"
  shows "unwind_parallel_tool_calls_ir req' = Inr req'"
proof (cases "req' = req")
  case False
  then obtain msgs out where m: "dget_or req ''messages'' (PList []) = PList msgs" "msgs \<noteq> []"
    and loop: "unwind_loop msgs = Inr (out, True)"
    and req': "req' = dset req ''messages'' (PList out)"
    using assms
    by (auto simp: unwind_parallel_tool_calls_ir_def Let_def split: if_splits pyval.splits
        elim!: rbind_InrE)
  show ?thesis
    using unwind_loop_settled [OF loop] by (simp add: unwind_parallel_tool_calls_ir_def req' Let_def)
qed (use assms in simp)

section \<open>Properties\<close>

text \<open>
  C13. A parallel tool-call turn whose results are matched by id becomes the sequence of its
  calls in their order, one assistant message per call, each followed by the result with its
  id; the text and reasoning parts go into the first of them; the results used are a
  permutation of the results given, so none is lost or duplicated.
\<close>

theorem unwind_matched_group:
  assumes "dget d ''role'' = PStr ''assistant''" and "dget d ''content'' = PList parts"
    and "tcs = filter is_tool_call_part parts" and "1 < length tcs"
    and "\<forall>m \<in> set rs. is_tool_message m"
    and "map call_id tcs = map Some ids" and "map sole_result_id rs = map Some ks"
    and "distinct ks" and "mset ks = mset ids"
    and "rest = [] \<or> \<not> is_tool_message (hd rest)" and "unwind_loop rest = Inr (out, ch)"
  shows "unwind_loop (PDict d # rs @ rest) =
      Inr (sequential_spec (filter (\<lambda>p. \<not> is_tool_call_part p) parts) (map_of (zip ks rs)) tcs @ out, True)
    \<and> mset (map (\<lambda>tc. the (map_of (zip ks rs) (the (call_id tc)))) tcs) = mset rs"
proof
  have len: "length ks = length rs" using assms(7) by (metis length_map)
  have "length rs = length tcs"
    using assms(6,9) len by (metis length_map size_mset)
  moreover have "set ids \<subseteq> set ks" using assms(9) by (metis order_refl set_mset_mset)
  ultimately show "unwind_loop (PDict d # rs @ rest) =
      Inr (sequential_spec (filter (\<lambda>p. \<not> is_tool_call_part p) parts) (map_of (zip ks rs)) tcs @ out, True)"
    using unwind_loop_group [OF assms(1,2) _ assms(5) _ assms(10) _ assms(11)]
      sequential_pairs_matched [OF assms(7,6,8)] assms(3,4) by simp
  show "mset (map (\<lambda>tc. the (map_of (zip ks rs) (the (call_id tc)))) tcs) = mset rs"
    by (rule results_permuted [OF assms(6,9,8) len])
qed

definition demo_part :: "string \<Rightarrow> pyval" where
  "demo_part i = PDict [(''type'', PStr ''tool_call''), (''tool_call_id'', PStr i)]"

theorem unwind_matched_group_witness:
  "unwind_loop (PDict [(''role'', PStr ''assistant''),
       (''content'', PList [demo_part ''a'', demo_part ''b''])]
     # [PDict (demo_result ''b''), PDict (demo_result ''a'')] @ []) =
   Inr ([call_message [] 0 (demo_part ''a''), PDict (demo_result ''a''),
         call_message [] 1 (demo_part ''b''), PDict (demo_result ''b'')], True)"
proof -
  let ?d = "[(''role'', PStr ''assistant''), (''content'', PList [demo_part ''a'', demo_part ''b''])]"
  let ?tcs = "[demo_part ''a'', demo_part ''b'']"
  let ?rs = "[PDict (demo_result ''b''), PDict (demo_result ''a'')]"
  have "unwind_loop (PDict ?d # ?rs @ []) =
      Inr (sequential_spec (filter (\<lambda>p. \<not> is_tool_call_part p) ?tcs)
             (map_of (zip [''b'', ''a''] ?rs)) ?tcs @ [], True)
    \<and> mset (map (\<lambda>tc. the (map_of (zip [''b'', ''a''] ?rs) (the (call_id tc)))) ?tcs) = mset ?rs"
    by (rule unwind_matched_group [where ids = "[''a'', ''b'']" and ch = False])
      (simp_all add: demo_part_def demo_result_def is_tool_call_part_def is_typed_def call_id_def
        sole_result_id_def is_tool_message_def is_message_def add_mset_commute)
  then show ?thesis
    by (simp add: sequential_spec_def demo_part_def is_tool_call_part_def is_typed_def call_id_def)
qed

text \<open>
  Unwinding is idempotent: a request it returned is returned unchanged, so no parallel turn
  with a matching number of results is left.
\<close>

theorem unwind_idempotent:
  assumes "unwind_parallel_tool_calls_ir req = Inr req'"
  shows "unwind_parallel_tool_calls_ir req' = Inr req'"
  by (rule unwind_settled [OF assms])

theorem unwind_idempotent_witness:
  "\<exists>r'. unwind_parallel_tool_calls_ir [(''messages'', PList [PDict (demo_call ''a'')])] = Inr r'
      \<and> unwind_parallel_tool_calls_ir r' = Inr r'"
proof -
  let ?r = "[(''messages'', PList [PDict (demo_call ''a'')])]"
  have "unwind_parallel_tool_calls_ir ?r = Inr ?r"
    by (simp add: unwind_parallel_tool_calls_ir_def is_parallel_tool_call_message_def demo_call_def
        is_tool_call_part_def is_typed_def)
  from unwind_idempotent [OF this] this show ?thesis by blast
qed

text \<open>
  Where the ids do not match, the positional fallback can take a result that an id match
  has already used: with two calls, the first matched by id to the second result and the
  second matched by no id, the second result is emitted twice and the first one is dropped.
\<close>

theorem unwind_positional_clash:
  assumes "call_id tc1 = Some i" and "call_id tc2 = Some j"
    and "sole_result_id r1 = Some k" and "sole_result_id r2 = Some i"
    and "j \<noteq> i" and "j \<noteq> k" and "k \<noteq> i"
  shows "create_sequential_pairs [tc1, tc2] [r1, r2] [] =
    Inr [call_message [] 0 tc1, r2, call_message [] 1 tc2, r2]"
proof -
  have m: "build_result_id_map [r1, r2] = Inr [(PStr k, r1), (PStr i, r2)]"
    using build_map_sole [of "[r1, r2]" "[k, i]"] assms(3,4,7) by simp
  obtain d where tc2: "tc2 = PDict d" and j: "dget d ''tool_call_id'' = PStr j" "j \<noteq> []"
    using assms(2) by (cases tc2) (auto simp: call_id_def nonempty_str_Some)
  have "pair_for [(PStr k, r1), (PStr i, r2)] [r1, r2] [] (Suc 0, tc2) =
      Inr [call_message [] (Suc 0) tc2, r2]"
    using assms(5,6)
    by (simp add: tc2 j pair_for_def find_matching_result_def call_message_def
        dget_dget_or [OF j(1)] Let_def)
  moreover have "pair_for [(PStr k, r1), (PStr i, r2)] [r1, r2] [] (0, tc1) =
      Inr [call_message [] 0 tc1, r2]"
    using assms(1,7) by (intro pair_for_matched) auto
  ultimately show ?thesis by (simp add: create_sequential_pairs_def m)
qed

theorem unwind_positional_clash_witness:
  "create_sequential_pairs [demo_part ''a'', demo_part ''b''] [PDict (demo_result ''z''), PDict (demo_result ''a'')] [] =
   Inr [call_message [] 0 (demo_part ''a''), PDict (demo_result ''a''),
        call_message [] 1 (demo_part ''b''), PDict (demo_result ''a'')]"
  by (rule unwind_positional_clash [where i = "''a''" and j = "''b''" and k = "''z''"])
    (simp_all add: demo_part_def demo_result_def call_id_def sole_result_id_def)

end
