(* ===== verification/ImageLimit.thy ===== *)
theory ImageLimit
  imports ToolCallUnwind
begin

text \<open>
  \<open>converters/base/helpers/image_limit.py\<close>: replacement of image parts by text placeholders,
  all of them for a model without vision and the oldest ones for a provider that limits the
  number of images. A position is (message, part, block in a tool result or \<open>None\<close>).
  The deep copy of an affected message is the value itself: the model has no aliasing.
\<close>

section \<open>Positions\<close>

type_synonym part_pos = "nat \<times> nat option"
type_synonym image_pos = "nat \<times> nat \<times> nat option"

definition is_image_part :: "pyval \<Rightarrow> bool" where
  "is_image_part part =
     (case part of PDict d \<Rightarrow> dget d ''type'' = PStr ''image'' \<or> dget d ''type'' = PStr ''image_url''
      | _ \<Rightarrow> False)"

definition block_positions :: "nat \<Rightarrow> pyval \<Rightarrow> nat list" where
  "block_positions block_idx block = (if is_image_part block then [block_idx] else [])"

definition tool_result_blocks :: "pyval \<Rightarrow> pyval list" where
  "tool_result_blocks part =
     (case part of PDict d \<Rightarrow> (case dget d ''result'' of PList bs \<Rightarrow> bs | _ \<Rightarrow> []) | _ \<Rightarrow> [])"

definition part_positions :: "nat \<Rightarrow> pyval \<Rightarrow> part_pos list" where
  "part_positions part_idx part =
     (if is_image_part part then [(part_idx, None)]
      else if is_tool_result_part part then
        map (\<lambda>b. (part_idx, Some b))
          (concat (map (\<lambda>(i, b). block_positions i b) (enumerate 0 (tool_result_blocks part))))
      else [])"

definition msg_positions :: "pyval \<Rightarrow> part_pos list res" where
  "msg_positions msg =
     rbind (py_get msg ''content'' (PList [])) (\<lambda>content.
     rbind (py_iter content) (\<lambda>parts.
       Inr (concat (map (\<lambda>(i, p). part_positions i p) (enumerate 0 parts)))))"

definition collect_image_positions :: "pyval list \<Rightarrow> image_pos list res" where
  "collect_image_positions messages =
     rbind (rmap msg_positions messages) (\<lambda>pss.
       Inr (concat (map (\<lambda>(i, ps). map (Pair i) ps) (enumerate 0 pss))))"

section \<open>Replacement\<close>

definition set_index :: "pyval \<Rightarrow> nat \<Rightarrow> pyval \<Rightarrow> pyval res" where
  "set_index xs i v = (case xs of
     PList ys \<Rightarrow> if i < length ys then Inr (PList (ys[i := v])) else Inl IndexError
   | _ \<Rightarrow> Inl TypeError)"

definition get_index :: "pyval \<Rightarrow> nat \<Rightarrow> pyval res" where
  "get_index xs i = (case xs of
     PList ys \<Rightarrow> if i < length ys then Inr (ys ! i) else Inl IndexError
   | _ \<Rightarrow> Inl TypeError)"

definition replace_in_part :: "pyval \<Rightarrow> pyval \<Rightarrow> nat option \<Rightarrow> pyval res" where
  "replace_in_part placeholder part block_idx =
     (case block_idx of
        None \<Rightarrow> Inr placeholder
      | Some b \<Rightarrow>
          rbind (py_item part ''result'') (\<lambda>result.
          rbind (set_index result b placeholder) (\<lambda>result'.
          set_key part ''result'' result')))"

definition replace_in_msg :: "pyval \<Rightarrow> pyval \<Rightarrow> part_pos \<Rightarrow> pyval res" where
  "replace_in_msg placeholder msg pos =
     (let (part_idx, block_idx) = pos in
      rbind (py_item msg ''content'') (\<lambda>content.
      rbind (get_index content part_idx) (\<lambda>part.
      rbind (replace_in_part placeholder part block_idx) (\<lambda>part'.
      rbind (set_index content part_idx part') (\<lambda>content'.
      set_key msg ''content'' content')))))"

text \<open>\<open>affected_msgs.setdefault(msg_idx, []).append((part_idx, block_idx))\<close>\<close>

definition group_position ::
  "(nat \<times> part_pos list) list \<Rightarrow> image_pos \<Rightarrow> (nat \<times> part_pos list) list" where
  "group_position affected pos =
     (let (i, q) = pos in
      dset affected i ((case map_of affected i of None \<Rightarrow> [] | Some qs \<Rightarrow> qs) @ [q]))"

definition replace_group :: "pyval \<Rightarrow> pyval list \<Rightarrow> nat \<times> part_pos list \<Rightarrow> pyval list res" where
  "replace_group placeholder new_messages grp =
     (let (i, qs) = grp in
      if i < length new_messages then
        rbind (rfold (replace_in_msg placeholder) (new_messages ! i) qs)
          (\<lambda>msg_copy. Inr (new_messages[i := msg_copy]))
      else Inl IndexError)"

definition replace_images :: "pdict \<Rightarrow> image_pos list \<Rightarrow> pdict \<Rightarrow> pdict res" where
  "replace_images ir_request positions placeholder =
     rbind (py_iter (dget_or ir_request ''messages'' (PList []))) (\<lambda>messages.
     rbind (rfold (replace_group (PDict placeholder)) messages (foldl group_position [] positions))
       (\<lambda>new_messages. Inr (dset ir_request ''messages'' (PList new_messages))))"

definition placeholder_no_vision :: pdict where
  "placeholder_no_vision = [(''type'', PStr ''text''), (''text'', PStr ''[image not available]'')]"

definition placeholder_limit :: pdict where
  "placeholder_limit = [(''type'', PStr ''text''), (''text'', PStr ''[image omitted due to limit]'')]"

definition request_positions :: "pdict \<Rightarrow> image_pos list res" where
  "request_positions ir_request =
     rbind (py_iter (dget_or ir_request ''messages'' (PList []))) collect_image_positions"

definition truncate_images :: "pdict \<Rightarrow> int \<Rightarrow> pdict res" where
  "truncate_images ir_request max_images =
     rbind (request_positions ir_request) (\<lambda>image_positions.
       let total = int (length image_positions) in
       if total \<le> max_images then Inr ir_request
       else replace_images ir_request (take (nat (total - max_images)) image_positions)
              placeholder_limit)"

definition strip_images_for_non_vision :: "pdict \<Rightarrow> pdict res" where
  "strip_images_for_non_vision ir_request =
     rbind (request_positions ir_request) (\<lambda>image_positions.
       if image_positions = [] then Inr ir_request
       else replace_images ir_request image_positions placeholder_no_vision)"

section \<open>One replacement removes one position\<close>

definition inert :: "pyval \<Rightarrow> bool" where
  "inert ph \<longleftrightarrow> is_dict ph \<and> \<not> is_image_part ph \<and> \<not> is_tool_result_part ph"

lemma placeholders_inert [simp]: "inert (PDict placeholder_limit)" "inert (PDict placeholder_no_vision)"
  by (simp_all add: inert_def placeholder_limit_def placeholder_no_vision_def is_image_part_def
      is_tool_result_part_def is_typed_def)

lemma part_positions_loc: "q \<in> set (part_positions i p) \<Longrightarrow> fst q = i"
  by (auto simp: part_positions_def split: if_splits)

lemma block_positions_loc: "q \<in> set (block_positions i b) \<Longrightarrow> q = i"
  by (auto simp: block_positions_def split: if_splits)

lemma part_positions_inert: "inert ph \<Longrightarrow> part_positions i ph = []"
  by (simp add: inert_def part_positions_def)

lemma block_positions_distinct:
  "distinct (concat (map (\<lambda>(i, b). block_positions i b) (enumerate n bs)))"
  by (rule indexed_scan_distinct [where loc = "\<lambda>q. q"])
    (auto simp: block_positions_def split: if_splits)

lemma part_positions_distinct: "distinct (part_positions i p)"
  using block_positions_distinct by (auto simp: part_positions_def distinct_map inj_on_def)

lemma set_key_result_guards:
  assumes "set_key (PDict d) ''result'' r = Inr p'"
  shows "is_image_part p' = is_image_part (PDict d)"
    and "is_tool_result_part p' = is_tool_result_part (PDict d)"
    and "tool_result_blocks p' = (case r of PList bs \<Rightarrow> bs | _ \<Rightarrow> [])"
  using assms
  by (auto simp: set_key_def is_image_part_def is_tool_result_part_def is_typed_def
      tool_result_blocks_def)

lemma replace_in_part_positions:
  assumes q: "(i, bo) \<in> set (part_positions i p)" and ph: "inert ph"
  shows "\<exists>p'. replace_in_part ph p bo = Inr p' \<and>
    part_positions i p' = filter (\<lambda>x. x \<noteq> (i, bo)) (part_positions i p)"
proof (cases bo)
  case None
  then have "is_image_part p" using q by (auto simp: part_positions_def split: if_splits)
  with None ph show ?thesis
    by (simp add: replace_in_part_def part_positions_inert) (simp add: part_positions_def)
next
  case (Some b)
  then have np: "\<not> is_image_part p" and tr: "is_tool_result_part p"
    and b: "b \<in> set (concat (map (\<lambda>(i, b). block_positions i b) (enumerate 0 (tool_result_blocks p))))"
    using q by (auto simp: part_positions_def split: if_splits)
  obtain d where p: "p = PDict d" using tr
    by (cases p) (auto simp: is_tool_result_part_def is_typed_def)
  obtain bs where r: "dget d ''result'' = PList bs"
    using b p by (cases "dget d ''result''") (auto simp: tool_result_blocks_def)
  then have tb: "tool_result_blocks p = bs" by (simp add: tool_result_blocks_def p)
  have lt: "b < length bs"
    using b unfolding tb indexed_scan_member by (auto dest: block_positions_loc)
  have item: "py_item p ''result'' = Inr (PList bs)"
    using r ditem_dhas [OF dget_not_None_dhas, of d "''result''"] by (simp add: p)
  obtain p' where p': "set_key (PDict d) ''result'' (PList (bs[b := ph])) = Inr p'"
    by (simp add: set_key_def)
  have "concat (map (\<lambda>(i, b). block_positions i b) (enumerate 0 (bs[b := ph]))) =
      filter (\<lambda>x. x \<noteq> b) (concat (map (\<lambda>(i, b). block_positions i b) (enumerate 0 bs)))"
    by (rule indexed_scan_update [where loc = "\<lambda>q. q"])
      (use ph lt in \<open>auto simp: block_positions_def inert_def split: if_splits\<close>)
  then have "part_positions i p' = filter (\<lambda>x. x \<noteq> (i, bo)) (part_positions i p)"
    using np tr set_key_result_guards [OF p'] tb p Some
    by (simp add: part_positions_def filter_map comp_def)
  then show ?thesis
    using Some item p' lt p by (simp add: replace_in_part_def set_index_def)
qed


lemma part_positions_PStr [simp]: "part_positions i (PStr s) = []"
  by (simp add: part_positions_def is_image_part_def is_tool_result_part_def is_typed_def)

lemma scan_strings [simp]:
  "concat (map (\<lambda>(i, p). part_positions i p) (enumerate n (map (\<lambda>x. PStr (g x)) zs))) = []"
  by (induction zs arbitrary: n) simp_all

lemma msg_positions_dict:
  assumes "msg_positions msg = Inr ps" and "ps \<noteq> []"
  obtains d parts where "msg = PDict d" "map_of d ''content'' = Some (PList parts)"
    "ps = concat (map (\<lambda>(i, p). part_positions i p) (enumerate 0 parts))"
proof -
  obtain d parts where m: "msg = PDict d" "py_iter (dget_or d ''content'' (PList [])) = Inr parts"
    and ps: "ps = concat (map (\<lambda>(i, p). part_positions i p) (enumerate 0 parts))"
    using assms(1) by (cases msg) (auto simp: msg_positions_def elim!: rbind_InrE)
  have "dget_or d ''content'' (PList []) = PList parts"
  proof (cases "dget_or d ''content'' (PList [])")
    case (PStr s)
    with m(2) have "parts = map (\<lambda>c. PStr [c]) s" by simp
    with ps have "ps = []" by (simp only: scan_strings)
    with assms(2) show ?thesis by simp
  next
    case (PDict e)
    with m(2) have "parts = map (\<lambda>kv. PStr (fst kv)) e" by simp
    with ps have "ps = []" by (simp only: scan_strings)
    with assms(2) show ?thesis by simp
  qed (use m(2) in auto)
  moreover have "parts \<noteq> []" using ps assms(2) by auto
  ultimately have "map_of d ''content'' = Some (PList parts)"
    by (auto simp: dget_or_def split: option.splits)
  with m(1) ps that show thesis by blast
qed

lemma replace_in_msg_positions:
  assumes ps: "msg_positions msg = Inr ps" and q: "q \<in> set ps" and ph: "inert ph"
  shows "\<exists>msg'. replace_in_msg ph msg q = Inr msg' \<and>
    msg_positions msg' = Inr (filter (\<lambda>x. x \<noteq> q) ps)"
proof -
  obtain d parts where m: "msg = PDict d" and c: "map_of d ''content'' = Some (PList parts)"
    and pp: "ps = concat (map (\<lambda>(i, p). part_positions i p) (enumerate 0 parts))"
    using msg_positions_dict [OF ps] q by (metis empty_iff list.set(1))
  obtain i bo where q': "q = (i, bo)" by (cases q)
  obtain j where j: "j < length parts" "(i, bo) \<in> set (part_positions j (parts ! j))"
    using q unfolding pp q' indexed_scan_member by auto
  moreover have "i = j" using part_positions_loc [OF j(2)] by simp
  ultimately have lt: "i < length parts" and qi: "(i, bo) \<in> set (part_positions i (parts ! i))"
    by auto
  obtain p' where p': "replace_in_part ph (parts ! i) bo = Inr p'"
    and f: "part_positions i p' = filter (\<lambda>x. x \<noteq> (i, bo)) (part_positions i (parts ! i))"
    using replace_in_part_positions [OF qi ph] by blast
  have "concat (map (\<lambda>(i, p). part_positions i p) (enumerate 0 (parts[i := p']))) =
      filter (\<lambda>x. x \<noteq> q) ps"
    unfolding pp q'
    by (rule indexed_scan_update [where loc = fst]) (use f lt in \<open>auto dest: part_positions_loc\<close>)
  then show ?thesis
    using p' lt by (simp add: q' m replace_in_msg_def ditem_def c get_index_def set_index_def
        set_key_def msg_positions_def)
qed

lemma replace_all_in_msg:
  assumes "msg_positions msg = Inr ps" and "distinct qs" and "set qs \<subseteq> set ps" and "inert ph"
  shows "\<exists>msg'. rfold (replace_in_msg ph) msg qs = Inr msg' \<and>
    msg_positions msg' = Inr (filter (\<lambda>x. x \<notin> set qs) ps)"
  using assms
proof (induction qs arbitrary: msg ps)
  case (Cons q qs)
  obtain m1 where m1: "replace_in_msg ph msg q = Inr m1"
    "msg_positions m1 = Inr (filter (\<lambda>x. x \<noteq> q) ps)"
    using replace_in_msg_positions [OF Cons.prems(1) _ Cons.prems(4), of q] Cons.prems(3) by auto
  obtain m2 where m2: "rfold (replace_in_msg ph) m1 qs = Inr m2"
    "msg_positions m2 = Inr (filter (\<lambda>x. x \<notin> set qs) (filter (\<lambda>x. x \<noteq> q) ps))"
    using Cons.IH [OF m1(2) _ _ Cons.prems(4)] Cons.prems(2,3) by auto
  have "filter (\<lambda>x. x \<notin> set qs) (filter (\<lambda>x. x \<noteq> q) ps) = filter (\<lambda>x. x \<notin> set (q # qs)) ps"
    by (auto intro: filter_cong)
  with m1 m2 show ?case by simp
qed simp

section \<open>All replacements\<close>

definition flat_positions :: "part_pos list list \<Rightarrow> image_pos list" where
  "flat_positions pss = concat (map (\<lambda>(i, ps). map (Pair i) ps) (enumerate 0 pss))"

lemma collect_flat: "collect_image_positions msgs = rbind (rmap msg_positions msgs) (\<lambda>pss. Inr (flat_positions pss))"
  by (simp add: collect_image_positions_def flat_positions_def)

lemma msg_positions_distinct: "msg_positions msg = Inr ps \<Longrightarrow> distinct ps"
  by (auto simp: msg_positions_def intro!: indexed_scan_distinct [where loc = fst]
      part_positions_distinct dest: part_positions_loc elim!: rbind_InrE)

lemma flat_positions_member: "(i, q) \<in> set (flat_positions pss) \<longleftrightarrow> i < length pss \<and> q \<in> set (pss ! i)"
  unfolding flat_positions_def indexed_scan_member by auto

lemma flat_positions_distinct:
  assumes "rmap msg_positions msgs = Inr pss"
  shows "distinct (flat_positions pss)"
proof -
  have d: "distinct ps" if "ps \<in> set pss" for ps
    using that rmap_nth [OF assms] rmap_length [OF assms] msg_positions_distinct
    by (metis in_set_conv_nth)
  have "concat (map (\<lambda>(i, ps). map (Pair i) ps) (enumerate n pss)) =
      concat (map (\<lambda>(i, ps). map (Pair i) (remdups ps)) (enumerate n pss))" for n
    using d by (induction pss arbitrary: n) (auto simp: distinct_remdups_id)
  then show ?thesis
    unfolding flat_positions_def
    by (simp only:) (rule indexed_scan_distinct [where loc = fst], auto simp: distinct_map inj_on_def)
qed

lemma flat_positions_update:
  assumes "i < length pss"
  shows "flat_positions (pss[i := filter (\<lambda>x. x \<notin> Q) (pss ! i)]) =
    filter (\<lambda>(k, x). k \<noteq> i \<or> x \<notin> Q) (flat_positions pss)"
  unfolding flat_positions_def
  by (rule indexed_scan_update [where loc = fst]) (use assms in \<open>auto simp: filter_map comp_def\<close>)

lemma replace_groups:
  assumes "rmap msg_positions msgs = Inr pss" and "inert ph" and "distinct (dkeys g)"
    and "\<And>i qs. (i, qs) \<in> set g \<Longrightarrow> i < length pss \<and> distinct qs \<and> set qs \<subseteq> set (pss ! i)"
  shows "\<exists>msgs' pss'. rfold (replace_group ph) msgs g = Inr msgs' \<and>
    rmap msg_positions msgs' = Inr pss' \<and>
    flat_positions pss' =
      filter (\<lambda>(i, x). \<forall>qs. (i, qs) \<in> set g \<longrightarrow> x \<notin> set qs) (flat_positions pss)"
  using assms
proof (induction g arbitrary: msgs pss)
  case Nil
  then show ?case by (auto simp: filter_True)
next
  case (Cons h g)
  obtain i qs where h: "h = (i, qs)" by (cases h)
  have i: "i < length pss" "distinct qs" "set qs \<subseteq> set (pss ! i)"
    using Cons.prems(4) [of i qs] h by auto
  have li: "i < length msgs" using i(1) rmap_length [OF Cons.prems(1)] by simp
  obtain m where m: "rfold (replace_in_msg ph) (msgs ! i) qs = Inr m"
    "msg_positions m = Inr (filter (\<lambda>x. x \<notin> set qs) (pss ! i))"
    using replace_all_in_msg [OF rmap_nth [OF Cons.prems(1) li] i(2,3) Cons.prems(2)] by blast
  let ?pss = "pss[i := filter (\<lambda>x. x \<notin> set qs) (pss ! i)]"
  have r: "rmap msg_positions (msgs[i := m]) = Inr ?pss"
    by (rule rmap_update [OF Cons.prems(1) m(2)])
  have g: "k < length ?pss \<and> distinct rs \<and> set rs \<subseteq> set (?pss ! k)" if "(k, rs) \<in> set g" for k rs
  proof -
    have "k \<noteq> i" using that Cons.prems(3) h by force
    with Cons.prems(4) [of k rs] that show ?thesis by simp
  qed
  obtain msgs' pss' where ih: "rfold (replace_group ph) (msgs[i := m]) g = Inr msgs'"
    "rmap msg_positions msgs' = Inr pss'"
    "flat_positions pss' =
      filter (\<lambda>(i, x). \<forall>qs. (i, qs) \<in> set g \<longrightarrow> x \<notin> set qs) (flat_positions ?pss)"
    using Cons.IH [OF r Cons.prems(2) _ g] Cons.prems(3) by auto
  have "flat_positions pss' =
      filter (\<lambda>(i, x). \<forall>qs. (i, qs) \<in> set (h # g) \<longrightarrow> x \<notin> set qs) (flat_positions pss)"
    unfolding ih(3) flat_positions_update [OF i(1)] by (auto simp: h intro: filter_cong)
  moreover have "replace_group ph msgs h = Inr (msgs[i := m])"
    using m(1) li by (simp add: h replace_group_def)
  ultimately show ?case using ih(1,2) by (simp (no_asm_simp) only: rfold.simps rbind_Inr) blast
qed


lemma group_positions:
  "distinct (dkeys (foldl group_position [] ps)) \<and>
   map_of (foldl group_position [] ps) i =
     (let qs = map snd (filter (\<lambda>p. fst p = i) ps) in if qs = [] then None else Some qs)"
proof (induction ps arbitrary: i rule: rev_induct)
  case (snoc p ps)
  then show ?case
    by (cases p) (auto simp: group_position_def Let_def map_of_dset)
qed simp

lemma replace_positions:
  assumes pos: "collect_image_positions msgs = Inr ps" and qs: "set qs \<subseteq> set ps" "distinct qs"
    and ph: "inert ph"
  shows "\<exists>msgs'. rfold (replace_group ph) msgs (foldl group_position [] qs) = Inr msgs' \<and>
    collect_image_positions msgs' = Inr (filter (\<lambda>p. p \<notin> set qs) ps)"
proof -
  obtain pss where pss: "rmap msg_positions msgs = Inr pss" and ps: "ps = flat_positions pss"
    using pos by (auto simp: collect_flat elim!: rbind_InrE)
  let ?g = "foldl group_position [] qs"
  have mem: "(i, rs) \<in> set ?g \<longleftrightarrow> rs = map snd (filter (\<lambda>p. fst p = i) qs) \<and> rs \<noteq> []" for i rs
    using group_positions [of qs i] map_of_eq_Some_iff [of ?g i rs]
    by (auto simp: Let_def split: if_splits)
  have g: "i < length pss \<and> distinct rs \<and> set rs \<subseteq> set (pss ! i)" if "(i, rs) \<in> set ?g" for i rs
  proof -
    have rs: "rs = map snd (filter (\<lambda>p. fst p = i) qs)" "rs \<noteq> []" using that mem by auto
    have "distinct rs" unfolding rs(1) using qs(2) by (auto simp: distinct_map inj_on_def)
    moreover have "i < length pss \<and> x \<in> set (pss ! i)" if "x \<in> set rs" for x
      using that qs(1) flat_positions_member [of i x pss] ps by (auto simp: rs(1))
    ultimately show ?thesis using rs(2) by (cases rs) auto
  qed
  obtain msgs' pss' where r: "rfold (replace_group ph) msgs ?g = Inr msgs'"
    "rmap msg_positions msgs' = Inr pss'"
    "flat_positions pss' =
      filter (\<lambda>(i, x). \<forall>rs. (i, rs) \<in> set ?g \<longrightarrow> x \<notin> set rs) (flat_positions pss)"
    using replace_groups [OF pss ph _ g] group_positions by blast
  have "(\<forall>rs. (i, rs) \<in> set ?g \<longrightarrow> x \<notin> set rs) \<longleftrightarrow> (i, x) \<notin> set qs" for i x
    unfolding mem by (force simp: filter_empty_conv)
  then have "flat_positions pss' = filter (\<lambda>p. p \<notin> set qs) ps"
    unfolding r(3) ps by (auto intro: filter_cong)
  with r show ?thesis by (simp add: collect_flat)
qed

lemma collect_distinct: "collect_image_positions msgs = Inr ps \<Longrightarrow> distinct ps"
  by (auto simp: collect_flat elim!: rbind_InrE intro: flat_positions_distinct)

lemma replace_images_positions:
  assumes "request_positions req = Inr ps" and "inert (PDict ph)"
  shows "\<exists>req'. replace_images req (take n ps) ph = Inr req' \<and> request_positions req' = Inr (drop n ps)
    \<and> (\<forall>k. k \<noteq> ''messages'' \<longrightarrow> map_of req' k = map_of req k)"
proof -
  obtain msgs where m: "py_iter (dget_or req ''messages'' (PList [])) = Inr msgs"
    and ps: "collect_image_positions msgs = Inr ps"
    using assms(1) by (auto simp: request_positions_def elim!: rbind_InrE)
  have d: "distinct ps" by (rule collect_distinct [OF ps])
  obtain msgs' where r: "rfold (replace_group (PDict ph)) msgs
      (foldl group_position [] (take n ps)) = Inr msgs'"
    "collect_image_positions msgs' = Inr (filter (\<lambda>p. p \<notin> set (take n ps)) ps)"
    using replace_positions [OF ps set_take_subset _ assms(2)] d by auto
  show ?thesis
    using m r filter_take_drop_distinct [OF d]
    by (auto simp: replace_images_def request_positions_def)
qed

section \<open>Properties\<close>

text \<open>
  C28. Image truncation keeps exactly the most recent images: on a request whose images it can
  locate it returns, the images left are the last \<open>max_images\<close> of the original ones, at their
  original places (message, part and block), and no key but \<open>messages\<close> changes.
\<close>

theorem truncate_keeps_recent:
  assumes "request_positions req = Inr ps"
  shows "\<exists>req'. truncate_images req m = Inr req'
    \<and> request_positions req' = Inr (drop (nat (int (length ps) - m)) ps)
    \<and> (\<forall>k. k \<noteq> ''messages'' \<longrightarrow> map_of req' k = map_of req k)"
  using assms replace_images_positions [OF assms placeholders_inert(1)]
  by (cases "int (length ps) \<le> m") (auto simp: truncate_images_def)

definition demo_image_request :: pdict where
  "demo_image_request =
     [(''messages'', PList [PDict [(''role'', PStr ''user''),
         (''content'', PList [PDict [(''type'', PStr ''image'')], PDict [(''type'', PStr ''text'')],
            PDict [(''type'', PStr ''tool_result''),
                   (''result'', PList [PDict [(''type'', PStr ''image'')]])]])]])]"

lemma demo_positions: "request_positions demo_image_request = Inr [(0, 0, None), (0, 2, Some 0)]"
  by (simp add: request_positions_def demo_image_request_def collect_image_positions_def
      msg_positions_def part_positions_def is_image_part_def is_tool_result_part_def is_typed_def
      tool_result_blocks_def block_positions_def)

theorem truncate_keeps_recent_witness:
  "\<exists>req'. truncate_images demo_image_request 1 = Inr req'
     \<and> request_positions req' = Inr [(0, 2, Some 0)]"
  using truncate_keeps_recent [OF demo_positions, of 1] by auto

text \<open>
  Stripping for a model without vision leaves no image, also none inside a tool result,
  and a request without images is returned as it is.
\<close>

theorem strip_leaves_no_image:
  assumes "request_positions req = Inr ps"
  shows "\<exists>req'. strip_images_for_non_vision req = Inr req' \<and> request_positions req' = Inr []
    \<and> (ps = [] \<longrightarrow> req' = req)"
  using assms replace_images_positions [OF assms placeholders_inert(2), of "length ps"]
  by (auto simp: strip_images_for_non_vision_def)

theorem strip_leaves_no_image_witness:
  "\<exists>req'. strip_images_for_non_vision demo_image_request = Inr req' \<and> request_positions req' = Inr []"
  using strip_leaves_no_image [OF demo_positions] by blast

end
