(* ===== verification/ChatContentOps.thy ===== *)
theory ChatContentOps
  imports ToolCallUnwind ImageLimit
begin

text \<open>
  \<open>converters/openai_chat/content_ops.py\<close> and the content-part guards of \<open>types/ir/type_guards.py\<close>:
  texts, images, audio, reasoning, refusals and citations between the IR and the Chat format. A
  part annotated with a TypedDict is a \<open>pdict\<close>, one annotated \<open>Any\<close> a \<open>pyval\<close>. The texts of the
  raised errors are kept, since a caller quotes them in a warning.
\<close>

section \<open>Guards\<close>

definition is_text_part :: "pyval \<Rightarrow> bool" where
  "is_text_part part = is_typed ''text'' part"

definition is_file_part :: "pyval \<Rightarrow> bool" where
  "is_file_part part = is_typed ''file'' part"

definition is_audio_part :: "pyval \<Rightarrow> bool" where
  "is_audio_part part = is_typed ''audio'' part"

definition is_reasoning_part :: "pyval \<Rightarrow> bool" where
  "is_reasoning_part part = is_typed ''reasoning'' part"

definition is_refusal_part :: "pyval \<Rightarrow> bool" where
  "is_refusal_part part = is_typed ''refusal'' part"

definition is_citation_part :: "pyval \<Rightarrow> bool" where
  "is_citation_part part = is_typed ''citation'' part"

section \<open>Texts\<close>

definition text_part :: "pyval \<Rightarrow> pdict" where
  "text_part t = [(''type'', PStr ''text''), (''text'', t)]"

definition ir_text_to_p :: "pdict \<Rightarrow> pdict res" where
  "ir_text_to_p ir_text = rbind (ditem ir_text ''text'') (\<lambda>t. Inr (text_part t))"

definition p_text_to_ir :: "pyval \<Rightarrow> pdict res" where
  "p_text_to_ir provider_text =
     (if is_str provider_text then Inr (text_part provider_text)
      else if is_typed ''text'' provider_text then
        rbind (py_item provider_text ''text'') (\<lambda>t. Inr (text_part t))
      else Inl (ValueError (''Cannot convert to TextPart: '' @ py_repr provider_text)))"

section \<open>Images\<close>

definition image_url_part :: "pyval \<Rightarrow> pyval \<Rightarrow> pdict" where
  "image_url_part url detail =
     [(''type'', PStr ''image_url''), (''image_url'', PDict [(''url'', url), (''detail'', detail)])]"

definition ir_image_to_p :: "pdict \<Rightarrow> pdict res" where
  "ir_image_to_p ir_image =
     (let detail = dget_or ir_image ''detail'' (PStr ''auto''); url = dget ir_image ''image_url'' in
      if py_truthy url then Inr (image_url_part url detail)
      else
        let image_data = dget ir_image ''image_data'' in
        if py_truthy image_data then
          rbind (py_item image_data ''media_type'') (\<lambda>mt.
          rbind (py_item image_data ''data'') (\<lambda>data.
            Inr (image_url_part (PStr (''data:'' @ py_str mt @ '';base64,'' @ py_str data)) detail)))
        else Inl (ValueError ''ImagePart must have either image_url or image_data''))"

text \<open>The groups of the pattern \<open>data:([^;]+);base64,(.+)\<close>, whose dot stops at a line feed.\<close>

definition match_data_uri :: "string \<Rightarrow> (string \<times> string) option" where
  "match_data_uri url =
     (let rest = drop 5 url; mt = takeWhile (\<lambda>c. c \<noteq> CHR '';'') rest; tail = drop (length mt) rest;
          data = takeWhile (\<lambda>c. c \<noteq> CHR 0x0A) (drop 8 tail) in
      if starts_with url ''data:'' \<and> mt \<noteq> [] \<and> starts_with tail '';base64,'' \<and> data \<noteq> []
      then Some (mt, data) else None)"

definition ir_image_of_url :: "pyval \<Rightarrow> pyval \<Rightarrow> pdict" where
  "ir_image_of_url url detail =
     (case (case as_str url of Some s \<Rightarrow> match_data_uri s | None \<Rightarrow> None) of
        Some (media_type, data) \<Rightarrow>
          [(''type'', PStr ''image''),
           (''image_data'', PDict [(''data'', PStr data), (''media_type'', PStr media_type)]),
           (''detail'', detail)]
      | None \<Rightarrow> [(''type'', PStr ''image''), (''image_url'', url), (''detail'', detail)])"

definition p_image_to_ir :: "pyval \<Rightarrow> pdict res" where
  "p_image_to_ir provider_image =
     rbind (py_get provider_image ''image_url'' (PDict [])) (\<lambda>image_url_data.
     rbind (py_get image_url_data ''url'' (PStr '''')) (\<lambda>url.
     rbind (py_get image_url_data ''detail'' (PStr ''auto'')) (\<lambda>detail.
       if py_truthy url \<and> \<not> is_str url then Inl AttributeError
       else Inr (ir_image_of_url url detail))))"

section \<open>Files\<close>

definition ir_file_to_p :: "pdict \<Rightarrow> pdict res" where
  "ir_file_to_p ir_file = Inl NotImplementedError"

definition p_file_to_ir :: "pyval \<Rightarrow> pdict res" where
  "p_file_to_ir provider_file = Inl NotImplementedError"

section \<open>Audio\<close>

definition ir_audio_to_p :: "pdict \<Rightarrow> pdict res" where
  "ir_audio_to_p ir_audio =
     (let audio_data = dget ir_audio ''audio_data'' in
      if \<not> py_truthy audio_data then Inl (ValueError ''OpenAI Chat audio requires audio_data'')
      else
        rbind (py_get audio_data ''data'' PNone) (\<lambda>data.
        rbind (py_get audio_data ''media_type'' PNone) (\<lambda>media_type.
          case (as_str data, as_str media_type) of
            (Some d, Some m) \<Rightarrow>
              let f = remove_prefix m ''audio/''; audio_format = (if f = ''mpeg'' then ''mp3'' else f) in
              Inr [(''type'', PStr ''input_audio''),
                   (''input_audio'', PDict [(''data'', PStr d), (''format'', PStr audio_format)])]
          | _ \<Rightarrow> Inl (ValueError ''OpenAI Chat audio must have data and media_type''))))"

text \<open>\<open>str.lower\<close> on the code points of the model.\<close>

definition lower_char :: "char \<Rightarrow> char" where
  "lower_char c =
     (let n = of_char c :: nat in
      if (65 \<le> n \<and> n \<le> 90) \<or> (192 \<le> n \<and> n \<le> 222 \<and> n \<noteq> 215) then char_of (n + 32) else c)"

definition lower :: "string \<Rightarrow> string" where
  "lower s = map lower_char s"

definition p_audio_to_ir :: "pyval \<Rightarrow> pdict res" where
  "p_audio_to_ir provider_audio =
     (case as_dict provider_audio of
        None \<Rightarrow> Inl (ValueError ''Audio content must be an object'')
      | Some p \<Rightarrow>
          (case as_dict (dget p ''input_audio'') of
             None \<Rightarrow> Inl (ValueError ''Audio content must have input_audio'')
           | Some audio_data \<Rightarrow>
               (case (as_str (dget audio_data ''data''), as_str (dget audio_data ''format'')) of
                  (Some data, Some audio_format) \<Rightarrow>
                    let f = lower audio_format;
                        media_type = (if f = ''mp3'' \<or> f = ''mpeg'' then ''audio/mpeg'' else ''audio/'' @ f) in
                    Inr [(''type'', PStr ''audio''),
                         (''audio_data'', PDict [(''data'', PStr data), (''media_type'', PStr media_type)])]
                | _ \<Rightarrow> Inl (ValueError ''Audio content must have data and format''))))"

section \<open>Reasoning, refusals and citations\<close>

definition ir_reasoning_to_p :: "pdict \<Rightarrow> pdict" where
  "ir_reasoning_to_p ir_reasoning =
     [(''reasoning_content'', dget_or ir_reasoning ''reasoning'' (PStr ''''))]"

definition p_reasoning_to_ir :: "pyval \<Rightarrow> pdict" where
  "p_reasoning_to_ir provider_reasoning =
     [(''type'', PStr ''reasoning''),
      (''reasoning'',
        if is_str provider_reasoning then provider_reasoning
        else PStr (if py_truthy provider_reasoning then py_str provider_reasoning else ''''))]"

definition ir_refusal_to_p :: "pdict \<Rightarrow> pdict res" where
  "ir_refusal_to_p ir_refusal =
     rbind (ditem ir_refusal ''refusal'') (\<lambda>r. Inr [(''refusal'', r)])"

definition p_refusal_to_ir :: "pyval \<Rightarrow> pdict" where
  "p_refusal_to_ir provider_refusal =
     [(''type'', PStr ''refusal''),
      (''refusal'', if is_str provider_refusal then provider_refusal else PStr (py_str provider_refusal))]"

text \<open>The four fields of a URL citation, with their defaults.\<close>

definition citation_fields :: "pyval \<Rightarrow> pdict res" where
  "citation_fields c =
     rbind (py_get c ''start_index'' (PInt 0)) (\<lambda>si.
     rbind (py_get c ''end_index'' (PInt 0)) (\<lambda>ei.
     rbind (py_get c ''title'' (PStr '''')) (\<lambda>title.
     rbind (py_get c ''url'' (PStr '''')) (\<lambda>url.
       Inr [(''start_index'', si), (''end_index'', ei), (''title'', title), (''url'', url)]))))"

definition ir_citation_to_p :: "pdict \<Rightarrow> pdict option res" where
  "ir_citation_to_p ir_citation =
     (let url_citation = dget ir_citation ''url_citation'' in
      if py_truthy url_citation then
        rbind (citation_fields url_citation) (\<lambda>fs. Inr (Some ((''type'', PStr ''url_citation'') # fs)))
      else Inr None)"

definition p_citation_to_ir :: "pyval \<Rightarrow> pdict res" where
  "p_citation_to_ir provider_citation =
     rbind (py_get provider_citation ''type'' (PStr '''')) (\<lambda>citation_type.
       if citation_type = PStr ''url_citation'' then
         rbind (citation_fields provider_citation) (\<lambda>fs.
           Inr [(''type'', PStr ''citation''), (''url_citation'', PDict fs)])
       else Inr [(''type'', PStr ''citation'')])"

text \<open>
  A part kept in the OpenAI format counts as an image, and its URL object is sent where the API
  takes the text of the URL.
\<close>

lemma image_url_nested:
  "is_image_part (PDict [(''type'', PStr ''image_url''), (''image_url'', PDict [(''url'', PStr u)])]) \<and>
   ir_image_to_p [(''type'', PStr ''image_url''), (''image_url'', PDict [(''url'', PStr u)])] =
     Inr (image_url_part (PDict [(''url'', PStr u)]) (PStr ''auto''))"
  by (simp add: is_image_part_def ir_image_to_p_def)

section \<open>Round trips\<close>

lemma takeWhile_all: "(\<And>c. c \<in> set xs \<Longrightarrow> P c) \<Longrightarrow> takeWhile P xs = xs"
  by (simp add: takeWhile_eq_all_conv)

lemma takeWhile_stop: "c \<notin> set xs \<Longrightarrow> takeWhile (\<lambda>d. d \<noteq> c) (xs @ c # ys) = xs"
  by (induction xs) auto

text \<open>A data URI that the encoder writes is read back as the image data it was written from.\<close>

lemma data_uri_round_trip:
  assumes "mt \<noteq> []" "CHR '';'' \<notin> set mt" "data \<noteq> []" "CHR 0x0A \<notin> set data"
  shows "match_data_uri (''data:'' @ mt @ '';base64,'' @ data) = Some (mt, data)"
proof -
  have a: "takeWhile (\<lambda>c. c \<noteq> CHR '';'') (mt @ CHR '';'' # ''base64,'' @ data) = mt"
    using assms(2) by (rule takeWhile_stop)
  have b: "takeWhile (\<lambda>c. c \<noteq> CHR 0x0A) data = data"
    using assms(4) by (intro takeWhile_all) blast
  show ?thesis
    unfolding match_data_uri_def Let_def append_Cons append_Nil drop_Suc_Cons
    using assms(1,3) a by (simp add: b)
qed

lemma image_round_trip:
  assumes "mt \<noteq> []" "CHR '';'' \<notin> set mt" "data \<noteq> []" "CHR 0x0A \<notin> set data"
  shows "rbind (ir_image_to_p [(''type'', PStr ''image''),
      (''image_data'', PDict [(''data'', PStr data), (''media_type'', PStr mt)]), (''detail'', detail)])
      (\<lambda>p. p_image_to_ir (PDict p)) =
    Inr [(''type'', PStr ''image''),
      (''image_data'', PDict [(''data'', PStr data), (''media_type'', PStr mt)]), (''detail'', detail)]"
  using data_uri_round_trip [OF assms]
  by (simp add: ir_image_to_p_def p_image_to_ir_def image_url_part_def ir_image_of_url_def Let_def)

lemma citation_round_trip:
  "rbind (p_citation_to_ir (PDict ((''type'', PStr ''url_citation'') # fs))) ir_citation_to_p =
   rbind (citation_fields (PDict fs)) (\<lambda>fs. Inr (Some ((''type'', PStr ''url_citation'') # fs)))"
  by (simp add: p_citation_to_ir_def ir_citation_to_p_def citation_fields_def)

end
