(* ===== verification/ToolContent.thy ===== *)
theory ToolContent
  imports PyValue
begin

text \<open>
  \<open>converters/base/helpers/tool_content.py\<close>: the content blocks inside a tool result between the
  IR and a provider. The class of content operations that the code takes as an argument is a
  \<open>content_ops\<close> record; its conversions to the provider may return \<open>None\<close>.
\<close>

record content_ops =
  op_text_to_p :: "pdict \<Rightarrow> pdict option res"
  op_image_to_p :: "pdict \<Rightarrow> pdict option res"
  op_file_to_p :: "pdict \<Rightarrow> pdict option res"
  op_audio_to_p :: "pdict \<Rightarrow> pdict option res"
  op_text_to_ir :: "pyval \<Rightarrow> pdict res"
  op_image_to_ir :: "pyval \<Rightarrow> pdict res"
  op_file_to_ir :: "pyval \<Rightarrow> pdict res"
  op_audio_to_ir :: "pyval \<Rightarrow> pdict res"

text \<open>\<open>except ValueError, KeyError\<close> and \<open>except NotImplementedError, ValueError, KeyError\<close>.\<close>

fun value_or_key :: "pyexn \<Rightarrow> bool" where
  "value_or_key (ValueError s) = True"
| "value_or_key KeyError = True"
| "value_or_key _ = False"

definition unsupported :: "pyexn \<Rightarrow> bool" where
  "unsupported e = (value_or_key e \<or> e = NotImplementedError)"

section \<open>To the IR\<close>

definition as_value :: "pdict res \<Rightarrow> pyval res" where
  "as_value r = rbind r (\<lambda>d. Inr (PDict d))"

definition p_block_to_ir :: "content_ops \<Rightarrow> pyval \<Rightarrow> pyval res" where
  "p_block_to_ir ops block =
     (if is_str block then as_value (op_text_to_ir ops block)
      else case as_dict block of
        None \<Rightarrow> Inr block
      | Some d \<Rightarrow>
          let block_type = dget_or d ''type'' (PStr '''') in
          rbind (py_in_strs block_type [''text'', ''input_text'', ''output_text'']) (\<lambda>txt.
          rbind (py_in_strs block_type [''image'', ''input_image'', ''image_url'']) (\<lambda>img.
          rbind (py_in_strs block_type [''file'', ''input_file'', ''document'']) (\<lambda>doc.
          rbind (py_in_strs block_type [''audio'', ''input_audio'']) (\<lambda>aud.
            if txt then as_value (op_text_to_ir ops block)
            else if img then as_value (op_image_to_ir ops block)
            else if doc then as_value (op_file_to_ir ops block)
            else if aud then
              (case op_audio_to_ir ops block of
                 Inr r \<Rightarrow> Inr (PDict r)
               | Inl e \<Rightarrow> if unsupported e then Inr block else Inl e)
            else if dhas d ''inlineData'' \<or> dhas d ''inline_data'' then as_value (op_image_to_ir ops block)
            else Inr block)))))"

definition convert_content_blocks_to_ir :: "content_ops \<Rightarrow> pyval list \<Rightarrow> pyval list res" where
  "convert_content_blocks_to_ir ops blocks =
     rbind (rmap (p_block_to_ir ops) blocks) (\<lambda>vs. Inr (filter (\<lambda>v. v \<noteq> PNone) vs))"

section \<open>To the provider\<close>

definition or_skip :: "pdict option res \<Rightarrow> pyval res" where
  "or_skip r = rbind r (\<lambda>x. Inr (case x of Some d \<Rightarrow> PDict d | None \<Rightarrow> PNone))"

definition ir_block_to_p :: "content_ops \<Rightarrow> pyval \<Rightarrow> pyval res" where
  "ir_block_to_p ops block =
     (if is_str block then
        rbind (op_text_to_p ops [(''type'', PStr ''text''), (''text'', block)]) (\<lambda>x.
          case x of Some d \<Rightarrow> Inr (PDict d) | None \<Rightarrow> Inl TypeError)
      else case as_dict block of
        None \<Rightarrow> Inr block
      | Some d \<Rightarrow>
          let block_type = dget_or d ''type'' (PStr '''') in
          rbind (py_hash block_type) (\<lambda>_.
            if block_type = PStr ''text'' then or_skip (op_text_to_p ops d)
            else if block_type = PStr ''image'' then
              (case or_skip (op_image_to_p ops d) of
                 Inr v \<Rightarrow> Inr v | Inl e \<Rightarrow> if value_or_key e then Inr PNone else Inl e)
            else if block_type = PStr ''file'' then
              (case or_skip (op_file_to_p ops d) of
                 Inr v \<Rightarrow> Inr v | Inl e \<Rightarrow> if value_or_key e then Inr PNone else Inl e)
            else if block_type = PStr ''audio'' then
              (case or_skip (op_audio_to_p ops d) of
                 Inr v \<Rightarrow> Inr v | Inl e \<Rightarrow> if unsupported e then Inr block else Inl e)
            else Inr block))"

definition convert_ir_content_blocks_to_p :: "content_ops \<Rightarrow> pyval list \<Rightarrow> pyval list res" where
  "convert_ir_content_blocks_to_p ops blocks =
     rbind (rmap (ir_block_to_p ops) blocks) (\<lambda>vs. Inr (filter (\<lambda>v. v \<noteq> PNone) vs))"

end
