(* ===== verification/AnthropicContentOps.thy ===== *)
theory AnthropicContentOps
  imports ChatContentOps ToolContent
begin

text \<open>
  \<open>converters/anthropic/content_ops.py\<close>: texts, images, files, reasoning, refusals and citations
  between the IR and the Anthropic format. A warning has no effect on a result and is left out.
\<close>

section \<open>Metadata for a round trip\<close>

text \<open>\<open>pm = d.get(src); if pm: r[dst] = pm\<close>.\<close>

definition keep_metadata :: "string \<Rightarrow> pyval \<Rightarrow> pdict \<Rightarrow> pdict" where
  "keep_metadata dst pm r = (if py_truthy pm then dset r dst pm else r)"

section \<open>Texts\<close>

definition anthropic_text_to_p :: "pdict \<Rightarrow> pdict res" where
  "anthropic_text_to_p ir_text =
     rbind (ditem ir_text ''text'') (\<lambda>t.
       Inr (keep_metadata ''_provider_metadata'' (dget ir_text ''provider_metadata'') (text_part t)))"

definition anthropic_text_to_ir :: "pyval \<Rightarrow> pdict res" where
  "anthropic_text_to_ir provider_text =
     (if is_str provider_text then Inr (text_part provider_text)
      else case as_dict provider_text of
        Some d \<Rightarrow>
          if dget d ''type'' = PStr ''text'' then
            rbind (ditem d ''text'') (\<lambda>t.
              Inr (keep_metadata ''provider_metadata'' (dget d ''_provider_metadata'') (text_part t)))
          else Inl (ValueError (''Cannot convert to TextPart: '' @ py_repr provider_text))
      | None \<Rightarrow> Inl (ValueError (''Cannot convert to TextPart: '' @ py_repr provider_text)))"

section \<open>Images and files\<close>

definition base64_block :: "string \<Rightarrow> pyval \<Rightarrow> pdict res" where
  "base64_block kind v =
     rbind (py_item v ''media_type'') (\<lambda>mt.
     rbind (py_item v ''data'') (\<lambda>data.
       Inr [(''type'', PStr kind),
            (''source'', PDict [(''type'', PStr ''base64''), (''media_type'', mt), (''data'', data)])]))"

definition url_block :: "string \<Rightarrow> pyval \<Rightarrow> pdict" where
  "url_block kind url =
     [(''type'', PStr kind), (''source'', PDict [(''type'', PStr ''url''), (''url'', url)])]"

definition anthropic_image_to_p :: "pdict \<Rightarrow> pdict res" where
  "anthropic_image_to_p ir_image =
     (let image_data = dget ir_image ''image_data''; image_url = dget ir_image ''image_url'' in
      if py_truthy image_data then base64_block ''image'' image_data
      else if py_truthy image_url then Inr (url_block ''image'' image_url)
      else Inl (ValueError ''ImagePart must have either image_url or image_data''))"

definition anthropic_image_to_ir :: "pyval \<Rightarrow> pdict res" where
  "anthropic_image_to_ir provider_image =
     rbind (py_get provider_image ''source'' (PDict [])) (\<lambda>source.
     rbind (py_get source ''type'' PNone) (\<lambda>source_type.
       if source_type = PStr ''base64'' then
         rbind (py_get source ''data'' (PStr '''')) (\<lambda>data.
         rbind (py_get source ''media_type'' (PStr '''')) (\<lambda>mt.
           Inr [(''type'', PStr ''image''), (''image_data'', PDict [(''data'', data), (''media_type'', mt)])]))
       else if source_type = PStr ''url'' then
         rbind (py_get source ''url'' (PStr '''')) (\<lambda>url.
           Inr [(''type'', PStr ''image''), (''image_url'', url)])
       else Inr [(''type'', PStr ''image'')]))"

definition anthropic_file_to_p :: "pdict \<Rightarrow> pdict res" where
  "anthropic_file_to_p ir_file =
     (let file_data = dget ir_file ''file_data''; file_url = dget ir_file ''file_url'' in
      if py_truthy file_data then base64_block ''document'' file_data
      else if py_truthy file_url then Inr (url_block ''document'' file_url)
      else Inl (ValueError ''FilePart must have either file_data or file_url''))"

definition anthropic_file_to_ir :: "pyval \<Rightarrow> pdict res" where
  "anthropic_file_to_ir provider_file =
     rbind (py_get provider_file ''source'' (PDict [])) (\<lambda>source.
     rbind (py_get source ''type'' PNone) (\<lambda>source_type.
       if source_type = PStr ''base64'' then
         rbind (py_item source ''data'') (\<lambda>data.
         rbind (py_item source ''media_type'') (\<lambda>mt.
           Inr [(''type'', PStr ''file''), (''file_data'', PDict [(''data'', data), (''media_type'', mt)])]))
       else if source_type = PStr ''url'' then
         rbind (py_item source ''url'') (\<lambda>url. Inr [(''type'', PStr ''file''), (''file_url'', url)])
       else Inr [(''type'', PStr ''file'')]))"

section \<open>Audio\<close>

definition anthropic_audio_to_p :: "pdict \<Rightarrow> pdict res" where
  "anthropic_audio_to_p ir_audio = Inl NotImplementedError"

definition anthropic_audio_to_ir :: "pyval \<Rightarrow> pdict res" where
  "anthropic_audio_to_ir provider_audio = Inl NotImplementedError"

section \<open>Reasoning\<close>

text \<open>\<open>if signature is not None: r["signature"] = signature\<close>.\<close>

definition keep_signature :: "pyval \<Rightarrow> pdict \<Rightarrow> pdict" where
  "keep_signature signature r = (if signature \<noteq> PNone then dset r ''signature'' signature else r)"

definition anthropic_reasoning_part_to_p :: "pdict \<Rightarrow> pdict" where
  "anthropic_reasoning_part_to_p ir_reasoning =
     keep_metadata ''_provider_metadata'' (dget ir_reasoning ''provider_metadata'')
       (keep_signature (dget ir_reasoning ''signature'')
         [(''type'', PStr ''thinking''), (''thinking'', dget_or ir_reasoning ''reasoning'' (PStr ''''))])"

definition anthropic_reasoning_part_to_ir :: "pyval \<Rightarrow> pdict res" where
  "anthropic_reasoning_part_to_ir provider_reasoning =
     rbind (py_get provider_reasoning ''thinking'' (PStr '''')) (\<lambda>thinking.
     rbind (py_get provider_reasoning ''signature'' PNone) (\<lambda>signature.
     rbind (py_get provider_reasoning ''_provider_metadata'' PNone) (\<lambda>pm.
       Inr (keep_metadata ''provider_metadata'' pm
             (keep_signature signature [(''type'', PStr ''reasoning''), (''reasoning'', thinking)])))))"

section \<open>Refusals and citations\<close>

definition anthropic_refusal_to_p :: "pdict \<Rightarrow> pdict res" where
  "anthropic_refusal_to_p ir_refusal =
     rbind (ditem ir_refusal ''refusal'') (\<lambda>r. Inr (text_part (PStr (''[Refusal] '' @ py_str r))))"

definition anthropic_refusal_to_ir :: "pyval \<Rightarrow> pdict" where
  "anthropic_refusal_to_ir provider_refusal =
     [(''type'', PStr ''refusal''),
      (''refusal'', if is_str provider_refusal then provider_refusal else PStr (py_str provider_refusal))]"

definition anthropic_citation_to_p :: "pdict \<Rightarrow> pdict option" where
  "anthropic_citation_to_p ir_citation = None"

definition anthropic_citation_to_ir :: "pyval \<Rightarrow> pdict res" where
  "anthropic_citation_to_ir provider_citation =
     rbind (py_get provider_citation ''type'' (PStr '''')) (\<lambda>citation_type.
       if citation_type = PStr ''char_location'' then
         rbind (py_get provider_citation ''cited_text'' (PStr '''')) (\<lambda>t.
           Inr [(''type'', PStr ''citation''), (''text_citation'', PDict [(''cited_text'', t)])])
       else if citation_type = PStr ''url_citation'' then
         rbind (citation_fields provider_citation) (\<lambda>fs.
           Inr [(''type'', PStr ''citation''), (''url_citation'', PDict fs)])
       else Inr [(''type'', PStr ''citation'')])"

section \<open>The operations as a class\<close>

definition returned :: "pdict res \<Rightarrow> pdict option res" where
  "returned r = rbind r (\<lambda>d. Inr (Some d))"

definition anthropic_content_ops :: content_ops where
  "anthropic_content_ops =
     \<lparr>op_text_to_p = (\<lambda>d. returned (anthropic_text_to_p d)),
      op_image_to_p = (\<lambda>d. returned (anthropic_image_to_p d)),
      op_file_to_p = (\<lambda>d. returned (anthropic_file_to_p d)),
      op_audio_to_p = (\<lambda>d. returned (anthropic_audio_to_p d)),
      op_text_to_ir = anthropic_text_to_ir,
      op_image_to_ir = anthropic_image_to_ir,
      op_file_to_ir = anthropic_file_to_ir,
      op_audio_to_ir = anthropic_audio_to_ir\<rparr>"

end
