(* ===== verification/JsonText.thy ===== *)
theory JsonText
  imports PyValue "HOL-Library.List_Lexorder" "HOL-Library.Char_ord"
begin

text \<open>
  \<open>json.dumps\<close> of the standard library on the values of \<open>PyValue\<close>, with the options the gateway
  passes: \<open>ensure_ascii\<close>, \<open>sort_keys\<close> and \<open>separators\<close>; and the length of a text in UTF-8.
  A float prints as its \<open>repr\<close>, except that the three non-finite ones have their own names.
\<close>

definition hex4 :: "char \<Rightarrow> string" where
  "hex4 c = ''00'' @ hex2 c"

definition json_char :: "bool \<Rightarrow> char \<Rightarrow> string" where
  "json_char ensure_ascii c =
     (let n = of_char c :: nat in
      if n = 34 \<or> n = 92 then [CHR 0x5C, c]
      else if n = 10 then [CHR 0x5C, CHR ''n'']
      else if n = 13 then [CHR 0x5C, CHR ''r'']
      else if n = 9 then [CHR 0x5C, CHR ''t'']
      else if n = 12 then [CHR 0x5C, CHR ''f'']
      else if n = 8 then [CHR 0x5C, CHR ''b'']
      else if n < 32 \<or> (ensure_ascii \<and> 126 < n) then [CHR 0x5C, CHR ''u''] @ hex4 c
      else [c])"

definition json_str :: "bool \<Rightarrow> string \<Rightarrow> string" where
  "json_str ensure_ascii s = [CHR 0x22] @ concat (map (json_char ensure_ascii) s) @ [CHR 0x22]"

definition json_float :: "string \<Rightarrow> string" where
  "json_float s =
     (if s = ''nan'' then ''NaN'' else if s = ''inf'' then ''Infinity''
      else if s = ''-inf'' then ''-Infinity'' else s)"

record json_opts =
  ensure_ascii :: bool
  sort_keys :: bool
  item_sep :: string
  key_sep :: string

definition default_opts :: json_opts where
  "default_opts = \<lparr>ensure_ascii = True, sort_keys = False, item_sep = '', '', key_sep = '': ''\<rparr>"

definition ordered_items :: "json_opts \<Rightarrow> pdict \<Rightarrow> pdict" where
  "ordered_items opts d = (if sort_keys opts then sort_key fst d else d)"

lemma set_ordered_items [simp]: "set (ordered_items opts d) = set d"
  by (simp add: ordered_items_def)

fun json_dumps :: "json_opts \<Rightarrow> pyval \<Rightarrow> string" where
  "json_dumps opts PNone = ''null''"
| "json_dumps opts (PBool b) = (if b then ''true'' else ''false'')"
| "json_dumps opts (PInt i) = int_str i"
| "json_dumps opts (PFloat s) = json_float s"
| "json_dumps opts (PStr s) = json_str (ensure_ascii opts) s"
| "json_dumps opts (PList xs) =
     ''['' @ join_with (item_sep opts) (map (json_dumps opts) xs) @ '']''"
| "json_dumps opts (PDict d) =
     ''{'' @ join_with (item_sep opts)
       (map (\<lambda>kv. json_str (ensure_ascii opts) (fst kv) @ key_sep opts @ json_dumps opts (snd kv))
          (ordered_items opts d)) @ ''}''"

text \<open>Code points below 128 take one byte in UTF-8, the others of the model two.\<close>

definition utf8_len :: "string \<Rightarrow> nat" where
  "utf8_len s = sum_list (map (\<lambda>c. if (of_char c :: nat) < 128 then 1 else 2) s)"

end
