(* ===== verification/MemoTable.thy ===== *)
theory MemoTable
  imports Prelude
begin

text \<open>
  The contract between a cache and the code that memoises a function in it, as the schema
  sanitizer and the tool converters do: a lookup returns only a value that is stored under the
  key, and an entry is in the table only because it was stored. Under it a memoised call returns
  what the function returns, provided that keys never identify arguments the function tells apart.
\<close>

text \<open>The calling pattern of the code: look up, compute on a miss, store.\<close>

definition memo_call ::
  "('k \<Rightarrow> 's \<Rightarrow> 'v option \<times> 's) \<Rightarrow> ('k \<Rightarrow> 'v \<Rightarrow> 's \<Rightarrow> 's res) \<Rightarrow> ('x \<Rightarrow> 'v res) \<Rightarrow> ('x \<Rightarrow> 'k)
   \<Rightarrow> 'x \<Rightarrow> 's \<Rightarrow> ('v \<times> 's) res" where
  "memo_call lookup store f key x s =
     (case lookup (key x) s of
        (Some v, s') \<Rightarrow> Inr (v, s')
      | (None, s') \<Rightarrow> rbind (f x) (\<lambda>v. rbind (store (key x) v s') (\<lambda>s''. Inr (v, s''))))"

locale memo_table =
  fixes inv :: "'s \<Rightarrow> bool"
    and holds :: "'s \<Rightarrow> 'k \<Rightarrow> 'v \<Rightarrow> bool"
    and lookup :: "'e \<Rightarrow> 'k \<Rightarrow> 's \<Rightarrow> 'v option \<times> 's"
    and store :: "'e \<Rightarrow> 'k \<Rightarrow> 'v \<Rightarrow> 's \<Rightarrow> 's res"
  assumes lookup_hit: "inv s \<Longrightarrow> lookup e k s = (Some v, s') \<Longrightarrow> holds s k v"
    and lookup_keeps: "inv s \<Longrightarrow> lookup e k s = (r, s') \<Longrightarrow> inv s' \<and> (holds s' k' w \<longrightarrow> holds s k' w)"
    and store_adds: "inv s \<Longrightarrow> store e k v s = Inr s' \<Longrightarrow>
      inv s' \<and> (holds s' k' w \<longrightarrow> k' = k \<and> w = v \<or> holds s k' w)"
    and store_works: "inv s \<Longrightarrow> \<exists>s'. store e k v s = Inr s'"
begin

lemma memo_call_correct:
  assumes "inv s" and "\<And>x v. x \<in> X \<Longrightarrow> holds s (key x) v \<Longrightarrow> f x = Inr v"
    and "inj_on key X" and "x \<in> X"
  shows "case f x of
      Inl err \<Rightarrow> memo_call (lookup e) (store e') f key x s = Inl err
    | Inr v \<Rightarrow> \<exists>s'. memo_call (lookup e) (store e') f key x s = Inr (v, s') \<and> inv s'
        \<and> (\<forall>y w. y \<in> X \<longrightarrow> holds s' (key y) w \<longrightarrow> f y = Inr w)"
proof -
  obtain r s1 where l: "lookup e (key x) s = (r, s1)" by (cases "lookup e (key x) s")
  have s1: "inv s1" "\<And>y w. y \<in> X \<Longrightarrow> holds s1 (key y) w \<Longrightarrow> f y = Inr w"
    using lookup_keeps [OF assms(1) l] assms(2) by blast+
  show ?thesis
  proof (cases r)
    case (Some v)
    then have "f x = Inr v" using lookup_hit [OF assms(1)] l assms(2,4) by blast
    with Some l s1 show ?thesis by (simp add: memo_call_def)
  next
    case None
    show ?thesis
    proof (cases "f x")
      case (Inr v)
      obtain s2 where s2: "store e' (key x) v s1 = Inr s2" using store_works [OF s1(1)] by blast
      have "f y = Inr w" if "y \<in> X" "holds s2 (key y) w" for y w
        using store_adds [OF s1(1) s2] that s1(2) assms(3,4) Inr by (metis inj_onD)
      with None l Inr s2 store_adds [OF s1(1) s2] show ?thesis by (auto simp: memo_call_def)
    qed (use None l in \<open>simp add: memo_call_def\<close>)
  qed
qed

end

end
