(* ===== verification/LruCache.thy ===== *)
theory LruCache
  imports JsonText MemoTable
begin

text \<open>
  \<open>converters/base/helpers/cache.py\<close>: the LRU cache with a time to live per entry, its keys, and
  the three module-level caches.

  \<^item> The ordered dict is an association list, least recently used first; a miss is \<open>None\<close>.
  \<^item> \<open>hash\<close> of bytes is the parameter \<open>h\<close> on the text that is encoded; UTF-8 is injective, so a
    collision of texts is a collision of \<open>h\<close>.
  \<^item> Instants are a linear order, the float sum is the parameter \<open>fadd\<close>. A call of
    \<open>time.monotonic\<close> is an argument, two where the code reads the clock twice.
  \<^item> \<open>mutate\<close> stands for a caller that changes a cached object through its reference, which
    breaks the mutation contract of the class and is what the fingerprints detect.
\<close>

section \<open>Keys\<close>

definition canonical_json :: "pyval \<Rightarrow> string" where
  "canonical_json obj =
     json_dumps \<lparr>ensure_ascii = True, sort_keys = True, item_sep = '','', key_sep = '':''\<rparr> obj"

definition nul :: string where "nul = [CHR 0x00]"

definition entry_cache_key :: "(string \<Rightarrow> int) \<Rightarrow> string \<Rightarrow> pyval \<Rightarrow> int" where
  "entry_cache_key h tag entry = h (tag @ nul @ canonical_json entry)"

text \<open>The optional set of extra keys is \<open>[]\<close> when it is absent or empty.\<close>

definition schema_cache_key :: "(string \<Rightarrow> int) \<Rightarrow> pyval \<Rightarrow> string list \<Rightarrow> int" where
  "schema_cache_key h schema extra_strip_keys =
     (let blob = canonical_json schema in
      h (if extra_strip_keys \<noteq> [] then blob @ nul @ join_with '','' (sort extra_strip_keys) else blob))"

section \<open>The cache\<close>

record 't lru =
  cache :: "(int \<times> (pyval \<times> 't)) list"
  fingerprints :: "(int \<times> int) list"
  maxsize :: int
  ttl :: "'t option"
  verify :: bool
  hits :: nat
  misses :: nat
  expirations :: nat
  corruptions :: nat

definition lru_init :: "int \<Rightarrow> 't option \<Rightarrow> bool \<Rightarrow> 't lru" where
  "lru_init max_entries time_to_live ver =
     \<lparr>cache = [], fingerprints = [], maxsize = max_entries, ttl = time_to_live, verify = ver,
      hits = 0, misses = 0, expirations = 0, corruptions = 0\<rparr>"

definition expired :: "'t::linorder \<Rightarrow> 't \<Rightarrow> 't lru \<Rightarrow> bool" where
  "expired now deadline c \<longleftrightarrow> ttl c \<noteq> None \<and> now \<ge> deadline"

definition corrupted :: "(string \<Rightarrow> int) \<Rightarrow> int \<Rightarrow> pyval \<Rightarrow> 't lru \<Rightarrow> bool" where
  "corrupted h key v c \<longleftrightarrow> Some (h (canonical_json v)) \<noteq> map_of (fingerprints c) key"

definition forget :: "int \<Rightarrow> 't lru \<Rightarrow> 't lru" where
  "forget key c = c\<lparr>cache := ddel (cache c) key, fingerprints := ddel (fingerprints c) key\<rparr>"

definition lru_get ::
  "(string \<Rightarrow> int) \<Rightarrow> ('t::linorder \<Rightarrow> 't \<Rightarrow> 't) \<Rightarrow> 't \<Rightarrow> 't \<Rightarrow> int \<Rightarrow> 't lru \<Rightarrow> pyval option \<times> 't lru" where
  "lru_get h fadd now now2 key c =
     (case map_of (cache c) key of
        None \<Rightarrow> (None, c\<lparr>misses := misses c + 1\<rparr>)
      | Some (v, deadline) \<Rightarrow>
          if expired now deadline c then
            (None, (forget key c)\<lparr>expirations := expirations c + 1, misses := misses c + 1\<rparr>)
          else if verify c \<and> corrupted h key v c then
            (None, (forget key c)\<lparr>corruptions := corruptions c + 1, misses := misses c + 1\<rparr>)
          else
            let deadline' = (case ttl c of None \<Rightarrow> deadline | Some t \<Rightarrow> fadd now2 t) in
            (Some v, c\<lparr>cache := ddel (cache c) key @ [(key, (v, deadline'))], hits := hits c + 1\<rparr>))"

text \<open>Popping from an empty dict raises \<open>KeyError\<close>: a cache of size 0 takes no entry. \<open>zero\<close> is the
  deadline 0.0 of a cache without expiry.\<close>

definition lru_put ::
  "(string \<Rightarrow> int) \<Rightarrow> ('t \<Rightarrow> 't \<Rightarrow> 't) \<Rightarrow> 't \<Rightarrow> 't \<Rightarrow> int \<Rightarrow> pyval \<Rightarrow> 't lru \<Rightarrow> 't lru res" where
  "lru_put h fadd zero now key v c =
     (let deadline = (case ttl c of None \<Rightarrow> zero | Some t \<Rightarrow> fadd now t) in
      if dhas (cache c) key then
        Inr (c\<lparr>cache := ddel (cache c) key @ [(key, (v, deadline))],
               fingerprints := dset (fingerprints c) key (h (canonical_json v))\<rparr>)
      else
        rbind (if int (length (cache c)) \<ge> maxsize c then
                 (case cache c of
                    [] \<Rightarrow> Inl KeyError
                  | (evicted_key, _) # rest \<Rightarrow>
                      Inr (c\<lparr>cache := rest, fingerprints := ddel (fingerprints c) evicted_key\<rparr>))
               else Inr c)
          (\<lambda>c'. Inr (c'\<lparr>cache := cache c' @ [(key, (v, deadline))],
                        fingerprints := dset (fingerprints c') key (h (canonical_json v))\<rparr>)))"

definition lru_clear :: "'t lru \<Rightarrow> 't lru" where
  "lru_clear c = c\<lparr>cache := [], fingerprints := [], hits := 0, misses := 0, expirations := 0, corruptions := 0\<rparr>"

definition check_integrity :: "(string \<Rightarrow> int) \<Rightarrow> 't lru \<Rightarrow> int list" where
  "check_integrity h c =
     map fst (filter (\<lambda>(key, (v, deadline)). corrupted h key v c) (cache c))"

definition mutate :: "int \<Rightarrow> pyval \<Rightarrow> 't lru \<Rightarrow> 't lru" where
  "mutate key v c =
     c\<lparr>cache := map (\<lambda>(k, (w, dl)). (k, (if k = key then v else w, dl))) (cache c)\<rparr>"

record 't cache_info =
  i_hits :: nat
  i_misses :: nat
  i_expirations :: nat
  i_corruptions :: nat
  i_currsize :: nat
  i_maxsize :: int
  i_ttl :: "'t option"
  i_verify :: bool

definition lru_info :: "'t lru \<Rightarrow> 't cache_info" where
  "lru_info c =
     \<lparr>i_hits = hits c, i_misses = misses c, i_expirations = expirations c,
      i_corruptions = corruptions c, i_currsize = length (cache c), i_maxsize = maxsize c,
      i_ttl = ttl c, i_verify = verify c\<rparr>"

section \<open>The module-level caches\<close>

record 't caches =
  tool_entry_cache :: "'t lru"
  sanitize_cache :: "'t lru"
  ir_validation_cache :: "'t lru"

definition module_caches :: "'t \<Rightarrow> 't caches" where
  "module_caches default_ttl =
     \<lparr>tool_entry_cache = lru_init 512 (Some default_ttl) False,
      sanitize_cache = lru_init 512 (Some default_ttl) False,
      ir_validation_cache = lru_init 8192 (Some default_ttl) False\<rparr>"

definition clear_all_caches :: "'t caches \<Rightarrow> 't caches" where
  "clear_all_caches cs =
     \<lparr>tool_entry_cache = lru_clear (tool_entry_cache cs), sanitize_cache = lru_clear (sanitize_cache cs),
      ir_validation_cache = lru_clear (ir_validation_cache cs)\<rparr>"

definition cache_info :: "'t caches \<Rightarrow> (string \<times> 't cache_info) list" where
  "cache_info cs =
     [(''tool_entry'', lru_info (tool_entry_cache cs)), (''sanitize'', lru_info (sanitize_cache cs)),
      (''ir_validation'', lru_info (ir_validation_cache cs))]"

definition get_cached_tool ::
  "(string \<Rightarrow> int) \<Rightarrow> ('t::linorder \<Rightarrow> 't \<Rightarrow> 't) \<Rightarrow> 't \<Rightarrow> 't \<Rightarrow> string \<Rightarrow> pyval \<Rightarrow> 't caches
   \<Rightarrow> pyval option \<times> 't caches" where
  "get_cached_tool h fadd now now2 tag tool cs =
     (let (r, c) = lru_get h fadd now now2 (entry_cache_key h tag tool) (tool_entry_cache cs) in
      (r, cs\<lparr>tool_entry_cache := c\<rparr>))"

definition put_cached_tool ::
  "(string \<Rightarrow> int) \<Rightarrow> ('t \<Rightarrow> 't \<Rightarrow> 't) \<Rightarrow> 't \<Rightarrow> 't \<Rightarrow> string \<Rightarrow> pyval \<Rightarrow> pyval \<Rightarrow> 't caches \<Rightarrow> 't caches res" where
  "put_cached_tool h fadd zero now tag tool result cs =
     rbind (lru_put h fadd zero now (entry_cache_key h tag tool) result (tool_entry_cache cs))
       (\<lambda>c. Inr (cs\<lparr>tool_entry_cache := c\<rparr>))"

definition ir_validation_key :: "(string \<Rightarrow> int) \<Rightarrow> string \<Rightarrow> pyval \<Rightarrow> int" where
  "ir_validation_key h tag entry = h (tag @ nul @ canonical_json entry)"

definition is_ir_validated ::
  "(string \<Rightarrow> int) \<Rightarrow> ('t::linorder \<Rightarrow> 't \<Rightarrow> 't) \<Rightarrow> 't \<Rightarrow> 't \<Rightarrow> string \<Rightarrow> pyval \<Rightarrow> 't caches \<Rightarrow> bool \<times> 't caches" where
  "is_ir_validated h fadd now now2 tag entry cs =
     (let (r, c) = lru_get h fadd now now2 (ir_validation_key h tag entry) (ir_validation_cache cs) in
      (r \<noteq> None, cs\<lparr>ir_validation_cache := c\<rparr>))"

definition mark_ir_validated ::
  "(string \<Rightarrow> int) \<Rightarrow> ('t \<Rightarrow> 't \<Rightarrow> 't) \<Rightarrow> 't \<Rightarrow> 't \<Rightarrow> string \<Rightarrow> pyval \<Rightarrow> 't caches \<Rightarrow> 't caches res" where
  "mark_ir_validated h fadd zero now tag entry cs =
     rbind (lru_put h fadd zero now (ir_validation_key h tag entry) (PBool True) (ir_validation_cache cs))
       (\<lambda>c. Inr (cs\<lparr>ir_validation_cache := c\<rparr>))"

section \<open>Invariant\<close>

definition lru_inv :: "'t lru \<Rightarrow> bool" where
  "lru_inv c \<longleftrightarrow>
     distinct (dkeys (cache c)) \<and> int (length (cache c)) \<le> max 0 (maxsize c) \<and>
     (\<forall>k. dhas (fingerprints c) k \<longleftrightarrow> dhas (cache c) k)"

lemma lru_inv_init [simp]: "lru_inv (lru_init n t v)"
  by (simp add: lru_inv_def lru_init_def)

lemma dhas_append [simp]: "dhas (d @ e) k \<longleftrightarrow> dhas d k \<or> dhas e k"
  by (auto simp: dhas_def)

lemma distinct_move:
  "distinct (dkeys d) \<Longrightarrow> distinct (dkeys (ddel d k @ [(k, v)]))"
  by (auto simp: set_ddel)

lemma length_move:
  "distinct (dkeys d) \<Longrightarrow> dhas d k \<Longrightarrow> length (ddel d k @ [(k, v)]) = length d"
  using length_ddel [of d k] by (cases d) (auto simp: dhas_def)

lemma lru_inv_get:
  assumes "lru_inv c" shows "lru_inv (snd (lru_get h fadd now now2 key c))"
proof (cases "map_of (cache c) key")
  case None
  with assms show ?thesis by (simp add: lru_get_def lru_inv_def)
next
  case (Some p)
  then have "dhas (cache c) key" by (simp add: dhas_map_of)
  with Some assms length_ddel_le [of "cache c" key] length_move [of "cache c" key]
    distinct_move [of "cache c" key]
  show ?thesis
    by (cases p) (auto simp: lru_get_def lru_inv_def forget_def Let_def simp del: map_append length_append)
qed


text \<open>The state after \<open>lru_put\<close> of a new key has made room.\<close>

definition lru_room :: "'t lru \<Rightarrow> 't lru" where
  "lru_room c =
     (if int (length (cache c)) \<ge> maxsize c
      then c\<lparr>cache := tl (cache c), fingerprints := ddel (fingerprints c) (fst (hd (cache c)))\<rparr> else c)"

lemma lru_put_cases:
  assumes "lru_put h fadd zero now key v c = Inr c'"
  obtains
    (known) dl where "dl = (case ttl c of None \<Rightarrow> zero | Some t \<Rightarrow> fadd now t)" "dhas (cache c) key" "c' = c\<lparr>cache := ddel (cache c) key @ [(key, (v, dl))],
      fingerprints := dset (fingerprints c) key (h (canonical_json v))\<rparr>"
  | (fresh) dl where "dl = (case ttl c of None \<Rightarrow> zero | Some t \<Rightarrow> fadd now t)"
      "\<not> dhas (cache c) key" "int (length (cache c)) \<ge> maxsize c \<Longrightarrow> cache c \<noteq> []"
      "c' = (lru_room c)\<lparr>cache := cache (lru_room c) @ [(key, (v, dl))],
        fingerprints := dset (fingerprints (lru_room c)) key (h (canonical_json v))\<rparr>"
proof (cases "dhas (cache c) key")
  case True
  then show thesis using assms known by (auto simp: lru_put_def Let_def)
next
  case False
  then show thesis
    using assms by (intro fresh [of "case ttl c of None \<Rightarrow> zero | Some t \<Rightarrow> fadd now t"])
      (auto simp: lru_put_def Let_def lru_room_def split: if_splits list.splits)
qed

lemma lru_put_returns: "0 < maxsize c \<Longrightarrow> \<exists>c'. lru_put h fadd zero now key v c = Inr c'"
  by (auto simp: lru_put_def Let_def split: list.split)

lemma dhas_tl: "distinct (dkeys d) \<Longrightarrow> d \<noteq> [] \<Longrightarrow> dhas (tl d) k \<longleftrightarrow> dhas d k \<and> k \<noteq> fst (hd d)"
  by (cases d) (force simp: dhas_def)+

lemma lru_room_inv:
  assumes "lru_inv c" and "0 < maxsize c"
  shows "lru_inv (lru_room c)" and "int (length (cache (lru_room c))) < maxsize c"
    and "set (cache (lru_room c)) \<subseteq> set (cache c)"
proof -
  have ne: "cache c \<noteq> []" if "int (length (cache c)) \<ge> maxsize c" using that assms(2) by auto
  have "distinct (dkeys (tl (cache c)))"
    using assms(1) by (simp add: lru_inv_def map_tl distinct_tl)
  with assms ne show "lru_inv (lru_room c)"
    by (auto simp: lru_room_def lru_inv_def dhas_tl)
  show "int (length (cache (lru_room c))) < maxsize c"
    using assms ne by (auto simp: lru_room_def lru_inv_def)
  show "set (cache (lru_room c)) \<subseteq> set (cache c)"
    by (cases "cache c") (auto simp: lru_room_def)
qed

lemma lru_room_other [simp]:
  "maxsize (lru_room c) = maxsize c" "ttl (lru_room c) = ttl c" "verify (lru_room c) = verify c"
  by (simp_all add: lru_room_def)

lemma lru_inv_put:
  assumes "lru_inv c" and "0 < maxsize c" and "lru_put h fadd zero now key v c = Inr c'"
  shows "lru_inv c' \<and> maxsize c' = maxsize c \<and> ttl c' = ttl c \<and> verify c' = verify c"
  using assms(3)
proof (cases rule: lru_put_cases)
  case (known dl)
  with assms(1) length_move [of "cache c" key] distinct_move [of "cache c" key] show ?thesis
    by (auto simp: lru_inv_def simp del: map_append length_append)
next
  case (fresh dl)
  then have "\<not> dhas (cache (lru_room c)) key"
    using lru_room_inv(3) [OF assms(1,2)] by (auto simp: dhas_def)
  with fresh(4) lru_room_inv(1,2) [OF assms(1,2)] show ?thesis
    by (auto simp: lru_inv_def dhas_def)
qed

lemma lru_get_config [simp]:
  "maxsize (snd (lru_get h fadd n n2 k c)) = maxsize c" "ttl (snd (lru_get h fadd n n2 k c)) = ttl c"
  "verify (snd (lru_get h fadd n n2 k c)) = verify c"
  by (auto simp: lru_get_def forget_def Let_def split: option.split)

section \<open>The cache as a memo table\<close>

definition lru_holds :: "'t lru \<Rightarrow> int \<Rightarrow> pyval \<Rightarrow> bool" where
  "lru_holds c k v \<longleftrightarrow> (\<exists>dl. (k, (v, dl)) \<in> set (cache c))"

definition lru_ok :: "'t lru \<Rightarrow> bool" where
  "lru_ok c \<longleftrightarrow> lru_inv c \<and> 0 < maxsize c"

lemma lru_get_cases:
  assumes "lru_get h fadd n n2 k c = (r, c')"
  obtains
    (absent) "r = None" "cache c' = cache c" "fingerprints c' = fingerprints c" "\<not> dhas (cache c) k"
  | (dropped) v dl where "map_of (cache c) k = Some (v, dl)" "r = None"
      "expired n dl c \<or> verify c \<and> corrupted h k v c"
      "cache c' = ddel (cache c) k" "fingerprints c' = ddel (fingerprints c) k"
  | (hit) v dl where "map_of (cache c) k = Some (v, dl)" "r = Some v" "\<not> expired n dl c"
      "verify c \<longrightarrow> \<not> corrupted h k v c"
      "cache c' = ddel (cache c) k @ [(k, (v, case ttl c of None \<Rightarrow> dl | Some t \<Rightarrow> fadd n2 t))]"
      "fingerprints c' = fingerprints c"
proof (cases "map_of (cache c) k")
  case None
  then show thesis
    using assms by (intro absent) (auto simp: lru_get_def dhas_map_of simp del: map_of_eq_None_iff)
next
  case (Some p)
  obtain v dl where p: "p = (v, dl)" by (cases p)
  show thesis
  proof (cases "expired n dl c \<or> verify c \<and> corrupted h k v c")
    case True
    then show thesis
      using assms Some p by (intro dropped [of v dl]) (auto simp: lru_get_def forget_def split: if_splits)
  next
    case False
    then show thesis
      using assms Some p by (intro hit [of v dl]) (auto simp: lru_get_def Let_def)
  qed
qed

lemma lru_get_holds:
  assumes "lru_get h fadd n n2 k c = (r, c')"
  shows "(r = Some v \<longrightarrow> lru_holds c k v) \<and> (lru_holds c' k' w \<longrightarrow> lru_holds c k' w)"
  using assms
  by (cases rule: lru_get_cases) (auto simp: lru_holds_def set_ddel dest: map_of_SomeD)

lemma lru_put_holds:
  assumes "lru_ok c" and "lru_put h fadd zero n k v c = Inr c'"
  shows "lru_holds c' k' w \<Longrightarrow> k' = k \<and> w = v \<or> lru_holds c k' w"
  using assms(2)
proof (cases rule: lru_put_cases)
  case (known dl)
  then show "lru_holds c' k' w \<Longrightarrow> ?thesis" by (auto simp: lru_holds_def set_ddel)
next
  case (fresh dl)
  then show "lru_holds c' k' w \<Longrightarrow> ?thesis"
    using lru_room_inv(3) [of c] assms(1) by (auto simp: lru_holds_def lru_ok_def)
qed

text \<open>The clock readings of a call are its environment.\<close>

interpretation lru: memo_table lru_ok lru_holds
  "\<lambda>(n, n2). lru_get h fadd n n2" "\<lambda>(n, n2). lru_put h fadd zero n"
  for h :: "string \<Rightarrow> int" and fadd :: "'t::linorder \<Rightarrow> 't \<Rightarrow> 't" and zero :: 't
proof
  fix s s' :: "'t lru" and e :: "'t \<times> 't" and k k' :: int and v w :: pyval and r
  assume s: "lru_ok s"
  show "(case e of (n, n2) \<Rightarrow> lru_get h fadd n n2) k s = (Some v, s') \<Longrightarrow> lru_holds s k v"
    using lru_get_holds by (cases e) fastforce
  show "(case e of (n, n2) \<Rightarrow> lru_get h fadd n n2) k s = (r, s') \<Longrightarrow>
      lru_ok s' \<and> (lru_holds s' k' w \<longrightarrow> lru_holds s k' w)"
    using lru_get_holds [where c = s and c' = s'] lru_inv_get [of s] lru_get_config(1) [where c = s] s
    unfolding lru_ok_def by (cases e) (simp del: lru_get_config, metis snd_conv)
  show "(case e of (n, n2) \<Rightarrow> lru_put h fadd zero n) k v s = Inr s' \<Longrightarrow>
      lru_ok s' \<and> (lru_holds s' k' w \<longrightarrow> k' = k \<and> w = v \<or> lru_holds s k' w)"
  proof -
    assume "(case e of (n, n2) \<Rightarrow> lru_put h fadd zero n) k v s = Inr s'"
    then have p: "lru_put h fadd zero (fst e) k v s = Inr s'" by (simp add: split_beta)
    show ?thesis
      using lru_put_holds [OF s p] lru_inv_put [OF _ _ p] s by (auto simp: lru_ok_def)
  qed
  show "\<exists>s'. (case e of (n, n2) \<Rightarrow> lru_put h fadd zero n) k v s = Inr s'"
    using lru_put_returns s unfolding lru_ok_def by (cases e) fastforce
qed


section \<open>Recency\<close>

text \<open>A cache operation as a step: a lookup or a store, with its clock readings.\<close>

datatype 't lru_call = Get 't 't int | Put 't int pyval

primrec lru_step ::
  "(string \<Rightarrow> int) \<Rightarrow> ('t::linorder \<Rightarrow> 't \<Rightarrow> 't) \<Rightarrow> 't \<Rightarrow> 't lru_call \<Rightarrow> 't lru \<Rightarrow> 't lru res" where
  "lru_step h fadd zero (Get n n2 k) c = Inr (snd (lru_get h fadd n n2 k c))"
| "lru_step h fadd zero (Put n k v) c = lru_put h fadd zero n k v c"

definition lru_run ::
  "(string \<Rightarrow> int) \<Rightarrow> ('t::linorder \<Rightarrow> 't \<Rightarrow> 't) \<Rightarrow> 't \<Rightarrow> 't lru_call list \<Rightarrow> 't lru \<Rightarrow> 't lru res" where
  "lru_run h fadd zero calls c = rfold (\<lambda>c call. lru_step h fadd zero call c) c calls"

primrec call_key :: "'t lru_call \<Rightarrow> int" where
  "call_key (Get n n2 k) = k"
| "call_key (Put n k v) = k"

lemma lru_step_ok:
  assumes "lru_ok c" and "lru_step h fadd zero call c = Inr c'"
  shows "lru_ok c' \<and> maxsize c' = maxsize c \<and> ttl c' = ttl c"
proof (cases call)
  case (Get n n2 k)
  with assms lru_inv_get [of c] show ?thesis by (auto simp: lru_ok_def)
next
  case (Put n k v)
  with assms lru_inv_put [of c] show ?thesis by (auto simp: lru_ok_def)
qed

lemma lru_run_ok:
  "lru_ok c \<Longrightarrow> \<exists>c'. lru_run h fadd zero calls c = Inr c' \<and> lru_ok c' \<and> maxsize c' = maxsize c \<and> ttl c' = ttl c"
proof (induction calls arbitrary: c)
  case (Cons call calls)
  have "\<exists>c'. lru_step h fadd zero call c = Inr c'"
    using Cons.prems lru_put_returns by (cases call) (auto simp: lru_ok_def)
  then obtain c1 where c1: "lru_step h fadd zero call c = Inr c1" by blast
  from Cons.IH [of c1] lru_step_ok [OF Cons.prems c1] c1 show ?case by (auto simp: lru_run_def)
qed (simp add: lru_run_def)

text \<open>The keys used more recently than \<open>k\<close> stand after it.\<close>

definition recent :: "int \<Rightarrow> int set \<Rightarrow> 't lru \<Rightarrow> bool" where
  "recent k K c \<longleftrightarrow> (\<exists>ds e es. cache c = ds @ (k, e) # es \<and> fst ` set es \<subseteq> K)"

lemma recentI: "cache c = ds @ (k, e) # es \<Longrightarrow> fst ` set es \<subseteq> K \<Longrightarrow> recent k K c"
  unfolding recent_def by blast

lemma recentE:
  assumes "recent k K c"
  obtains ds e es where "cache c = ds @ (k, e) # es" "fst ` set es \<subseteq> K"
  using assms unfolding recent_def by blast

lemma recent_mono: "recent k K c \<Longrightarrow> K \<subseteq> L \<Longrightarrow> cache c' = cache c \<Longrightarrow> recent k L c'"
  by (erule recentE) (rule recentI, auto)

lemma ddel_append: "ddel (d @ e) k = ddel d k @ ddel e k"
  by (induction d) auto

lemma recent_del:
  assumes "k' \<noteq> k" and "recent k K c" and "cache c' = ddel (cache c) k'"
  shows "recent k (insert k' K) c'"
  using assms(2)
proof (rule recentE)
  fix ds e es
  assume "cache c = ds @ (k, e) # es" "fst ` set es \<subseteq> K"
  then show ?thesis
    using assms(1,3) by (intro recentI [of c' "ddel ds k'" k e "ddel es k'"]) (auto simp: ddel_append)
qed

lemma recent_snoc:
  assumes "recent k K c" and "k' \<in> K" and "cache c' = cache c @ [(k', e)]"
  shows "recent k K c'"
  using assms(1)
proof (rule recentE)
  fix ds e0 es
  assume "cache c = ds @ (k, e0) # es" "fst ` set es \<subseteq> K"
  then show ?thesis
    using assms(2,3) by (intro recentI [of c' ds k e0 "es @ [(k', e)]"]) auto
qed

lemma recent_get:
  assumes "recent k K c" and "k' \<noteq> k" and "lru_get h fadd n n2 k' c = (r, c')"
  shows "recent k (insert k' K) c'"
  using assms(3)
proof (cases rule: lru_get_cases)
  case absent
  then show ?thesis using recent_mono [OF assms(1)] by blast
next
  case (dropped v dl)
  then show ?thesis using recent_del [OF assms(2,1)] by blast
next
  case (hit v dl)
  have "recent k (insert k' K) (c\<lparr>cache := ddel (cache c) k'\<rparr>)"
    by (rule recent_del [OF assms(2,1)]) simp
  from recent_snoc [OF this, of k' c'] hit show ?thesis by simp
qed

text \<open>Eviction spares \<open>k\<close> while fewer keys than the capacity have been used since.\<close>

lemma recent_room:
  assumes "recent k K c" and "lru_ok c" and "k' \<notin> K \<or> \<not> dhas (cache c) k'" and "k' \<in> K"
    and "finite K" and "int (card K) < maxsize c"
  shows "recent k K (lru_room c)"
proof -
  obtain ds e es where c: "cache c = ds @ (k, e) # es" "fst ` set es \<subseteq> K"
    using assms(1) by (auto simp: recent_def)
  show ?thesis
  proof (cases ds)
    case (Cons d ds')
    then show ?thesis
      using c recentI [of "lru_room c" ds' k e es] recentI [of "lru_room c" ds k e es]
      by (cases "int (length (cache c)) \<ge> maxsize c") (simp_all add: lru_room_def)
  next
    case Nil
    have d: "distinct (dkeys es)" using assms(2) c by (auto simp: lru_ok_def lru_inv_def)
    have "k' \<notin> fst ` set es" using assms(3,4) c by (auto simp: dhas_def)
    then have "fst ` set es \<subseteq> K - {k'}" using c(2) by blast
    then have "card (fst ` set es) \<le> card (K - {k'})" using assms(5) by (intro card_mono) auto
    moreover have "card (fst ` set es) = length es" using d distinct_card [of "dkeys es"] by simp
    moreover have "card (K - {k'}) < card K" using assms(4,5) by (meson card_Diff1_less)
    ultimately have "int (length (cache c)) < maxsize c" using assms(6) c Nil by simp
    then show ?thesis using assms(1) by (simp add: lru_room_def)
  qed
qed

lemma recent_put:
  assumes "recent k K c" and "k' \<noteq> k" and "lru_put h fadd zero n k' v c = Inr c'"
    and "lru_ok c" and "finite K" and "int (card (insert k' K)) < maxsize c"
  shows "recent k (insert k' K) c'"
  using assms(3)
proof (cases rule: lru_put_cases)
  case (known dl)
  have "recent k (insert k' K) (c\<lparr>cache := ddel (cache c) k'\<rparr>)"
    by (rule recent_del [OF assms(2,1)]) simp
  from recent_snoc [OF this, of k' c'] known show ?thesis by simp
next
  case (fresh dl)
  have "recent k (insert k' K) c" using recent_mono [OF assms(1)] by blast
  then have "recent k (insert k' K) (lru_room c)"
    by (rule recent_room [where k' = k']) (use assms fresh in auto)
  from recent_snoc [OF this, of k' c'] fresh(4) show ?thesis by simp
qed

lemma recent_run:
  assumes "recent k K c" and "lru_ok c" and "finite K"
    and "\<And>call. call \<in> set calls \<Longrightarrow> call_key call \<noteq> k"
    and "int (card (K \<union> call_key ` set calls)) < maxsize c"
    and "lru_run h fadd zero calls c = Inr c'"
  shows "recent k (K \<union> call_key ` set calls) c'"
  using assms
proof (induction calls arbitrary: c K)
  case (Cons call calls)
  obtain c1 where c1: "lru_step h fadd zero call c = Inr c1" "lru_run h fadd zero calls c1 = Inr c'"
    using Cons.prems(6) by (auto simp: lru_run_def elim!: rbind_InrE)
  let ?k = "call_key call"
  have ne: "?k \<noteq> k" using Cons.prems(4) by simp
  have "card (insert ?k K) \<le> card (K \<union> call_key ` set (call # calls))"
    using Cons.prems(3) by (intro card_mono) auto
  then have small: "int (card (insert ?k K)) < maxsize c" using Cons.prems(5) by simp
  have "recent k (insert ?k K) c1"
  proof (cases call)
    case (Get n n2 k')
    then show ?thesis
      using recent_get [OF Cons.prems(1), of k'] ne c1(1) by (metis call_key.simps(1) lru_step.simps(1)
          prod.collapse sum.inject(2))
  next
    case (Put n k' v)
    then show ?thesis using recent_put [OF Cons.prems(1), of k'] ne c1(1) Cons.prems(2,3) small by auto
  qed
  from Cons.IH [OF this _ _ _ _ c1(2)] show ?case
    using Cons.prems lru_step_ok [OF Cons.prems(2) c1(1)] by auto
qed (simp add: lru_run_def)


section \<open>Integrity\<close>

definition intact :: "(string \<Rightarrow> int) \<Rightarrow> 't lru \<Rightarrow> bool" where
  "intact h c \<longleftrightarrow> (\<forall>(k, (v, dl)) \<in> set (cache c). map_of (fingerprints c) k = Some (h (canonical_json v)))"

lemma intact_get:
  assumes "lru_inv c" and "intact h c" and "lru_get h fadd n n2 k c = (r, c')"
  shows "intact h c'"
  using assms(3)
proof (cases rule: lru_get_cases)
  case (hit v dl)
  then show ?thesis using assms(2) map_of_SomeD [OF hit(1)] by (auto simp: intact_def set_ddel)
qed (use assms(2) in \<open>auto simp: intact_def set_ddel\<close>)

lemma intact_put:
  assumes "lru_ok c" and "intact h c" and "lru_put h fadd zero n k v c = Inr c'"
  shows "intact h c'"
  using assms(3)
proof (cases rule: lru_put_cases)
  case (known dl)
  then show ?thesis using assms(2) by (auto simp: intact_def set_ddel map_of_dset)
next
  case (fresh dl)
  have "intact h (lru_room c)"
  proof (cases "cache c")
    case (Cons p d)
    then have "fst p \<notin> fst ` set d" using assms(1) by (simp add: lru_ok_def lru_inv_def)
    then have "intact h (c\<lparr>cache := d, fingerprints := ddel (fingerprints c) (fst p)\<rparr>)"
      using Cons assms(2) by (cases p) (force simp: intact_def map_of_ddel image_iff)
    with Cons assms(2) show ?thesis by (simp add: lru_room_def)
  qed (simp add: intact_def lru_room_def)
  moreover have "\<not> dhas (cache (lru_room c)) k"
    using fresh(2) lru_room_inv(3) [of c] assms(1) by (auto simp: dhas_def lru_ok_def)
  ultimately show ?thesis
    using fresh(4) by (force simp: intact_def map_of_dset dhas_def image_iff)
qed

lemma intact_run:
  "lru_ok c \<Longrightarrow> intact h c \<Longrightarrow> lru_run h fadd zero calls c = Inr c' \<Longrightarrow> intact h c'"
proof (induction calls arbitrary: c)
  case (Cons call calls)
  obtain c1 where c1: "lru_step h fadd zero call c = Inr c1" "lru_run h fadd zero calls c1 = Inr c'"
    using Cons.prems(3) by (auto simp: lru_run_def elim!: rbind_InrE)
  have "intact h c1"
  proof (cases call)
    case (Get n n2 k)
    then show ?thesis
      using c1(1) Cons.prems(1,2) intact_get [of c h fadd n n2 k "fst (lru_get h fadd n n2 k c)"]
      by (auto simp: lru_ok_def)
  next
    case (Put n k v)
    then show ?thesis using c1(1) Cons.prems(1,2) intact_put by auto
  qed
  with Cons.IH lru_step_ok [OF Cons.prems(1) c1(1)] c1(2) show ?case by blast
qed (simp add: lru_run_def)

section \<open>Properties\<close>

text \<open>
  C33. A cache of positive size never raises, and after any calls it holds at most \<open>maxsize\<close>
  entries, no key twice, with a fingerprint for exactly the cached keys, so the bookkeeping of
  mutations cannot leak.
\<close>

theorem lru_bounded:
  assumes "0 < n"
  shows "\<exists>c. lru_run h fadd zero calls (lru_init n t v) = Inr c \<and> int (length (cache c)) \<le> n
    \<and> distinct (dkeys (cache c)) \<and> (\<forall>k. dhas (fingerprints c) k \<longleftrightarrow> dhas (cache c) k)"
proof -
  have "lru_ok (lru_init n t v)" using assms by (simp add: lru_ok_def lru_init_def lru_inv_def)
  moreover have "maxsize (lru_init n t v) = n" by (simp add: lru_init_def)
  ultimately show ?thesis using lru_run_ok [of "lru_init n t v"] by (fastforce simp: lru_ok_def lru_inv_def)
qed

definition demo_hash :: "string \<Rightarrow> int" where
  "demo_hash s = int (length s)"

theorem lru_bounded_witness:
  "\<exists>c. lru_run demo_hash (+) (0::int) [Put 1 7 PNone, Put 2 8 PNone] (lru_init 1 (Some 9) False) = Inr c
     \<and> int (length (cache c)) \<le> 1"
proof -
  have "0 < (1 :: int)" by simp
  from lru_bounded [OF this, of demo_hash "(+)" 0 "[Put 1 7 PNone, Put 2 8 PNone]" "Some 9" False]
  show ?thesis by blast
qed

text \<open>
  C34. Least recently used entries go first: an entry just stored survives any further calls as
  long as they use fewer than \<open>maxsize\<close> other keys, however often.
\<close>

theorem lru_recent_survives:
  assumes "lru_ok c" and "lru_put h fadd zero n k v c = Inr c1"
    and "k \<notin> call_key ` set calls" and "int (card (call_key ` set calls)) < maxsize c"
  shows "\<exists>c2. lru_run h fadd zero calls c1 = Inr c2 \<and> (\<exists>w dl. map_of (cache c2) k = Some (w, dl))"
proof -
  have c1: "lru_ok c1" "maxsize c1 = maxsize c"
    using lru_inv_put [OF _ _ assms(2)] assms(1) by (auto simp: lru_ok_def)
  have "\<exists>d e. cache c1 = d @ [(k, e)]"
    using assms(2) by (cases rule: lru_put_cases) auto
  then have r: "recent k {} c1" by (auto intro: recentI)
  obtain c2 where c2: "lru_run h fadd zero calls c1 = Inr c2" "lru_ok c2"
    using lru_run_ok [OF c1(1)] by blast
  have "recent k ({} \<union> call_key ` set calls) c2"
    by (rule recent_run [OF r c1(1) _ _ _ c2(1)]) (use assms(3,4) c1(2) in auto)
  then have "dhas (cache c2) k" by (auto elim!: recentE)
  with c2(1) show ?thesis by (auto simp: dhas_map_of simp del: map_of_eq_None_iff)
qed

theorem lru_recent_survives_witness:
  "\<exists>c1 c2. lru_put demo_hash (+) (0::int) 1 7 PNone (lru_init 2 None False) = Inr c1
     \<and> lru_run demo_hash (+) 0 [Put 2 8 PNone] c1 = Inr c2 \<and> (\<exists>w dl. map_of (cache c2) 7 = Some (w, dl))"
proof -
  have ok: "lru_ok (lru_init 2 None False :: int lru)" by (simp add: lru_ok_def lru_init_def lru_inv_def)
  obtain c1 where c1: "lru_put demo_hash (+) (0::int) 1 7 PNone (lru_init 2 None False) = Inr c1"
    using lru_put_returns [of "lru_init 2 None False :: int lru" demo_hash "(+)" 0 1 7 PNone] by (auto simp: lru_init_def)
  from lru_recent_survives [OF ok c1, of "[Put 2 8 PNone]"] c1 show ?thesis
    by (auto simp: lru_init_def)
qed

text \<open>
  Without the verification mode a lookup of a stored key at time \<open>m\<close> hits exactly while the
  deadline of its last use is in the future; a hit returns the stored value and moves the
  deadline to \<open>ttl\<close> after the second clock reading, and a miss removes the entry.
\<close>

theorem lru_ttl:
  assumes "lru_put h fadd zero n k v c = Inr c1" and "lru_ok c" and "ttl c = Some t" and "\<not> verify c"
  shows "\<exists>c2. lru_get h fadd m m2 k c1 = (if m < fadd n t then Some v else None, c2)
    \<and> map_of (cache c2) k = (if m < fadd n t then Some (v, fadd m2 t) else None)"
proof -
  have c1: "ttl c1 = Some t" "\<not> verify c1"
    using lru_inv_put [OF _ _ assms(1)] assms(2-4) by (auto simp: lru_ok_def)
  have m: "map_of (cache c1) k = Some (v, fadd n t)"
    using assms(1)
  proof (cases rule: lru_put_cases)
    case (known dl)
    with assms(3) show ?thesis by (simp add: map_add_def)
  next
    case (fresh dl)
    then have "map_of (cache (lru_room c)) k = None"
      using lru_room_inv(3) [of c] assms(2) by (auto simp: dhas_def lru_ok_def map_of_eq_None_iff)
    with fresh(1,4) assms(3) show ?thesis by (simp add: map_add_def)
  qed
  from c1 m show ?thesis
    by (auto simp: lru_get_def expired_def forget_def Let_def map_add_def)
qed

theorem lru_ttl_witness:
  "\<exists>c1 c2. lru_put demo_hash (+) (0::int) 1 7 PNone (lru_init 2 (Some 10) False) = Inr c1
     \<and> lru_get demo_hash (+) 11 11 7 c1 = (None, c2)"
proof -
  have ok: "lru_ok (lru_init 2 (Some 10) False :: int lru)" by (simp add: lru_ok_def lru_init_def lru_inv_def)
  obtain c1 where c1: "lru_put demo_hash (+) (0::int) 1 7 PNone (lru_init 2 (Some 10) False) = Inr c1"
    using lru_put_returns [of "lru_init 2 (Some 10) False :: int lru" demo_hash "(+)" 0 1 7 PNone] by (auto simp: lru_init_def)
  from lru_ttl [OF c1 ok, of 10 11 11] c1 show ?thesis by (auto simp: lru_init_def)
qed


text \<open>
  \<open>check_integrity\<close> finds exactly what was mutated: after any calls it reports nothing, and
  after a caller changes the object cached under one key it reports that key, given that the
  hash tells the two contents apart; in verification mode a lookup then drops the entry.
\<close>

theorem lru_mutation_detected:
  assumes "lru_ok c0" and "intact h c0" and "lru_run h fadd zero calls c0 = Inr c"
    and "map_of (cache c) k = Some (v, dl)" and "h (canonical_json w) \<noteq> h (canonical_json v)"
  shows "check_integrity h c = [] \<and> check_integrity h (mutate k w c) = [k]
    \<and> (verify c \<longrightarrow> (\<exists>c'. lru_get h fadd n n2 k (mutate k w c) = (None, c') \<and> \<not> dhas (cache c') k))"
proof -
  have i: "intact h c" by (rule intact_run [OF assms(1-3)])
  have "lru_ok c" using lru_run_ok [OF assms(1), of h fadd zero calls] assms(3) by auto
  then have d: "distinct (dkeys (cache c))" by (simp add: lru_ok_def lru_inv_def)
  have cor: "corrupted h k' u c \<longleftrightarrow> h (canonical_json u) \<noteq> h (canonical_json u')"
    if "(k', (u', dl')) \<in> set (cache c)" for k' u u' dl'
    using that i by (auto simp: intact_def corrupted_def)
  have empty: "check_integrity h c = []"
    using cor by (auto simp: check_integrity_def filter_empty_conv)
  have f [simp]: "corrupted h k' u (mutate k w c) = corrupted h k' u c" for k' u
    by (simp add: corrupted_def mutate_def)
  have "map fst (filter (\<lambda>(key, (v, deadline)). corrupted h key v c)
      (map (\<lambda>(k', (u, dl)). (k', (if k' = k then w else u, dl))) d')) =
      filter (\<lambda>x. x = k) (dkeys d')" if "set d' \<subseteq> set (cache c)" for d'
    using that
  proof (induction d')
    case (Cons p d')
    obtain k' u dl' where p: "p = (k', (u, dl'))" by (cases p) auto
    have "map_of (cache c) k' = Some (u, dl')"
      by (rule map_of_is_SomeI [OF d]) (use Cons.prems p in simp)
    with assms(4) have "k' = k \<Longrightarrow> u = v" by simp
    with Cons p cor [of k' u dl'] assms(5) show ?case by auto
  qed simp
  from this [of "cache c"] have "check_integrity h (mutate k w c) = filter (\<lambda>x. x = k) (dkeys (cache c))"
    unfolding check_integrity_def f by (simp add: mutate_def)
  also have "\<dots> = [k]"
    using filter_distinct_single [OF d] map_of_SomeD [OF assms(4)] by force
  finally have one: "check_integrity h (mutate k w c) = [k]" .
  have "map_of (cache (mutate k w c)) k = Some (w, dl)"
  proof -
    have "map_of (map (\<lambda>(k', (u, dl)). (k', (if k' = k then w else u, dl))) d') k =
        map_option (\<lambda>(u, dl). (w, dl)) (map_of d' k)" for d' :: "(int \<times> (pyval \<times> 'a)) list"
      by (induction d') auto
    with assms(4) show ?thesis by (simp add: mutate_def)
  qed
  moreover have "corrupted h k w c" using cor [OF map_of_SomeD [OF assms(4)]] assms(5) by simp
  moreover have "verify (mutate k w c) = verify c" by (simp add: mutate_def)
  ultimately have "verify c \<longrightarrow> (\<exists>c'. lru_get h fadd n n2 k (mutate k w c) = (None, c') \<and> \<not> dhas (cache c') k)"
    by (auto simp: lru_get_def forget_def)
  with empty one show ?thesis by blast
qed

text \<open>A string is told apart from null by its length.\<close>

theorem lru_mutation_detected_witness:
  "\<exists>c. lru_run demo_hash (+) (0::int) [Put 1 7 PNone] (lru_init 2 None True) = Inr c
     \<and> check_integrity demo_hash (mutate 7 (PBool False) c) = [7]"
proof -
  let ?z = "lru_init 2 None True :: int lru"
  have ok: "lru_ok ?z" "intact demo_hash ?z"
    by (simp_all add: lru_ok_def lru_init_def lru_inv_def intact_def)
  let ?c = "?z\<lparr>cache := [(7, (PNone, 0))], fingerprints := [(7, demo_hash (canonical_json PNone))]\<rparr>"
  have r: "lru_run demo_hash (+) 0 [Put 1 7 PNone] ?z = Inr ?c"
    by (simp add: lru_run_def lru_put_def lru_init_def)
  have "map_of (cache ?c) 7 = Some (PNone, 0)" by simp
  moreover have "demo_hash (canonical_json (PBool False)) \<noteq> demo_hash (canonical_json PNone)"
    by (simp add: demo_hash_def canonical_json_def)
  ultimately show ?thesis using lru_mutation_detected [OF ok r] r by blast
qed

section \<open>The validation cache\<close>

datatype 't val_call = MarkCall 't string pyval | CheckCall 't 't string pyval

primrec val_step ::
  "(string \<Rightarrow> int) \<Rightarrow> ('t::linorder \<Rightarrow> 't \<Rightarrow> 't) \<Rightarrow> 't \<Rightarrow> 't val_call \<Rightarrow> 't caches \<Rightarrow> 't caches res" where
  "val_step h fadd zero (MarkCall n tag e) cs = mark_ir_validated h fadd zero n tag e cs"
| "val_step h fadd zero (CheckCall n n2 tag e) cs = Inr (snd (is_ir_validated h fadd n n2 tag e cs))"

definition val_run ::
  "(string \<Rightarrow> int) \<Rightarrow> ('t::linorder \<Rightarrow> 't \<Rightarrow> 't) \<Rightarrow> 't \<Rightarrow> 't val_call list \<Rightarrow> 't caches \<Rightarrow> 't caches res" where
  "val_run h fadd zero calls cs = rfold (\<lambda>cs call. val_step h fadd zero call cs) cs calls"

lemma val_run_holds:
  assumes "val_run h fadd zero calls cs = Inr cs'" and "lru_ok (ir_validation_cache cs)"
    and "lru_holds (ir_validation_cache cs') k v"
  shows "lru_holds (ir_validation_cache cs) k v \<or>
    (\<exists>n tag e. MarkCall n tag e \<in> set calls \<and> k = ir_validation_key h tag e)"
  using assms
proof (induction calls arbitrary: cs)
  case (Cons call calls)
  obtain cs1 where c1: "val_step h fadd zero call cs = Inr cs1" "val_run h fadd zero calls cs1 = Inr cs'"
    using Cons.prems(1) by (auto simp: val_run_def elim!: rbind_InrE)
  let ?c = "ir_validation_cache cs" and ?c1 = "ir_validation_cache cs1"
  have s: "lru_ok ?c1 \<and> (lru_holds ?c1 k v \<longrightarrow> lru_holds ?c k v \<or>
      (\<exists>n tag e. call = MarkCall n tag e \<and> k = ir_validation_key h tag e))"
  proof (cases call)
    case (MarkCall n tag e)
    then have p: "lru_put h fadd zero n (ir_validation_key h tag e) (PBool True) ?c = Inr ?c1"
      using c1(1) by (auto simp: mark_ir_validated_def elim!: rbind_InrE)
    show ?thesis
      using lru_put_holds [OF Cons.prems(2) p] lru_inv_put [OF _ _ p] Cons.prems(2) MarkCall
      by (auto simp: lru_ok_def)
  next
    case (CheckCall n n2 tag e)
    obtain r where g: "lru_get h fadd n n2 (ir_validation_key h tag e) ?c = (r, ?c1)"
      using c1(1) CheckCall
      by (cases "lru_get h fadd n n2 (ir_validation_key h tag e) ?c") (auto simp: is_ir_validated_def)
    show ?thesis
      using lru_get_holds [OF g] lru_inv_get [of ?c h fadd n n2 "ir_validation_key h tag e"]
        lru_get_config(1) [of h fadd n n2 "ir_validation_key h tag e" ?c] Cons.prems(2) g
      by (auto simp: lru_ok_def)
  qed
  from Cons.IH [OF c1(2)] s Cons.prems(3) show ?case by auto
qed (simp add: val_run_def)

lemma key_text_split:
  "tag @ nul @ j = tag' @ nul @ j' \<Longrightarrow> CHR 0x00 \<notin> set tag \<Longrightarrow> CHR 0x00 \<notin> set tag' \<Longrightarrow> tag = tag' \<and> j = j'"
proof (induction tag arbitrary: tag')
  case Nil
  then show ?case by (cases tag') (auto simp: nul_def)
next
  case (Cons c tag)
  then show ?case by (cases tag') (auto simp: nul_def)
qed

text \<open>
  An entry counts as validated only if an entry with the same canonical JSON was marked
  under the same tag, so validation is never skipped for another IR type or other content,
  provided that the queried key text collides with none of the marked ones under the hash.
\<close>

theorem validated_only_if_marked:
  assumes "val_run h fadd zero calls (module_caches t) = Inr cs"
    and "is_ir_validated h fadd n n2 tag e cs = (True, cs')"
    and "\<forall>m tag' e'. MarkCall m tag' e' \<in> set calls \<longrightarrow> CHR 0x00 \<notin> set tag' \<and>
      (h (tag' @ nul @ canonical_json e') = h (tag @ nul @ canonical_json e) \<longrightarrow>
         tag' @ nul @ canonical_json e' = tag @ nul @ canonical_json e)"
    and "CHR 0x00 \<notin> set tag"
  shows "\<exists>m e'. MarkCall m tag e' \<in> set calls \<and> canonical_json e' = canonical_json e"
proof -
  let ?k = "ir_validation_key h tag e"
  obtain v c where g: "lru_get h fadd n n2 ?k (ir_validation_cache cs) = (Some v, c)"
    using assms(2)
    by (cases "lru_get h fadd n n2 ?k (ir_validation_cache cs)") (auto simp: is_ir_validated_def)
  then have "lru_holds (ir_validation_cache cs) ?k v" using lru_get_holds [OF g] by blast
  moreover have "\<not> lru_holds (ir_validation_cache (module_caches t)) ?k v"
    and "lru_ok (ir_validation_cache (module_caches t))"
    by (simp_all add: lru_holds_def module_caches_def lru_init_def lru_ok_def lru_inv_def)
  ultimately obtain m tag' e' where "MarkCall m tag' e' \<in> set calls" "?k = ir_validation_key h tag' e'"
    using val_run_holds [OF assms(1)] by blast
  then show ?thesis
    using assms(3,4) key_text_split unfolding ir_validation_key_def by metis
qed

theorem validated_only_if_marked_witness:
  "\<exists>cs cs'. val_run demo_hash (+) (0::int) [MarkCall 1 ''ir.tool'' PNone] (module_caches 9) = Inr cs
     \<and> is_ir_validated demo_hash (+) 2 2 ''ir.tool'' PNone cs = (True, cs')
     \<and> (\<exists>m e'. MarkCall m ''ir.tool'' e' \<in> set [MarkCall (1::int) ''ir.tool'' PNone] \<and> canonical_json e' = canonical_json PNone)"
proof -
  let ?calls = "[MarkCall (1::int) ''ir.tool'' PNone]"
  obtain cs where r: "val_run demo_hash (+) 0 ?calls (module_caches 9) = Inr cs"
    and c: "\<exists>cs'. is_ir_validated demo_hash (+) 2 2 ''ir.tool'' PNone cs = (True, cs')"
    by (simp add: val_run_def mark_ir_validated_def module_caches_def lru_init_def lru_put_def
        is_ir_validated_def lru_get_def expired_def Let_def)
  then obtain cs' where q: "is_ir_validated demo_hash (+) 2 2 ''ir.tool'' PNone cs = (True, cs')" by blast
  have "\<exists>m e'. MarkCall m ''ir.tool'' e' \<in> set ?calls \<and> canonical_json e' = canonical_json PNone"
    by (rule validated_only_if_marked [OF r q]) auto
  with r q show ?thesis by blast
qed

end
