(* ===== verification/SchemaSanitize.thy ===== *)
theory SchemaSanitize
  imports LruCache
begin

text \<open>
  \<open>converters/base/helpers/schema.py\<close>: sanitizing of JSON schemas for providers.

  A schema is a \<open>pdict\<close>; the definitions it collects may be any values. The recursion follows
  \<open>$ref\<close> and may not end, so it takes a recursion budget: \<open>sanitize_schema_impl\<close> raises
  \<open>RecursionError\<close> when it is used up, as the interpreter does. The order in which the set of
  the two definition keywords is iterated is the parameter \<open>defs_keys\<close>.
\<close>

section \<open>Helpers\<close>

definition unsupported_schema_keys :: "string list" where
  "unsupported_schema_keys =
     [''propertyNames'', ''const'', ''$schema'', ''$comment'', ''$id'', ''$anchor'', ''$dynamicAnchor'',
      ''$dynamicRef'', ''ref'', ''contentEncoding'', ''contentMediaType'', ''contentSchema'',
      ''deprecated'', ''readOnly'', ''writeOnly'', ''examples'', ''exclusiveMinimum'', ''exclusiveMaximum'']"

definition all_defs_keys :: "string list" where
  "all_defs_keys = [''$defs'', ''definitions'']"

definition merge_step :: "string \<times> pyval \<Rightarrow> pdict \<Rightarrow> pdict" where
  "merge_step kv base =
     (let (key, value) = kv;
          merged = (if key = ''properties'' \<and> dhas base key
                    then (case (as_dict (dget base key), as_dict value) of
                            (Some b, Some v) \<Rightarrow> Some (dmerge b v)
                          | _ \<Rightarrow> None)
                    else None) in
      case merged of Some m \<Rightarrow> dset base key (PDict m) | None \<Rightarrow> dset base key value)"

definition deep_merge_schema :: "pdict \<Rightarrow> pdict \<Rightarrow> pdict" where
  "deep_merge_schema base overlay = fold merge_step overlay base"

definition without_keys :: "string list \<Rightarrow> pdict \<Rightarrow> pdict" where
  "without_keys ks d = filter (\<lambda>kv. fst kv \<notin> set ks) d"

definition flatten_union :: "pdict \<Rightarrow> pyval list \<Rightarrow> pdict res" where
  "flatten_union schema variants =
     rbind (rmap (\<lambda>v. rbind (py_get v ''type'' PNone) (\<lambda>t. Inr (v, t \<noteq> PStr ''null''))) variants) (\<lambda>vs.
       let non_null = map fst (filter snd vs);
           has_null = length non_null < length variants;
           base = without_keys [''anyOf'', ''oneOf'', ''allOf''] schema;
           base1 = (case non_null of PDict v # _ \<Rightarrow> deep_merge_schema base v | _ \<Rightarrow> base) in
       Inr (if has_null then dset base1 ''nullable'' (PBool True) else base1))"

definition flatten_combination :: "pdict \<Rightarrow> pdict res" where
  "flatten_combination schema =
     (case as_list (dget schema ''anyOf'') of
        Some variants \<Rightarrow> flatten_union schema variants
      | None \<Rightarrow>
        (case as_list (dget schema ''oneOf'') of
           Some variants \<Rightarrow> flatten_union schema variants
         | None \<Rightarrow>
           (case as_list (dget schema ''allOf'') of
              Some [v] \<Rightarrow>
                (case as_dict v of
                   Some only \<Rightarrow> Inr (deep_merge_schema (without_keys [''allOf''] schema) only)
                 | None \<Rightarrow> Inr schema)
            | _ \<Rightarrow> Inr schema)))"

definition resolve_ref :: "string \<Rightarrow> pdict \<Rightarrow> pyval" where
  "resolve_ref ref defs =
     (if starts_with ref ''#/$defs/'' then dget_or defs (remove_prefix ref ''#/$defs/'') (PDict [])
      else if starts_with ref ''#/definitions/'' then
        dget_or defs (remove_prefix ref ''#/definitions/'') (PDict [])
      else PDict [])"

definition sanitize_value :: "(pdict \<Rightarrow> pdict res) \<Rightarrow> pyval \<Rightarrow> pyval res" where
  "sanitize_value impl value =
     (case value of
        PDict d \<Rightarrow> rbind (impl d) (\<lambda>r. Inr (PDict r))
      | PList items \<Rightarrow>
          rbind (rmap (\<lambda>item. case item of PDict d \<Rightarrow> rbind (impl d) (\<lambda>r. Inr (PDict r)) | _ \<Rightarrow> Inr item) items)
            (\<lambda>xs. Inr (PList xs))
      | _ \<Rightarrow> Inr value)"

text \<open>\<open>r in props\<close> hashes \<open>r\<close>; the keys of the properties are strings.\<close>

definition strip_orphaned_required :: "pdict \<Rightarrow> pdict res" where
  "strip_orphaned_required result =
     (case (map_of result ''required'', map_of result ''properties'') of
        (Some (PList req), Some (PDict props)) \<Rightarrow>
          rbind (rmap (\<lambda>r. rbind (py_in_strs r (dkeys props)) (\<lambda>b. Inr (r, b))) req) (\<lambda>rs.
            let valid = map fst (filter snd rs) in
            Inr (if valid \<noteq> [] then dset result ''required'' (PList valid) else ddel result ''required''))
      | _ \<Rightarrow> Inr result)"

section \<open>The recursion\<close>

definition inline_ref :: "pdict \<Rightarrow> pdict \<Rightarrow> pdict option res" where
  "inline_ref defs schema =
     (case dget schema ''$ref'' of
        PStr ref \<Rightarrow>
          if defs = [] then Inr None
          else
            let resolved = resolve_ref ref defs in
            if \<not> py_truthy resolved then Inr None
            else (case resolved of
                    PDict r \<Rightarrow> Inr (Some (deep_merge_schema (without_keys [''$ref''] schema) r))
                  | _ \<Rightarrow> Inl AttributeError)
      | _ \<Rightarrow> Inr None)"

definition kept_entries :: "string list \<Rightarrow> pdict \<Rightarrow> pdict" where
  "kept_entries extra schema =
     without_keys (unsupported_schema_keys @ extra @ all_defs_keys @ [''$ref'']) schema"

definition finish_schema :: "pdict \<Rightarrow> pdict res" where
  "finish_schema result =
     rbind (if dhas result ''anyOf'' \<or> dhas result ''oneOf'' \<or> dhas result ''allOf''
            then flatten_combination result else Inr result)
       strip_orphaned_required"

fun sanitize_schema_impl :: "nat \<Rightarrow> string list \<Rightarrow> pdict \<Rightarrow> pdict \<Rightarrow> pdict res" where
  "sanitize_schema_impl 0 extra defs schema = Inl RecursionError"
| "sanitize_schema_impl (Suc n) extra defs schema =
     rbind (inline_ref defs schema) (\<lambda>inlined.
       case inlined of
         Some merged \<Rightarrow> sanitize_schema_impl n extra defs merged
       | None \<Rightarrow>
           rbind (rmap (\<lambda>(k, v). rbind (sanitize_value (sanitize_schema_impl n extra defs) v)
                                   (\<lambda>v'. Inr (k, v')))
                    (kept_entries extra schema))
             finish_schema)"

definition collect_defs :: "string list \<Rightarrow> pdict \<Rightarrow> pdict" where
  "collect_defs defs_keys schema =
     foldl (\<lambda>defs key. case dget schema key of PDict d \<Rightarrow> dmerge defs d | _ \<Rightarrow> defs) [] defs_keys"

text \<open>A top-level call: no definitions are passed, and \<open>extra\<close> is the iterated extra set.\<close>

definition sanitize_top :: "nat \<Rightarrow> string list \<Rightarrow> pdict \<times> string list \<Rightarrow> pdict res" where
  "sanitize_top limit defs_keys x =
     sanitize_schema_impl limit (snd x) (collect_defs defs_keys (fst x)) (fst x)"

definition schema_key :: "(string \<Rightarrow> int) \<Rightarrow> pdict \<times> string list \<Rightarrow> int" where
  "schema_key h x = schema_cache_key h (PDict (fst x)) (snd x)"

text \<open>The cached entry point, with the clock readings \<open>e\<close> of the lookup and \<open>e'\<close> of the store.\<close>

definition sanitize_schema ::
  "(string \<Rightarrow> int) \<Rightarrow> ('t::linorder \<Rightarrow> 't \<Rightarrow> 't) \<Rightarrow> 't \<Rightarrow> nat \<Rightarrow> string list \<Rightarrow> 't \<times> 't \<Rightarrow> 't \<times> 't
   \<Rightarrow> pdict \<times> string list \<Rightarrow> pdict option \<Rightarrow> 't caches \<Rightarrow> (pyval \<times> 't caches) res" where
  "sanitize_schema h fadd zero limit defs_keys e e' x defs cs =
     (case defs of
        Some ds \<Rightarrow>
          rbind (sanitize_schema_impl limit (snd x) ds (fst x)) (\<lambda>r. Inr (PDict r, cs))
      | None \<Rightarrow>
          rbind (memo_call (lru_get h fadd (fst e) (snd e)) (lru_put h fadd zero (fst e'))
                   (\<lambda>x. rbind (sanitize_top limit defs_keys x) (\<lambda>r. Inr (PDict r)))
                   (schema_key h) x (sanitize_cache cs))
            (\<lambda>(v, c). Inr (v, cs\<lparr>sanitize_cache := c\<rparr>)))"


section \<open>Clean schemas\<close>

text \<open>No dict that the sanitizer treats as a schema has a stripped key: the dict itself, the dicts
  among its values, and the dicts that are elements of a list value.\<close>

fun clean :: "string list \<Rightarrow> pyval \<Rightarrow> bool" where
  "clean S (PDict d) = (\<forall>kv \<in> set d. fst kv \<notin> set S \<and> clean S (snd kv))"
| "clean S (PList xs) = (\<forall>x \<in> set xs. is_dict x \<longrightarrow> clean S x)"
| "clean S _ = True"

definition required_ok :: "pdict \<Rightarrow> bool" where
  "required_ok d =
     (case (map_of d ''required'', map_of d ''properties'') of
        (Some (PList req), Some (PDict props)) \<Rightarrow> req \<noteq> [] \<and> set req \<subseteq> PStr ` set (dkeys props)
      | _ \<Rightarrow> True)"

lemma set_dset_subset: "set (dset d k v) \<subseteq> insert (k, v) (set d)"
proof (induction d)
  case (Cons p d)
  then show ?case by (cases p) (auto split: if_splits)
qed simp

lemma clean_Cons: "clean S (PDict (kv # d)) \<longleftrightarrow> fst kv \<notin> set S \<and> clean S (snd kv) \<and> clean S (PDict d)"
  by auto

lemma clean_dset: "clean S (PDict d) \<Longrightarrow> k \<notin> set S \<Longrightarrow> clean S v \<Longrightarrow> clean S (PDict (dset d k v))"
  using set_dset_subset [of d k v] by auto

lemma clean_dmerge: "clean S (PDict d) \<Longrightarrow> clean S (PDict e) \<Longrightarrow> clean S (PDict (dmerge d e))"
  unfolding dmerge_def
proof (induction e arbitrary: d)
  case (Cons kv e)
  have "clean S (PDict (case kv of (k, v) \<Rightarrow> dset d k v))"
    using Cons.prems clean_dset [of S d] unfolding clean_Cons by (cases kv) auto
  with Cons show ?case unfolding clean_Cons by (simp add: split_beta del: clean.simps)
qed simp

lemma clean_ddel: "clean S (PDict d) \<Longrightarrow> clean S (PDict (ddel d k))"
  by (auto simp: set_ddel)

lemma clean_without: "clean S (PDict d) \<Longrightarrow> clean S (PDict (without_keys ks d))"
  by (auto simp: without_keys_def)

lemma clean_lookup: "clean S (PDict d) \<Longrightarrow> map_of d k = Some v \<Longrightarrow> k \<notin> set S \<and> clean S v"
  by (drule map_of_SomeD) auto

lemma merge_step_cases:
  obtains (merged) b e where "map_of base k = Some (PDict b)" "v = PDict e"
      "merge_step (k, v) base = dset base k (PDict (dmerge b e))"
  | (plain) "merge_step (k, v) base = dset base k v"
proof (cases "k = ''properties''")
  case True
  show thesis
  proof (cases "map_of base k")
    case (Some w)
    then have w: "dhas base k" "dget base k = w" by (simp_all add: dhas_map_of dget_or_def)
    show thesis
    proof (cases "as_dict w")
      case None
      with w True plain show thesis by (simp add: merge_step_def)
    next
      case b: (Some b)
      show thesis
      proof (cases "as_dict v")
        case None
        with w b True plain show thesis by (simp add: merge_step_def)
      next
        case e: (Some e)
        have "merge_step (k, v) base = dset base k (PDict (dmerge b e))"
          using w b e True by (simp add: merge_step_def)
        with merged [of b e] Some b e show thesis by simp
      qed
    qed
  qed (use True plain in \<open>simp add: merge_step_def dhas_map_of\<close>)
qed (use plain in \<open>simp add: merge_step_def\<close>)

lemma clean_merge_step:
  assumes "clean S (PDict base)" and "k \<notin> set S" and "clean S v"
  shows "clean S (PDict (merge_step (k, v) base))"
proof (cases rule: merge_step_cases [of base k v])
  case (merged b e)
  have "clean S (PDict b)" using clean_lookup [OF assms(1) merged(1)] by blast
  then have "clean S (PDict (dmerge b e))" by (rule clean_dmerge) (use assms(3) merged(2) in blast)
  then show ?thesis unfolding merged(3) by (rule clean_dset [OF assms(1,2)])
next
  case plain
  show ?thesis unfolding plain by (rule clean_dset [OF assms])
qed

lemma clean_deep_merge:
  "clean S (PDict base) \<Longrightarrow> clean S (PDict overlay) \<Longrightarrow> clean S (PDict (deep_merge_schema base overlay))"
  unfolding deep_merge_schema_def
proof (induction overlay arbitrary: base)
  case (Cons kv overlay)
  have "clean S (PDict (merge_step kv base))"
    using clean_merge_step [OF Cons.prems(1), of "fst kv" "snd kv"] Cons.prems(2) unfolding clean_Cons by simp
  with Cons show ?case unfolding clean_Cons by (simp del: clean.simps)
qed simp

lemma clean_flatten_union:
  assumes "flatten_union schema variants = Inr r" and "clean S (PDict schema)" and "clean S (PList variants)"
    and "''nullable'' \<notin> set S"
  shows "clean S (PDict r)"
proof -
  obtain vs where vs: "rmap (\<lambda>v. rbind (py_get v ''type'' PNone) (\<lambda>t. Inr (v, t \<noteq> PStr ''null''))) variants = Inr vs"
    using assms(1) by (auto simp: flatten_union_def elim!: rbind_InrE)
  have fst_vs: "map fst vs = variants"
    using vs by (induction variants arbitrary: vs) (auto elim!: rbind_InrE)
  let ?base = "without_keys [''anyOf'', ''oneOf'', ''allOf''] schema"
  define base1 where "base1 = (case map fst (filter snd vs) of PDict v # _ \<Rightarrow> deep_merge_schema ?base v | _ \<Rightarrow> ?base)"
  have "clean S (PDict base1)"
  proof (cases "map fst (filter snd vs)")
    case (Cons v rest)
    then have "v \<in> set (map fst (filter snd vs))" by simp
    then have "v \<in> set (map fst vs)" by auto
    then have "is_dict v \<longrightarrow> clean S v" using assms(3) fst_vs by simp
    with Cons clean_deep_merge [OF clean_without [OF assms(2)]] clean_without [OF assms(2)] show ?thesis
      by (cases v) (auto simp: base1_def simp del: clean.simps(1,2))
  qed (simp add: base1_def clean_without [OF assms(2)] del: clean.simps)
  with assms(1,4) vs clean_dset [of S base1 "''nullable''" "PBool True"] show ?thesis
    by (auto simp: flatten_union_def base1_def Let_def simp del: clean.simps(1,2) split: if_splits)
qed

lemma clean_dget: "clean S (PDict d) \<Longrightarrow> clean S (dget d k)"
  by (auto simp: dget_or_def split: option.split dest!: map_of_SomeD)

lemma clean_flatten_combination:
  assumes "flatten_combination schema = Inr r" and "clean S (PDict schema)" and "''nullable'' \<notin> set S"
  shows "clean S (PDict r)"
proof -
  have d: "clean S (dget schema k)" for k by (rule clean_dget [OF assms(2)])
  have u: "clean S (PDict r)" if "flatten_union schema vs = Inr r" "dget schema k = PList vs" for vs k
    using clean_flatten_union [OF that(1) assms(2) _ assms(3)] d [of k] that(2) by simp
  show ?thesis
  proof (cases "as_list (dget schema ''anyOf'')")
    case (Some vs)
    then show ?thesis using assms(1) u [of vs "''anyOf''"] by (simp add: flatten_combination_def del: clean.simps)
  next
    case n1: None
    show ?thesis
    proof (cases "as_list (dget schema ''oneOf'')")
      case (Some vs)
      then show ?thesis
        using assms(1) n1 u [of vs "''oneOf''"] by (simp add: flatten_combination_def del: clean.simps)
    next
      case n2: None
      show ?thesis
      proof (cases "\<exists>only. dget schema ''allOf'' = PList [PDict only]")
        case True
        then obtain only where o': "dget schema ''allOf'' = PList [PDict only]" by blast
        with d [of "''allOf''"] have "clean S (PDict only)" by simp
        moreover have "r = deep_merge_schema (without_keys [''allOf''] schema) only"
          using assms(1) n1 n2 o' by (simp add: flatten_combination_def)
        ultimately show ?thesis using clean_deep_merge clean_without [OF assms(2)] by blast
      next
        case False
        have "r = schema"
        proof (cases "as_list (dget schema ''allOf'')")
          case (Some xs)
          then show ?thesis
            using assms(1) n1 n2 False
            by (cases xs; cases "tl xs"; cases "as_dict (hd xs)") (simp_all add: flatten_combination_def)
        qed (use assms(1) n1 n2 in \<open>simp add: flatten_combination_def\<close>)
        with assms(2) show ?thesis by simp
      qed
    qed
  qed
qed

lemma required_ok_strip:
  assumes "strip_orphaned_required result = Inr r" and "clean S (PDict result)"
  shows "clean S (PDict r) \<and> required_ok r"
proof (cases "\<exists>req props. map_of result ''required'' = Some (PList req) \<and> map_of result ''properties'' = Some (PDict props)")
  case True
  then obtain req props where rp: "map_of result ''required'' = Some (PList req)"
    "map_of result ''properties'' = Some (PDict props)" by blast
  obtain rs where rs: "rmap (\<lambda>r. rbind (py_in_strs r (dkeys props)) (\<lambda>b. Inr (r, b))) req = Inr rs"
    and r: "r = (if map fst (filter snd rs) \<noteq> [] then dset result ''required'' (PList (map fst (filter snd rs)))
                 else ddel result ''required'')"
    using assms(1) rp by (auto simp: strip_orphaned_required_def Let_def elim!: rbind_InrE)
  have sub: "set (map fst (filter snd rs)) \<subseteq> PStr ` set (dkeys props) \<inter> set req"
    using rs
  proof (induction req arbitrary: rs)
    case (Cons q req)
    obtain b rest where q: "py_in_strs q (dkeys props) = Inr b" "rs = (q, b) # rest"
      "rmap (\<lambda>r. rbind (py_in_strs r (dkeys props)) (\<lambda>b. Inr (r, b))) req = Inr rest"
      using Cons.prems by (auto elim!: rbind_InrE)
    have "b \<Longrightarrow> q \<in> PStr ` set (dkeys props)"
      using q(1) by (force simp: py_in_strs_def image_iff elim!: rbind_InrE)
    with Cons.IH [OF q(3)] q(2) show ?case by auto
  qed simp
  have "clean S (PList req)" using clean_lookup [OF assms(2) rp(1)] by blast
  then have "clean S (PList (map fst (filter snd rs)))" using sub by (simp only: clean.simps) blast
  moreover have "''required'' \<notin> set S" using clean_lookup [OF assms(2) rp(1)] by blast
  ultimately have "clean S (PDict r)"
    using assms(2) clean_dset [OF assms(2)] clean_ddel [OF assms(2)] unfolding r by (simp del: clean.simps)
  moreover have "required_ok r"
    using rp sub unfolding r by (auto simp: required_ok_def)
  ultimately show ?thesis by blast
next
  case False
  have "r = result"
    using assms(1) False
    by (auto simp: strip_orphaned_required_def split: option.splits pyval.splits)
  moreover have "required_ok result"
    using False by (auto simp: required_ok_def split: option.splits pyval.splits)
  ultimately show ?thesis using assms(2) by simp
qed

lemma clean_finish:
  assumes "finish_schema result = Inr r" and "clean S (PDict result)" and "''nullable'' \<notin> set S"
  shows "clean S (PDict r) \<and> required_ok r"
proof -
  obtain r1 where r1: "strip_orphaned_required r1 = Inr r"
    "r1 = result \<or> flatten_combination result = Inr r1"
    using assms(1) by (auto simp: finish_schema_def split: if_splits elim!: rbind_InrE)
  then have "clean S (PDict r1)" using clean_flatten_combination [OF _ assms(2,3)] assms(2) by blast
  then show ?thesis by (rule required_ok_strip [OF r1(1)])
qed

abbreviation stripped :: "string list \<Rightarrow> string list" where
  "stripped extra \<equiv> unsupported_schema_keys @ extra @ all_defs_keys @ [''$ref'']"

lemma sanitize_value_clean:
  assumes "sanitize_value impl v = Inr w" and "\<And>d r. impl d = Inr r \<Longrightarrow> clean S (PDict r)"
  shows "clean S w"
proof (cases v)
  case (PList items)
  then obtain xs where xs: "rmap (\<lambda>item. case item of PDict d \<Rightarrow> rbind (impl d) (\<lambda>r. Inr (PDict r)) | _ \<Rightarrow> Inr item) items = Inr xs"
    and w: "w = PList xs"
    using assms(1) by (auto simp: sanitize_value_def elim!: rbind_InrE)
  have "\<forall>x \<in> set xs. is_dict x \<longrightarrow> clean S x"
    using xs
  proof (induction items arbitrary: xs)
    case (Cons i items)
    obtain y ys where y: "(case i of PDict d \<Rightarrow> rbind (impl d) (\<lambda>r. Inr (PDict r)) | _ \<Rightarrow> Inr i) = Inr y"
      "xs = y # ys" "\<forall>x \<in> set ys. is_dict x \<longrightarrow> clean S x"
      using Cons.prems Cons.IH by (auto elim!: rbind_InrE)
    moreover have "is_dict y \<longrightarrow> clean S y"
      using y(1) assms(2) by (cases i) (auto simp del: clean.simps elim!: rbind_InrE)
    ultimately show ?case by simp
  qed simp
  with w show ?thesis by simp
qed (use assms in \<open>auto simp: sanitize_value_def simp del: clean.simps(1) elim!: rbind_InrE\<close>)

lemma sanitize_impl_clean:
  "sanitize_schema_impl n extra defs schema = Inr r \<Longrightarrow> ''nullable'' \<notin> set extra \<Longrightarrow>
   clean (stripped extra) (PDict r) \<and> required_ok r"
proof (induction n arbitrary: schema r)
  case (Suc n)
  obtain inlined where i: "inline_ref defs schema = Inr inlined"
    using Suc.prems(1) by (auto elim!: rbind_InrE)
  show ?case
  proof (cases inlined)
    case (Some merged)
    with Suc i show ?thesis by simp
  next
    case None
    let ?S = "stripped extra"
    let ?f = "\<lambda>(k, v). rbind (sanitize_value (sanitize_schema_impl n extra defs) v) (\<lambda>v'. Inr (k, v'))"
    obtain result where result: "rmap ?f (kept_entries extra schema) = Inr result"
      and fin: "finish_schema result = Inr r"
      using Suc.prems(1) i None by (auto elim!: rbind_InrE)
    have "clean ?S (PDict result)"
      if "rmap ?f d = Inr result" "\<forall>kv \<in> set d. fst kv \<notin> set ?S" for d result
      using that
    proof (induction d arbitrary: result)
      case (Cons kv d)
      obtain k v where kv: "kv = (k, v)" by (cases kv)
      obtain v' rest where r: "sanitize_value (sanitize_schema_impl n extra defs) v = Inr v'"
        "rmap ?f d = Inr rest" "result = (k, v') # rest"
        using Cons.prems(1) kv by (auto elim!: rbind_InrE)
      have "clean ?S v'"
        using sanitize_value_clean [OF r(1)] Suc.IH Suc.prems(2) by blast
      moreover have "clean ?S (PDict rest)" by (rule Cons.IH [OF r(2)]) (use Cons.prems(2) in auto)
      ultimately show ?case using Cons.prems(2) kv r(3) unfolding clean_Cons r(3) by simp
    qed simp
    from this [OF result] have "clean ?S (PDict result)"
      by (simp add: kept_entries_def without_keys_def del: clean.simps)
    moreover have "''nullable'' \<notin> set ?S"
      using Suc.prems(2) by (simp add: unsupported_schema_keys_def all_defs_keys_def)
    ultimately show ?thesis using clean_finish [OF fin] by blast
  qed
qed simp


section \<open>Schemas without references\<close>

fun vdepth :: "pyval \<Rightarrow> nat" where
  "vdepth (PDict d) = Suc (foldr (\<lambda>kv m. max (vdepth (snd kv)) m) d 0)"
| "vdepth (PList xs) = foldr (\<lambda>x m. max (vdepth x) m) xs 0"
| "vdepth _ = 0"

definition hashable_list :: "pyval \<Rightarrow> bool" where
  "hashable_list v = (case v of PList xs \<Rightarrow> list_all (\<lambda>x. \<not> is_dict x \<and> \<not> is_list x) xs | _ \<Rightarrow> True)"

definition dict_list :: "pyval \<Rightarrow> bool" where
  "dict_list v = (case v of PList xs \<Rightarrow> list_all is_dict xs | _ \<Rightarrow> True)"

text \<open>A typed schema: the variants of a union are dicts and \<open>required\<close> lists hashable values, at
  every level.\<close>

fun typed_schema :: "pyval \<Rightarrow> bool" where
  "typed_schema (PDict d) =
     (\<forall>kv \<in> set d. typed_schema (snd kv) \<and>
        (fst kv = ''anyOf'' \<or> fst kv = ''oneOf'' \<longrightarrow> dict_list (snd kv)) \<and>
        (fst kv = ''required'' \<longrightarrow> hashable_list (snd kv)))"
| "typed_schema (PList xs) = (\<forall>x \<in> set xs. typed_schema x)"
| "typed_schema _ = True"

definition required_hashable :: "pdict \<Rightarrow> bool" where
  "required_hashable d \<longleftrightarrow> (\<forall>kv \<in> set d. fst kv = ''required'' \<longrightarrow> hashable_list (snd kv))"

lemma vdepth_elem: "x \<in> set xs \<Longrightarrow> vdepth x \<le> vdepth (PList xs)"
  by (induction xs) (auto simp: le_max_iff_disj)

lemma vdepth_value: "(k, v) \<in> set d \<Longrightarrow> vdepth v < vdepth (PDict d)"
  by (induction d) (auto simp: less_max_iff_disj less_Suc_eq_le le_max_iff_disj)

lemma required_dset:
  "required_hashable d \<Longrightarrow> (k = ''required'' \<longrightarrow> hashable_list v) \<Longrightarrow> required_hashable (dset d k v)"
  using set_dset_subset [of d k v] by (fastforce simp: required_hashable_def)

lemma required_ddel: "required_hashable d \<Longrightarrow> required_hashable (ddel d k)"
  by (simp add: required_hashable_def set_ddel)

lemma required_without: "required_hashable d \<Longrightarrow> required_hashable (without_keys ks d)"
  by (simp add: required_hashable_def without_keys_def)

lemma required_merge_step:
  "required_hashable base \<Longrightarrow> (k = ''required'' \<longrightarrow> hashable_list v) \<Longrightarrow> required_hashable (merge_step (k, v) base)"
  by (cases rule: merge_step_cases [of base k v]) (auto intro!: required_dset simp: hashable_list_def)

lemma required_deep_merge:
  "required_hashable base \<Longrightarrow> required_hashable overlay \<Longrightarrow> required_hashable (deep_merge_schema base overlay)"
  unfolding deep_merge_schema_def
proof (induction overlay arbitrary: base)
  case (Cons kv overlay)
  have "required_hashable (merge_step kv base)"
    using required_merge_step [OF Cons.prems(1), of "fst kv" "snd kv"] Cons.prems(2)
    by (simp add: required_hashable_def [of "kv # overlay"])
  moreover have "required_hashable overlay" using Cons.prems(2) by (simp add: required_hashable_def)
  ultimately show ?case using Cons.IH by simp
qed simp

lemma strip_orphaned_returns:
  assumes "required_hashable result"
  shows "\<exists>r. strip_orphaned_required result = Inr r \<and> required_hashable r"
proof (cases "\<exists>req props. map_of result ''required'' = Some (PList req) \<and> map_of result ''properties'' = Some (PDict props)")
  case True
  then obtain req props where rp: "map_of result ''required'' = Some (PList req)"
    "map_of result ''properties'' = Some (PDict props)" by blast
  have h: "list_all (\<lambda>x. \<not> is_dict x \<and> \<not> is_list x) req"
    using assms map_of_SomeD [OF rp(1)] by (fastforce simp: required_hashable_def hashable_list_def)
  have one: "\<exists>b. py_in_strs q ss = Inr b" if "\<not> is_dict q" "\<not> is_list q" for q ss
    using that by (cases q) (auto simp: py_in_strs_def)
  have "\<exists>rs. rmap (\<lambda>r. rbind (py_in_strs r (dkeys props)) (\<lambda>b. Inr (r, b))) req = Inr rs \<and> map fst rs = req"
    using h
  proof (induction req)
    case (Cons q req)
    then obtain b where "py_in_strs q (dkeys props) = Inr b" using one by fastforce
    with Cons show ?case by auto
  qed simp
  then obtain rs where rs: "rmap (\<lambda>r. rbind (py_in_strs r (dkeys props)) (\<lambda>b. Inr (r, b))) req = Inr rs"
    "map fst rs = req" by blast
  have "list_all (\<lambda>x. \<not> is_dict x \<and> \<not> is_list x) (map fst (filter snd rs))"
    using h unfolding rs(2) [symmetric] by (auto simp: list_all_iff)
  then have "required_hashable (if map fst (filter snd rs) \<noteq> []
      then dset result ''required'' (PList (map fst (filter snd rs))) else ddel result ''required'')"
    using required_ddel [OF assms] required_dset [OF assms] by (simp add: hashable_list_def)
  with rs(1) rp show ?thesis by (simp add: strip_orphaned_required_def Let_def)
next
  case False
  then have "strip_orphaned_required result = Inr result"
    by (auto simp: strip_orphaned_required_def split: option.splits pyval.splits)
  with assms show ?thesis by blast
qed


lemma flatten_union_returns:
  assumes "required_hashable schema" and "\<forall>v \<in> set variants. \<exists>d. v = PDict d \<and> required_hashable d"
  shows "\<exists>r. flatten_union schema variants = Inr r \<and> required_hashable r"
proof -
  let ?g = "\<lambda>v. case v of PDict d \<Rightarrow> (v, dget d ''type'' \<noteq> PStr ''null'') | _ \<Rightarrow> (v, True)"
  have m: "rmap (\<lambda>v. rbind (py_get v ''type'' PNone) (\<lambda>t. Inr (v, t \<noteq> PStr ''null''))) variants = Inr (map ?g variants)"
    by (rule rmap_Inr_map) (use assms(2) in auto)
  let ?nn = "map fst (filter snd (map ?g variants))"
  let ?base = "without_keys [''anyOf'', ''oneOf'', ''allOf''] schema"
  have base: "required_hashable ?base" by (rule required_without [OF assms(1)])
  have "set ?nn \<subseteq> set variants" by (auto split: pyval.splits)
  then have "required_hashable (case ?nn of PDict v # _ \<Rightarrow> deep_merge_schema ?base v | _ \<Rightarrow> ?base)"
    using base assms(2) required_deep_merge [OF base]
    by (cases "?nn") (auto split: pyval.splits simp del: map_map filter_map)
  then show ?thesis
    using m required_dset [of _ "''nullable''" "PBool True"]
    by (auto simp: flatten_union_def Let_def simp del: map_map filter_map)
qed

lemma finish_schema_returns:
  assumes "required_hashable result"
    and "\<And>k vs. k \<in> {''anyOf'', ''oneOf''} \<Longrightarrow> dget result k = PList vs \<Longrightarrow>
      \<forall>v \<in> set vs. \<exists>d. v = PDict d \<and> required_hashable d"
    and "\<And>d. dget result ''allOf'' = PList [PDict d] \<Longrightarrow> required_hashable d"
  shows "\<exists>r. finish_schema result = Inr r \<and> required_hashable r"
proof -
  have "\<exists>r. flatten_combination result = Inr r \<and> required_hashable r"
  proof (cases "as_list (dget result ''anyOf'')")
    case (Some vs)
    then show ?thesis
      using flatten_union_returns [OF assms(1) assms(2) [of "''anyOf''" vs]] by (simp add: flatten_combination_def)
  next
    case n1: None
    show ?thesis
    proof (cases "as_list (dget result ''oneOf'')")
      case (Some vs)
      then show ?thesis
        using flatten_union_returns [OF assms(1) assms(2) [of "''oneOf''" vs]] n1
        by (simp add: flatten_combination_def)
    next
      case n2: None
      show ?thesis
        using n1 n2 assms(1,3) required_deep_merge [OF required_without [OF assms(1)]]
        by (auto simp: flatten_combination_def split: option.split list.split)
    qed
  qed
  then obtain r1 where "flatten_combination result = Inr r1" "required_hashable r1" by blast
  with strip_orphaned_returns [of r1] strip_orphaned_returns [OF assms(1)] show ?thesis
    by (auto simp: finish_schema_def)
qed

lemma rmap_returns: "(\<And>x. x \<in> set xs \<Longrightarrow> \<exists>y. f x = Inr y) \<Longrightarrow> \<exists>ys. rmap f xs = Inr ys"
proof (induction xs)
  case (Cons x xs)
  then obtain y ys where "f x = Inr y" "rmap f xs = Inr ys" by fastforce
  then show ?case by simp
qed simp

lemma rmap_mem: "rmap f xs = Inr ys \<Longrightarrow> y \<in> set ys \<Longrightarrow> \<exists>x \<in> set xs. f x = Inr y"
  by (induction xs arbitrary: ys) (auto elim!: rbind_InrE)

text \<open>What a sanitized value keeps of the value: its kind, and hashable elements as they are.\<close>

lemma sanitize_value_shape:
  assumes "sanitize_value impl v = Inr w"
    and "\<And>d r xs. v = PDict d \<or> v = PList xs \<and> PDict d \<in> set xs \<Longrightarrow> impl d = Inr r \<Longrightarrow> required_hashable r"
  shows "(hashable_list v \<longrightarrow> hashable_list w)
    \<and> (\<forall>x xs. w = PList xs \<longrightarrow> x \<in> set xs \<longrightarrow> (dict_list v \<longrightarrow> is_dict x) \<and> (\<forall>d. x = PDict d \<longrightarrow> required_hashable d))"
proof (cases v)
  case (PList items)
  then obtain xs where xs: "rmap (\<lambda>item. case item of PDict d \<Rightarrow> rbind (impl d) (\<lambda>r. Inr (PDict r)) | _ \<Rightarrow> Inr item) items = Inr xs"
    and w: "w = PList xs"
    using assms(1) by (auto simp: sanitize_value_def elim!: rbind_InrE)
  have m: "\<exists>i \<in> set items. (i = x \<and> \<not> is_dict i) \<or> (is_dict i \<and> (\<exists>d. x = PDict d \<and> required_hashable d))"
    if x: "x \<in> set xs" for x
  proof -
    obtain i where i: "i \<in> set items" "(case i of PDict d \<Rightarrow> rbind (impl d) (\<lambda>r. Inr (PDict r)) | _ \<Rightarrow> Inr i) = Inr x"
      using rmap_mem [OF xs x] by blast
    show ?thesis
    proof (cases "is_dict i")
      case True
      then obtain d r where "i = PDict d" "impl d = Inr r" "x = PDict r"
        using i(2) by (auto simp: is_dict_iff elim!: rbind_InrE)
      moreover have "required_hashable r" using assms(2) [of d items r] calculation i(1) PList by simp
      ultimately show ?thesis using i(1) True by blast
    next
      case False
      then have "i = x" using i(2) by (cases i) auto
      with False i(1) show ?thesis by blast
    qed
  qed
  have "is_dict x \<and> (\<forall>d. x = PDict d \<longrightarrow> required_hashable d)" if "x \<in> set xs" "dict_list v" for x
    using m [OF that(1)] that(2) PList by (auto simp: dict_list_def list_all_iff)
  moreover have "required_hashable d" if "PDict d \<in> set xs" for d using m [OF that] by auto
  moreover have "hashable_list w" if "hashable_list v"
    using m that by (fastforce simp: hashable_list_def list_all_iff PList w)
  ultimately show ?thesis unfolding w by blast
qed (use assms(1) in \<open>auto simp: sanitize_value_def hashable_list_def elim!: rbind_InrE\<close>)

lemma sanitize_impl_returns:
  assumes "vdepth (PDict schema) \<le> n" and "typed_schema (PDict schema)"
  shows "\<exists>r. sanitize_schema_impl n extra [] schema = Inr r \<and> required_hashable r"
  using assms
proof (induction n arbitrary: schema)
  case (Suc n)
  let ?impl = "sanitize_schema_impl n extra []"
  let ?f = "\<lambda>(k, v). rbind (sanitize_value ?impl v) (\<lambda>v'. Inr (k, v'))"
  have ih: "\<exists>r. ?impl d = Inr r" if "vdepth (PDict d) \<le> n" "typed_schema (PDict d)" for d
    using Suc.IH [OF that] by blast
  have val: "\<exists>w. sanitize_value ?impl v = Inr w" if "vdepth v \<le> n" "typed_schema v" for v
  proof (cases v)
    case (PDict d)
    with that ih show ?thesis by (fastforce simp: sanitize_value_def simp del: vdepth.simps typed_schema.simps)
  next
    case (PList items)
    have "\<exists>xs. rmap (\<lambda>item. case item of PDict d \<Rightarrow> rbind (?impl d) (\<lambda>r. Inr (PDict r)) | _ \<Rightarrow> Inr item) items = Inr xs"
    proof (rule rmap_returns)
      fix x assume x: "x \<in> set items"
      then have "vdepth x \<le> n" "typed_schema x"
        using that PList vdepth_elem [OF x] by (auto simp del: vdepth.simps)
      then show "\<exists>y. (case x of PDict d \<Rightarrow> rbind (?impl d) (\<lambda>r. Inr (PDict r)) | _ \<Rightarrow> Inr x) = Inr y"
        using ih by (cases x) (fastforce simp del: vdepth.simps typed_schema.simps)+
    qed
    with PList show ?thesis by (auto simp: sanitize_value_def)
  qed (simp_all add: sanitize_value_def)
  have kept: "kv \<in> set schema" if "kv \<in> set (kept_entries extra schema)" for kv
    using that by (auto simp: kept_entries_def without_keys_def)
  have "\<exists>result. rmap ?f (kept_entries extra schema) = Inr result"
  proof (rule rmap_returns)
    fix kv assume kv: "kv \<in> set (kept_entries extra schema)"
    then have "vdepth (snd kv) \<le> n" "typed_schema (snd kv)"
      using Suc.prems vdepth_value [of "fst kv" "snd kv" schema] kept [OF kv] by auto
    with val show "\<exists>y. ?f kv = Inr y" by (fastforce simp: split_beta)
  qed
  then obtain result where result: "rmap ?f (kept_entries extra schema) = Inr result" by blast
  have entry: "\<exists>v. (fst kw, v) \<in> set schema \<and> sanitize_value ?impl v = Inr (snd kw)" if "kw \<in> set result" for kw
    using rmap_mem [OF result that] kept by (force elim!: rbind_InrE)
  have sub: "required_hashable r"
    if v: "v \<in> snd ` set schema" and "v = PDict d \<or> v = PList xs \<and> PDict d \<in> set xs" and "?impl d = Inr r" for v d xs r
  proof -
    obtain p where p: "p \<in> set schema" "v = snd p" using v by blast
    then have k: "(fst p, v) \<in> set schema" by simp
    have "vdepth (PDict d) \<le> vdepth v" using that(2) vdepth_elem by blast
    then have "vdepth (PDict d) \<le> n" using vdepth_value [OF k] Suc.prems(1) by linarith
    moreover have "typed_schema v" using k Suc.prems(2) by fastforce
    then have "typed_schema (PDict d)" using that(2) by (auto simp del: typed_schema.simps(1))
    ultimately show ?thesis using Suc.IH that(3) by fastforce
  qed
  have shape: "\<exists>v. (fst kw, v) \<in> set schema \<and> (hashable_list v \<longrightarrow> hashable_list (snd kw))
    \<and> (\<forall>x xs. snd kw = PList xs \<longrightarrow> x \<in> set xs \<longrightarrow> (dict_list v \<longrightarrow> is_dict x) \<and> (\<forall>d. x = PDict d \<longrightarrow> required_hashable d))"
    if kw: "kw \<in> set result" for kw
  proof -
    obtain v where v: "(fst kw, v) \<in> set schema" "sanitize_value ?impl v = Inr (snd kw)"
      using entry [OF kw] by blast
    have "v \<in> snd ` set schema" using v(1) by force
    with sanitize_value_shape [OF v(2)] sub v(1) show ?thesis by blast
  qed
  have keys: "hashable_list v" if "(''required'', v) \<in> set schema" for v using that Suc.prems(2) by auto
  have unions: "dict_list v" if "(k, v) \<in> set schema" "k \<in> {''anyOf'', ''oneOf''}" for k v
    using that Suc.prems(2) by auto
  have "required_hashable result"
    unfolding required_hashable_def
  proof (intro ballI impI)
    fix kw
    assume kw: "kw \<in> set result" "fst kw = ''required''"
    obtain v where "(fst kw, v) \<in> set schema" "hashable_list v \<longrightarrow> hashable_list (snd kw)"
      using shape [OF kw(1)] by blast
    with keys kw(2) show "hashable_list (snd kw)" by simp
  qed
  moreover have "\<forall>x \<in> set xs. \<exists>d. x = PDict d \<and> required_hashable d"
    if k: "k \<in> {''anyOf'', ''oneOf''}" and xs: "dget result k = PList xs" for k xs
  proof -
    have "map_of result k = Some (PList xs)" using xs by (simp add: dget_or_def split: option.splits)
    from shape [OF map_of_SomeD [OF this]] obtain v where v: "(k, v) \<in> set schema"
      "\<forall>x \<in> set xs. (dict_list v \<longrightarrow> is_dict x) \<and> (\<forall>d. x = PDict d \<longrightarrow> required_hashable d)" by auto
    with unions [OF v(1) k] show ?thesis by (auto simp: is_dict_iff)
  qed
  moreover have "required_hashable d" if a: "dget result ''allOf'' = PList [PDict d]" for d
  proof -
    have "map_of result ''allOf'' = Some (PList [PDict d])" using a by (simp add: dget_or_def split: option.splits)
    from shape [OF map_of_SomeD [OF this]] show ?thesis by auto
  qed
  ultimately obtain r where "finish_schema result = Inr r" "required_hashable r"
    using finish_schema_returns [of result] by blast
  moreover have "inline_ref [] schema = Inr None" by (simp add: inline_ref_def split: pyval.split)
  ultimately show ?case using result by simp
qed simp


section \<open>Sanitizing through the cache\<close>

fun sanitize_run ::
  "(string \<Rightarrow> int) \<Rightarrow> ('t::linorder \<Rightarrow> 't \<Rightarrow> 't) \<Rightarrow> 't \<Rightarrow> nat \<Rightarrow> string list
   \<Rightarrow> (('t \<times> 't) \<times> ('t \<times> 't) \<times> pdict \<times> string list) list \<Rightarrow> 't caches \<Rightarrow> pyval list res" where
  "sanitize_run h fadd zero limit dk [] cs = Inr []"
| "sanitize_run h fadd zero limit dk ((e, e', x) # calls) cs =
     rbind (sanitize_schema h fadd zero limit dk e e' x None cs) (\<lambda>(v, cs').
     rbind (sanitize_run h fadd zero limit dk calls cs') (\<lambda>vs. Inr (v # vs)))"

lemma sanitize_run_direct:
  assumes "lru_ok (sanitize_cache cs)" and "inj_on (schema_key h) X"
    and "\<And>x v. x \<in> X \<Longrightarrow> lru_holds (sanitize_cache cs) (schema_key h x) v \<Longrightarrow>
      rbind (sanitize_top limit dk x) (\<lambda>r. Inr (PDict r)) = Inr v"
    and "\<And>e e' x. (e, e', x) \<in> set calls \<Longrightarrow> x \<in> X \<and> sanitize_top limit dk x = Inr (g x)"
  shows "sanitize_run h fadd zero limit dk calls cs = Inr (map (\<lambda>(e, e', x). PDict (g x)) calls)"
  using assms
proof (induction calls arbitrary: cs)
  case (Cons call calls)
  obtain e e' x where call: "call = (e, e', x)" by (cases call)
  let ?f = "\<lambda>x. rbind (sanitize_top limit dk x) (\<lambda>r. Inr (PDict r))"
  have x: "x \<in> X" "?f x = Inr (PDict (g x))" using Cons.prems(4) [of e e' x] call by auto
  obtain c' where c': "memo_call (lru_get h fadd (fst e) (snd e)) (lru_put h fadd zero (fst e')) ?f (schema_key h) x
      (sanitize_cache cs) = Inr (PDict (g x), c')"
    and ok: "lru_ok c'" and holds: "\<forall>y w. y \<in> X \<longrightarrow> lru_holds c' (schema_key h y) w \<longrightarrow> ?f y = Inr w"
    using lru.memo_call_correct [where X = X and key = "schema_key h" and f = ?f and x = x
        and s = "sanitize_cache cs" and h = h and fadd = fadd and e = e and zero = zero and e' = e']
      Cons.prems(1-3) x
    by (auto simp: split_beta)
  have s: "sanitize_schema h fadd zero limit dk e e' x None cs = Inr (PDict (g x), cs\<lparr>sanitize_cache := c'\<rparr>)"
    using c' by (simp add: sanitize_schema_def)
  have "sanitize_run h fadd zero limit dk calls (cs\<lparr>sanitize_cache := c'\<rparr>) = Inr (map (\<lambda>(e, e', x). PDict (g x)) calls)"
  proof (rule Cons.IH)
    show "y \<in> X \<and> sanitize_top limit dk y = Inr (g y)" if "(a, b, y) \<in> set calls" for a b y
      using Cons.prems(4) [of a b y] that by simp
  qed (use ok holds Cons.prems(2) in auto)
  with s show ?case by (simp add: call)
qed simp

section \<open>Properties\<close>


definition demo_schema :: pdict where
  "demo_schema = [(''type'', PStr ''object''),
     (''properties'', PDict [(''a'', PDict [(''type'', PStr ''string''), (''const'', PStr ''x'')])]),
     (''required'', PList [PStr ''a''])]"


text \<open>
  C35. A recursive schema is never sanitized: for the usual linked node, whose property \<open>next\<close>
  refers to the node definition itself, inlining goes on until the recursion limit, whatever the
  limit is, and the conversion of the tool fails with \<open>RecursionError\<close>.
\<close>

definition node_ref :: pdict where
  "node_ref = [(''$ref'', PStr ''#/$defs/Node'')]"

definition node_defs :: pdict where
  "node_defs = [(''Node'', PDict [(''type'', PStr ''object''), (''properties'', PDict [(''next'', PDict node_ref)])])]"


text \<open>
  A declared parameter disappears when its name is one of the unsupported schema keywords
  (\<open>ref\<close>, \<open>examples\<close>, \<open>deprecated\<close>, \<open>readOnly\<close> and so on): the map of properties is sanitized as if it
  were a schema, and the name is dropped from \<open>required\<close> as well.
\<close>

theorem sanitize_drops_property:
  assumes "k \<in> set unsupported_schema_keys"
  shows "sanitize_schema_impl (Suc (Suc n)) [] []
      [(''type'', PStr ''object''), (''properties'', PDict [(k, PDict p)]), (''required'', PList [PStr k])]
    = Inr [(''type'', PStr ''object''), (''properties'', PDict [])]"
proof -
  have r: "inline_ref [] d = Inr None" for d by (simp add: inline_ref_def split: pyval.split)
  have k: "kept_entries [] [(k, PDict p)] = []" using assms by (simp add: kept_entries_def without_keys_def)
  have "kept_entries [] [(''type'', PStr ''object''), (''properties'', PDict [(k, PDict p)]), (''required'', PList [PStr k])]
      = [(''type'', PStr ''object''), (''properties'', PDict [(k, PDict p)]), (''required'', PList [PStr k])]"
    by (simp add: kept_entries_def without_keys_def unsupported_schema_keys_def all_defs_keys_def)
  then show ?thesis
    by (simp add: r k sanitize_value_def finish_schema_def strip_orphaned_required_def py_in_strs_def)
qed

theorem sanitize_drops_property_witness:
  "sanitize_schema_impl 5 [] []
      [(''type'', PStr ''object''), (''properties'', PDict [(''ref'', PDict [(''type'', PStr ''string'')])]),
       (''required'', PList [PStr ''ref''])]
    = Inr [(''type'', PStr ''object''), (''properties'', PDict [])]"
  using sanitize_drops_property [of "''ref''" 3 "[(''type'', PStr ''string'')]"]
  by (simp add: unsupported_schema_keys_def eval_nat_numeral)

text \<open>
  Caching is transparent: starting from the module caches, every call of a sequence returns
  what sanitizing directly returns, in spite of expiry and eviction, when no two of the schemas
  in use have the same cache key.
\<close>

theorem sanitize_cached_direct:
  assumes "inj_on (schema_key h) ((\<lambda>(e, e', x). x) ` set calls)"
    and "\<forall>(e, e', x) \<in> set calls. sanitize_top limit dk x = Inr (g x)"
  shows "sanitize_run h fadd zero limit dk calls (module_caches ttl0) = Inr (map (\<lambda>(e, e', x). PDict (g x)) calls)"
proof (rule sanitize_run_direct [OF _ assms(1)])
  show "lru_ok (sanitize_cache (module_caches ttl0))"
    by (simp add: lru_ok_def lru_inv_def module_caches_def lru_init_def)
  show "rbind (sanitize_top limit dk x) (\<lambda>r. Inr (PDict r)) = Inr v"
    if "lru_holds (sanitize_cache (module_caches ttl0)) (schema_key h x) v" for x v
    using that by (simp add: module_caches_def lru_init_def lru_holds_def)
  show "x \<in> (\<lambda>(e, e', x). x) ` set calls \<and> sanitize_top limit dk x = Inr (g x)"
    if "(e, e', x) \<in> set calls" for e e' x
    using that assms(2) by force
qed

theorem sanitize_cached_direct_witness:
  "sanitize_run demo_hash (+) (0::int) 9 [] [((1, 1), (1, 1), ([], [])), ((2, 2), (2, 2), ([], []))] (module_caches 9)
   = Inr [PDict [], PDict []]"
proof -
  let ?calls = "[((1, 1), (1, 1), ([], [])), ((2, 2), (2, 2), ([], []))]
    :: ((int \<times> int) \<times> (int \<times> int) \<times> pdict \<times> string list) list"
  have "\<forall>(e, e', x) \<in> set ?calls. sanitize_top 9 [] x = Inr ((\<lambda>_. []) x)"
    by (simp add: sanitize_top_def collect_defs_def numeral_eq_Suc inline_ref_def kept_entries_def
        without_keys_def finish_schema_def strip_orphaned_required_def)
  from sanitize_cached_direct [OF _ this, of demo_hash "(+)" 0 9] show ?thesis by simp
qed

end
