(* ===== verification/JsonParse.thy ===== *)
theory JsonParse
  imports JsonText
begin

text \<open>
  \<open>json.loads\<close> of the standard library for the texts of the model, and its round trip with
  \<open>json.dumps\<close>. A malformed text raises \<open>JSONDecodeError\<close> and an integer of more than 4300 digits
  a plain \<open>ValueError\<close>, as the interpreter does. The conversion of a float literal is the
  parameter \<open>flt\<close>, which gives the \<open>repr\<close> of the float. An escape of a code point that the model
  has no character for reads as a question mark. The recursion budget only makes the functions
  total: the length of the text is always enough.
\<close>

definition decode_error :: pyexn where "decode_error = ValueError ''JSONDecodeError''"
definition digits_error :: pyexn where "digits_error = ValueError ''Exceeds the limit (4300 digits)''"

section \<open>Tokens\<close>

definition is_ws :: "char \<Rightarrow> bool" where
  "is_ws c \<longleftrightarrow> (let n = of_char c :: nat in n = 32 \<or> n = 9 \<or> n = 10 \<or> n = 13)"

definition skip_ws :: "string \<Rightarrow> string" where
  "skip_ws s = dropWhile is_ws s"

definition is_digit :: "char \<Rightarrow> bool" where
  "is_digit c \<longleftrightarrow> (let n = of_char c :: nat in 48 \<le> n \<and> n \<le> 57)"

definition hex_val :: "char \<Rightarrow> nat option" where
  "hex_val c =
     (let n = of_char c :: nat in
      if 48 \<le> n \<and> n \<le> 57 then Some (n - 48)
      else if 97 \<le> n \<and> n \<le> 102 then Some (n - 87)
      else if 65 \<le> n \<and> n \<le> 70 then Some (n - 55)
      else None)"

definition code_char :: "nat \<Rightarrow> char" where
  "code_char n = (if n < 256 then char_of n else CHR ''?'')"

text \<open>The character that \<open>c\<close> begins inside a string literal, \<open>c\<close> not being the quote.\<close>

definition next_char :: "char \<Rightarrow> string \<Rightarrow> (char \<times> string) option" where
  "next_char c cs =
     (if c = CHR 0x5C then
        (case cs of
           [] \<Rightarrow> None
         | e # ds \<Rightarrow>
             if e = CHR 0x22 \<or> e = CHR 0x5C \<or> e = CHR ''/'' then Some (e, ds)
             else if e = CHR ''b'' then Some (CHR 0x08, ds)
             else if e = CHR ''f'' then Some (CHR 0x0C, ds)
             else if e = CHR ''n'' then Some (CHR 0x0A, ds)
             else if e = CHR ''r'' then Some (CHR 0x0D, ds)
             else if e = CHR ''t'' then Some (CHR 0x09, ds)
             else if e = CHR ''u'' then
               (case ds of
                  h1 # h2 # h3 # h4 # rest \<Rightarrow>
                    (case (hex_val h1, hex_val h2, hex_val h3, hex_val h4) of
                       (Some a, Some b, Some d, Some f) \<Rightarrow>
                         Some (code_char (4096 * a + 256 * b + 16 * d + f), rest)
                     | _ \<Rightarrow> None)
                | _ \<Rightarrow> None)
             else None)
      else if (of_char c :: nat) < 32 then None
      else Some (c, cs))"

lemma next_char_shorter: "next_char c cs = Some (x, r) \<Longrightarrow> length r \<le> length cs"
  by (auto simp: next_char_def split: if_splits list.splits option.splits)

lemma next_char_append: "next_char c cs = Some (x, r) \<Longrightarrow> next_char c (cs @ s) = Some (x, r @ s)"
  by (auto simp: next_char_def split: if_splits list.splits option.splits)

function str_body :: "string \<Rightarrow> (string \<times> string) option" where
  "str_body s =
     (case s of
        [] \<Rightarrow> None
      | c # cs \<Rightarrow>
          if c = CHR 0x22 then Some ([], cs)
          else (case next_char c cs of
                  None \<Rightarrow> None
                | Some (x, r) \<Rightarrow> map_option (\<lambda>(y, t). (x # y, t)) (str_body r)))"
  by pat_completeness auto

termination
  by (relation "measure length") (auto dest: next_char_shorter)

declare str_body.simps [simp del]

fun digits_val :: "nat \<Rightarrow> string \<Rightarrow> nat" where
  "digits_val acc [] = acc"
| "digits_val acc (c # cs) = digits_val (10 * acc + (of_char c - 48)) cs"

definition int_part :: "string \<Rightarrow> string" where
  "int_part s = (case s of c # cs \<Rightarrow> if c = CHR ''0'' then [c] else takeWhile is_digit s | [] \<Rightarrow> [])"

definition frac_part :: "string \<Rightarrow> string" where
  "frac_part s =
     (case s of
        c # cs \<Rightarrow>
          if c = CHR ''.'' \<and> takeWhile is_digit cs \<noteq> [] then c # takeWhile is_digit cs else []
      | [] \<Rightarrow> [])"

definition exp_part :: "string \<Rightarrow> string" where
  "exp_part s =
     (case s of
        c # cs \<Rightarrow>
          if c = CHR ''e'' \<or> c = CHR ''E'' then
            (let sign = (case cs of d # ds \<Rightarrow> if d = CHR ''+'' \<or> d = CHR ''-'' then [d] else [] | [] \<Rightarrow> []);
                 ds = takeWhile is_digit (drop (length sign) cs) in
             if ds \<noteq> [] then c # sign @ ds else [])
          else []
      | [] \<Rightarrow> [])"

definition parse_number :: "(string \<Rightarrow> string) \<Rightarrow> string \<Rightarrow> (pyval \<times> string) res" where
  "parse_number flt s =
     (let sign = (case s of c # cs \<Rightarrow> if c = CHR ''-'' then [c] else [] | [] \<Rightarrow> []);
          s1 = drop (length sign) s; ip = int_part s1;
          s2 = drop (length ip) s1; fp = frac_part s2;
          s3 = drop (length fp) s2; ep = exp_part s3; s4 = drop (length ep) s3 in
      if ip = [] then Inl decode_error
      else if fp \<noteq> [] \<or> ep \<noteq> [] then Inr (PFloat (flt (sign @ ip @ fp @ ep)), s4)
      else if length ip > 4300 then Inl digits_error
      else Inr (PInt ((if sign = [] then 1 else -1) * int (digits_val 0 ip)), s4))"

section \<open>Values\<close>

fun parse_value :: "(string \<Rightarrow> string) \<Rightarrow> nat \<Rightarrow> string \<Rightarrow> (pyval \<times> string) res"
and parse_elems :: "(string \<Rightarrow> string) \<Rightarrow> nat \<Rightarrow> string \<Rightarrow> (pyval list \<times> string) res"
and parse_pairs :: "(string \<Rightarrow> string) \<Rightarrow> nat \<Rightarrow> string \<Rightarrow> ((string \<times> pyval) list \<times> string) res" where
  "parse_value flt 0 s = Inl RecursionError"
| "parse_value flt (Suc n) s =
     (case s of
        [] \<Rightarrow> Inl decode_error
      | c # cs \<Rightarrow>
          if c = CHR 0x22 then
            (case str_body cs of None \<Rightarrow> Inl decode_error | Some (x, r) \<Rightarrow> Inr (PStr x, r))
          else if c = CHR ''['' then
            (case skip_ws cs of
               [] \<Rightarrow> Inl decode_error
             | d # ds \<Rightarrow>
                 if d = CHR '']'' then Inr (PList [], ds)
                 else rbind (parse_elems flt n (d # ds)) (\<lambda>(xs, r). Inr (PList xs, r)))
          else if c = CHR ''{'' then
            (case skip_ws cs of
               [] \<Rightarrow> Inl decode_error
             | d # ds \<Rightarrow>
                 if d = CHR ''}'' then Inr (PDict [], ds)
                 else rbind (parse_pairs flt n (d # ds)) (\<lambda>(kvs, r). Inr (PDict (dmerge [] kvs), r)))
          else if starts_with s ''null'' then Inr (PNone, drop 4 s)
          else if starts_with s ''true'' then Inr (PBool True, drop 4 s)
          else if starts_with s ''false'' then Inr (PBool False, drop 5 s)
          else if starts_with s ''NaN'' then Inr (PFloat ''nan'', drop 3 s)
          else if starts_with s ''Infinity'' then Inr (PFloat ''inf'', drop 8 s)
          else if starts_with s ''-Infinity'' then Inr (PFloat ''-inf'', drop 9 s)
          else parse_number flt s)"
| "parse_elems flt 0 s = Inl RecursionError"
| "parse_elems flt (Suc n) s =
     rbind (parse_value flt n s) (\<lambda>(v, r).
       case skip_ws r of
         [] \<Rightarrow> Inl decode_error
       | c # cs \<Rightarrow>
           if c = CHR '']'' then Inr ([v], cs)
           else if c = CHR '','' then
             rbind (parse_elems flt n (skip_ws cs)) (\<lambda>(vs, t). Inr (v # vs, t))
           else Inl decode_error)"
| "parse_pairs flt 0 s = Inl RecursionError"
| "parse_pairs flt (Suc n) s =
     (case s of
        [] \<Rightarrow> Inl decode_error
      | q # qs \<Rightarrow>
          if q \<noteq> CHR 0x22 then Inl decode_error
          else (case str_body qs of
              None \<Rightarrow> Inl decode_error
            | Some (k, r) \<Rightarrow>
                (case skip_ws r of
                   [] \<Rightarrow> Inl decode_error
                 | c # cs \<Rightarrow>
                     if c \<noteq> CHR '':'' then Inl decode_error
                     else rbind (parse_value flt n (skip_ws cs)) (\<lambda>(v, t).
                       case skip_ws t of
                         [] \<Rightarrow> Inl decode_error
                       | d # ds \<Rightarrow>
                           if d = CHR ''}'' then Inr ([(k, v)], ds)
                           else if d = CHR '','' then
                             rbind (parse_pairs flt n (skip_ws ds)) (\<lambda>(kvs, u). Inr ((k, v) # kvs, u))
                           else Inl decode_error))))"

definition json_loads :: "(string \<Rightarrow> string) \<Rightarrow> string \<Rightarrow> pyval res" where
  "json_loads flt s =
     rbind (parse_value flt (Suc (length s)) (skip_ws s)) (\<lambda>(v, r).
       if skip_ws r = [] then Inr v else Inl decode_error)"

end
