(* ===== verification/JsonRoundTrip.thy ===== *)
theory JsonRoundTrip
  imports JsonParse
begin

text \<open>
  \<open>json.loads (json.dumps v) = v\<close> for the values that JSON text can carry, under any option that
  does not sort keys: the fact behind every place where a tool input travels as text.
\<close>

section \<open>Strings\<close>

lemma char_of_code:
  "(of_char c :: nat) = 34 \<Longrightarrow> c = CHR 0x22"
  "(of_char c :: nat) = 92 \<Longrightarrow> c = CHR 0x5C"
  "(of_char c :: nat) = 10 \<Longrightarrow> c = CHR 0x0A"
  "(of_char c :: nat) = 13 \<Longrightarrow> c = CHR 0x0D"
  "(of_char c :: nat) = 9 \<Longrightarrow> c = CHR 0x09"
  "(of_char c :: nat) = 12 \<Longrightarrow> c = CHR 0x0C"
  "(of_char c :: nat) = 8 \<Longrightarrow> c = CHR 0x08"
  by (simp_all only: of_char_eq_iff [where ?'a = nat, symmetric]) simp_all

lemma hex_val_char: "k < 16 \<Longrightarrow> hex_val (hex_char k) = Some k"
  by (auto simp: hex_val_def hex_char_def of_char_of)

lemma next_char_u:
  "next_char CHR 0x5C (CHR ''u'' # hex4 c) = Some (c, [])"
proof -
  have n: "(of_char c :: nat) < 256" by simp
  then have "(of_char c :: nat) div 16 < 16" "(of_char c :: nat) mod 16 < 16"
    by (auto intro: less_mult_imp_div_less)
  then have "hex_val (hex_char (of_char c div 16)) = Some (of_char c div 16)"
    "hex_val (hex_char (of_char c mod 16)) = Some (of_char c mod 16)"
    by (simp_all only: hex_val_char)
  moreover have "hex_val CHR ''0'' = Some 0" by (simp add: hex_val_def)
  moreover have "16 * (of_char c div 16) + of_char c mod 16 = (of_char c :: nat)" by simp
  ultimately show ?thesis
    by (simp add: next_char_def hex4_def hex2_def code_char_def)
qed

lemma json_char_parses:
  "\<exists>d ds. json_char b c = d # ds \<and> d \<noteq> CHR 0x22 \<and> next_char d ds = Some (c, [])"
proof -
  consider "of_char c \<in> {34, 92 :: nat}" | "of_char c \<in> {10, 13, 9, 12, 8 :: nat}"
    | "of_char c \<notin> {34, 92, 10, 13, 9, 12, 8 :: nat}" "(of_char c :: nat) < 32 \<or> (b \<and> 126 < (of_char c :: nat))"
    | "of_char c \<notin> {34, 92, 10, 13, 9, 12, 8 :: nat}" "\<not> ((of_char c :: nat) < 32 \<or> (b \<and> 126 < (of_char c :: nat)))"
    by blast
  then show ?thesis
  proof cases
    case 1
    then have "json_char b c = [CHR 0x5C, c]" by (auto simp: json_char_def Let_def)
    moreover have "c = CHR 0x22 \<or> c = CHR 0x5C" using 1 char_of_code by blast
    then have "next_char CHR 0x5C [c] = Some (c, [])" by (elim disjE) (simp_all add: next_char_def)
    ultimately show ?thesis by simp
  next
    case 2
    then consider "c = CHR 0x0A" | "c = CHR 0x0D" | "c = CHR 0x09" | "c = CHR 0x0C" | "c = CHR 0x08"
      using char_of_code by blast
    then show ?thesis by cases (simp_all add: json_char_def next_char_def)
  next
    case 3
    then have "json_char b c = CHR 0x5C # CHR ''u'' # hex4 c" by (auto simp: json_char_def Let_def)
    then show ?thesis using next_char_u by simp
  next
    case 4
    then have "json_char b c = [c]" by (auto simp: json_char_def Let_def)
    moreover have "c \<noteq> CHR 0x22" "c \<noteq> CHR 0x5C" using 4 by auto
    moreover have "next_char c [] = Some (c, [])" using 4 \<open>c \<noteq> CHR 0x5C\<close> by (simp add: next_char_def)
    ultimately show ?thesis by simp
  qed
qed

lemma str_body_text:
  "str_body (concat (map (json_char b) s) @ CHR 0x22 # rest) = Some (s, rest)"
proof (induction s)
  case Nil
  then show ?case by (simp add: str_body.simps)
next
  case (Cons c s)
  obtain d ds where "json_char b c = d # ds" "d \<noteq> CHR 0x22" "next_char d ds = Some (c, [])"
    using json_char_parses by blast
  with Cons show ?case
    by (simp add: str_body.simps [of "d # _"] next_char_append)
qed

section \<open>Numbers\<close>

text \<open>A text that does not continue a number.\<close>

definition stops :: "string \<Rightarrow> bool" where
  "stops r = (case r of [] \<Rightarrow> True
     | c # _ \<Rightarrow> \<not> is_digit c \<and> c \<notin> set ''.eE+-'')"

lemma stops_takeWhile: "stops r \<Longrightarrow> takeWhile is_digit (s @ r) = takeWhile is_digit s"
  by (induction s) (auto simp: stops_def split: list.splits)

lemma int_part_append: "s \<noteq> [] \<Longrightarrow> stops r \<Longrightarrow> int_part (s @ r) = int_part s"
  using stops_takeWhile [of r s] by (cases s) (auto simp: int_part_def)

lemma frac_part_append: "stops r \<Longrightarrow> frac_part (s @ r) = frac_part s"
  by (cases s) (auto simp: frac_part_def stops_takeWhile, auto simp: stops_def split: list.splits)

lemma exp_part_append: "stops r \<Longrightarrow> exp_part (s @ r) = exp_part s"
proof (cases s)
  case (Cons c cs)
  assume r: "stops r"
  show ?thesis
  proof (cases cs)
    case Nil
    with r Cons show ?thesis
      by (cases r) (auto simp: exp_part_def stops_def Let_def)
  next
    case (Cons d ds)
    then show ?thesis using r stops_takeWhile [OF r, of "d # ds"] stops_takeWhile [OF r, of ds]
      by (simp add: exp_part_def \<open>s = c # cs\<close> Let_def)
  qed
qed (auto simp: exp_part_def stops_def split: list.splits)

lemma int_part_prefix: "\<exists>t. s = int_part s @ t"
proof (cases s)
  case (Cons c cs)
  show ?thesis
  proof (cases "c = CHR ''0''")
    case False
    then have "s = int_part s @ dropWhile is_digit s" by (simp add: int_part_def Cons)
    then show ?thesis by blast
  qed (simp add: int_part_def Cons)
qed (simp add: int_part_def)

lemma frac_part_prefix: "\<exists>t. s = frac_part s @ t"
proof (cases s)
  case (Cons c cs)
  then show ?thesis
    by (auto simp: frac_part_def) (metis takeWhile_dropWhile_id)
qed (simp add: frac_part_def)

lemma exp_part_prefix: "\<exists>t. s = exp_part s @ t"
proof (cases s)
  case (Cons c cs)
  show ?thesis
  proof (cases cs)
    case (Cons d ds)
    then show ?thesis unfolding \<open>s = c # cs\<close>
      by (auto simp: exp_part_def Let_def) (metis append_Cons takeWhile_dropWhile_id)+
  qed (simp add: exp_part_def Cons)
qed (simp add: exp_part_def)

lemma drop_prefix: "\<exists>t. s = p @ t \<Longrightarrow> drop (length p) (s @ r) = drop (length p) s @ r"
  by auto

lemma parse_number_append:
  assumes "parse_number flt s = Inr (v, [])" and r: "stops r"
  shows "parse_number flt (s @ r) = Inr (v, r)"
proof -
  define sign where "sign = (case s of c # cs \<Rightarrow> if c = CHR ''-'' then [c] else [] | [] \<Rightarrow> [])"
  have s_ne: "s \<noteq> []" using assms(1) by (auto simp: parse_number_def int_part_def)
  then have sign': "(case s @ r of c # cs \<Rightarrow> if c = CHR ''-'' then [c] else [] | [] \<Rightarrow> []) = sign"
    by (cases s) (auto simp: sign_def)
  have sp: "\<exists>t. s = sign @ t" by (cases s) (auto simp: sign_def)
  define s1 where "s1 = drop (length sign) s"
  have ip_ne: "int_part s1 \<noteq> []"
    using assms(1) by (auto simp: parse_number_def Let_def s1_def sign_def split: if_splits)
  then have s1_ne: "s1 \<noteq> []" by (auto simp: int_part_def)
  show ?thesis
    using assms(1)
    unfolding parse_number_def Let_def sign' sign_def [symmetric] drop_prefix [OF sp]
      s1_def [symmetric] int_part_append [OF s1_ne r] drop_prefix [OF int_part_prefix]
      frac_part_append [OF r] drop_prefix [OF frac_part_prefix] exp_part_append [OF r]
      drop_prefix [OF exp_part_prefix]
    by (auto split: if_splits)
qed

lemma digit_char_digit: "n < 10 \<Longrightarrow> is_digit (digit_char n) \<and> of_char (digit_char n) - 48 = n"
  by (auto simp: is_digit_def digit_char_def of_char_of)

lemma digits_val_append: "digits_val acc (s @ [c]) = 10 * digits_val acc s + (of_char c - 48)"
  by (induction s arbitrary: acc) auto

lemma nat_str_digits:
  "list_all is_digit (nat_str n) \<and> nat_str n \<noteq> [] \<and> digits_val 0 (nat_str n) = n \<and>
   (n \<noteq> 0 \<longrightarrow> hd (nat_str n) \<noteq> CHR ''0'')"
proof (induction n rule: nat_str.induct)
  case (1 n)
  show ?case
  proof (cases "n < 10")
    case True
    have "n \<noteq> 0 \<Longrightarrow> digit_char n \<noteq> CHR ''0''"
      using digit_char_digit [OF True] by auto
    with True digit_char_digit [OF True] show ?thesis by (simp add: nat_str.simps [of n])
  next
    case False
    then have "n div 10 \<noteq> 0" by simp
    with 1 [OF False] False digit_char_digit [of "n mod 10"] show ?thesis
      by (simp add: nat_str.simps [of n] digits_val_append)
  qed
qed

lemma nat_str_0: "nat_str 0 = ''0''"
  by code_simp

lemma int_part_nat_str: "int_part (nat_str n) = nat_str n"
proof (cases "n = 0")
  case False
  with nat_str_digits [of n] show ?thesis
    by (cases "nat_str n") (auto simp: int_part_def list_all_iff takeWhile_eq_all_conv)
qed (simp add: nat_str_0 int_part_def)

lemma nat_str_hd: "\<exists>c cs. nat_str n = c # cs \<and> is_digit c"
  using nat_str_digits [of n] by (cases "nat_str n") auto

lemma parse_int_str:
  assumes "length (nat_str (nat \<bar>i\<bar>)) \<le> 4300"
  shows "parse_number flt (int_str i) = Inr (PInt i, [])"
proof -
  obtain c cs where n: "nat_str (nat \<bar>i\<bar>) = c # cs" "is_digit c" using nat_str_hd by blast
  have c: "c \<noteq> CHR ''-''" using n(2) by (auto simp: is_digit_def)
  have ip: "int_part (c # cs) = c # cs" using int_part_nat_str [of "nat \<bar>i\<bar>"] n by simp
  have val: "digits_val 0 (c # cs) = nat \<bar>i\<bar>" using nat_str_digits [of "nat \<bar>i\<bar>"] n by simp
  have e: "frac_part [] = []" "exp_part [] = []" by (simp_all add: frac_part_def exp_part_def)
  show ?thesis
  proof (cases "i < 0")
    case True
    then have "int_str i = CHR ''-'' # c # cs" using n by (simp add: int_str_def)
    with True assms n show ?thesis
      by (simp add: parse_number_def Let_def ip e val del: digits_val.simps)
  next
    case False
    then have "int_str i = c # cs" using n by (simp add: int_str_def)
    with False assms n c show ?thesis
      by (simp add: parse_number_def Let_def ip e val del: digits_val.simps)
  qed
qed


section \<open>Values\<close>

text \<open>
  The values JSON text carries exactly: every dict has distinct keys, an integer has at most
  4300 digits, and a float is one of the named three or a literal that \<open>flt\<close> maps to itself.
\<close>

fun json_ok :: "(string \<Rightarrow> string) \<Rightarrow> pyval \<Rightarrow> bool" where
  "json_ok flt (PInt i) \<longleftrightarrow> length (nat_str (nat \<bar>i\<bar>)) \<le> 4300"
| "json_ok flt (PFloat s) \<longleftrightarrow> s \<in> {''nan'', ''inf'', ''-inf''} \<or> parse_number flt s = Inr (PFloat s, [])"
| "json_ok flt (PList xs) \<longleftrightarrow> list_all (json_ok flt) xs"
| "json_ok flt (PDict d) \<longleftrightarrow> distinct (dkeys d) \<and> list_all (\<lambda>kv. json_ok flt (snd kv)) d"
| "json_ok flt v \<longleftrightarrow> True"

definition sep_ok :: "char \<Rightarrow> string \<Rightarrow> bool" where
  "sep_ok c s = (case s of [] \<Rightarrow> False | d # w \<Rightarrow> d = c \<and> list_all is_ws w)"

definition plain_opts :: "json_opts \<Rightarrow> bool" where
  "plain_opts opts \<longleftrightarrow>
     \<not> sort_keys opts \<and> sep_ok CHR '','' (item_sep opts) \<and> sep_ok CHR '':'' (key_sep opts)"

lemma default_opts_plain: "plain_opts default_opts"
  by (simp add: plain_opts_def default_opts_def sep_ok_def is_ws_def)

text \<open>The text of a value starts with a character that is neither blank nor a closing bracket.\<close>

definition opens :: "string \<Rightarrow> bool" where
  "opens s = (case s of [] \<Rightarrow> False | c # _ \<Rightarrow> \<not> is_ws c \<and> c \<noteq> CHR '']'' \<and> c \<noteq> CHR ''}'')"

lemma skip_ws_opens: "list_all is_ws w \<Longrightarrow> opens s \<Longrightarrow> skip_ws (w @ s @ t) = s @ t"
  by (induction w) (auto simp: skip_ws_def opens_def split: list.splits)

definition numeric :: "string \<Rightarrow> bool" where
  "numeric s = (case s of [] \<Rightarrow> False
     | c # cs \<Rightarrow> is_digit c \<or> (c = CHR ''-'' \<and> (case cs of [] \<Rightarrow> False | d # _ \<Rightarrow> is_digit d)))"

lemma int_part_digit: "int_part s \<noteq> [] \<Longrightarrow> \<exists>c cs. s = c # cs \<and> is_digit c"
  by (cases s) (auto simp: int_part_def is_digit_def split: if_splits)

lemma parse_number_numeric: "parse_number flt s = Inr x \<Longrightarrow> numeric s"
  by (cases s)
    (auto simp: parse_number_def Let_def numeric_def split: if_splits dest!: int_part_digit)

lemma numeric_opens: "numeric s \<Longrightarrow> opens s"
  by (cases s) (auto simp: numeric_def opens_def is_digit_def is_ws_def Let_def)

lemma numeric_names: "numeric s \<Longrightarrow> json_float s = s"
  by (auto simp: json_float_def numeric_def is_digit_def)

lemma parse_value_numeric:
  assumes "numeric s"
  shows "parse_value flt (Suc n) (s @ r) = parse_number flt (s @ r)"
proof -
  obtain c cs where s: "s = c # cs" using assms by (cases s) (auto simp: numeric_def)
  have "c \<notin> set ''\"[{ntfNI''" using assms s by (auto simp: numeric_def is_digit_def)
  moreover have "\<not> starts_with (s @ r) ''-Infinity''"
    using assms s by (cases cs) (auto simp: numeric_def is_digit_def)
  ultimately show ?thesis using s by (cases "c = CHR ''-''") simp_all
qed

lemma numeric_value:
  assumes "parse_number flt s = Inr (v, [])" "stops r"
  shows "parse_value flt (Suc n) (s @ r) = Inr (v, r)"
  using parse_value_numeric [OF parse_number_numeric] parse_number_append [OF assms] assms(1) by simp

lemma dumps_opens: "json_ok flt v \<Longrightarrow> opens (json_dumps opts v)"
proof (cases v)
  case (PInt i)
  assume "json_ok flt v"
  with PInt parse_int_str [of i flt] show ?thesis
    by (auto intro: numeric_opens parse_number_numeric)
next
  case (PFloat s)
  assume "json_ok flt v"
  then show ?thesis
    using parse_number_numeric [of flt s] numeric_opens [of s] numeric_names [of s] PFloat
    by (auto simp: json_float_def opens_def is_ws_def)
qed (auto simp: opens_def is_ws_def json_str_def)

lemma join_with_Cons: "join_with sep (x # y # ys) = x @ sep @ join_with sep (y # ys)"
  by (simp add: join_with_def)

lemma join_with_one [simp]: "join_with sep [x] = x"
  by (simp add: join_with_def)

lemma opens_append: "opens s \<Longrightarrow> opens (s @ t)"
  by (cases s) (auto simp: opens_def)

lemma opens_join: "xs \<noteq> [] \<Longrightarrow> opens (hd xs) \<Longrightarrow> opens (join_with sep xs)"
  by (cases xs) (auto simp: join_with_def intro: opens_append)

lemma stops_close: "stops (CHR '']'' # r)" "stops (CHR ''}'' # r)" "stops (CHR '','' # r)"
  by (simp_all add: stops_def is_digit_def)

lemma sep_okE:
  assumes "sep_ok c s" obtains w where "s = c # w" "list_all is_ws w"
  using assms by (cases s) (auto simp: sep_ok_def)

definition parses :: "(string \<Rightarrow> string) \<Rightarrow> json_opts \<Rightarrow> pyval \<Rightarrow> bool" where
  "parses flt opts v \<longleftrightarrow> (\<forall>n r. length (json_dumps opts v) < n \<longrightarrow> stops r \<longrightarrow>
     parse_value flt n (json_dumps opts v @ r) = Inr (v, r))"

lemma parsesD: "parses flt opts v \<Longrightarrow> length (json_dumps opts v) < n \<Longrightarrow> stops r \<Longrightarrow>
  parse_value flt n (json_dumps opts v @ r) = Inr (v, r)"
  by (simp add: parses_def)

lemma skip_ws_solid: "\<not> is_ws c \<Longrightarrow> skip_ws (c # s) = c # s"
  by (simp add: skip_ws_def)

lemma solid [simp]: "\<not> is_ws CHR '','' " "\<not> is_ws CHR '']''" "\<not> is_ws CHR ''}''" "\<not> is_ws CHR '':''"
    "\<not> is_ws CHR 0x22"
  by (simp_all add: is_ws_def)

lemma elems_parse:
  assumes "xs \<noteq> []" "\<And>x. x \<in> set xs \<Longrightarrow> parses flt opts x \<and> json_ok flt x"
    "sep_ok CHR '','' (item_sep opts)"
    "length (join_with (item_sep opts) (map (json_dumps opts) xs)) + 2 \<le> n"
  shows "parse_elems flt n (join_with (item_sep opts) (map (json_dumps opts) xs) @ CHR '']'' # r) = Inr (xs, r)"
  using assms(1,2,4)
proof (induction xs arbitrary: n)
  case (Cons x xs)
  then obtain m where n: "n = Suc m" by (cases n) auto
  have x: "parses flt opts x" "json_ok flt x" using Cons.prems(2) by auto
  show ?case
  proof (cases xs)
    case Nil
    have "parse_value flt m (json_dumps opts x @ CHR '']'' # r) = Inr (x, CHR '']'' # r)"
      by (rule parsesD [OF x(1)]) (use Cons.prems n Nil in \<open>simp_all add: stops_close\<close>)
    with Nil n show ?thesis by (simp add: skip_ws_solid)
  next
    case (Cons y ys)
    obtain w where w: "item_sep opts = CHR '','' # w" "list_all is_ws w"
      using assms(3) by (rule sep_okE)
    let ?tl = "join_with (item_sep opts) (map (json_dumps opts) (y # ys))"
    have len: "length (json_dumps opts x) + length ?tl + 3 \<le> n"
      using Cons.prems(3) w unfolding Cons list.map join_with_Cons by simp
    have o: "opens (json_dumps opts y)"
      using Cons.prems(2) Cons by (auto intro: dumps_opens)
    then have "opens ?tl" by (intro opens_join) simp_all
    then have skip: "skip_ws (w @ ?tl @ CHR '']'' # r) = ?tl @ CHR '']'' # r"
      by (rule skip_ws_opens [OF w(2)])
    have "parse_elems flt m (?tl @ CHR '']'' # r) = Inr (y # ys, r)"
      using Cons.IH [of m] Cons.prems len n Cons by simp
    moreover have "parse_value flt m (json_dumps opts x @ CHR '','' # w @ ?tl @ CHR '']'' # r) =
        Inr (x, CHR '','' # w @ ?tl @ CHR '']'' # r)"
      by (rule parsesD [OF x(1)]) (use len n in \<open>simp_all add: stops_close\<close>)
    ultimately show ?thesis
      unfolding Cons list.map join_with_Cons n
      using skip by (simp add: w skip_ws_solid)
  qed
qed simp


abbreviation pair_text :: "json_opts \<Rightarrow> string \<times> pyval \<Rightarrow> string" where
  "pair_text opts kv \<equiv> json_str (ensure_ascii opts) (fst kv) @ key_sep opts @ json_dumps opts (snd kv)"

lemma pair_text_opens: "opens (pair_text opts kv)"
  by (simp add: json_str_def opens_def is_ws_def)

lemma pair_text_step:
  assumes "parses flt opts (snd kv)" "json_ok flt (snd kv)" "sep_ok CHR '':'' (key_sep opts)"
    "length (pair_text opts kv) < m" "stops r"
  shows "\<exists>q qs t u. pair_text opts kv @ r = q # qs \<and> q = CHR 0x22 \<and> str_body qs = Some (fst kv, CHR '':'' # t) \<and>
    skip_ws t = u \<and> parse_value flt m u = Inr (snd kv, r)"
proof -
  obtain w where w: "key_sep opts = CHR '':'' # w" "list_all is_ws w"
    using assms(3) by (rule sep_okE)
  let ?v = "json_dumps opts (snd kv)"
  have "skip_ws (w @ ?v @ r) = ?v @ r"
    by (rule skip_ws_opens [OF w(2)]) (rule dumps_opens [OF assms(2)])
  moreover have "parse_value flt m (?v @ r) = Inr (snd kv, r)"
    by (rule parsesD [OF assms(1)]) (use assms in simp_all)
  moreover have "str_body (concat (map (json_char (ensure_ascii opts)) (fst kv)) @ CHR 0x22 # CHR '':'' # w @ ?v @ r)
      = Some (fst kv, CHR '':'' # w @ ?v @ r)"
    by (rule str_body_text)
  ultimately show ?thesis by (simp add: json_str_def w)
qed

lemma pairs_parse:
  assumes "d \<noteq> []" "\<And>kv. kv \<in> set d \<Longrightarrow> parses flt opts (snd kv) \<and> json_ok flt (snd kv)"
    "sep_ok CHR '','' (item_sep opts)" "sep_ok CHR '':'' (key_sep opts)"
    "length (join_with (item_sep opts) (map (pair_text opts) d)) + 2 \<le> n"
  shows "parse_pairs flt n (join_with (item_sep opts) (map (pair_text opts) d) @ CHR ''}'' # r) = Inr (d, r)"
  using assms(1,2,5)
proof (induction d arbitrary: n)
  case (Cons kv d)
  then obtain m where n: "n = Suc m" by (cases n) auto
  have x: "parses flt opts (snd kv)" "json_ok flt (snd kv)" using Cons.prems(2) by auto
  show ?case
  proof (cases d)
    case Nil
    obtain q qs t u where "pair_text opts kv @ CHR ''}'' # r = q # qs" "q = CHR 0x22"
      "str_body qs = Some (fst kv, CHR '':'' # t)" "skip_ws t = u"
      "parse_value flt m u = Inr (snd kv, CHR ''}'' # r)"
      using pair_text_step [OF x assms(4), of m "CHR ''}'' # r"] Cons.prems(3) n Nil
      by (auto simp: stops_close)
    then show ?thesis by (simp add: Nil n skip_ws_solid del: append_assoc)
  next
    case (Cons kv' d')
    obtain w where w: "item_sep opts = CHR '','' # w" "list_all is_ws w"
      using assms(3) by (rule sep_okE)
    define tl where "tl = join_with (item_sep opts) (map (pair_text opts) (kv' # d'))"
    have len: "length (pair_text opts kv) + length tl + 3 \<le> n"
      using Cons.prems(3) w unfolding tl_def Cons list.map join_with_Cons by simp
    have "opens tl" unfolding tl_def by (rule opens_join) (use pair_text_opens [of opts kv'] in simp_all)
    then have skip: "skip_ws (w @ tl @ CHR ''}'' # r) = tl @ CHR ''}'' # r"
      by (rule skip_ws_opens [OF w(2)])
    have IH: "parse_pairs flt m (tl @ CHR ''}'' # r) = Inr (kv' # d', r)"
      using Cons.IH [of m] Cons.prems len n Cons by (simp add: tl_def)
    obtain q qs t u where "pair_text opts kv @ CHR '','' # w @ tl @ CHR ''}'' # r = q # qs" "q = CHR 0x22"
      "str_body qs = Some (fst kv, CHR '':'' # t)" "skip_ws t = u"
      "parse_value flt m u = Inr (snd kv, CHR '','' # w @ tl @ CHR ''}'' # r)"
      using pair_text_step [OF x assms(4), of m "CHR '','' # w @ tl @ CHR ''}'' # r"] len n
      by (auto simp: stops_close)
    moreover have "join_with (item_sep opts) (map (pair_text opts) (kv # d)) @ CHR ''}'' # r =
        pair_text opts kv @ CHR '','' # w @ tl @ CHR ''}'' # r"
      unfolding Cons list.map join_with_Cons tl_def by (simp add: w)
    ultimately show ?thesis
      unfolding n Cons using skip IH by (simp add: skip_ws_solid del: append_assoc)
  qed
qed simp

lemma dmerge_fresh:
  "distinct (dkeys (d @ e)) \<Longrightarrow> dmerge d e = d @ e"
proof (induction e arbitrary: d)
  case (Cons p e)
  have "dmerge d (p # e) = dmerge (d @ [p]) e"
    using Cons.prems by (cases p) (auto simp: dmerge_def length_dset_new dhas_def)
  with Cons show ?case by simp
qed (simp add: dmerge_def)

lemma parses_value: "plain_opts opts \<Longrightarrow> json_ok flt v \<Longrightarrow> parses flt opts v"
proof (induction v)
  case (PInt i)
  then show ?case unfolding parses_def
    by (auto simp: gr0_conv_Suc dest!: less_imp_Suc_add intro!: numeric_value parse_int_str)
next
  case (PFloat s)
  have "parse_value flt n (json_float s @ r) = Inr (PFloat s, r)"
    if n: "length (json_float s) < n" and r: "stops r" for n r
  proof -
    obtain m where m: "n = Suc m" using n by (cases n) auto
    show ?thesis
    proof (cases "parse_number flt s = Inr (PFloat s, [])")
      case True
      with m r show ?thesis
        using numeric_value [OF True r] numeric_names [OF parse_number_numeric [OF True]] by simp
    next
      case False
      with PFloat m show ?thesis by (auto simp: json_float_def)
    qed
  qed
  then show ?case by (simp add: parses_def)
next
  case (PStr s)
  then show ?case
    by (auto simp: parses_def json_str_def str_body_text dest!: less_imp_Suc_add)
next
  case (PList xs)
  show ?case
  proof (cases "xs = []")
    case False
    have sub: "\<And>x. x \<in> set xs \<Longrightarrow> parses flt opts x \<and> json_ok flt x"
      using PList by (auto simp: list_all_iff)
    let ?t = "join_with (item_sep opts) (map (json_dumps opts) xs)"
    have op: "opens ?t"
      by (rule opens_join) (use False sub dumps_opens [of flt "hd xs" opts] in \<open>simp_all add: hd_map\<close>)
    have "parse_value flt (Suc n) (''['' @ ?t @ '']'' @ r) = Inr (PList xs, r)"
      if "length ?t + 2 \<le> n" for n r
    proof -
      have "parse_elems flt n (?t @ CHR '']'' # r) = Inr (xs, r)"
        by (rule elems_parse [OF False sub]) (use that PList.prems in \<open>auto simp: plain_opts_def\<close>)
      moreover have "skip_ws (?t @ CHR '']'' # r) = ?t @ CHR '']'' # r"
        using skip_ws_opens [of "[]" ?t] op by simp
      ultimately show ?thesis using op by (auto simp: opens_def split: list.splits)
    qed
    then show ?thesis
      unfolding parses_def by (auto simp: Suc_le_eq dest!: less_imp_Suc_add)
  qed (auto simp: parses_def join_with_def skip_ws_def is_ws_def dest!: less_imp_Suc_add)
next
  case (PDict d)
  show ?case
  proof (cases "d = []")
    case False
    have sub: "\<And>kv. kv \<in> set d \<Longrightarrow> parses flt opts (snd kv) \<and> json_ok flt (snd kv)"
      using PDict by (auto simp: list_all_iff)
    have ord: "ordered_items opts d = d" using PDict.prems by (simp add: ordered_items_def plain_opts_def)
    let ?t = "join_with (item_sep opts) (map (pair_text opts) d)"
    have op: "opens ?t"
      by (rule opens_join) (use False pair_text_opens [of opts "hd d"] in \<open>simp_all add: hd_map\<close>)
    have mg: "dmerge [] d = d" using PDict.prems dmerge_fresh [of "[]" d] by simp
    have "parse_value flt (Suc n) (''{'' @ ?t @ ''}'' @ r) = Inr (PDict d, r)"
      if "length ?t + 2 \<le> n" for n r
    proof -
      have "parse_pairs flt n (?t @ CHR ''}'' # r) = Inr (d, r)"
        by (rule pairs_parse [OF False sub]) (use that PDict.prems in \<open>auto simp: plain_opts_def\<close>)
      moreover have "skip_ws (?t @ CHR ''}'' # r) = ?t @ CHR ''}'' # r"
        using skip_ws_opens [of "[]" ?t] op by simp
      ultimately show ?thesis using op mg by (auto simp: opens_def split: list.splits)
    qed
    then show ?thesis
      unfolding parses_def using ord by (auto simp: Suc_le_eq dest!: less_imp_Suc_add)
  qed (auto simp: parses_def join_with_def skip_ws_def is_ws_def ordered_items_def dest!: less_imp_Suc_add)
qed (auto simp: parses_def dest!: less_imp_Suc_add)

lemma json_round_trip:
  assumes "plain_opts opts" "json_ok flt v"
  shows "json_loads flt (json_dumps opts v) = Inr v"
proof -
  have "skip_ws (json_dumps opts v) = json_dumps opts v"
    using skip_ws_opens [of "[]" "json_dumps opts v" "[]"] dumps_opens [OF assms(2)] by simp
  moreover have "parse_value flt (Suc (length (json_dumps opts v))) (json_dumps opts v) = Inr (v, [])"
    using parsesD [OF parses_value [OF assms], of "Suc (length (json_dumps opts v))" "[]"]
    by (simp add: stops_def)
  ultimately show ?thesis by (simp add: json_loads_def skip_ws_def)
qed

end
