(* ===== verification/ToolPairing.thy ===== *)
theory ToolPairing
  imports PyValue
begin

text \<open>
  The contract that the pairing fixes of the flat formats share. A message has the ids of the calls it
  makes or the id it answers; the fix drops a message that answers no call, and puts a synthetic answer
  behind every call without one. Under the contract the output calls exactly what the input calls, and
  answers exactly what it calls.
\<close>

definition id_in :: "('m \<Rightarrow> pyval list) \<Rightarrow> 'm list \<Rightarrow> pyval \<Rightarrow> bool" where
  "id_in ids ms v \<longleftrightarrow> (\<exists>m \<in> set ms. pset_mem v (ids m))"

definition pair_emitted ::
  "('m \<Rightarrow> pyval list) \<Rightarrow> ('m \<Rightarrow> pyval list) \<Rightarrow> (pyval \<Rightarrow> 'm) \<Rightarrow> pyval list \<Rightarrow> pyval list \<Rightarrow> 'm \<Rightarrow> 'm list" where
  "pair_emitted calls answers synth known answered m =
     (if pset_diff (answers m) known \<noteq> [] then [] else m # map synth (pset_diff (calls m) answered))"

locale pairing =
  fixes calls answers :: "'m \<Rightarrow> pyval list" and synth :: "pyval \<Rightarrow> 'm"
  assumes one_side: "calls m = [] \<or> answers m = []"
    and one_answer: "length (answers m) \<le> 1"
    and synth_calls: "calls (synth v) = []"
    and synth_answers: "v \<in> set (calls m) \<Longrightarrow> answers (synth v) = [v]"
begin

abbreviation fixed :: "pyval list \<Rightarrow> pyval list \<Rightarrow> 'm list \<Rightarrow> 'm list" where
  "fixed known answered ms \<equiv> concat (map (pair_emitted calls answers synth known answered) ms)"

lemma emitted_cases:
  assumes "t \<in> set (pair_emitted calls answers synth known answered m)"
  obtains "t = m" "pset_diff (answers m) known = []"
    | v where "v \<in> set (calls m)" "\<not> pset_mem v answered" "t = synth v"
  using assms that by (auto simp: pair_emitted_def pset_diff_def split: if_splits)

lemma fixed_calls: "id_in calls (fixed known answered ms) v \<longleftrightarrow> id_in calls ms v"
proof
  assume "id_in calls (fixed known answered ms) v"
  then obtain m t where m: "m \<in> set ms" "t \<in> set (pair_emitted calls answers synth known answered m)"
      and v: "pset_mem v (calls t)"
    by (auto simp: id_in_def)
  from m(2) have "t = m" by (rule emitted_cases) (use v synth_calls in \<open>simp_all add: pset_mem_def\<close>)
  with m v show "id_in calls ms v" by (auto simp: id_in_def)
next
  assume "id_in calls ms v"
  then obtain m where m: "m \<in> set ms" "pset_mem v (calls m)" by (auto simp: id_in_def)
  then have "answers m = []" using one_side [of m] by (auto simp: pset_mem_def)
  then have "m \<in> set (pair_emitted calls answers synth known answered m)" by (simp add: pair_emitted_def pset_diff_def)
  with m show "id_in calls (fixed known answered ms) v" by (auto simp: id_in_def)
qed

lemma fixed_answers:
  assumes known: "\<And>v. pset_mem v known \<longleftrightarrow> id_in calls ms v"
    and answered: "\<And>v. pset_mem v answered \<longleftrightarrow> id_in answers ms v"
  shows "id_in answers (fixed known answered ms) v \<longleftrightarrow> id_in calls ms v"
proof
  assume "id_in answers (fixed known answered ms) v"
  then obtain m t where m: "m \<in> set ms" "t \<in> set (pair_emitted calls answers synth known answered m)"
      and v: "pset_mem v (answers t)"
    by (auto simp: id_in_def)
  from m(2) show "id_in calls ms v"
  proof (rule emitted_cases)
    assume "t = m" "pset_diff (answers m) known = []"
    then obtain w where "py_hash w = py_hash v" "pset_mem w known"
      using v by (auto simp: pset_mem_iff pset_diff_def filter_empty_conv)
    then show ?thesis using known [of v] by (auto simp: pset_mem_iff)
  next
    fix w assume w: "w \<in> set (calls m)" "t = synth w"
    then have "py_hash w = py_hash v" using v synth_answers [OF w(1)] by (auto simp: pset_mem_def)
    then have "pset_mem v (calls m)" using w(1) by (auto simp: pset_mem_iff image_iff intro: sym)
    with m show ?thesis by (auto simp: id_in_def)
  qed
next
  assume v: "id_in calls ms v"
  show "id_in answers (fixed known answered ms) v"
  proof (cases "pset_mem v answered")
    case True
    then obtain m where m: "m \<in> set ms" "pset_mem v (answers m)" using answered by (auto simp: id_in_def)
    then obtain w where w: "answers m = [w]" using one_answer [of m]
      by (cases "answers m") (auto simp: pset_mem_def)
    have "py_hash v = py_hash w" using m(2) w by (simp add: pset_mem_iff)
    then have "pset_mem w known" using v known [of v] by (simp add: pset_mem_iff)
    then have "m \<in> set (pair_emitted calls answers synth known answered m)" by (simp add: pair_emitted_def pset_diff_def w)
    with m show ?thesis by (auto simp: id_in_def)
  next
    case False
    obtain m w where m: "m \<in> set ms" and w: "w \<in> set (calls m)" "py_hash w = py_hash v"
      using v by (auto simp: id_in_def pset_mem_iff)
    have "w \<in> set (pset_diff (calls m) answered)" using w False by (simp add: pset_diff_def pset_mem_iff)
    moreover have "answers m = []" using w one_side [of m] by auto
    ultimately have "synth w \<in> set (pair_emitted calls answers synth known answered m)"
      by (simp add: pair_emitted_def pset_diff_def)
    moreover have "pset_mem v (answers (synth w))" using w synth_answers [OF w(1)] by (simp add: pset_mem_def)
    ultimately show ?thesis using m unfolding id_in_def by auto
  qed
qed

lemma fixed_others:
  assumes "\<And>m. answers m \<noteq> [] \<Longrightarrow> \<not> P m" and "\<And>v. \<not> P (synth v)"
  shows "filter P (fixed known answered ms) = filter P ms"
proof -
  have "filter P (pair_emitted calls answers synth known answered m) = filter P [m]" for m
    using assms by (cases "answers m = []") (auto simp: pair_emitted_def filter_map comp_def pset_diff_def)
  then show ?thesis by (simp only: filter_concat_map concat_map_filter_single)
qed

lemma fixed_paired:
  assumes "\<And>m v. m \<in> set ms \<Longrightarrow> v \<in> set (calls m) \<Longrightarrow> pset_mem v answered"
    and "\<And>m v. m \<in> set ms \<Longrightarrow> v \<in> set (answers m) \<Longrightarrow> pset_mem v known"
  shows "fixed known answered ms = ms"
proof -
  have "pair_emitted calls answers synth known answered m = [m]" if "m \<in> set ms" for m
    using assms that by (auto simp: pair_emitted_def pset_diff_def filter_empty_conv)
  then show ?thesis by (induction ms) auto
qed

end

end
