(* ===== verification/ChatToolOps.thy ===== *)
theory ChatToolOps
  imports SchemaSanitize ToolOrphanFix JsonRoundTrip ToolPairing
begin

text \<open>
  \<open>converters/openai_chat/tool_ops.py\<close>: tool definitions, tool calls, tool results, tool choice
  and tool configuration between the IR and the Chat Completions format, and the pairing fix on
  Chat messages.

  A parameter annotated with a TypedDict of the IR is a \<open>pdict\<close>, one annotated \<open>Any\<close> a \<open>pyval\<close>.
  The schema sanitizer is called with the module cache, which is threaded through; the update
  of the cache by a call that raises later is dropped, which no result can show. \<open>flt\<close> is the
  conversion of float literals that \<open>json.loads\<close> uses.
\<close>

section \<open>Orphaned tool calls\<close>

definition or_empty :: "pyval \<Rightarrow> pyval" where
  "or_empty v = (if py_truthy v then v else PList [])"

text \<open>The id of a tool call; \<open>None\<close> where the entry is not a dict.\<close>

definition chat_call_id :: "pyval \<Rightarrow> pyval" where
  "chat_call_id tc = (case as_dict tc of Some d \<Rightarrow> dget d ''id'' | None \<Rightarrow> PNone)"

definition add_hashed :: "pyval list \<Rightarrow> pyval \<Rightarrow> pyval list res" where
  "add_hashed S v = rbind (py_hash v) (\<lambda>_. Inr (pset_add v S))"

definition collect_call :: "pyval list \<Rightarrow> pyval \<Rightarrow> pyval list res" where
  "collect_call S tc = (if py_truthy (chat_call_id tc) then add_hashed S (chat_call_id tc) else Inr S)"

definition collect_chat_step ::
  "pyval list \<times> pyval list \<Rightarrow> pdict \<Rightarrow> (pyval list \<times> pyval list) res" where
  "collect_chat_step acc msg =
     (let role = dget msg ''role'' in
      if role = PStr ''assistant'' then
        rbind (py_iter (or_empty (dget msg ''tool_calls''))) (\<lambda>tcs.
        rbind (rfold collect_call (fst acc) tcs) (\<lambda>known. Inr (known, snd acc)))
      else if role = PStr ''tool'' \<and> py_truthy (dget msg ''tool_call_id'') then
        rbind (add_hashed (snd acc) (dget msg ''tool_call_id'')) (\<lambda>answered. Inr (fst acc, answered))
      else Inr acc)"

definition collect_openai_tool_ids :: "pdict list \<Rightarrow> (pyval list \<times> pyval list) res" where
  "collect_openai_tool_ids messages = rfold collect_chat_step ([], []) messages"

definition chat_synthetic :: "string \<Rightarrow> pyval \<Rightarrow> pdict" where
  "chat_synthetic placeholder tc_id =
     [(''role'', PStr ''tool''), (''tool_call_id'', tc_id), (''content'', PStr placeholder)]"

definition inject_call :: "pyval list \<Rightarrow> string \<Rightarrow> fix_state \<Rightarrow> pyval \<Rightarrow> fix_state res" where
  "inject_call answered placeholder st tc =
     (let tc_id = chat_call_id tc in
      if py_truthy tc_id then
        rbind (py_hash tc_id) (\<lambda>_.
          if pset_mem tc_id answered then Inr st
          else Inr (st\<lparr>orphaned_call_ids := orphaned_call_ids st @ [tc_id],
                       patched := patched st @ [chat_synthetic placeholder tc_id]\<rparr>))
      else Inr st)"

text \<open>The loop body after the \<open>continue\<close> of the orphaned-result branch.\<close>

definition chat_keep ::
  "pyval list \<Rightarrow> string \<Rightarrow> fix_state \<Rightarrow> pdict \<Rightarrow> fix_state res" where
  "chat_keep answered placeholder st msg =
     (let st1 = st\<lparr>patched := patched st @ [msg]\<rparr> in
      if dget msg ''role'' = PStr ''assistant'' then
        rbind (py_iter (or_empty (dget msg ''tool_calls''))) (rfold (inject_call answered placeholder) st1)
      else Inr st1)"

definition chat_fix_step ::
  "pyval list \<Rightarrow> pyval list \<Rightarrow> string \<Rightarrow> fix_state \<Rightarrow> pdict \<Rightarrow> fix_state res" where
  "chat_fix_step known answered placeholder st msg =
     (let tc_id = dget msg ''tool_call_id'' in
      if dget msg ''role'' = PStr ''tool'' \<and> py_truthy tc_id then
        rbind (py_hash tc_id) (\<lambda>_.
          if pset_mem tc_id known then chat_keep answered placeholder st msg
          else Inr (st\<lparr>orphaned_result_ids := orphaned_result_ids st @ [tc_id]\<rparr>))
      else chat_keep answered placeholder st msg)"

definition fix_orphaned_tool_calls ::
  "string \<Rightarrow> pdict list \<Rightarrow> (pdict list \<times> string list) res" where
  "fix_orphaned_tool_calls placeholder messages =
     rbind (collect_openai_tool_ids messages) (\<lambda>(known, answered).
       if known = [] \<and> answered = [] then Inr (messages, [])
       else
         rbind (rfold (chat_fix_step known answered placeholder)
                  \<lparr>patched = [], orphaned_call_ids = [], orphaned_result_ids = []\<rparr> messages)
           (\<lambda>st. rbind (log_orphan_warnings (orphaned_call_ids st) (orphaned_result_ids st)
                          ''tool_call'' ''tool_result'')
             (\<lambda>logs. Inr (patched st, logs))))"

section \<open>Tool definitions\<close>

text \<open>What a call of \<open>sanitize_schema\<close> reads beside its arguments.\<close>

record 't sanitize_env =
  san_hash :: "string \<Rightarrow> int"
  san_add :: "'t \<Rightarrow> 't \<Rightarrow> 't"
  san_zero :: 't
  san_limit :: nat
  san_defs_keys :: "string list"
  san_look :: "'t \<times> 't"
  san_store :: "'t \<times> 't"

definition sanitize_in ::
  "'t::linorder sanitize_env \<Rightarrow> pdict \<Rightarrow> 't caches \<Rightarrow> (pyval \<times> 't caches) res" where
  "sanitize_in env schema cs =
     sanitize_schema (san_hash env) (san_add env) (san_zero env) (san_limit env) (san_defs_keys env)
       (san_look env) (san_store env) (schema, []) None cs"

definition chat_function :: "pyval \<Rightarrow> pyval \<Rightarrow> pdict \<Rightarrow> pyval" where
  "chat_function name description params =
     PDict [(''type'', PStr ''function''),
            (''function'', PDict ([(''name'', name), (''description'', description)] @ params))]"

definition ir_tool_definition_to_p ::
  "'t::linorder sanitize_env \<Rightarrow> pdict \<Rightarrow> 't caches \<Rightarrow> (pyval \<times> 't caches) res" where
  "ir_tool_definition_to_p env ir_tool cs =
     (let description = dget_or ir_tool ''description'' (PStr '''') in
      if dget_or ir_tool ''type'' (PStr ''function'') = PStr ''function'' then
        rbind (ditem ir_tool ''name'') (\<lambda>name.
          let parameters = dget ir_tool ''parameters'' in
          if \<not> py_truthy parameters then Inr (chat_function name description [], cs)
          else (case as_dict parameters of
              Some d \<Rightarrow> rbind (sanitize_in env d cs) (\<lambda>(p, cs').
                Inr (chat_function name description [(''parameters'', p)], cs'))
            | None \<Rightarrow> Inr (chat_function name description [(''parameters'', parameters)], cs)))
      else
        (let raw_params = dget_or ir_tool ''parameters'' (PDict []) in
         rbind (case as_dict raw_params of Some d \<Rightarrow> sanitize_in env d cs | None \<Rightarrow> Inr (raw_params, cs))
           (\<lambda>(params, cs'). rbind (ditem ir_tool ''name'') (\<lambda>name.
              Inr (chat_function name description [(''parameters'', params)], cs')))))"

definition p_tool_definition_to_ir :: "pyval \<Rightarrow> pdict res" where
  "p_tool_definition_to_ir provider_tool =
     rbind (py_get provider_tool ''function'' (PDict [])) (\<lambda>func.
     rbind (py_get func ''name'' (PStr '''')) (\<lambda>name.
     rbind (py_get func ''description'' (PStr '''')) (\<lambda>description.
     rbind (py_get func ''parameters'' (PDict [])) (\<lambda>parameters.
       Inr [(''type'', PStr ''function''), (''name'', name), (''description'', description),
            (''parameters'', parameters),
            (''required_parameters'',
              case as_dict parameters of
                Some p \<Rightarrow> if dhas p ''required'' then dget p ''required'' else PList []
              | None \<Rightarrow> PList []),
            (''metadata'', PDict [])]))))"

section \<open>Tool choice\<close>

definition ir_tool_choice_to_p :: "pdict \<Rightarrow> pyval" where
  "ir_tool_choice_to_p ir_tool_choice =
     (let mode = dget_or ir_tool_choice ''mode'' (PStr ''auto'') in
      if mode = PStr ''none'' then PStr ''none''
      else if mode = PStr ''auto'' then PStr ''auto''
      else if mode = PStr ''any'' then PStr ''required''
      else if mode = PStr ''tool'' then
        (let tool_name = dget ir_tool_choice ''tool_name'' in
         if py_truthy tool_name then
           PDict [(''type'', PStr ''function''), (''function'', PDict [(''name'', tool_name)])]
         else PStr ''required'')
      else PStr ''auto'')"

definition tool_choice :: "string \<Rightarrow> pyval \<Rightarrow> pdict" where
  "tool_choice mode name = [(''mode'', PStr mode), (''tool_name'', name)]"

definition p_tool_choice_to_ir :: "pyval \<Rightarrow> pdict res" where
  "p_tool_choice_to_ir choice =
     (case choice of
        PStr s \<Rightarrow>
          Inr (if s = ''none'' then tool_choice ''none'' (PStr '''')
               else if s = ''auto'' then tool_choice ''auto'' (PStr '''')
               else if s = ''required'' then tool_choice ''any'' (PStr '''')
               else tool_choice ''auto'' (PStr ''''))
      | PDict d \<Rightarrow>
          if dget d ''type'' = PStr ''function'' then
            rbind (py_get (dget_or d ''function'' (PDict [])) ''name'' (PStr '''')) (\<lambda>name.
              Inr (tool_choice ''tool'' name))
          else Inr (tool_choice ''auto'' (PStr ''''))
      | _ \<Rightarrow> Inr (tool_choice ''auto'' (PStr '''')))"

section \<open>Tool calls\<close>

definition ir_tool_call_to_p :: "pdict \<Rightarrow> pyval res" where
  "ir_tool_call_to_p ir_tool_call =
     (if dget ir_tool_call ''tool_type'' = PStr ''computer_use'' then Inl NotImplementedError
      else
        let tool_input = dget_or ir_tool_call ''tool_input'' (PDict []);
            arguments = (if is_dict tool_input then json_dumps default_opts tool_input
                         else py_str tool_input) in
        rbind (ditem ir_tool_call ''tool_call_id'') (\<lambda>id.
        rbind (ditem ir_tool_call ''tool_name'') (\<lambda>name.
          Inr (PDict [(''id'', id), (''type'', PStr ''function''),
                      (''function'', PDict [(''name'', name), (''arguments'', PStr arguments)])]))))"

text \<open>\<open>json.loads(x)\<close> takes a text and raises on any other value.\<close>

definition loads_value :: "(string \<Rightarrow> string) \<Rightarrow> pyval \<Rightarrow> pyval res" where
  "loads_value flt v = (case as_str v of Some s \<Rightarrow> json_loads flt s | None \<Rightarrow> Inl TypeError)"

definition parse_arguments :: "(string \<Rightarrow> string) \<Rightarrow> pyval \<Rightarrow> pyval res" where
  "parse_arguments flt arguments =
     (case (if py_truthy arguments then loads_value flt arguments else Inr (PDict [])) of
        Inr v \<Rightarrow> Inr v
      | Inl e \<Rightarrow>
          if e = decode_error \<or> e = TypeError then Inr (PDict [(''raw_arguments'', arguments)])
          else Inl e)"

definition p_tool_call_to_ir :: "(string \<Rightarrow> string) \<Rightarrow> pyval \<Rightarrow> pdict res" where
  "p_tool_call_to_ir flt provider_tool_call =
     rbind (py_get provider_tool_call ''function'' (PDict [])) (\<lambda>func.
     rbind (py_get func ''arguments'' (PStr ''{}'')) (\<lambda>arguments.
     rbind (parse_arguments flt arguments) (\<lambda>tool_input.
     rbind (py_get provider_tool_call ''id'' (PStr '''')) (\<lambda>id.
     rbind (py_get func ''name'' (PStr '''')) (\<lambda>name.
       Inr [(''type'', PStr ''tool_call''), (''tool_call_id'', id), (''tool_name'', name),
            (''tool_input'', tool_input), (''tool_type'', PStr ''function'')])))))"

section \<open>Tool results\<close>

definition ir_tool_result_to_p :: "pdict \<Rightarrow> pdict res" where
  "ir_tool_result_to_p ir_tool_result =
     (let result = dget_or ir_tool_result ''result'' (PStr '''');
          content = (if is_list result \<or> is_dict result then json_dumps default_opts result
                     else if result \<noteq> PNone then py_str result else '''') in
      rbind (ditem ir_tool_result ''tool_call_id'') (\<lambda>id.
        Inr [(''role'', PStr ''tool''), (''tool_call_id'', id), (''content'', PStr content)]))"

definition p_tool_result_to_ir :: "pyval \<Rightarrow> pdict res" where
  "p_tool_result_to_ir provider_tool_result =
     rbind (py_get provider_tool_result ''tool_call_id'' (PStr '''')) (\<lambda>id.
     rbind (py_get provider_tool_result ''content'' (PStr '''')) (\<lambda>content.
       Inr [(''type'', PStr ''tool_result''), (''tool_call_id'', id), (''result'', content)]))"

section \<open>Tool configuration\<close>

definition ir_tool_config_to_p :: "pdict \<Rightarrow> pdict" where
  "ir_tool_config_to_p ir_tool_config =
     (if dhas ir_tool_config ''disable_parallel''
      then [(''parallel_tool_calls'', PBool (\<not> py_truthy (dget ir_tool_config ''disable_parallel'')))]
      else [])"

definition p_tool_config_to_ir :: "pyval \<Rightarrow> pdict" where
  "p_tool_config_to_ir provider_tool_config =
     (case as_dict provider_tool_config of
        Some d \<Rightarrow>
          (let parallel = dget d ''parallel_tool_calls'' in
           if parallel \<noteq> PNone then [(''disable_parallel'', PBool (\<not> py_truthy parallel))] else [])
      | None \<Rightarrow> [])"


section \<open>What the pairing fix computes\<close>

text \<open>The truthy call ids of an assistant message and the answered id of a tool message.\<close>

definition msg_call_ids :: "pdict \<Rightarrow> pyval list" where
  "msg_call_ids m =
     (if dget m ''role'' = PStr ''assistant'' then
        (case py_iter (or_empty (dget m ''tool_calls'')) of Inl _ \<Rightarrow> []
         | Inr tcs \<Rightarrow> filter py_truthy (map chat_call_id tcs))
      else [])"

definition msg_answered_ids :: "pdict \<Rightarrow> pyval list" where
  "msg_answered_ids m =
     (if dget m ''role'' = PStr ''tool'' \<and> py_truthy (dget m ''tool_call_id'')
      then [dget m ''tool_call_id''] else [])"

definition chat_calls :: "pdict list \<Rightarrow> pyval \<Rightarrow> bool" where
  "chat_calls msgs v \<longleftrightarrow> (\<exists>m \<in> set msgs. pset_mem v (msg_call_ids m))"

definition chat_answers :: "pdict list \<Rightarrow> pyval \<Rightarrow> bool" where
  "chat_answers msgs v \<longleftrightarrow> (\<exists>m \<in> set msgs. pset_mem v (msg_answered_ids m))"

definition hashable :: "pyval \<Rightarrow> bool" where
  "hashable v \<longleftrightarrow> (case py_hash v of Inl _ \<Rightarrow> False | Inr _ \<Rightarrow> True)"

lemma hashable_iff: "hashable v \<longleftrightarrow> (\<exists>h. py_hash v = Inr h)"
  by (cases "py_hash v") (auto simp: hashable_def)

definition msg_regular :: "pdict \<Rightarrow> bool" where
  "msg_regular m \<longleftrightarrow>
     (dget m ''role'' = PStr ''assistant'' \<longrightarrow> (\<exists>tcs. py_iter (or_empty (dget m ''tool_calls'')) = Inr tcs)) \<and>
     (\<forall>v \<in> set (msg_call_ids m @ msg_answered_ids m). hashable v)"

lemma collect_calls_loop:
  "rfold collect_call S tcs = Inr S' \<longleftrightarrow>
   (\<forall>v \<in> set (filter py_truthy (map chat_call_id tcs)). hashable v) \<and>
   S' = pset_union S (filter py_truthy (map chat_call_id tcs))"
proof (induction tcs arbitrary: S)
  case (Cons tc tcs)
  then show ?case
    by (cases "py_hash (chat_call_id tc)")
      (auto simp: collect_call_def add_hashed_def hashable_def pset_union_def)
qed (auto simp: pset_union_def)

lemma collect_chat_step_iff:
  "collect_chat_step acc m = Inr acc' \<longleftrightarrow>
   msg_regular m \<and> acc' = (pset_union (fst acc) (msg_call_ids m), pset_union (snd acc) (msg_answered_ids m))"
proof (cases "dget m ''role'' = PStr ''assistant''")
  case True
  then show ?thesis
    by (cases "py_iter (or_empty (dget m ''tool_calls''))")
      (auto simp: collect_chat_step_def msg_regular_def msg_call_ids_def msg_answered_ids_def
        rbind_eq_Inr collect_calls_loop pset_union_def [of _ "[]"])
next
  case False
  then show ?thesis
    by (cases "py_hash (dget m ''tool_call_id'')")
      (auto simp: collect_chat_step_def msg_regular_def msg_call_ids_def msg_answered_ids_def
        add_hashed_def hashable_def pset_union_def Let_def)
qed

lemma collect_chat_loop:
  "rfold collect_chat_step acc msgs = Inr acc' \<Longrightarrow>
   list_all msg_regular msgs \<and> (pset_mem v (fst acc') \<longleftrightarrow> pset_mem v (fst acc) \<or> chat_calls msgs v) \<and>
   (pset_mem v (snd acc') \<longleftrightarrow> pset_mem v (snd acc) \<or> chat_answers msgs v)"
proof (induction msgs arbitrary: acc)
  case (Cons m msgs)
  then obtain acc1 where a: "collect_chat_step acc m = Inr acc1" "rfold collect_chat_step acc1 msgs = Inr acc'"
    by (auto elim!: rbind_InrE)
  from Cons.IH [OF a(2)] a(1) [unfolded collect_chat_step_iff] show ?case
    by (auto simp: chat_calls_def chat_answers_def)
qed (simp add: chat_calls_def chat_answers_def)

lemma collect_chat_total:
  "list_all msg_regular msgs \<Longrightarrow> \<exists>acc'. rfold collect_chat_step acc msgs = Inr acc'"
proof (induction msgs arbitrary: acc)
  case (Cons m msgs)
  then obtain acc1 where "collect_chat_step acc m = Inr acc1" by (auto simp: collect_chat_step_iff)
  with Cons show ?case by simp
qed simp

lemma collect_chat_ids:
  assumes "collect_openai_tool_ids msgs = Inr (known, answered)"
  shows "list_all msg_regular msgs" "pset_mem v known \<longleftrightarrow> chat_calls msgs v"
    "pset_mem v answered \<longleftrightarrow> chat_answers msgs v"
  using collect_chat_loop [OF assms [unfolded collect_openai_tool_ids_def], of v]
  by (simp_all add: pset_mem_def [of v "[]"])

lemma inject_loop:
  "rfold (inject_call answered p) st tcs = Inr st' \<Longrightarrow>
   st' = st\<lparr>orphaned_call_ids := orphaned_call_ids st @ pset_diff (filter py_truthy (map chat_call_id tcs)) answered,
            patched := patched st @ map (chat_synthetic p) (pset_diff (filter py_truthy (map chat_call_id tcs)) answered)\<rparr>"
proof (induction tcs arbitrary: st)
  case (Cons tc tcs)
  then obtain st1 where "inject_call answered p st tc = Inr st1"
      "rfold (inject_call answered p) st1 tcs = Inr st'" by (auto elim!: rbind_InrE)
  note a = this
  note Cons.IH [OF a(2)]
  with a(1) show ?case
    by (auto simp: inject_call_def Let_def pset_diff_def split: if_splits elim!: rbind_InrE)
qed (simp add: pset_diff_def)

definition chat_emitted :: "pyval list \<Rightarrow> pyval list \<Rightarrow> string \<Rightarrow> pdict \<Rightarrow> pdict list" where
  "chat_emitted known answered p m =
     (if pset_diff (msg_answered_ids m) known \<noteq> [] then []
      else m # map (chat_synthetic p) (pset_diff (msg_call_ids m) answered))"

lemma chat_keep_patched:
  "chat_keep answered p st m = Inr st' \<Longrightarrow>
   patched st' = patched st @ m # map (chat_synthetic p) (pset_diff (msg_call_ids m) answered)"
proof (cases "dget m ''role'' = PStr ''assistant''")
  case True
  assume "chat_keep answered p st m = Inr st'"
  with True obtain tcs where "py_iter (or_empty (dget m ''tool_calls'')) = Inr tcs"
    "rfold (inject_call answered p) (st\<lparr>patched := patched st @ [m]\<rparr>) tcs = Inr st'"
    by (simp add: chat_keep_def rbind_eq_Inr) blast
  with True inject_loop [OF this(2)] show ?thesis by (simp add: msg_call_ids_def)
qed (auto simp: chat_keep_def msg_call_ids_def pset_diff_def)

lemma chat_step_patched:
  assumes "chat_fix_step known answered p st m = Inr st'"
  shows "patched st' = patched st @ chat_emitted known answered p m"
  using assms chat_keep_patched [of answered p st m st']
  by (auto simp: chat_fix_step_def chat_emitted_def msg_answered_ids_def pset_diff_def Let_def
      split: if_splits elim!: rbind_InrE)

lemma chat_loop_patched:
  "rfold (chat_fix_step known answered p) st msgs = Inr st' \<Longrightarrow>
   patched st' = patched st @ concat (map (chat_emitted known answered p) msgs)"
  by (induction msgs arbitrary: st) (auto dest: chat_step_patched elim!: rbind_InrE)

lemma chat_fix_output:
  assumes "fix_orphaned_tool_calls p msgs = Inr (out, logs)"
  obtains known answered where "collect_openai_tool_ids msgs = Inr (known, answered)"
    "out = concat (map (chat_emitted known answered p) msgs)"
proof -
  obtain known answered where c: "collect_openai_tool_ids msgs = Inr (known, answered)"
    using assms by (auto simp: fix_orphaned_tool_calls_def elim!: rbind_InrE)
  have "out = concat (map (chat_emitted known answered p) msgs)"
  proof (cases "known = [] \<and> answered = []")
    case True
    have "msg_answered_ids m = [] \<and> msg_call_ids m = []" if "m \<in> set msgs" for m
    proof -
      have "\<not> pset_mem v (msg_call_ids m)" "\<not> pset_mem v (msg_answered_ids m)" for v
        using collect_chat_ids(2,3) [OF c, of v] True that
        by (auto simp: chat_calls_def chat_answers_def pset_mem_def [of _ "[]"])
      then show ?thesis using pset_mem_member [of "hd (msg_call_ids m)"] pset_mem_member [of "hd (msg_answered_ids m)"]
        by (metis list.set_sel(1))
    qed
    then have "concat (map (chat_emitted known answered p) msgs) = concat (map (\<lambda>m. [m]) msgs)"
      by (intro arg_cong [of _ _ concat] map_cong) (auto simp: chat_emitted_def pset_diff_def)
    then show ?thesis using assms c True by (simp add: fix_orphaned_tool_calls_def)
  next
    case False
    then show ?thesis
      using assms c by (auto simp: fix_orphaned_tool_calls_def dest!: chat_loop_patched elim!: rbind_InrE)
  qed
  with c that show thesis by blast
qed

lemma chat_synthetic_facts [simp]:
  "dget (chat_synthetic p v) ''role'' = PStr ''tool''"
  "msg_call_ids (chat_synthetic p v) = []"
  "py_truthy v \<Longrightarrow> msg_answered_ids (chat_synthetic p v) = [v]"
  by (simp_all add: chat_synthetic_def msg_call_ids_def msg_answered_ids_def)

lemma msg_call_ids_truthy: "v \<in> set (msg_call_ids m) \<Longrightarrow> py_truthy v"
proof -
  assume v: "v \<in> set (msg_call_ids m)"
  then obtain tcs where "msg_call_ids m = filter py_truthy tcs"
    unfolding msg_call_ids_def by (cases "py_iter (or_empty (dget m ''tool_calls''))") (metis sum.case filter.simps(1))+
  with v show "py_truthy v" by simp
qed

lemma msg_ids_disjoint: "msg_call_ids m = [] \<or> msg_answered_ids m = []"
  by (simp add: msg_call_ids_def msg_answered_ids_def)

interpretation chat_pairs: pairing msg_call_ids msg_answered_ids "chat_synthetic p" for p
proof
  fix m v
  show "msg_call_ids m = [] \<or> msg_answered_ids m = []" by (rule msg_ids_disjoint)
  show "length (msg_answered_ids m) \<le> 1" by (simp add: msg_answered_ids_def)
  show "msg_call_ids (chat_synthetic p v) = []" by simp
  show "v \<in> set (msg_call_ids m) \<Longrightarrow> msg_answered_ids (chat_synthetic p v) = [v]"
    using msg_call_ids_truthy by simp
qed

lemma chat_fix_pairing:
  "chat_emitted known answered p = pair_emitted msg_call_ids msg_answered_ids (chat_synthetic p) known answered"
  "chat_calls = id_in msg_call_ids" "chat_answers = id_in msg_answered_ids"
  by (auto simp: fun_eq_iff chat_emitted_def pair_emitted_def chat_calls_def chat_answers_def id_in_def)

lemma chat_fix_calls:
  assumes "collect_openai_tool_ids msgs = Inr (known, answered)"
  shows "chat_calls (concat (map (chat_emitted known answered p) msgs)) v \<longleftrightarrow> chat_calls msgs v"
  unfolding chat_fix_pairing by (rule chat_pairs.fixed_calls)

lemma chat_fix_answers:
  assumes c: "collect_openai_tool_ids msgs = Inr (known, answered)"
  shows "chat_answers (concat (map (chat_emitted known answered p) msgs)) v \<longleftrightarrow> chat_calls msgs v"
  using collect_chat_ids(2,3) [OF c] unfolding chat_fix_pairing by (rule chat_pairs.fixed_answers)

lemma chat_fix_non_tool:
  "filter (\<lambda>m. dget m ''role'' \<noteq> PStr ''tool'') (concat (map (chat_emitted known answered p) msgs)) =
   filter (\<lambda>m. dget m ''role'' \<noteq> PStr ''tool'') msgs"
  unfolding chat_fix_pairing by (rule chat_pairs.fixed_others) (auto simp: msg_answered_ids_def split: if_splits)

lemma chat_fix_regular:
  assumes c: "collect_openai_tool_ids msgs = Inr (known, answered)"
  shows "list_all msg_regular (concat (map (chat_emitted known answered p) msgs))"
  unfolding list_all_iff
proof
  fix t assume "t \<in> set (concat (map (chat_emitted known answered p) msgs))"
  then obtain m where m: "m \<in> set msgs" "t \<in> set (chat_emitted known answered p m)" by auto
  have r: "msg_regular m" using collect_chat_ids(1) [OF c] m by (simp add: list_all_iff)
  consider "t = m" | w where "w \<in> set (msg_call_ids m)" "t = chat_synthetic p w"
    using m(2) by (auto simp: chat_emitted_def pset_diff_def split: if_splits)
  then show "msg_regular t"
  proof cases
    case 2
    with r msg_call_ids_truthy [OF 2(1)] show ?thesis by (simp add: msg_regular_def)
  qed (use r in simp)
qed

text \<open>A conversation whose calls and answers agree passes unchanged.\<close>

lemma inject_answered:
  "\<forall>v \<in> set (filter py_truthy (map chat_call_id tcs)). hashable v \<and> pset_mem v answered \<Longrightarrow>
   rfold (inject_call answered p) st tcs = Inr st"
  by (induction tcs) (auto simp: inject_call_def Let_def hashable_iff)

lemma chat_keep_answered:
  assumes "msg_regular m" "\<And>v. v \<in> set (msg_call_ids m) \<Longrightarrow> pset_mem v answered"
  shows "chat_keep answered p st m = Inr (st\<lparr>patched := patched st @ [m]\<rparr>)"
proof (cases "dget m ''role'' = PStr ''assistant''")
  case True
  then obtain tcs where t: "py_iter (or_empty (dget m ''tool_calls'')) = Inr tcs"
    using assms(1) by (auto simp: msg_regular_def)
  have "rfold (inject_call answered p) (st\<lparr>patched := patched st @ [m]\<rparr>) tcs
      = Inr (st\<lparr>patched := patched st @ [m]\<rparr>)"
    by (rule inject_answered) (use assms True t in \<open>simp add: msg_regular_def msg_call_ids_def\<close>)
  with True t show ?thesis by (simp add: chat_keep_def)
qed (simp add: chat_keep_def)

lemma chat_step_answered:
  assumes "msg_regular m" "\<And>v. v \<in> set (msg_call_ids m) \<Longrightarrow> pset_mem v answered"
    "\<And>v. v \<in> set (msg_answered_ids m) \<Longrightarrow> pset_mem v known"
  shows "chat_fix_step known answered p st m = Inr (st\<lparr>patched := patched st @ [m]\<rparr>)"
  using assms(1,3) chat_keep_answered [OF assms(1,2), of p st]
  by (auto simp: chat_fix_step_def Let_def msg_regular_def msg_answered_ids_def hashable_iff)

lemma chat_paired_id:
  assumes r: "list_all msg_regular msgs" and "\<And>v. chat_calls msgs v \<longleftrightarrow> chat_answers msgs v"
  shows "fix_orphaned_tool_calls p msgs = Inr (msgs, [])"
proof -
  obtain known answered where c: "collect_openai_tool_ids msgs = Inr (known, answered)"
    using collect_chat_total [OF r, of "([], [])"] by (auto simp: collect_openai_tool_ids_def)
  note mem = collect_chat_ids(2,3) [OF c]
  let ?st = "\<lparr>patched = [], orphaned_call_ids = [], orphaned_result_ids = []\<rparr>"
  have step: "chat_fix_step known answered p st m = Inr (st\<lparr>patched := patched st @ [m]\<rparr>)"
    if m: "m \<in> set msgs" for st m
  proof (rule chat_step_answered)
    show "msg_regular m" using r m by (simp add: list_all_iff)
    show "pset_mem v answered" if "v \<in> set (msg_call_ids m)" for v
      unfolding mem assms(2) [symmetric] chat_calls_def using m pset_mem_member [OF that] by blast
    show "pset_mem v known" if "v \<in> set (msg_answered_ids m)" for v
      unfolding mem assms(2) chat_answers_def using m pset_mem_member [OF that] by blast
  qed
  have "rfold (chat_fix_step known answered p) st ms = Inr (st\<lparr>patched := patched st @ ms\<rparr>)"
    if "set ms \<subseteq> set msgs" for st ms
    using that by (induction ms arbitrary: st) (simp_all add: step)
  from this [of msgs ?st] show ?thesis
    using c by (simp add: fix_orphaned_tool_calls_def log_orphan_warnings_def)
qed

section \<open>Round trips\<close>

lemma arguments_round_trip:
  "json_ok flt (PDict d) \<Longrightarrow>
   parse_arguments flt (PStr (json_dumps default_opts (PDict d))) = Inr (PDict d)"
  using json_round_trip [OF default_opts_plain, of flt "PDict d"]
  by (simp add: parse_arguments_def loads_value_def del: json_ok.simps)

section \<open>Properties\<close>

text \<open>
  C26. Whenever the pairing fix of the Chat messages returns, every call id of the output is
  answered and every answered id is called; the messages that are no tool messages are kept in
  order; and a second run returns its input with no log record.
\<close>

theorem chat_fix_pairs:
  assumes "fix_orphaned_tool_calls p msgs = Inr (out, logs)"
  shows "(\<forall>v. chat_calls out v \<longleftrightarrow> chat_answers out v) \<and>
    filter (\<lambda>m. dget m ''role'' \<noteq> PStr ''tool'') out =
      filter (\<lambda>m. dget m ''role'' \<noteq> PStr ''tool'') msgs \<and>
    fix_orphaned_tool_calls p out = Inr (out, [])"
proof -
  obtain known answered where c: "collect_openai_tool_ids msgs = Inr (known, answered)"
    and out: "out = concat (map (chat_emitted known answered p) msgs)"
    using chat_fix_output [OF assms] by blast
  have "chat_calls out v \<longleftrightarrow> chat_answers out v" for v
    unfolding out chat_fix_calls [OF c] chat_fix_answers [OF c] ..
  moreover from this have "fix_orphaned_tool_calls p out = Inr (out, [])"
    by (intro chat_paired_id) (use chat_fix_regular [OF c] out in simp_all)
  ultimately show ?thesis using chat_fix_non_tool out by simp
qed

definition demo_chat :: "pdict list" where
  "demo_chat =
     [[(''role'', PStr ''assistant''), (''tool_calls'', PList [PDict [(''id'', PStr ''a'')]])],
      [(''role'', PStr ''tool''), (''tool_call_id'', PStr ''b''), (''content'', PStr ''x'')]]"

lemma demo_chat_fix:
  "\<exists>logs. fix_orphaned_tool_calls ''-'' demo_chat = Inr ([hd demo_chat, chat_synthetic ''-'' (PStr ''a'')], logs)"
  by (simp add: demo_chat_def fix_orphaned_tool_calls_def collect_openai_tool_ids_def collect_chat_step_def
      or_empty_def chat_call_id_def collect_call_def add_hashed_def pset_add_def pset_mem_def
      chat_fix_step_def chat_keep_def inject_call_def log_orphan_warnings_def py_join_def Let_def)

theorem chat_fix_pairs_witness:
  "\<exists>out logs. fix_orphaned_tool_calls ''-'' demo_chat = Inr (out, logs) \<and> length out = 2 \<and>
     fix_orphaned_tool_calls ''-'' out = Inr (out, [])"
  using demo_chat_fix chat_fix_pairs by fastforce

text \<open>
  A tool call with a dict input survives the Chat format: converting the IR part and
  converting the result back gives the part with its id, its name and its input, whenever the
  input is a value that JSON text carries.
\<close>

theorem chat_tool_call_round_trip:
  assumes "map_of part ''tool_call_id'' = Some (PStr i)" "map_of part ''tool_name'' = Some (PStr name)"
    "map_of part ''tool_input'' = Some (PDict input)" "dget part ''tool_type'' \<noteq> PStr ''computer_use''"
    "json_ok flt (PDict input)"
  shows "rbind (ir_tool_call_to_p part) (p_tool_call_to_ir flt) =
    Inr [(''type'', PStr ''tool_call''), (''tool_call_id'', PStr i), (''tool_name'', PStr name),
         (''tool_input'', PDict input), (''tool_type'', PStr ''function'')]"
  using assms arguments_round_trip [OF assms(5)]
  by (simp add: ir_tool_call_to_p_def p_tool_call_to_ir_def ditem_def dget_or_def)

theorem chat_tool_call_round_trip_witness:
  "rbind (ir_tool_call_to_p [(''type'', PStr ''tool_call''), (''tool_call_id'', PStr ''c1''),
      (''tool_name'', PStr ''ls''), (''tool_input'', PDict [(''n'', PInt (-3)), (''q'', PStr ''a/b'')])])
     (p_tool_call_to_ir id) =
   Inr [(''type'', PStr ''tool_call''), (''tool_call_id'', PStr ''c1''), (''tool_name'', PStr ''ls''),
        (''tool_input'', PDict [(''n'', PInt (-3)), (''q'', PStr ''a/b'')]), (''tool_type'', PStr ''function'')]"
  by (rule chat_tool_call_round_trip) (simp_all add: nat_str.simps)

text \<open>
  A tool choice with one of the four modes, a tool mode with a name, survives the Chat format:
  converting it and converting the result back gives the same mode and name, and the name is
  empty for the modes that name no tool.
\<close>

theorem chat_tool_choice_round_trip:
  assumes "mode \<in> {''none'', ''auto'', ''any'', ''tool''}" "mode = ''tool'' \<longleftrightarrow> name \<noteq> ''''"
  shows "p_tool_choice_to_ir (ir_tool_choice_to_p (tool_choice mode (PStr name))) =
    Inr (tool_choice mode (PStr name))"
  using assms
  by (auto simp: ir_tool_choice_to_p_def p_tool_choice_to_ir_def tool_choice_def Let_def)

theorem chat_tool_choice_round_trip_witness:
  "p_tool_choice_to_ir (ir_tool_choice_to_p (tool_choice ''tool'' (PStr ''ls''))) =
    Inr (tool_choice ''tool'' (PStr ''ls''))"
  by (rule chat_tool_choice_round_trip) simp_all

end
