(* ===== verification/AnthropicToolOps.thy ===== *)
theory AnthropicToolOps
  imports AnthropicContentOps ChatToolOps
begin

text \<open>
  \<open>converters/anthropic/tool_ops.py\<close>: tool definitions, choices, calls, results and configurations
  between the IR and the Anthropic format, and the pairing of \<open>tool_use\<close> and \<open>tool_result\<close>
  blocks. The order in which Python iterates over a set is the parameter \<open>enum\<close>.
\<close>

section \<open>Pairing of tool blocks\<close>

definition use_ids :: "pyval \<Rightarrow> pyval list res" where
  "use_ids content = extract_part_ids content ''tool_use'' ''id''"

definition answered_use_ids :: "pyval \<Rightarrow> pyval list res" where
  "answered_use_ids content = extract_part_ids content ''tool_result'' ''tool_use_id''"

definition collect_anthropic_step ::
  "pyval list \<times> pyval list \<Rightarrow> pdict \<Rightarrow> (pyval list \<times> pyval list) res" where
  "collect_anthropic_step acc msg =
     (let content = msg_content msg in
      if \<not> is_list content then Inr acc
      else
        rbind (use_ids content) (\<lambda>us.
        rbind (answered_use_ids content) (\<lambda>rs.
          Inr (pset_union (fst acc) us, pset_union (snd acc) rs))))"

definition collect_anthropic_tool_ids :: "pdict list \<Rightarrow> (pyval list \<times> pyval list) res" where
  "collect_anthropic_tool_ids messages = rfold collect_anthropic_step ([], []) messages"

text \<open>\<open>not (isinstance(b, dict) and b.get("tool_use_id") in orphaned)\<close>, which hashes the id.\<close>

definition not_orphaned :: "pyval list \<Rightarrow> pyval \<Rightarrow> bool res" where
  "not_orphaned orphaned b =
     (case as_dict b of
        None \<Rightarrow> Inr True
      | Some d \<Rightarrow> rbind (py_hash (dget d ''tool_use_id'')) (\<lambda>_. Inr (\<not> pset_mem (dget d ''tool_use_id'') orphaned)))"

definition rfilter :: "('a \<Rightarrow> bool res) \<Rightarrow> 'a list \<Rightarrow> 'a list res" where
  "rfilter p xs = rbind (rmap (\<lambda>x. rbind (p x) (\<lambda>b. Inr (x, b))) xs) (\<lambda>ys. Inr (map fst (filter snd ys)))"

definition synthetic_user :: "string \<Rightarrow> pyval list \<Rightarrow> pdict" where
  "synthetic_user placeholder uids =
     [(''role'', PStr ''user''),
      (''content'', PList (map (\<lambda>uid. PDict [(''type'', PStr ''tool_result''), (''tool_use_id'', uid),
                                            (''content'', PStr placeholder)]) uids))]"

text \<open>The loop body after the \<open>continue\<close> of a message that holds orphaned results only.\<close>

definition anthropic_keep ::
  "(pyval list \<Rightarrow> pyval list) \<Rightarrow> pyval list \<Rightarrow> string \<Rightarrow> pyval \<Rightarrow> fix_state \<Rightarrow> pdict \<Rightarrow> fix_state res" where
  "anthropic_keep enum answered placeholder content st msg =
     (let st = st\<lparr>patched := patched st @ [msg]\<rparr> in
      if dget msg ''role'' = PStr ''assistant'' \<and> is_list content then
        rbind (use_ids content) (\<lambda>ids.
          let unanswered = pset_diff ids answered in
          Inr (if unanswered \<noteq> []
               then st\<lparr>orphaned_call_ids := orphaned_call_ids st @ enum unanswered,
                       patched := patched st @ [synthetic_user placeholder (enum unanswered)]\<rparr>
               else st))
      else Inr st)"

definition anthropic_fix_step ::
  "(pyval list \<Rightarrow> pyval list) \<Rightarrow> pyval list \<Rightarrow> pyval list \<Rightarrow> string \<Rightarrow> fix_state \<Rightarrow> pdict \<Rightarrow> fix_state res" where
  "anthropic_fix_step enum known answered placeholder st msg =
     (let content = msg_content msg in
      if dget msg ''role'' = PStr ''user'' \<and> is_list content then
        rbind (answered_use_ids content) (\<lambda>ids.
          let orphaned = pset_diff ids known in
          if orphaned = [] then anthropic_keep enum answered placeholder content st msg
          else
            let st = st\<lparr>orphaned_result_ids := orphaned_result_ids st @ enum orphaned\<rparr> in
            rbind (py_iter content) (\<lambda>bs.
            rbind (rfilter (not_orphaned orphaned) bs) (\<lambda>filtered.
              if filtered = [] then Inr st
              else anthropic_keep enum answered placeholder content st (dset msg ''content'' (PList filtered)))))
      else anthropic_keep enum answered placeholder content st msg)"

definition fix_orphaned_tool_use ::
  "(pyval list \<Rightarrow> pyval list) \<Rightarrow> string \<Rightarrow> pdict list \<Rightarrow> (pdict list \<times> string list) res" where
  "fix_orphaned_tool_use enum placeholder messages =
     rbind (collect_anthropic_tool_ids messages) (\<lambda>(known, answered).
       if known = [] \<and> answered = [] then Inr (messages, [])
       else
         rbind (rfold (anthropic_fix_step enum known answered placeholder)
                  \<lparr>patched = [], orphaned_call_ids = [], orphaned_result_ids = []\<rparr> messages)
           (\<lambda>st. rbind (log_orphan_warnings (orphaned_call_ids st) (orphaned_result_ids st)
                          ''tool_use'' ''tool_result'')
             (\<lambda>logs. Inr (patched st, logs))))"

section \<open>Tool definitions\<close>

definition object_schema :: "pyval \<Rightarrow> pyval" where
  "object_schema schema =
     (case as_dict schema of
        Some d \<Rightarrow> if dhas d ''type'' then schema else PDict ((''type'', PStr ''object'') # d)
      | None \<Rightarrow> schema)"

definition anthropic_tool_definition_to_p ::
  "'t::linorder sanitize_env \<Rightarrow> pdict \<Rightarrow> 't caches \<Rightarrow> (pyval \<times> 't caches) res" where
  "anthropic_tool_definition_to_p env ir_tool cs =
     rbind (ditem ir_tool ''name'') (\<lambda>name.
     let raw_schema = dget_or ir_tool ''parameters'' (PDict []) in
     rbind (case as_dict raw_schema of Some d \<Rightarrow> sanitize_in env d cs | None \<Rightarrow> Inr (raw_schema, cs))
       (\<lambda>(schema, cs').
         Inr (PDict [(''name'', name), (''description'', dget_or ir_tool ''description'' (PStr '''')),
                     (''input_schema'', object_schema schema)], cs')))"

definition anthropic_tool_definition_to_ir :: "pyval \<Rightarrow> pdict res" where
  "anthropic_tool_definition_to_ir provider_tool =
     rbind (py_get provider_tool ''input_schema'' (PDict [])) (\<lambda>parameters.
     rbind (py_get provider_tool ''name'' (PStr '''')) (\<lambda>name.
     rbind (py_get provider_tool ''description'' (PStr '''')) (\<lambda>description.
       Inr [(''type'', PStr ''function''), (''name'', name), (''description'', description),
            (''parameters'', parameters),
            (''required_parameters'',
              case as_dict parameters of
                Some p \<Rightarrow> if dhas p ''required'' then dget p ''required'' else PList []
              | None \<Rightarrow> PList []),
            (''metadata'', PDict [])])))"

section \<open>Tool choice and configuration\<close>

definition anthropic_tool_choice_to_p :: "pdict \<Rightarrow> pdict" where
  "anthropic_tool_choice_to_p ir_tool_choice =
     (let mode = dget_or ir_tool_choice ''mode'' (PStr ''auto'') in
      if mode = PStr ''none'' then [(''type'', PStr ''none'')]
      else if mode = PStr ''auto'' then [(''type'', PStr ''auto'')]
      else if mode = PStr ''any'' then [(''type'', PStr ''any'')]
      else if mode = PStr ''tool'' then
        (let tool_name = dget ir_tool_choice ''tool_name'' in
         [(''type'', PStr ''tool'')] @ (if py_truthy tool_name then [(''name'', tool_name)] else []))
      else [])"

definition anthropic_tool_choice_to_ir :: "pyval \<Rightarrow> pdict" where
  "anthropic_tool_choice_to_ir provider_tool_choice =
     (case as_dict provider_tool_choice of
        None \<Rightarrow> tool_choice ''auto'' (PStr '''')
      | Some d \<Rightarrow>
          let choice_type = dget_or d ''type'' (PStr ''auto'') in
          if choice_type = PStr ''auto'' then tool_choice ''auto'' (PStr '''')
          else if choice_type = PStr ''any'' then tool_choice ''any'' (PStr '''')
          else if choice_type = PStr ''tool'' then tool_choice ''tool'' (dget_or d ''name'' (PStr ''''))
          else if choice_type = PStr ''none'' then tool_choice ''none'' (PStr '''')
          else tool_choice ''auto'' (PStr ''''))"

definition anthropic_tool_config_to_p :: "pdict \<Rightarrow> pdict" where
  "anthropic_tool_config_to_p ir_tool_config =
     copy_fields [(''disable_parallel'', ''disable_parallel_tool_use'')] ir_tool_config []"

definition anthropic_tool_config_to_ir :: "pyval \<Rightarrow> pdict" where
  "anthropic_tool_config_to_ir provider_tool_config =
     (case as_dict provider_tool_config of
        Some d \<Rightarrow>
          (let disable_parallel = dget d ''disable_parallel_tool_use'' in
           if disable_parallel \<noteq> PNone then [(''disable_parallel'', disable_parallel)] else [])
      | None \<Rightarrow> [])"

section \<open>Tool calls\<close>

definition anthropic_tool_call_to_p :: "pdict \<Rightarrow> pdict res" where
  "anthropic_tool_call_to_p ir_tool_call =
     (let tool_type = dget_or ir_tool_call ''tool_type'' (PStr ''function'');
          tool_input = dget_or ir_tool_call ''tool_input'' (PDict []) in
      if tool_type = PStr ''computer_use'' then Inl NotImplementedError
      else
        rbind (ditem ir_tool_call ''tool_call_id'') (\<lambda>id.
        rbind (if tool_type = PStr ''web_search'' then Inr (PStr ''server_tool_use'', PStr ''web_search'')
               else rbind (ditem ir_tool_call ''tool_name'') (\<lambda>name. Inr (PStr ''tool_use'', name)))
          (\<lambda>(block_type, name).
            Inr (copy_fields [(''provider_metadata'', ''_provider_metadata'')] ir_tool_call
              [(''type'', block_type), (''id'', id), (''name'', name), (''input'', tool_input)]))))"

definition anthropic_tool_call_to_ir :: "pyval \<Rightarrow> pdict res" where
  "anthropic_tool_call_to_ir provider_tool_call =
     (case as_dict provider_tool_call of
        None \<Rightarrow> Inl AttributeError
      | Some d \<Rightarrow>
          let tool_name = dget_or d ''name'' (PStr '''');
              tool_type = (if dget_or d ''type'' (PStr ''tool_use'') = PStr ''server_tool_use'' \<and>
                              tool_name = PStr ''web_search'' then ''web_search'' else ''function'') in
          Inr (keep_metadata ''provider_metadata'' (dget d ''_provider_metadata'')
            [(''type'', PStr ''tool_call''), (''tool_call_id'', dget_or d ''id'' (PStr '''')),
             (''tool_name'', tool_name), (''tool_input'', dget_or d ''input'' (PDict [])),
             (''tool_type'', PStr tool_type)]))"

section \<open>Tool results\<close>

definition anthropic_tool_result_to_p :: "pdict \<Rightarrow> pdict res" where
  "anthropic_tool_result_to_p ir_tool_result =
     rbind (ditem ir_tool_result ''tool_call_id'') (\<lambda>id.
     let content = dget_or ir_tool_result ''result'' (PStr '''') in
     rbind (if is_str content then Inr content
            else case as_list content of
              Some blocks \<Rightarrow>
                rbind (convert_ir_content_blocks_to_p anthropic_content_ops blocks) (\<lambda>bs. Inr (PList bs))
            | None \<Rightarrow>
                Inr (PStr (if content \<noteq> PNone then json_dumps default_opts content else ''''))) (\<lambda>c.
     let r = [(''type'', PStr ''tool_result''), (''tool_use_id'', id), (''content'', c)];
         is_error = dget ir_tool_result ''is_error'';
         r = (if is_error \<noteq> PNone then dset r ''is_error'' is_error else r) in
       Inr (copy_fields [(''provider_metadata'', ''_provider_metadata'')] ir_tool_result r)))"

definition anthropic_tool_result_to_ir :: "pyval \<Rightarrow> pdict res" where
  "anthropic_tool_result_to_ir provider_tool_result =
     (case as_dict provider_tool_result of
        None \<Rightarrow> Inl AttributeError
      | Some d \<Rightarrow>
          let content = dget_or d ''content'' (PStr '''') in
          rbind (case as_list content of
                   Some blocks \<Rightarrow>
                     rbind (convert_content_blocks_to_ir anthropic_content_ops blocks) (\<lambda>bs. Inr (PList bs))
                 | None \<Rightarrow> Inr content) (\<lambda>c.
            Inr (keep_metadata ''provider_metadata'' (dget d ''_provider_metadata'')
              [(''type'', PStr ''tool_result''), (''tool_call_id'', dget_or d ''tool_use_id'' (PStr '''')),
               (''result'', c), (''is_error'', dget_or d ''is_error'' (PBool False))])))"

end
