(* ===== verification/ChatToolOrder.thy ===== *)
theory ChatToolOrder
  imports PyValue
begin

text \<open>
  The tool messages of a Chat request: \<open>OpenAIChatMessageOps._reorder_tool_messages\<close>,
  \<open>_inject_packed_tool_content\<close>, \<open>_is_synthetic_tool_content_msg\<close> and \<open>_unpack_tool_content\<close> of
  \<open>converters/openai_chat/message_ops.py\<close>, with the tags of \<open>converters/openai_chat/_constants.py\<close>.

  The code tells the tool messages it has placed from the others by \<open>id(tool_msg)\<close>; each entry of
  the message list is an object of its own, so the model uses the position of the message among
  the tool messages.
\<close>

section \<open>Reordering\<close>

definition is_tool_msg :: "pdict \<Rightarrow> bool" where
  "is_tool_msg m = (dget m ''role'' = PStr ''tool'')"

type_synonym tool_groups = "(nat \<times> pdict) list hdict"

definition group_step :: "tool_groups \<Rightarrow> nat \<times> pdict \<Rightarrow> tool_groups res" where
  "group_step tool_by_id tm =
     (let tcid = dget (snd tm) ''tool_call_id'' in
      if py_truthy tcid then
        rbind (hget tool_by_id tcid) (\<lambda>g.
          hset tool_by_id tcid ((case g of Some l \<Rightarrow> l | None \<Rightarrow> []) @ [tm]))
      else Inr tool_by_id)"

text \<open>The rebuilt list and the positions of the tool messages it holds.\<close>

type_synonym placed = "pdict list \<times> nat list"

definition place_call :: "tool_groups \<Rightarrow> placed \<Rightarrow> pyval \<Rightarrow> placed res" where
  "place_call tool_by_id acc tc =
     rbind (py_get tc ''id'' PNone) (\<lambda>tcid.
       if py_truthy tcid then
         rbind (hget tool_by_id tcid) (\<lambda>g.
           case g of
             Some l \<Rightarrow> Inr (fst acc @ map snd l, snd acc @ map fst l)
           | None \<Rightarrow> Inr acc)
       else Inr acc)"

definition place_message :: "tool_groups \<Rightarrow> placed \<Rightarrow> pdict \<Rightarrow> placed res" where
  "place_message tool_by_id acc m =
     (let acc = (fst acc @ [m], snd acc) in
      if dget m ''role'' = PStr ''assistant'' \<and> dhas m ''tool_calls'' then
        rbind (py_iter (dget m ''tool_calls'')) (rfold (place_call tool_by_id) acc)
      else Inr acc)"

definition unmatched_warning :: "pdict \<Rightarrow> string" where
  "unmatched_warning tm =
     ''Tool message with tool_call_id='' @ [CHR 0x27] @ py_str (dget tm ''tool_call_id'') @ [CHR 0x27] @
     '' has no matching assistant tool_calls entry''"

definition reorder_warning :: string where
  "reorder_warning =
     ''Reordered tool messages to follow assistant tool_calls (workaround for Codex CLI item ordering)''"

definition messages_eq :: "pdict list \<Rightarrow> pdict list \<Rightarrow> bool" where
  "messages_eq xs ys = py_eq (PList (map PDict xs)) (PList (map PDict ys))"

definition reorder_tool_messages :: "pdict list \<Rightarrow> string list \<Rightarrow> (pdict list \<times> string list) res" where
  "reorder_tool_messages messages warnings =
     (let tool_msgs = enumerate 0 (filter is_tool_msg messages);
          non_tool = filter (\<lambda>m. \<not> is_tool_msg m) messages in
      if tool_msgs = [] then Inr (messages, warnings)
      else
        rbind (rfold group_step [] tool_msgs) (\<lambda>tool_by_id.
        rbind (rfold (place_message tool_by_id) ([], []) non_tool) (\<lambda>(placed, matched).
          let unmatched = map snd (filter (\<lambda>tm. fst tm \<notin> set matched) tool_msgs);
              result = placed @ unmatched;
              warnings = warnings @ map unmatched_warning unmatched in
          Inr (result, if messages_eq result messages then warnings else warnings @ [reorder_warning]))))"

section \<open>Packed tool content\<close>

definition close_tag :: string where
  "close_tag = ''</tool-content>''"

definition open_tag :: "string \<Rightarrow> string" where
  "open_tag tcid = ''<tool-content call-id='' @ [CHR 0x22] @ tcid @ [CHR 0x22, CHR ''>'']"

definition text_block :: "string \<Rightarrow> pdict" where
  "text_block t = [(''type'', PStr ''text''), (''text'', PStr t)]"

definition pack_parts :: "pdict list hdict \<Rightarrow> pyval \<Rightarrow> pdict list res" where
  "pack_parts packs tcid =
     (if py_truthy tcid then
        rbind (hget packs tcid) (\<lambda>p.
          case p of
            Some blocks \<Rightarrow> Inr (text_block (open_tag (py_str tcid)) # blocks @ [text_block close_tag])
          | None \<Rightarrow> Inr [])
      else Inr [])"

definition synthetic_message :: "pdict list \<Rightarrow> pdict" where
  "synthetic_message parts = [(''role'', PStr ''user''), (''content'', PList (map PDict parts))]"

function inject_loop :: "pdict list hdict \<Rightarrow> pdict list \<Rightarrow> pdict list res" where
  "inject_loop packs [] = Inr []"
| "inject_loop packs (msg # rest) =
     (if is_tool_msg msg then
        let group = msg # takeWhile is_tool_msg rest in
        rbind (rmap (\<lambda>m. pack_parts packs (dget m ''tool_call_id'')) group) (\<lambda>parts.
        rbind (inject_loop packs (dropWhile is_tool_msg rest)) (\<lambda>result.
          Inr (group @ (if concat parts \<noteq> [] then [synthetic_message (concat parts)] else []) @ result)))
      else rbind (inject_loop packs rest) (\<lambda>result. Inr (msg # result)))"
  by pat_completeness auto

termination
  by (relation "measure (\<lambda>(packs, ms). length ms)") (auto simp: le_imp_less_Suc length_dropWhile_le)

definition inject_packed_tool_content :: "pdict list \<Rightarrow> pdict list hdict \<Rightarrow> pdict list res" where
  "inject_packed_tool_content messages packs =
     (if packs = [] then Inr messages else inject_loop packs messages)"

section \<open>Unpacking\<close>

text \<open>The white space of a text pattern among the code points of the model.\<close>

definition is_space :: "char \<Rightarrow> bool" where
  "is_space c =
     (let n = of_char c :: nat in (9 \<le> n \<and> n \<le> 13) \<or> (28 \<le> n \<and> n \<le> 32) \<or> n = 133 \<or> n = 160)"

text \<open>The group of the pattern of an opening tag, whose end mark also matches before a last line feed.\<close>

definition match_open_tag :: "string \<Rightarrow> string option" where
  "match_open_tag s =
     (let rest = drop 13 s; attr = dropWhile is_space rest; val = drop 9 attr;
          tcid = takeWhile (\<lambda>c. c \<noteq> CHR 0x22) val; tail = drop (length tcid) val in
      if starts_with s ''<tool-content'' \<and> takeWhile is_space rest \<noteq> [] \<and>
         starts_with attr (''call-id='' @ [CHR 0x22]) \<and> tcid \<noteq> [] \<and>
         (tail = [CHR 0x22, CHR ''>''] \<or> tail = [CHR 0x22, CHR ''>'', CHR 0x0A])
      then Some tcid else None)"

definition match_tag_value :: "pyval \<Rightarrow> string option res" where
  "match_tag_value v = (case as_str v of Some s \<Rightarrow> Inr (match_open_tag s) | None \<Rightarrow> Inl TypeError)"

definition is_synthetic_tool_content_msg :: "pyval \<Rightarrow> bool res" where
  "is_synthetic_tool_content_msg msg =
     rbind (py_get msg ''role'' PNone) (\<lambda>role.
       if role \<noteq> PStr ''user'' then Inr False
       else
         rbind (py_get msg ''content'' PNone) (\<lambda>content.
           case as_list content of
             Some (first # _) \<Rightarrow>
               (case as_dict first of
                  Some f \<Rightarrow>
                    if dget f ''type'' = PStr ''text'' then
                      rbind (match_tag_value (dget_or f ''text'' (PStr ''''))) (\<lambda>g. Inr (g \<noteq> None))
                    else Inr False
                | None \<Rightarrow> Inr False)
           | _ \<Rightarrow> Inr False))"

type_synonym unpacked_map = "(string \<times> pdict list) list"

text \<open>The scan of one synthetic message: the map, the open section and its blocks.\<close>

record unpack_state =
  unpacked :: unpacked_map
  current_call_id :: "string option"
  current_blocks :: "pdict list"

definition save_section :: "unpack_state \<Rightarrow> unpacked_map" where
  "save_section st =
     (case current_call_id st of
        Some c \<Rightarrow> if c \<noteq> [] \<and> current_blocks st \<noteq> [] then dset (unpacked st) c (current_blocks st)
                  else unpacked st
      | None \<Rightarrow> unpacked st)"

definition add_block :: "unpack_state \<Rightarrow> pdict \<Rightarrow> unpack_state" where
  "add_block st part =
     (if current_call_id st \<noteq> None then st\<lparr>current_blocks := current_blocks st @ [part]\<rparr> else st)"

definition unpack_part :: "unpack_state \<Rightarrow> pyval \<Rightarrow> unpack_state res" where
  "unpack_part st part =
     (case as_dict part of
        None \<Rightarrow> Inr st
      | Some p \<Rightarrow>
          if dget p ''type'' = PStr ''text'' then
            let text_val = dget_or p ''text'' (PStr '''') in
            rbind (match_tag_value text_val) (\<lambda>open_match.
              case open_match of
                Some c \<Rightarrow> Inr \<lparr>unpacked = save_section st, current_call_id = Some c, current_blocks = []\<rparr>
              | None \<Rightarrow>
                  if text_val = PStr close_tag then
                    Inr \<lparr>unpacked = save_section st, current_call_id = None, current_blocks = []\<rparr>
                  else Inr (add_block st p))
          else Inr (add_block st p))"

definition unpack_message ::
  "unpacked_map \<times> pyval list \<Rightarrow> pyval \<Rightarrow> (unpacked_map \<times> pyval list) res" where
  "unpack_message acc msg =
     rbind (is_synthetic_tool_content_msg msg) (\<lambda>synthetic.
       if \<not> synthetic then Inr (fst acc, snd acc @ [msg])
       else
         rbind (py_get msg ''content'' (PList [])) (\<lambda>content.
         rbind (py_iter content) (\<lambda>parts.
         rbind (rfold unpack_part \<lparr>unpacked = fst acc, current_call_id = None, current_blocks = []\<rparr> parts)
           (\<lambda>st. Inr (save_section st, snd acc)))))"

definition unpack_tool_content :: "pyval list \<Rightarrow> (unpacked_map \<times> pyval list) res" where
  "unpack_tool_content messages = rfold unpack_message ([], []) messages"

section \<open>What the reordered list holds\<close>

definition tool_id :: "pdict \<Rightarrow> pyval" where
  "tool_id m = dget m ''tool_call_id''"

definition answers_call :: "pyval \<Rightarrow> pdict \<Rightarrow> bool" where
  "answers_call v tm \<longleftrightarrow> py_truthy (tool_id tm) \<and> py_hash (tool_id tm) = py_hash v"

definition placed_ids :: "pdict \<Rightarrow> pyval list" where
  "placed_ids m =
     (if dget m ''role'' = PStr ''assistant'' \<and> dhas m ''tool_calls'' then
        (case py_iter (dget m ''tool_calls'') of
           Inl _ \<Rightarrow> []
         | Inr tcs \<Rightarrow> filter py_truthy (map (\<lambda>tc. case as_dict tc of Some d \<Rightarrow> dget d ''id'' | None \<Rightarrow> PNone) tcs))
      else [])"

definition call_block :: "pdict list \<Rightarrow> pdict \<Rightarrow> pdict list" where
  "call_block tools m = m # concat (map (\<lambda>v. filter (answers_call v) tools) (placed_ids m))"

lemma py_get_Inr: "py_get v k w = Inr x \<longleftrightarrow> (\<exists>d. v = PDict d \<and> x = dget_or d k w)"
  by (cases v) auto

lemma group_step_get:
  assumes "group_step g tm = Inr g'"
  shows "map_of g' h =
    (if py_truthy (tool_id (snd tm)) \<and> py_hash (tool_id (snd tm)) = Inr h
     then Some ((case map_of g h of Some l \<Rightarrow> l | None \<Rightarrow> []) @ [tm]) else map_of g h)"
  using assms
  by (auto simp: group_step_def tool_id_def hget_def hset_def Let_def elim!: rbind_InrE split: if_splits)

lemma group_loop_get:
  assumes "rfold group_step g tms = Inr g'"
  shows "map_of g' h =
    (let l = filter (\<lambda>tm. py_truthy (tool_id (snd tm)) \<and> py_hash (tool_id (snd tm)) = Inr h) tms in
     case map_of g h of Some l0 \<Rightarrow> Some (l0 @ l) | None \<Rightarrow> if l = [] then None else Some l)"
  using assms
proof (induction tms arbitrary: g)
  case (Cons tm tms)
  from Cons.prems obtain g1 where g1: "group_step g tm = Inr g1" "rfold group_step g1 tms = Inr g'"
    by (auto elim!: rbind_InrE)
  show ?case
    using Cons.IH [OF g1(2)] group_step_get [OF g1(1), of h]
    by (auto simp: Let_def split: option.splits)
qed (auto split: option.splits)

lemma place_call_result:
  assumes g: "rfold group_step [] tms = Inr g" and s: "place_call g acc tc = Inr acc'"
  shows "\<exists>d. tc = PDict d \<and>
    fst acc' = fst acc @ (if py_truthy (dget d ''id'') then filter (answers_call (dget d ''id'')) (map snd tms) else []) \<and>
    snd acc' = snd acc @ (if py_truthy (dget d ''id'')
      then map fst (filter (\<lambda>tm. answers_call (dget d ''id'') (snd tm)) tms) else [])"
proof -
  from s obtain d where d: "tc = PDict d"
    by (auto simp: place_call_def py_get_Inr elim!: rbind_InrE)
  show ?thesis
  proof (cases "py_truthy (dget d ''id'')")
    case True
    with s d obtain h where h: "py_hash (dget d ''id'') = Inr h"
      by (auto simp: place_call_def hget_def elim!: rbind_InrE)
    with s d True show ?thesis
      using group_loop_get [OF g, of h]
      by (auto simp: place_call_def hget_def answers_call_def Let_def filter_map comp_def split: if_splits)
  qed (use s d in \<open>simp add: place_call_def\<close>)
qed

lemma place_calls_result:
  assumes g: "rfold group_step [] tms = Inr g" and s: "rfold (place_call g) acc tcs = Inr acc'"
  defines "ids \<equiv> filter py_truthy (map (\<lambda>tc. case as_dict tc of Some d \<Rightarrow> dget d ''id'' | None \<Rightarrow> PNone) tcs)"
  shows "fst acc' = fst acc @ concat (map (\<lambda>v. filter (answers_call v) (map snd tms)) ids) \<and>
    snd acc' = snd acc @ concat (map (\<lambda>v. map fst (filter (\<lambda>tm. answers_call v (snd tm)) tms)) ids)"
  using s unfolding ids_def
proof (induction tcs arbitrary: acc)
  case (Cons tc tcs)
  from Cons.prems obtain acc1 where a: "place_call g acc tc = Inr acc1" "rfold (place_call g) acc1 tcs = Inr acc'"
    by (auto elim!: rbind_InrE)
  obtain d where d: "tc = PDict d"
    "fst acc1 = fst acc @ (if py_truthy (dget d ''id'') then filter (answers_call (dget d ''id'')) (map snd tms) else [])"
    "snd acc1 = snd acc @ (if py_truthy (dget d ''id'')
      then map fst (filter (\<lambda>tm. answers_call (dget d ''id'') (snd tm)) tms) else [])"
    using place_call_result [OF g a(1)] by blast
  show ?case using Cons.IH [OF a(2)] d by simp
qed simp

lemma place_message_result:
  assumes g: "rfold group_step [] tms = Inr g" and s: "place_message g acc m = Inr acc'"
  shows "fst acc' = fst acc @ call_block (map snd tms) m \<and>
    snd acc' = snd acc @ concat (map (\<lambda>v. map fst (filter (\<lambda>tm. answers_call v (snd tm)) tms)) (placed_ids m))"
proof (cases "dget m ''role'' = PStr ''assistant'' \<and> dhas m ''tool_calls''")
  case True
  with s obtain tcs where tcs: "py_iter (dget m ''tool_calls'') = Inr tcs"
    "rfold (place_call g) (fst acc @ [m], snd acc) tcs = Inr acc'"
    by (auto simp: place_message_def Let_def elim!: rbind_InrE)
  show ?thesis using place_calls_result [OF g tcs(2)] True tcs(1)
    by (simp only: call_block_def placed_ids_def if_True sum.case) simp
next
  case False
  then have "placed_ids m = []" unfolding placed_ids_def by (simp only: if_False)
  moreover have "acc' = (fst acc @ [m], snd acc)"
    using s False unfolding place_message_def Let_def by (simp only: if_False) simp
  ultimately show ?thesis by (simp add: call_block_def)
qed

lemma place_messages_result:
  assumes g: "rfold group_step [] tms = Inr g" and s: "rfold (place_message g) acc ms = Inr acc'"
  shows "fst acc' = fst acc @ concat (map (call_block (map snd tms)) ms) \<and>
    snd acc' = snd acc @ concat (map (\<lambda>v. map fst (filter (\<lambda>tm. answers_call v (snd tm)) tms))
      (concat (map placed_ids ms)))"
  using s
proof (induction ms arbitrary: acc)
  case (Cons m ms)
  from Cons.prems obtain acc1 where a: "place_message g acc m = Inr acc1" "rfold (place_message g) acc1 ms = Inr acc'"
    by (auto elim!: rbind_InrE)
  show ?case using Cons.IH [OF a(2)] place_message_result [OF g a(1)] by simp
qed simp

text \<open>
  The closed form of the list: each other message followed by the tool messages that answer its
  calls, then the tool messages no call asks for.
\<close>

definition unasked :: "pdict list \<Rightarrow> pdict \<Rightarrow> bool" where
  "unasked others tm \<longleftrightarrow> list_all (\<lambda>m. list_all (\<lambda>v. \<not> answers_call v tm) (placed_ids m)) others"

lemma enumerate_filter_snd: "map snd (filter (\<lambda>p. P (snd p)) (enumerate n xs)) = filter P xs"
  by (induction xs arbitrary: n) auto

lemma reorder_closed:
  assumes r: "reorder_tool_messages messages warnings = Inr (result, w)"
  defines "tools \<equiv> filter is_tool_msg messages" and "others \<equiv> filter (\<lambda>m. \<not> is_tool_msg m) messages"
  shows "result = concat (map (call_block tools) others) @ filter (unasked others) tools \<and>
    (tools \<noteq> [] \<longrightarrow> w = warnings @ map unmatched_warning (filter (unasked others) tools) @
      (if messages_eq result messages then [] else [reorder_warning]))"
proof (cases "tools = []")
  case True
  then have "others = messages" "result = messages"
    using r by (auto simp: reorder_tool_messages_def tools_def others_def filter_empty_conv enumerate_eq_zip)
  moreover have "concat (map (call_block []) ms) = ms" for ms
    by (induction ms) (auto simp: call_block_def)
  ultimately show ?thesis using True by simp
next
  case False
  let ?tms = "enumerate 0 tools"
  from r False obtain g placed matched where g: "rfold group_step [] ?tms = Inr g"
    and p: "rfold (place_message g) ([], []) others = Inr (placed, matched)"
    and res: "result = placed @ map snd (filter (\<lambda>tm. fst tm \<notin> set matched) ?tms)"
    and w: "w = warnings @ map unmatched_warning (map snd (filter (\<lambda>tm. fst tm \<notin> set matched) ?tms)) @
      (if messages_eq result messages then [] else [reorder_warning])"
    by (auto simp: reorder_tool_messages_def tools_def others_def enumerate_eq_zip Let_def elim!: rbind_InrE)
  have snd_tms: "map snd ?tms = tools" by simp
  have pl: "placed = concat (map (call_block tools) others)"
    and ma: "matched = concat (map (\<lambda>v. map fst (filter (\<lambda>tm. answers_call v (snd tm)) ?tms))
      (concat (map placed_ids others)))"
    using place_messages_result [OF g p] unfolding snd_tms by simp_all
  have "fst tm \<notin> set matched \<longleftrightarrow> unasked others (snd tm)" if "tm \<in> set ?tms" for tm
  proof -
    have "fst tm = fst tm' \<Longrightarrow> tm = tm'" if "tm' \<in> set ?tms" for tm'
      using that \<open>tm \<in> set ?tms\<close> distinct_map [of fst ?tms] by (auto dest: inj_onD)
    then show ?thesis using that by (fastforce simp: ma unasked_def list_all_iff)
  qed
  then have "filter (\<lambda>tm. fst tm \<notin> set matched) ?tms = filter (\<lambda>tm. unasked others (snd tm)) ?tms"
    by (intro filter_cong) auto
  then have "map snd (filter (\<lambda>tm. fst tm \<notin> set matched) ?tms) = filter (unasked others) tools"
    by (simp add: enumerate_filter_snd)
  then show ?thesis using res w pl by simp
qed

lemmas reorder_closed_form = reorder_closed [THEN conjunct1]

text \<open>Call ids are distinct when no two of the calls hash to the same key.\<close>

definition distinct_calls :: "pdict list \<Rightarrow> bool" where
  "distinct_calls messages \<longleftrightarrow>
     distinct (map py_hash (concat (map placed_ids (filter (\<lambda>m. \<not> is_tool_msg m) messages))))"

lemma mset_filter_answers:
  "distinct (map py_hash vs) \<Longrightarrow>
   mset (concat (map (\<lambda>v. filter (answers_call v) tools) vs)) =
   mset (filter (\<lambda>tm. \<exists>v \<in> set vs. answers_call v tm) tools)"
proof (induction vs)
  case (Cons v vs)
  have "filter_mset (\<lambda>tm. \<exists>v \<in> set (v # vs). answers_call v tm) (mset tools) =
      filter_mset (answers_call v) (mset tools) + filter_mset (\<lambda>tm. \<exists>v \<in> set vs. answers_call v tm) (mset tools)"
    using Cons.prems
    by (intro multiset_eqI) (force simp: answers_call_def)
  with Cons show ?case by simp
qed simp

lemma mset_blocks:
  "mset (concat (map (call_block tools) ms)) =
   mset ms + mset (concat (map (\<lambda>v. filter (answers_call v) tools) (concat (map placed_ids ms))))"
  by (induction ms) (auto simp: call_block_def)

lemma filter_concat_answers:
  "\<forall>tm \<in> set tools. \<not> P tm \<Longrightarrow> filter P (concat (map (\<lambda>v. filter (answers_call v) tools) vs)) = []"
  by (induction vs) (auto simp: filter_empty_conv)

lemma filter_blocks:
  assumes "\<forall>tm \<in> set tools. \<not> P tm" and "\<forall>m \<in> set ms. P m"
  shows "filter P (concat (map (call_block tools) ms)) = ms"
  using assms(2) filter_concat_answers [OF assms(1)] by (induction ms) (auto simp: call_block_def)

lemma reorder_mset:
  assumes r: "reorder_tool_messages messages warnings = Inr (result, w)" and d: "distinct_calls messages"
  shows "mset result = mset messages"
proof -
  define tools where "tools = filter is_tool_msg messages"
  define others where "others = filter (\<lambda>m. \<not> is_tool_msg m) messages"
  let ?vs = "concat (map placed_ids others)"
  have "mset result = mset others +
      mset (concat (map (\<lambda>v. filter (answers_call v) tools) ?vs)) + mset (filter (unasked others) tools)"
    using reorder_closed_form [OF r] mset_blocks [of tools others] by (simp add: tools_def others_def)
  also have "mset (concat (map (\<lambda>v. filter (answers_call v) tools) ?vs)) =
      mset (filter (\<lambda>tm. \<not> unasked others tm) tools)"
    using mset_filter_answers [of ?vs tools] d
    by (simp add: distinct_calls_def others_def unasked_def list_all_iff)
  finally have "mset result = mset others + mset tools"
    using mset_filter_split [of "unasked others" tools] by (simp add: ac_simps)
  then show ?thesis
    using mset_filter_split [of is_tool_msg messages] by (simp add: tools_def others_def ac_simps)
qed

lemma reorder_others:
  assumes r: "reorder_tool_messages messages warnings = Inr (result, w)"
  shows "filter (\<lambda>m. \<not> is_tool_msg m) result = filter (\<lambda>m. \<not> is_tool_msg m) messages"
proof -
  have tools: "\<forall>tm \<in> set (filter is_tool_msg messages). \<not> \<not> is_tool_msg tm" by simp
  have others: "\<forall>m \<in> set (filter (\<lambda>m. \<not> is_tool_msg m) messages). \<not> is_tool_msg m" by simp
  have "filter (\<lambda>m. \<not> is_tool_msg m) (filter P (filter is_tool_msg messages)) = []" for P
    by (simp add: filter_empty_conv)
  then show ?thesis
    unfolding reorder_closed_form [OF r] filter_append using filter_blocks [OF tools others] by simp
qed

lemma reorder_adjacent:
  assumes r: "reorder_tool_messages messages warnings = Inr (result, w)"
    and m: "m \<in> set messages" "\<not> is_tool_msg m" "v \<in> set (placed_ids m)"
    and t: "tm \<in> set messages" "is_tool_msg tm" "answers_call v tm"
  shows "\<exists>xs ys zs. result = xs @ m # ys @ tm # zs \<and> list_all is_tool_msg ys"
proof -
  let ?tools = "filter is_tool_msg messages" and ?others = "filter (\<lambda>m. \<not> is_tool_msg m) messages"
  from m have "m \<in> set ?others" by simp
  then obtain o1 o2 where o: "?others = o1 @ m # o2" by (meson split_list)
  have "tm \<in> set (concat (map (\<lambda>v. filter (answers_call v) ?tools) (placed_ids m)))"
    using m t by auto
  then obtain ys zs where yz: "concat (map (\<lambda>v. filter (answers_call v) ?tools) (placed_ids m)) = ys @ tm # zs"
    by (meson split_list)
  have "list_all is_tool_msg (concat (map (\<lambda>v. filter (answers_call v) ?tools) (placed_ids m)))"
    by (auto simp: list_all_iff)
  then have "list_all is_tool_msg ys" unfolding yz by simp
  moreover have "result = concat (map (call_block ?tools) o1) @ m # ys @ tm # zs @
      concat (map (call_block ?tools) o2) @ filter (unasked ?others) ?tools"
    by (simp add: reorder_closed_form [OF r] o call_block_def yz del: filter_filter)
  ultimately show ?thesis by blast
qed

text \<open>
  C16. When no two tool calls of the conversation share an id, reordering permutes the messages,
  keeps the messages of the other roles in their order, and puts each tool message into the run
  of tool messages right after the assistant message that made the call it answers.
\<close>

theorem reorder_permutes:
  assumes "reorder_tool_messages messages warnings = Inr (result, w)" and "distinct_calls messages"
  shows "mset result = mset messages \<and>
    filter (\<lambda>m. \<not> is_tool_msg m) result = filter (\<lambda>m. \<not> is_tool_msg m) messages \<and>
    (\<forall>m \<in> set messages. \<forall>tm \<in> set messages.
      \<not> is_tool_msg m \<longrightarrow> is_tool_msg tm \<longrightarrow> (\<exists>v \<in> set (placed_ids m). answers_call v tm) \<longrightarrow>
      (\<exists>xs ys zs. result = xs @ m # ys @ tm # zs \<and> list_all is_tool_msg ys))"
  using reorder_mset [OF assms] reorder_others [OF assms(1)] reorder_adjacent [OF assms(1)] by blast

definition demo_call :: "string \<Rightarrow> pdict" where
  "demo_call i = [(''role'', PStr ''assistant''), (''tool_calls'', PList [PDict [(''id'', PStr i)]])]"

definition demo_tool :: "string \<Rightarrow> pdict" where
  "demo_tool i = [(''role'', PStr ''tool''), (''tool_call_id'', PStr i), (''content'', PStr ''r'')]"

definition demo_user :: pdict where
  "demo_user = [(''role'', PStr ''user''), (''content'', PStr ''u'')]"

lemma demo_reorder:
  "reorder_tool_messages [demo_call ''a'', demo_user, demo_tool ''a''] [] =
     Inr ([demo_call ''a'', demo_tool ''a'', demo_user], [reorder_warning])"
  by code_simp

theorem reorder_permutes_witness:
  "mset [demo_call ''a'', demo_tool ''a'', demo_user] = mset [demo_call ''a'', demo_user, demo_tool ''a'']"
proof -
  have "distinct_calls [demo_call ''a'', demo_user, demo_tool ''a'']" by code_simp
  from reorder_permutes [OF demo_reorder this] show ?thesis by blast
qed

text \<open>
  A call id that two assistant messages use makes the code send each tool message of that id
  twice, so the list is no longer a permutation of the messages: both answers follow both calls.
\<close>

lemma reused_call_id_duplicates:
  "reorder_tool_messages [demo_call ''a'', demo_tool ''a'', demo_call ''a'', demo_tool ''a''] [] =
     Inr ([demo_call ''a'', demo_tool ''a'', demo_tool ''a'', demo_call ''a'', demo_tool ''a'', demo_tool ''a''],
          [reorder_warning])"
  by code_simp

section \<open>Packing and unpacking\<close>

lemma dropWhile_all: "(\<And>c. c \<in> set xs \<Longrightarrow> P c) \<Longrightarrow> dropWhile P (xs @ ys) = dropWhile P ys"
  by (induction xs) auto

lemma takeWhile_before: "c \<notin> set xs \<Longrightarrow> takeWhile (\<lambda>d. d \<noteq> c) (xs @ c # ys) = xs"
  by (induction xs) auto

lemma match_open_tag_open:
  assumes "tcid \<noteq> []" "CHR 0x22 \<notin> set tcid"
  shows "match_open_tag (open_tag tcid) = Some tcid"
proof -
  have "open_tag tcid = ''<tool-content'' @ '' '' @ ''call-id='' @ CHR 0x22 # tcid @ [CHR 0x22, CHR ''>'']"
    by (simp add: open_tag_def)
  moreover have "takeWhile (\<lambda>c. c \<noteq> CHR 0x22) (tcid @ [CHR 0x22, CHR ''>'']) = tcid"
    using assms(2) by (rule takeWhile_before)
  ultimately show ?thesis
    using assms(1) by (simp add: match_open_tag_def is_space_def Let_def drop_drop [symmetric] del: drop_drop)
qed

lemma match_open_tag_close: "match_open_tag close_tag = None"
  by code_simp

definition plain_block :: "pdict \<Rightarrow> bool" where
  "plain_block b \<longleftrightarrow>
     (dget b ''type'' = PStr ''text'' \<longrightarrow>
        (case as_str (dget_or b ''text'' (PStr '''')) of
           Some t \<Rightarrow> match_open_tag t = None \<and> t \<noteq> close_tag
         | None \<Rightarrow> False))"

lemma unpack_plain:
  "plain_block b \<Longrightarrow> current_call_id st = Some c \<Longrightarrow>
   unpack_part st (PDict b) = Inr (st\<lparr>current_blocks := current_blocks st @ [b]\<rparr>)"
  by (auto simp: unpack_part_def plain_block_def match_tag_value_def add_block_def split: option.splits)

lemma unpack_plains:
  "list_all plain_block bs \<Longrightarrow> current_call_id st = Some c \<Longrightarrow>
   rfold unpack_part st (map PDict bs) = Inr (st\<lparr>current_blocks := current_blocks st @ bs\<rparr>)"
  by (induction bs arbitrary: st) (simp_all add: unpack_plain)

abbreviation closed :: "unpacked_map \<Rightarrow> unpack_state" where
  "closed u \<equiv> \<lparr>unpacked = u, current_call_id = None, current_blocks = []\<rparr>"

lemma unpack_section:
  assumes "tcid \<noteq> []" "CHR 0x22 \<notin> set tcid" "bs \<noteq> []" "list_all plain_block bs"
  shows "rfold unpack_part (closed u)
    (map PDict (text_block (open_tag tcid) # bs @ [text_block close_tag])) = Inr (closed (dset u tcid bs))"
proof -
  have op: "unpack_part (closed u) (PDict (text_block (open_tag tcid))) =
      Inr \<lparr>unpacked = u, current_call_id = Some tcid, current_blocks = []\<rparr>"
    using match_open_tag_open [OF assms(1,2)]
    by (simp add: unpack_part_def text_block_def match_tag_value_def save_section_def)
  have cl: "unpack_part \<lparr>unpacked = u, current_call_id = Some tcid, current_blocks = bs\<rparr>
      (PDict (text_block close_tag)) = Inr (closed (dset u tcid bs))"
    using assms match_open_tag_close
    by (simp add: unpack_part_def text_block_def match_tag_value_def save_section_def)
  show ?thesis
    using op cl unpack_plains [OF assms(4), of "\<lparr>unpacked = u, current_call_id = Some tcid, current_blocks = []\<rparr>"]
    by (simp add: rfold_append)
qed

definition good_packs :: "pdict list hdict \<Rightarrow> bool" where
  "good_packs packs \<longleftrightarrow>
     list_all (\<lambda>(h, bs). (case as_str h of Some c \<Rightarrow> c \<noteq> [] \<and> CHR 0x22 \<notin> set c | None \<Rightarrow> False) \<and>
       bs \<noteq> [] \<and> list_all plain_block bs) packs"

definition restore :: "pdict list hdict \<Rightarrow> pyval \<Rightarrow> unpacked_map \<Rightarrow> unpacked_map" where
  "restore packs v u =
     (case as_str v of
        Some c \<Rightarrow> (case map_of packs (PStr c) of Some bs \<Rightarrow> dset u c bs | None \<Rightarrow> u)
      | None \<Rightarrow> u)"

lemma good_packs_get:
  "good_packs packs \<Longrightarrow> map_of packs h = Some bs \<Longrightarrow>
   \<exists>c. h = PStr c \<and> c \<noteq> [] \<and> CHR 0x22 \<notin> set c \<and> bs \<noteq> [] \<and> list_all plain_block bs"
  by (drule map_of_SomeD) (fastforce simp: good_packs_def list_all_iff split: option.splits)

lemma pack_parts_cases:
  assumes g: "good_packs packs" and p: "pack_parts packs v = Inr parts"
  shows "(parts = [] \<and> (\<forall>u. restore packs v u = u)) \<or>
    (\<exists>c bs. v = PStr c \<and> map_of packs (PStr c) = Some bs \<and> c \<noteq> [] \<and> CHR 0x22 \<notin> set c \<and> bs \<noteq> [] \<and>
       list_all plain_block bs \<and> parts = text_block (open_tag c) # bs @ [text_block close_tag])"
proof (cases "py_truthy v")
  case False
  have "map_of packs (PStr []) = None"
    using good_packs_get [OF g, of "PStr []"] by (cases "map_of packs (PStr [])") auto
  with False p show ?thesis by (cases v) (auto simp: pack_parts_def restore_def)
next
  case True
  with p obtain h where h: "py_hash v = Inr h"
    and q: "(case map_of packs h of Some bs \<Rightarrow> Inr (text_block (open_tag (py_str v)) # bs @ [text_block close_tag])
        | None \<Rightarrow> Inr []) = (Inr parts :: pdict list res)"
    unfolding pack_parts_def hget_def rbind_assoc by (simp only: if_True) (erule rbind_InrE, simp)
  show ?thesis
  proof (cases "map_of packs h")
    case None
    with q h show ?thesis by (auto simp: restore_def split: option.splits)
  next
    case (Some bs)
    obtain c where "h = PStr c \<and> c \<noteq> [] \<and> CHR 0x22 \<notin> set c \<and> bs \<noteq> [] \<and> list_all plain_block bs"
      using good_packs_get [OF g Some] by blast
    with q h Some show ?thesis by auto
  qed
qed

lemma unpack_parts:
  assumes g: "good_packs packs" and p: "rmap (pack_parts packs) vs = Inr pss"
  shows "rfold unpack_part (closed u) (map PDict (concat pss)) = Inr (closed (fold (restore packs) vs u))"
  using p
proof (induction vs arbitrary: pss u)
  case (Cons v vs)
  then obtain ps pss' where ps: "pack_parts packs v = Inr ps" "rmap (pack_parts packs) vs = Inr pss'"
    "pss = ps # pss'"
    by (auto elim!: rbind_InrE)
  have "rfold unpack_part (closed u) (map PDict ps) = Inr (closed (restore packs v u))"
    using pack_parts_cases [OF g ps(1)] unpack_section [of _ _ u] by (fastforce simp: restore_def)
  with Cons.IH [OF ps(2)] ps(3) show ?case by (simp add: rfold_append)
qed simp

definition not_synthetic :: "pdict \<Rightarrow> bool" where
  "not_synthetic m = (is_synthetic_tool_content_msg (PDict m) = Inr False)"

lemma unpack_clean:
  "list_all not_synthetic ms \<Longrightarrow>
   rfold unpack_message (u, cs) (map PDict ms) = Inr (u, cs @ map PDict ms)"
  by (induction ms arbitrary: cs) (simp_all add: unpack_message_def not_synthetic_def)

lemma tool_not_synthetic: "is_tool_msg m \<Longrightarrow> not_synthetic m"
  by (simp add: is_tool_msg_def not_synthetic_def is_synthetic_tool_content_msg_def)

lemma concat_pack_hd:
  assumes g: "good_packs packs" and p: "rmap (pack_parts packs) vs = Inr pss" and n: "concat pss \<noteq> []"
  shows "\<exists>c ps. concat pss = text_block (open_tag c) # ps \<and> match_open_tag (open_tag c) = Some c"
  using p n
proof (induction vs arbitrary: pss)
  case (Cons v vs)
  then obtain ps pss' where ps: "pack_parts packs v = Inr ps" "rmap (pack_parts packs) vs = Inr pss'"
    "pss = ps # pss'"
    by (auto elim!: rbind_InrE)
  show ?case
  proof (cases "ps = []")
    case True
    with Cons ps show ?thesis by auto
  next
    case False
    then show ?thesis
      using pack_parts_cases [OF g ps(1)] match_open_tag_open ps(3) by auto
  qed
qed simp

lemma unpack_synthetic:
  assumes g: "good_packs packs" and p: "rmap (pack_parts packs) vs = Inr pss" and n: "concat pss \<noteq> []"
  shows "unpack_message (u, cs) (PDict (synthetic_message (concat pss))) = Inr (fold (restore packs) vs u, cs)"
proof -
  obtain c ps where c: "concat pss = text_block (open_tag c) # ps" "match_open_tag (open_tag c) = Some c"
    using concat_pack_hd [OF assms] by blast
  have "is_synthetic_tool_content_msg (PDict (synthetic_message (concat pss))) = Inr True"
    using c by (simp add: is_synthetic_tool_content_msg_def synthetic_message_def text_block_def match_tag_value_def)
  then show ?thesis
    using unpack_parts [OF g p, of u]
    by (simp add: unpack_message_def synthetic_message_def save_section_def)
qed

lemma empty_pack_restore:
  assumes g: "good_packs packs"
  shows "rmap (pack_parts packs) vs = Inr pss \<Longrightarrow> concat pss = [] \<Longrightarrow> fold (restore packs) vs u = u"
proof (induction vs arbitrary: pss u)
  case (Cons v vs)
  then obtain ps pss' where ps: "pack_parts packs v = Inr ps" "rmap (pack_parts packs) vs = Inr pss'"
    "pss = ps # pss'"
    by (auto elim!: rbind_InrE)
  then show ?case using Cons pack_parts_cases [OF g ps(1)] by auto
qed simp

text \<open>The ids of the tool messages of a list.\<close>

definition tool_ids :: "pdict list \<Rightarrow> pyval list" where
  "tool_ids ms = map tool_id (filter is_tool_msg ms)"

lemma unpack_inject_loop:
  "good_packs packs \<Longrightarrow> inject_loop packs ms = Inr out \<Longrightarrow> list_all not_synthetic ms \<Longrightarrow>
    rfold unpack_message (u, cs) (map PDict out) =
      Inr (fold (restore packs) (tool_ids ms) u, cs @ map PDict ms)"
proof (induction packs ms arbitrary: out u cs rule: inject_loop.induct)
  case (1 packs)
  then show ?case by (simp add: tool_ids_def)
next
  case (2 packs msg rest)
  note g = 2(3)
  show ?case
  proof (cases "is_tool_msg msg")
    case False
    with 2 show ?thesis
      by (auto simp: tool_ids_def unpack_message_def not_synthetic_def elim!: rbind_InrE)
  next
    case True
    define grp where "grp = msg # takeWhile is_tool_msg rest"
    define later where "later = dropWhile is_tool_msg rest"
    have rm: "rmap (\<lambda>m. pack_parts packs (dget m ''tool_call_id'')) grp = rmap (pack_parts packs) (map tool_id grp)"
      unfolding rmap_comp [of "pack_parts packs" tool_id, symmetric] tool_id_def ..
    with 2(4) True obtain pss res where
      p: "rmap (pack_parts packs) (map tool_id grp) = Inr pss" and r: "inject_loop packs later = Inr res"
      and out: "out = grp @ (if concat pss \<noteq> [] then [synthetic_message (concat pss)] else []) @ res"
      unfolding inject_loop.simps Let_def grp_def [symmetric] later_def [symmetric]
      by (simp only: if_True) (erule rbind_InrE, erule rbind_InrE, simp)
    have grp_later: "msg # rest = grp @ later" by (simp add: grp_def later_def)
    have tools: "list_all is_tool_msg grp"
      using True by (auto simp: grp_def list_all_iff dest: set_takeWhileD)
    then have "list_all not_synthetic grp" and f: "filter is_tool_msg grp = grp"
      by (auto simp: list_all_iff tool_not_synthetic filter_id_conv)
    then have "rfold unpack_message (u, cs) (map PDict grp) = Inr (u, cs @ map PDict grp)"
      by (intro unpack_clean)
    moreover have "rfold unpack_message (u, cs @ map PDict grp)
        (map PDict (if concat pss \<noteq> [] then [synthetic_message (concat pss)] else [])) =
      Inr (fold (restore packs) (tool_ids grp) u, cs @ map PDict grp)"
      using unpack_synthetic [OF g p] empty_pack_restore [OF g p] by (simp add: tool_ids_def f del: concat_eq_Nil_conv)
    moreover have "rfold unpack_message (fold (restore packs) (tool_ids grp) u, cs @ map PDict grp) (map PDict res) =
      Inr (fold (restore packs) (tool_ids later) (fold (restore packs) (tool_ids grp) u),
        (cs @ map PDict grp) @ map PDict later)"
    proof (rule 2(1) [OF True refl, folded grp_def later_def])
      show "rmap (\<lambda>m. pack_parts packs (dget m ''tool_call_id'')) grp = Inr pss"
        using p rm by simp
      show "good_packs packs" by (rule g)
      show "inject_loop packs later = Inr res" by (rule r)
      show "list_all not_synthetic later" using 2(5) unfolding grp_later by simp
    qed
    moreover have "tool_ids (msg # rest) = tool_ids grp @ tool_ids later"
      unfolding grp_later by (simp add: tool_ids_def)
    ultimately show ?thesis
      unfolding grp_later out map_append rfold_append by simp
  qed
qed

lemma map_of_restores:
  "map_of (fold (restore packs) vs u) c =
     (if PStr c \<in> set vs then (case map_of packs (PStr c) of Some bs \<Rightarrow> Some bs | None \<Rightarrow> map_of u c)
      else map_of u c)"
proof (induction vs arbitrary: u)
  case (Cons v vs)
  show ?case
  proof (cases "as_str v")
    case None
    then have "v \<noteq> PStr c" by auto
    with None Cons show ?thesis by (simp add: restore_def)
  next
    case (Some s)
    with Cons show ?thesis by (cases "s = c") (auto simp: restore_def split: option.splits)
  qed
qed simp

text \<open>
  C17. Packing then unpacking gives back the conversation and the blocks: when no message already
  looks like a synthetic one, call ids are non-empty texts without a double quote and no packed
  text block is itself a tag, the gateway that reads an injected message list removes exactly the
  synthetic messages and recovers, for each call id a tool message carries, the blocks packed for it.
\<close>

theorem unpack_inject:
  assumes "inject_packed_tool_content ms packs = Inr out" and "good_packs packs"
    and "list_all not_synthetic ms"
  shows "\<exists>u. unpack_tool_content (map PDict out) = Inr (u, map PDict ms) \<and>
    (\<forall>c. map_of u c = (if PStr c \<in> set (tool_ids ms) then map_of packs (PStr c) else None))"
proof (cases "packs = []")
  case True
  with assms show ?thesis
    using unpack_clean [of ms "[]" "[]"] by (simp add: inject_packed_tool_content_def unpack_tool_content_def)
next
  case False
  with assms(1) have "inject_loop packs ms = Inr out" by (simp add: inject_packed_tool_content_def)
  from unpack_inject_loop [OF assms(2) this assms(3), of "[]" "[]"] show ?thesis
    by (auto simp: unpack_tool_content_def map_of_restores split: option.splits)
qed

definition demo_image :: pdict where
  "demo_image = [(''type'', PStr ''image_url''), (''image_url'', PDict [(''url'', PStr ''u'')])]"

definition demo_packed :: "pdict list" where
  "demo_packed = [demo_call ''a'', demo_tool ''a'',
     synthetic_message [text_block (open_tag ''a''), demo_image, text_block close_tag], demo_user]"

lemma demo_inject:
  "inject_packed_tool_content [demo_call ''a'', demo_tool ''a'', demo_user] [(PStr ''a'', [demo_image])] =
     Inr demo_packed"
  by code_simp

theorem unpack_inject_witness:
  "\<exists>u. unpack_tool_content (map PDict demo_packed) =
     Inr (u, map PDict [demo_call ''a'', demo_tool ''a'', demo_user]) \<and> map_of u ''a'' = Some [demo_image]"
proof -
  have "good_packs [(PStr ''a'', [demo_image])]" by code_simp
  moreover have "list_all not_synthetic [demo_call ''a'', demo_tool ''a'', demo_user]"
    by (simp add: not_synthetic_def is_synthetic_tool_content_msg_def demo_call_def demo_tool_def demo_user_def)
  moreover have "PStr ''a'' \<in> set (tool_ids [demo_call ''a'', demo_tool ''a'', demo_user])" by code_simp
  ultimately show ?thesis using unpack_inject [OF demo_inject] by fastforce
qed

end
