(* ===== verification/ChatMessageOps.thy ===== *)
theory ChatMessageOps
  imports ChatToolOrder ChatContentOps ChatToolOps
begin

text \<open>
  \<open>converters/openai_chat/message_ops.py\<close>: messages between the IR and the Chat format, with the
  extension items of \<open>types/ir/extensions_experimental.py\<close>. The two lists a conversion of a request
  adds to, the warnings and the packed tool results, are the state \<open>pack_state\<close>; the order of the
  tool messages and their packed content are in \<open>ChatToolOrder\<close>.
\<close>

section \<open>Extension items\<close>

text \<open>The keys each type of extension item requires, by type.\<close>

definition extension_type_map :: "(string \<times> string list) list" where
  "extension_type_map =
     [(''system_event'', [''event_type'', ''timestamp'']),
      (''batch_marker'', [''batch_id'', ''batch_type'']),
      (''session_control'', [''control_type'', ''target_id'']),
      (''tool_chain_node'', [''node_id'', ''tool_call''])]"

definition is_extension_type :: "pyval \<Rightarrow> string \<Rightarrow> bool" where
  "is_extension_type item expected_type =
     (case as_dict item of
        None \<Rightarrow> False
      | Some d \<Rightarrow>
          py_truthy (dget d ''type'') \<and> dget d ''type'' = PStr expected_type \<and>
          (case map_of extension_type_map expected_type of
             Some ks \<Rightarrow> list_all (dhas d) ks
           | None \<Rightarrow> False))"

definition is_extension_item :: "pyval \<Rightarrow> bool res" where
  "is_extension_item item =
     (case as_dict item of
        None \<Rightarrow> Inr False
      | Some d \<Rightarrow>
          rbind (py_in_strs (dget d ''type'') (map fst extension_type_map)) (\<lambda>known.
            case (known, as_str (dget d ''type'')) of
              (True, Some t) \<Rightarrow> Inr (is_extension_type item t)
            | _ \<Rightarrow> Inr False))"

section \<open>From the IR\<close>

record pack_state =
  warnings :: "string list"
  multimodal_packs :: "pdict list hdict"

definition warn :: "string \<Rightarrow> pack_state \<Rightarrow> pack_state" where
  "warn w st = st\<lparr>warnings := warnings st @ [w]\<rparr>"

definition has_multimodal_content :: "pyval \<Rightarrow> bool" where
  "has_multimodal_content result =
     (case as_list result of
        None \<Rightarrow> False
      | Some blocks \<Rightarrow>
          list_ex (\<lambda>block. case as_dict block of
              Some d \<Rightarrow> dget d ''type'' \<noteq> PStr ''text'' \<and> dget d ''type'' \<noteq> PNone
            | None \<Rightarrow> False) blocks)"

definition pack_block ::
  "pack_state \<times> pdict list \<Rightarrow> pyval \<Rightarrow> (pack_state \<times> pdict list) res" where
  "pack_block acc block =
     (let (st, packed_parts) = acc in
      case as_dict block of
        None \<Rightarrow> Inr (st, packed_parts)
      | Some b \<Rightarrow>
          let block_type = dget b ''type'' in
          if block_type = PStr ''text'' then
            rbind (ir_text_to_p b) (\<lambda>p. Inr (st, packed_parts @ [p]))
          else if block_type = PStr ''image'' then
            (case ir_image_to_p b of
               Inr p \<Rightarrow> Inr (st, packed_parts @ [p])
             | Inl (ValueError e) \<Rightarrow>
                 Inr (warn (''Skipped image in tool result packing: '' @ e) st, packed_parts)
             | Inl e \<Rightarrow> Inl e)
          else if block_type = PStr ''file'' then
            Inr (warn ''File content not supported in OpenAI Chat tool result packing, skipped'' st, packed_parts)
          else
            Inr (warn (''Unsupported block type in tool result packing: '' @ py_str block_type) st, packed_parts))"

definition convert_tool_result_with_packing :: "pdict \<Rightarrow> pack_state \<Rightarrow> (pdict \<times> pack_state) res" where
  "convert_tool_result_with_packing part st =
     (let result = dget_or part ''result'' (PStr '''') in
      if \<not> has_multimodal_content result then
        rbind (ir_tool_result_to_p part) (\<lambda>m. Inr (m, st))
      else
        rbind (ditem part ''tool_call_id'') (\<lambda>call_id.
        rbind (py_iter result) (\<lambda>blocks.
        rbind (rfold pack_block (st, []) blocks) (\<lambda>(st, packed_parts).
        rbind (if packed_parts \<noteq> []
               then rbind (hset (multimodal_packs st) call_id packed_parts) (\<lambda>ps.
                      Inr (st\<lparr>multimodal_packs := ps\<rparr>))
               else Inr st) (\<lambda>st.
        rbind (ir_tool_result_to_p part) (\<lambda>m. Inr (m, st)))))))"

definition ir_system_to_p :: "pyval list \<Rightarrow> pdict res" where
  "ir_system_to_p content =
     rbind (rmap (\<lambda>part. py_item part ''text'') (filter is_text_part content)) (\<lambda>text_parts.
     rbind (py_join '' '' text_parts) (\<lambda>s.
       Inr [(''role'', PStr ''system''), (''content'', PStr s)]))"

type_synonym user_acc = "pdict list \<times> pdict list \<times> pack_state"

definition user_part :: "user_acc \<Rightarrow> pyval \<Rightarrow> user_acc res" where
  "user_part acc part =
     (let (user_content_parts, tool_messages, st) = acc in
      case as_dict part of
        None \<Rightarrow> Inl AttributeError
      | Some p \<Rightarrow>
          if is_text_part part then
            rbind (ir_text_to_p p) (\<lambda>q. Inr (user_content_parts @ [q], tool_messages, st))
          else if is_image_part part then
            rbind (ir_image_to_p p) (\<lambda>q. Inr (user_content_parts @ [q], tool_messages, st))
          else if is_tool_result_part part then
            rbind (convert_tool_result_with_packing p st) (\<lambda>(m, st).
              Inr (user_content_parts, tool_messages @ [m], st))
          else if is_file_part part then
            Inr (user_content_parts, tool_messages,
              warn (''File content not supported in OpenAI Chat Completions, ignored. '' @
                    ''Use OpenAI Responses API converter for file support.'') st)
          else if is_reasoning_part part then
            Inr (user_content_parts, tool_messages,
              warn ''Reasoning content not supported in OpenAI Chat Completions, ignored'' st)
          else
            Inr (user_content_parts, tool_messages,
              warn (''Unsupported content part type in user message: '' @ py_str (dget p ''type'')) st))"

definition ir_user_to_p :: "pyval list \<Rightarrow> pack_state \<Rightarrow> (pdict list \<times> pack_state) res" where
  "ir_user_to_p content st =
     rbind (rfold user_part ([], [], st) content) (\<lambda>(user_content_parts, tool_messages, st).
     rbind (case user_content_parts of
              [] \<Rightarrow> Inr (PStr '''')
            | [p] \<Rightarrow> if dget p ''type'' = PStr ''text'' then ditem p ''text''
                     else Inr (PList (map PDict user_content_parts))
            | _ \<Rightarrow> Inr (PList (map PDict user_content_parts))) (\<lambda>content_val.
       Inr ((if user_content_parts \<noteq> [] \<or> tool_messages = []
             then [[(''role'', PStr ''user''), (''content'', content_val)]] else []) @ tool_messages, st)))"

record assistant_acc =
  text_parts :: "pyval list"
  tool_calls :: "pyval list"
  refusal_text :: pyval
  reasoning_text :: pyval

definition assistant_part ::
  "assistant_acc \<times> pack_state \<Rightarrow> pyval \<Rightarrow> (assistant_acc \<times> pack_state) res" where
  "assistant_part acc part =
     (let (a, st) = acc in
      case as_dict part of
        None \<Rightarrow> Inl AttributeError
      | Some p \<Rightarrow>
          if is_text_part part then
            rbind (ditem p ''text'') (\<lambda>t. Inr (a\<lparr>text_parts := text_parts a @ [t]\<rparr>, st))
          else if is_tool_call_part part then
            rbind (ir_tool_call_to_p p) (\<lambda>c. Inr (a\<lparr>tool_calls := tool_calls a @ [c]\<rparr>, st))
          else if is_reasoning_part part then
            Inr (a\<lparr>reasoning_text := dget_or p ''reasoning'' (PStr '''')\<rparr>, st)
          else if is_refusal_part part then
            Inr (a\<lparr>refusal_text := dget_or p ''refusal'' (PStr '''')\<rparr>, st)
          else if is_citation_part part then Inr (a, st)
          else
            Inr (a, warn (''Unsupported content part type in assistant message: '' @ py_str (dget p ''type'')) st))"

text \<open>\<open>if k in pm: m[k] = pm[k]\<close>.\<close>

definition restore_field :: "pyval \<Rightarrow> pdict \<Rightarrow> string \<Rightarrow> pdict res" where
  "restore_field pm m k =
     rbind (py_contains pm k) (\<lambda>present.
       if present then rbind (py_item pm k) (\<lambda>v. Inr (dset m k v)) else Inr m)"

definition restore_reasoning :: "pyval list \<Rightarrow> pdict \<Rightarrow> pdict res" where
  "restore_reasoning content m =
     (case filter is_reasoning_part content of
        [] \<Rightarrow> Inr m
      | part # _ \<Rightarrow>
          rbind (py_get part ''provider_metadata'' (PDict [])) (\<lambda>metadata.
          rbind (py_get metadata ''openai_chat'' (PDict [])) (\<lambda>pm.
            rfold (restore_field pm) m [''reasoning_details'', ''encrypted_content''])))"

text \<open>The message is built in three steps: its reasoning, its text, then its calls and refusal.\<close>

definition set_reasoning :: "pyval list \<Rightarrow> assistant_acc \<Rightarrow> pdict \<Rightarrow> pdict res" where
  "set_reasoning content a m =
     (if reasoning_text a \<noteq> PNone
      then restore_reasoning content (dset m ''reasoning_content'' (reasoning_text a))
      else Inr m)"

definition set_texts :: "assistant_acc \<Rightarrow> pdict \<Rightarrow> pdict res" where
  "set_texts a m =
     (if text_parts a \<noteq> []
      then rbind (py_join '' '' (text_parts a)) (\<lambda>s. Inr (dset m ''content'' (PStr s)))
      else Inr m)"

definition set_calls :: "assistant_acc \<Rightarrow> pdict \<Rightarrow> pdict" where
  "set_calls a m =
     (let m = (if tool_calls a \<noteq> [] then
                 let m = dset m ''tool_calls'' (PList (tool_calls a)) in
                 if text_parts a = [] then dset m ''content'' PNone else m
               else m);
          m = (if text_parts a = [] \<and> tool_calls a = [] then dset m ''content'' (PStr '''') else m) in
      if refusal_text a \<noteq> PNone then dset m ''refusal'' (refusal_text a) else m)"

definition ir_assistant_to_p :: "pyval list \<Rightarrow> pack_state \<Rightarrow> (pdict \<times> pack_state) res" where
  "ir_assistant_to_p content st =
     rbind (rfold assistant_part
       (\<lparr>text_parts = [], tool_calls = [], refusal_text = PNone, reasoning_text = PNone\<rparr>, st) content) (\<lambda>(a, st).
     rbind (set_reasoning content a [(''role'', PStr ''assistant'')]) (\<lambda>m.
     rbind (set_texts a m) (\<lambda>m.
       Inr (set_calls a m, st))))"

definition ir_tool_messages_to_p :: "pyval list \<Rightarrow> pack_state \<Rightarrow> (pdict list \<times> pack_state) res" where
  "ir_tool_messages_to_p content st =
     rfold (\<lambda>(tool_messages, st) part.
       case as_dict part of
         Some p \<Rightarrow>
           if is_tool_result_part part then
             rbind (convert_tool_result_with_packing p st) (\<lambda>(m, st). Inr (tool_messages @ [m], st))
           else Inr (tool_messages, st)
       | None \<Rightarrow> Inr (tool_messages, st)) ([], st) content"

text \<open>
  The messages one IR message becomes: \<open>None\<close> becomes no message, and a single dict one.
\<close>

definition ir_message_to_p :: "pdict \<Rightarrow> pack_state \<Rightarrow> (pdict list \<times> pack_state) res" where
  "ir_message_to_p message st =
     (let role = dget message ''role''; content = dget_or message ''content'' (PList []) in
      if role = PStr ''system'' then
        rbind (py_iter content) (\<lambda>parts. rbind (ir_system_to_p parts) (\<lambda>m. Inr ([m], st)))
      else if role = PStr ''user'' then
        rbind (py_iter content) (\<lambda>parts. ir_user_to_p parts st)
      else if role = PStr ''assistant'' then
        rbind (py_iter content) (\<lambda>parts. rbind (ir_assistant_to_p parts st) (\<lambda>(m, st). Inr ([m], st)))
      else if role = PStr ''tool'' then
        rbind (py_iter content) (\<lambda>parts. ir_tool_messages_to_p parts st)
      else Inr ([], st))"

definition handle_extension_item ::
  "pdict \<Rightarrow> pdict list \<Rightarrow> pack_state \<Rightarrow> (pdict list \<times> pack_state) res" where
  "handle_extension_item item messages st =
     (let extension_type = dget item ''type'' in
      if extension_type = PStr ''system_event'' then
        Inr (messages,
          warn (''System event ignored: '' @ py_str (dget_or item ''event_type'' (PStr ''unknown''))) st)
      else if extension_type = PStr ''tool_chain_node'' then
        let st = warn ''Tool chain converted to sequential calls'' st; tool_call = dget item ''tool_call'' in
        if py_truthy tool_call then
          (case as_dict tool_call of
             Some tc \<Rightarrow>
               rbind (ir_tool_call_to_p tc) (\<lambda>c.
                 Inr (messages @ [[(''role'', PStr ''assistant''), (''tool_calls'', PList [c])]], st))
           | None \<Rightarrow> Inl AttributeError)
        else Inr (messages, st)
      else if extension_type = PStr ''batch_marker'' \<or> extension_type = PStr ''session_control'' then
        Inr (messages, warn (''Extension item ignored: '' @ py_str extension_type) st)
      else Inr (messages, st))"

definition ir_item_to_p :: "pdict list \<times> pack_state \<Rightarrow> pyval \<Rightarrow> (pdict list \<times> pack_state) res" where
  "ir_item_to_p acc item =
     (case as_dict item of
        None \<Rightarrow> Inr acc
      | Some d \<Rightarrow>
          if is_message item then
            rbind (ir_message_to_p d (snd acc)) (\<lambda>(converted, st). Inr (fst acc @ converted, st))
          else
            rbind (is_extension_item item) (\<lambda>ext.
              if ext then handle_extension_item d (fst acc) (snd acc) else Inr acc))"

definition ir_messages_to_p :: "pyval list \<Rightarrow> (pdict list \<times> string list) res" where
  "ir_messages_to_p ir_messages =
     rbind (rfold ir_item_to_p ([], \<lparr>warnings = [], multimodal_packs = []\<rparr>) ir_messages) (\<lambda>(messages, st).
     rbind (reorder_tool_messages messages (warnings st)) (\<lambda>(messages, ws).
     rbind (if multimodal_packs st \<noteq> []
            then inject_packed_tool_content messages (multimodal_packs st)
            else Inr messages) (\<lambda>messages.
       Inr (messages, ws))))"

section \<open>To the IR\<close>

definition p_content_part_to_ir :: "pyval \<Rightarrow> pdict list res" where
  "p_content_part_to_ir provider_part =
     (if is_str provider_part then rbind (p_text_to_ir provider_part) (\<lambda>p. Inr [p])
      else case as_dict provider_part of
        None \<Rightarrow> Inr []
      | Some d \<Rightarrow>
          let part_type = dget d ''type'' in
          if part_type = PStr ''text'' then rbind (p_text_to_ir provider_part) (\<lambda>p. Inr [p])
          else if part_type = PStr ''image_url'' then rbind (p_image_to_ir provider_part) (\<lambda>p. Inr [p])
          else if part_type = PStr ''input_audio'' then rbind (p_audio_to_ir provider_part) (\<lambda>p. Inr [p])
          else Inr [])"

definition p_content_parts_to_ir :: "pyval list \<Rightarrow> pdict list res" where
  "p_content_parts_to_ir parts = rbind (rmap p_content_part_to_ir parts) (\<lambda>pss. Inr (concat pss))"

definition ir_message :: "string \<Rightarrow> pdict list \<Rightarrow> pdict" where
  "ir_message role content = [(''role'', PStr role), (''content'', PList (map PDict content))]"

definition p_system_to_ir :: "pdict \<Rightarrow> pdict res" where
  "p_system_to_ir msg =
     (let content = dget_or msg ''content'' (PStr '''') in
      if is_str content then Inr (ir_message ''system'' [text_part content])
      else case as_list content of
        Some parts \<Rightarrow>
          rbind (rmap (\<lambda>part. py_item part ''text'') (filter is_text_part parts)) (\<lambda>ts.
            Inr (ir_message ''system'' (map text_part ts)))
      | None \<Rightarrow> Inr (ir_message ''system'' [text_part (PStr (py_str content))]))"

definition p_user_to_ir :: "pdict \<Rightarrow> pdict res" where
  "p_user_to_ir msg =
     (let content = dget_or msg ''content'' (PStr '''') in
      if is_str content then Inr (ir_message ''user'' [text_part content])
      else case as_list content of
        Some parts \<Rightarrow> rbind (p_content_parts_to_ir parts) (\<lambda>ps. Inr (ir_message ''user'' ps))
      | None \<Rightarrow> Inr (ir_message ''user'' []))"

definition reasoning_to_ir :: "pdict \<Rightarrow> pdict list" where
  "reasoning_to_ir msg =
     (let reasoning_content = dget msg ''reasoning_content'' in
      if reasoning_content = PNone then []
      else
        let meta = filter (\<lambda>kv. py_truthy (snd kv))
                     (map (\<lambda>k. (k, dget msg k)) [''reasoning_details'', ''encrypted_content'']);
            part = p_reasoning_to_ir reasoning_content in
        [if meta \<noteq> [] then dset part ''provider_metadata'' (PDict [(''openai_chat'', PDict meta)]) else part])"

text \<open>\<open>if x: for y in x: out.append(f(y))\<close>.\<close>

definition each_of :: "pyval \<Rightarrow> (pyval \<Rightarrow> pdict res) \<Rightarrow> pdict list res" where
  "each_of x f = (if py_truthy x then rbind (py_iter x) (rmap f) else Inr [])"

definition p_assistant_to_ir :: "(string \<Rightarrow> string) \<Rightarrow> pdict \<Rightarrow> pdict res" where
  "p_assistant_to_ir flt msg =
     (let content = dget msg ''content''; refusal = dget msg ''refusal'' in
      rbind (if \<not> py_truthy content then Inr []
             else if is_str content then Inr [text_part content]
             else case as_list content of
               Some parts \<Rightarrow> p_content_parts_to_ir parts
             | None \<Rightarrow> Inr []) (\<lambda>texts.
      rbind (each_of (dget msg ''tool_calls'') (p_tool_call_to_ir flt)) (\<lambda>calls.
      rbind (each_of (dget msg ''annotations'') p_citation_to_ir) (\<lambda>citations.
        Inr (ir_message ''assistant''
          (reasoning_to_ir msg @ texts @
           (if py_truthy refusal then [[(''type'', PStr ''refusal''), (''refusal'', refusal)]] else []) @
           calls @ citations))))))"

definition tool_result_message :: "pyval \<Rightarrow> pyval \<Rightarrow> pdict" where
  "tool_result_message tcid result =
     ir_message ''tool''
       [[(''type'', PStr ''tool_result''), (''tool_call_id'', tcid), (''result'', result)]]"

definition p_tool_to_ir :: "pdict \<Rightarrow> unpacked_map \<Rightarrow> pdict res" where
  "p_tool_to_ir msg unpacked_content =
     (let call_id = dget_or msg ''tool_call_id'' (PStr '''') in
      rbind (if py_truthy call_id \<and> unpacked_content \<noteq> []
             then dget_dyn unpacked_content call_id else Inr None) (\<lambda>blocks.
        case blocks of
          Some bs \<Rightarrow>
            rbind (p_content_parts_to_ir (map PDict bs)) (\<lambda>ir_parts.
              Inr (tool_result_message call_id (PList (map PDict ir_parts))))
        | None \<Rightarrow> Inr (tool_result_message call_id (dget_or msg ''content'' (PStr '''')))))"

definition p_function_to_ir :: "pdict \<Rightarrow> pdict" where
  "p_function_to_ir msg =
     tool_result_message
       (PStr (''legacy_function_'' @ py_str (dget_or msg ''name'' (PStr ''unknown''))))
       (dget_or msg ''content'' (PStr ''''))"

definition p_message_to_ir ::
  "(string \<Rightarrow> string) \<Rightarrow> unpacked_map \<Rightarrow> pyval \<Rightarrow> pdict option res" where
  "p_message_to_ir flt unpacked_content provider_message =
     (case as_dict provider_message of
        None \<Rightarrow> Inr None
      | Some msg \<Rightarrow>
          let role = dget msg ''role'' in
          if role = PStr ''system'' then rbind (p_system_to_ir msg) (\<lambda>m. Inr (Some m))
          else if role = PStr ''user'' then rbind (p_user_to_ir msg) (\<lambda>m. Inr (Some m))
          else if role = PStr ''assistant'' then rbind (p_assistant_to_ir flt msg) (\<lambda>m. Inr (Some m))
          else if role = PStr ''tool'' then rbind (p_tool_to_ir msg unpacked_content) (\<lambda>m. Inr (Some m))
          else if role = PStr ''function'' then Inr (Some (p_function_to_ir msg))
          else Inr None)"

definition p_messages_to_ir :: "(string \<Rightarrow> string) \<Rightarrow> pyval list \<Rightarrow> pdict list res" where
  "p_messages_to_ir flt provider_messages =
     rbind (unpack_tool_content provider_messages) (\<lambda>(unpacked_content, clean_messages).
     rbind (rmap (p_message_to_ir flt unpacked_content) clean_messages) (\<lambda>ms.
       Inr (concat (map (\<lambda>m. case m of Some d \<Rightarrow> [d] | None \<Rightarrow> []) ms))))"

end
