(* ===== verification/Reasoning.thy ===== *)
theory Reasoning
  imports PyValue
begin

text \<open>
  \<open>converters/base/helpers/reasoning.py\<close> with \<open>ReasoningCapability\<close> of \<open>shims/provider_shim.py\<close>:
  the conversion of an IR reasoning config to provider parameters.

  The product \<open>int(max_tokens * ratio)\<close> of an int and a float is the parameter \<open>scale\<close>, with the
  ratio an abstract value. A warning has no effect on the result and is left out.
\<close>

section \<open>Capabilities\<close>

record 'r reasoning_cap =
  disabled :: string
  effort_field :: string
  max_effort :: "string option"
  thinking_type :: "string option"
  effort_map :: "(string \<times> string) list"
  budget_ratio :: "'r option"
  unsigned_reasoning_blocks :: string

definition default_openai_chat :: "'r reasoning_cap" where
  "default_openai_chat =
     \<lparr>disabled = ''omit'', effort_field = ''reasoning_effort'', max_effort = None, thinking_type = None,
      effort_map = [(''minimal'', ''minimal''), (''low'', ''low''), (''medium'', ''medium''),
        (''high'', ''high''), (''xhigh'', ''high''), (''max'', ''high'')],
      budget_ratio = None, unsigned_reasoning_blocks = ''as_is''\<rparr>"

definition default_openai_responses :: "'r reasoning_cap" where
  "default_openai_responses =
     \<lparr>disabled = ''omit'', effort_field = ''reasoning.effort'', max_effort = None, thinking_type = None,
      effort_map = [(''minimal'', ''minimal''), (''low'', ''low''), (''medium'', ''medium''),
        (''high'', ''high''), (''xhigh'', ''high''), (''max'', ''high'')],
      budget_ratio = None, unsigned_reasoning_blocks = ''as_is''\<rparr>"

definition default_anthropic :: "'r reasoning_cap" where
  "default_anthropic =
     \<lparr>disabled = ''thinking_disabled'', effort_field = ''output_config.effort'', max_effort = None,
      thinking_type = None,
      effort_map = [(''minimal'', ''low''), (''low'', ''low''), (''medium'', ''medium''),
        (''high'', ''high''), (''xhigh'', ''xhigh''), (''max'', ''max'')],
      budget_ratio = None, unsigned_reasoning_blocks = ''as_is''\<rparr>"

definition default_google :: "'r reasoning_cap" where
  "default_google =
     \<lparr>disabled = ''thinking_budget_zero'', effort_field = ''none'', max_effort = None,
      thinking_type = None, effort_map = [], budget_ratio = None, unsigned_reasoning_blocks = ''as_is''\<rparr>"

definition default_reasoning_caps :: "(string \<times> 'r reasoning_cap) list" where
  "default_reasoning_caps =
     [(''openai_chat'', default_openai_chat), (''openai_responses'', default_openai_responses),
      (''anthropic'', default_anthropic), (''google'', default_google)]"

section \<open>Effort\<close>

definition effort_rank :: "(string \<times> nat) list" where
  "effort_rank =
     [(''minimal'', 0), (''low'', 1), (''medium'', 2), (''high'', 3), (''xhigh'', 4), (''max'', 5)]"

definition normalize_reasoning_input :: "pdict \<Rightarrow> pdict" where
  "normalize_reasoning_input ir =
     (if dget ir ''effort'' = PStr ''none'' then ddel (dset ir ''mode'' (PStr ''disabled'')) ''effort''
      else if dget ir ''effort'' = PStr ''ultra'' then dset ir ''effort'' (PStr ''max'')
      else ir)"

definition cap_effort :: "pyval \<Rightarrow> 'r reasoning_cap \<Rightarrow> pyval res" where
  "cap_effort effort cap =
     (case max_effort cap of
        None \<Rightarrow> Inr effort
      | Some m \<Rightarrow>
          rbind (dget_dyn effort_rank effort) (\<lambda>r.
            case (r, map_of effort_rank m) of
              (Some er, Some mr) \<Rightarrow> Inr (if er \<le> mr then effort else PStr m)
            | _ \<Rightarrow> Inr effort))"

definition serialize_disabled :: "'r reasoning_cap \<Rightarrow> pdict" where
  "serialize_disabled cap =
     (if disabled cap = ''omit'' then []
      else if disabled cap = ''thinking_disabled'' then
        [(''thinking'', PDict [(''type'', PStr ''disabled'')])]
      else if disabled cap = ''thinking_budget_zero'' then
        [(''thinking_config'', PDict [(''thinking_budget'', PInt 0)])]
      else [])"

definition serialize_effort :: "string \<Rightarrow> string \<Rightarrow> pdict" where
  "serialize_effort field provider_effort =
     (if field = ''none'' then []
      else if field = ''reasoning_effort'' then [(''reasoning_effort'', PStr provider_effort)]
      else if field = ''reasoning.effort'' then
        [(''reasoning'', PDict [(''effort'', PStr provider_effort)])]
      else if field = ''output_config.effort'' then
        [(''output_config'', PDict [(''effort'', PStr provider_effort)])]
      else if field = ''thinking_level'' then
        [(''thinking_config'', PDict [(''thinking_level'', PStr provider_effort)])]
      else [(field, PStr provider_effort)])"

definition deep_merge :: "pdict \<Rightarrow> pdict \<Rightarrow> pdict" where
  "deep_merge target source =
     fold (\<lambda>(k, v) t.
        case (v, dget t k) of
          (PDict e, PDict d) \<Rightarrow> dset t k (PDict (dmerge d e))
        | _ \<Rightarrow> dset t k v) source target"

section \<open>Token budget\<close>

definition min_budget_tokens :: int where "min_budget_tokens = 1024"

definition derive_budget_tokens ::
  "(int \<Rightarrow> 'r \<Rightarrow> int) \<Rightarrow> 'r reasoning_cap \<Rightarrow> int option \<Rightarrow> int option" where
  "derive_budget_tokens scale cap max_tokens =
     (case (budget_ratio cap, max_tokens) of
        (Some ratio, Some m) \<Rightarrow>
          if m \<le> min_budget_tokens then None
          else Some (min (max min_budget_tokens (scale m ratio)) (m - 1))
      | _ \<Rightarrow> None)"

section \<open>Extras of each converter\<close>

text \<open>The block that both the Chat and the Anthropic extras end with. \<open>t\<close> is \<open>result["thinking"]\<close>.\<close>

definition override_thinking ::
  "(int \<Rightarrow> 'r \<Rightarrow> int) \<Rightarrow> 'r reasoning_cap \<Rightarrow> int option \<Rightarrow> string \<Rightarrow> pdict \<Rightarrow> pdict" where
  "override_thinking scale cap max_tokens tt t =
     (let current_type = dget t ''type'';
          (t1, target_type) =
            (if tt = ''enabled'' \<and> \<not> dhas t ''budget_tokens'' then
               (case derive_budget_tokens scale cap max_tokens of
                  Some derived \<Rightarrow> (dset t ''budget_tokens'' (PInt derived), tt)
                | None \<Rightarrow> (t, ''adaptive''))
             else (t, tt)) in
      if current_type \<noteq> PStr target_type then
        let t2 = dset t1 ''type'' (PStr target_type) in
        if target_type = ''adaptive'' \<and> dhas t2 ''budget_tokens'' then ddel t2 ''budget_tokens'' else t2
      else t1)"

definition apply_override ::
  "(int \<Rightarrow> 'r \<Rightarrow> int) \<Rightarrow> 'r reasoning_cap \<Rightarrow> int option \<Rightarrow> pdict \<Rightarrow> pdict res" where
  "apply_override scale cap max_tokens result =
     (case (thinking_type cap, map_of result ''thinking'') of
        (Some tt, Some v) \<Rightarrow>
          (case v of
             PDict t \<Rightarrow> Inr (dset result ''thinking'' (PDict (override_thinking scale cap max_tokens tt t)))
           | _ \<Rightarrow> Inl AttributeError)
      | _ \<Rightarrow> Inr result)"

definition apply_openai_chat_extras ::
  "(int \<Rightarrow> 'r \<Rightarrow> int) \<Rightarrow> pdict \<Rightarrow> pyval \<Rightarrow> pyval \<Rightarrow> 'r reasoning_cap \<Rightarrow> int option \<Rightarrow> pdict res" where
  "apply_openai_chat_extras scale result mode budget_tokens cap max_tokens =
     (let t1 = (if py_truthy mode
                then [(''type'', if mode = PStr ''auto'' then PStr ''adaptive'' else mode)] else []);
          thinking = (if budget_tokens \<noteq> PNone then dset t1 ''budget_tokens'' budget_tokens else t1);
          result' = (if thinking \<noteq> [] then dset result ''thinking'' (PDict thinking) else result) in
      apply_override scale cap max_tokens result')"

definition apply_openai_responses_extras :: "pdict \<Rightarrow> pdict \<Rightarrow> pdict res" where
  "apply_openai_responses_extras ir result =
     (let context = dget ir ''context'' in
      if context \<noteq> PNone then
        rbind (set_key (dget_or result ''reasoning'' (PDict [])) ''context'' context)
          (\<lambda>reasoning. Inr (dset result ''reasoning'' reasoning))
      else Inr result)"

definition apply_anthropic_extras ::
  "(int \<Rightarrow> 'r \<Rightarrow> int) \<Rightarrow> pdict \<Rightarrow> pyval \<Rightarrow> pyval \<Rightarrow> pyval \<Rightarrow> 'r reasoning_cap \<Rightarrow> int option \<Rightarrow> pdict res" where
  "apply_anthropic_extras scale result mode effort budget_tokens cap max_tokens =
     (let enabled_with = (\<lambda>v. PDict [(''type'', PStr ''enabled''), (''budget_tokens'', v)]);
          result' =
            (if mode = PStr ''enabled'' then
               dset result ''thinking''
                 (if budget_tokens \<noteq> PNone then enabled_with budget_tokens
                  else case derive_budget_tokens scale cap max_tokens of
                    Some derived \<Rightarrow> enabled_with (PInt derived)
                  | None \<Rightarrow> PDict [(''type'', PStr ''adaptive'')])
             else if mode = PStr ''auto'' \<or> effort \<noteq> PNone then
               dset result ''thinking''
                 (PDict (let t = [(''type'', PStr ''adaptive'')] in
                         if budget_tokens \<noteq> PNone then dset t ''budget_tokens'' budget_tokens else t))
             else if budget_tokens \<noteq> PNone then
               dset result ''thinking'' (enabled_with budget_tokens)
             else result) in
      apply_override scale cap max_tokens result')"

definition apply_google_extras :: "pdict \<Rightarrow> pyval \<Rightarrow> pyval \<Rightarrow> pdict res" where
  "apply_google_extras result mode budget_tokens =
     (let t0 = dget_or result ''thinking_config'' (PDict []) in
      rbind (if mode = PStr ''auto'' \<and> budget_tokens = PNone
             then set_key t0 ''thinking_budget'' (PInt (-1)) else Inr t0) (\<lambda>t1.
      rbind (if budget_tokens \<noteq> PNone then set_key t1 ''thinking_budget'' budget_tokens else Inr t1) (\<lambda>t2.
      Inr (if py_truthy t2 then dset result ''thinking_config'' t2 else result))))"

section \<open>The main helper\<close>

definition apply_effort ::
  "'r reasoning_cap \<Rightarrow> pyval \<Rightarrow> (pyval \<times> pdict) res" where
  "apply_effort cap effort =
     (if effort \<noteq> PNone then
        rbind (cap_effort effort cap) (\<lambda>effort'.
        rbind (dget_dyn (effort_map cap) effort') (\<lambda>pe.
          Inr (effort', case pe of
                 None \<Rightarrow> []
               | Some p \<Rightarrow> deep_merge [] (serialize_effort (effort_field cap) p))))
      else Inr (effort, []))"

definition apply_reasoning_config ::
  "(int \<Rightarrow> 'r \<Rightarrow> int) \<Rightarrow> pdict \<Rightarrow> 'r reasoning_cap \<Rightarrow> string option \<Rightarrow> int option \<Rightarrow> pdict res" where
  "apply_reasoning_config scale ir_reasoning cap converter_type max_tokens =
     (let ir = normalize_reasoning_input ir_reasoning;
          mode = dget ir ''mode''; budget_tokens = dget ir ''budget_tokens'' in
      if mode = PStr ''disabled'' then Inr (serialize_disabled cap)
      else
        rbind (apply_effort cap (dget ir ''effort'')) (\<lambda>(effort, result).
          if converter_type = Some ''openai_chat'' then
            apply_openai_chat_extras scale result mode budget_tokens cap max_tokens
          else if converter_type = Some ''openai_responses'' then
            apply_openai_responses_extras ir result
          else if converter_type = Some ''anthropic'' then
            apply_anthropic_extras scale result mode effort budget_tokens cap max_tokens
          else if converter_type = Some ''google'' then
            apply_google_extras result mode budget_tokens
          else Inr result))"


section \<open>The thinking block\<close>

definition enabled_budgeted :: "pdict \<Rightarrow> bool" where
  "enabled_budgeted t \<longleftrightarrow> (dget t ''type'' = PStr ''enabled'' \<longrightarrow> dhas t ''budget_tokens'')"

lemma enabled_budgeted_override:
  "enabled_budgeted t \<Longrightarrow> enabled_budgeted (override_thinking scale cap m tt t)"
  by (auto simp: enabled_budgeted_def override_thinking_def Let_def split: option.splits)

lemma apply_override_thinking:
  assumes "apply_override scale cap m result = Inr r" and "map_of r ''thinking'' = Some (PDict t)"
    and "\<And>t0. map_of result ''thinking'' = Some (PDict t0) \<Longrightarrow> enabled_budgeted t0"
  shows "enabled_budgeted t"
  using assms
  by (auto simp: apply_override_def enabled_budgeted_override split: option.splits pyval.splits)

lemma anthropic_extras_budgeted:
  assumes "apply_anthropic_extras scale result mode effort budget cap m = Inr r"
    and "map_of r ''thinking'' = Some (PDict t)" and "\<And>d. map_of result ''thinking'' \<noteq> Some (PDict d)"
  shows "enabled_budgeted t"
  using assms(1)[unfolded apply_anthropic_extras_def Let_def] assms(2)
proof (rule apply_override_thinking)
qed (use assms(3) in \<open>auto simp: enabled_budgeted_def split: if_splits option.splits\<close>)

lemma apply_effort_no_thinking_dict:
  "apply_effort cap effort = Inr (e, result) \<Longrightarrow> map_of result ''thinking'' \<noteq> Some (PDict d)"
  by (auto simp: apply_effort_def deep_merge_def serialize_effort_def split: if_splits option.splits
      elim!: rbind_InrE)

definition ladder :: "string list" where
  "ladder = map fst effort_rank"

definition rank_of :: "string \<Rightarrow> nat" where
  "rank_of e = the (map_of effort_rank e)"

lemma ladder_rank: "e \<in> set ladder \<Longrightarrow> map_of effort_rank e = Some (rank_of e)"
  by (auto simp: ladder_def effort_rank_def rank_of_def)

lemma cap_effort_ladder:
  assumes "e \<in> set ladder" and "\<And>m. max_effort cap = Some m \<Longrightarrow> m \<in> set ladder"
  shows "cap_effort (PStr e) cap =
    Inr (PStr (case max_effort cap of None \<Rightarrow> e | Some m \<Rightarrow> if rank_of e \<le> rank_of m then e else m))"
  using assms ladder_rank
  by (auto simp: cap_effort_def dget_dyn_def split: option.splits)

section \<open>Properties\<close>

text \<open>
  C32. A token budget that the code derives itself is one Anthropic accepts, at least 1024 and
  below \<open>max_tokens\<close>, whatever the float product is; none is derived exactly when there is no
  ratio, no \<open>max_tokens\<close>, or one too small.
\<close>

theorem derived_budget_bounds:
  "(case derive_budget_tokens scale cap mt of
      Some b \<Rightarrow> \<exists>m. mt = Some m \<and> 1024 \<le> b \<and> b < m
    | None \<Rightarrow> budget_ratio cap = None \<or> (\<forall>m. mt = Some m \<longrightarrow> m \<le> 1024))"
  by (auto simp: derive_budget_tokens_def min_budget_tokens_def split: option.split)

theorem derived_budget_bounds_witness:
  "derive_budget_tokens (\<lambda>m r. m * r div 10) (default_anthropic\<lparr>budget_ratio := Some 8\<rparr>) (Some 4000) = Some 3200
   \<and> 3200 < (4000 :: int)"
  using derived_budget_bounds [where scale = "\<lambda>m r. m * r div 10" and mt = "Some 4000"
      and cap = "default_anthropic\<lparr>budget_ratio := Some 8\<rparr>"]
  by (simp add: derive_budget_tokens_def min_budget_tokens_def)

text \<open>
  The thinking block sent to Anthropic is \<open>enabled\<close> only together with a token budget,
  for every IR config, every capability (also one that forces a thinking type) and every
  \<open>max_tokens\<close>.
\<close>

theorem anthropic_enabled_has_budget:
  assumes "apply_reasoning_config scale ir cap (Some ''anthropic'') mt = Inr r"
    and "map_of r ''thinking'' = Some (PDict t)" and "dget t ''type'' = PStr ''enabled''"
  shows "dhas t ''budget_tokens''"
proof (cases "dget (normalize_reasoning_input ir) ''mode'' = PStr ''disabled''")
  case True
  with assms show ?thesis
    by (auto simp: apply_reasoning_config_def serialize_disabled_def split: if_splits)
next
  case False
  then obtain e result where a: "apply_effort cap (dget (normalize_reasoning_input ir) ''effort'') = Inr (e, result)"
    and x: "apply_anthropic_extras scale result (dget (normalize_reasoning_input ir) ''mode'') e
      (dget (normalize_reasoning_input ir) ''budget_tokens'') cap mt = Inr r"
    using assms(1) by (auto simp: apply_reasoning_config_def Let_def elim!: rbind_InrE)
  have "enabled_budgeted t"
    by (rule anthropic_extras_budgeted [OF x assms(2)]) (use apply_effort_no_thinking_dict [OF a] in blast)
  with assms(3) show ?thesis by (simp add: enabled_budgeted_def)
qed

theorem anthropic_enabled_has_budget_witness:
  "\<exists>r t. apply_reasoning_config (\<lambda>m r. m * r div 10) [(''mode'', PStr ''enabled'')]
       (default_anthropic\<lparr>budget_ratio := Some 8\<rparr>) (Some ''anthropic'') (Some 4000) = Inr r
     \<and> map_of r ''thinking'' = Some (PDict t) \<and> dget t ''type'' = PStr ''enabled'' \<and> dhas t ''budget_tokens''"
proof -
  let ?t = "[(''type'', PStr ''enabled''), (''budget_tokens'', PInt 3200)]"
  have r: "apply_reasoning_config (\<lambda>m r. m * r div 10) [(''mode'', PStr ''enabled'')]
      (default_anthropic\<lparr>budget_ratio := Some 8\<rparr>) (Some ''anthropic'') (Some 4000) =
      Inr [(''thinking'', PDict ?t)]"
    by (simp add: apply_reasoning_config_def normalize_reasoning_input_def apply_effort_def
        apply_anthropic_extras_def derive_budget_tokens_def min_budget_tokens_def
        apply_override_def default_anthropic_def)
  have "dhas ?t ''budget_tokens''"
    by (rule anthropic_enabled_has_budget [OF r]) simp_all
  with r show ?thesis by (intro exI [of _ "[(''thinking'', PDict ?t)]"] exI [of _ ?t]) simp
qed

text \<open>
  The effort sent to a Chat provider is the mapped value of the requested effort capped at
  the maximum of the shim: for an effort of the ladder the lower of the two in rank is looked
  up, and the rest of the config never changes or drops it.
\<close>

theorem chat_effort_capped:
  assumes "dget ir ''effort'' = PStr e" and "e \<in> set ladder" and "dget ir ''mode'' \<noteq> PStr ''disabled''"
    and "max_effort cap = Some m" and "m \<in> set ladder" and "effort_field cap = ''reasoning_effort''"
    and "e' = (if rank_of e \<le> rank_of m then e else m)" and "map_of (effort_map cap) e' = Some p"
  shows "\<exists>r. apply_reasoning_config scale ir cap (Some ''openai_chat'') mt = Inr r
    \<and> map_of r ''reasoning_effort'' = Some (PStr p) \<and> rank_of e' \<le> rank_of m"
proof -
  have n: "normalize_reasoning_input ir = ir"
    using assms(1,2) by (auto simp: normalize_reasoning_input_def ladder_def effort_rank_def)
  have "cap_effort (PStr e) cap = Inr (PStr e')"
    using cap_effort_ladder [OF assms(2), of cap] assms(4,5,7) by simp
  then have a: "apply_effort cap (PStr e) = Inr (PStr e', [(''reasoning_effort'', PStr p)])"
    using assms(6,8) by (simp add: apply_effort_def dget_dyn_def deep_merge_def serialize_effort_def)
  have o: "\<exists>r. apply_override scale cap mt [(''reasoning_effort'', PStr p), (''thinking'', PDict t)] = Inr r
        \<and> map_of r ''reasoning_effort'' = Some (PStr p)"
      "\<exists>r. apply_override scale cap mt [(''reasoning_effort'', PStr p)] = Inr r
        \<and> map_of r ''reasoning_effort'' = Some (PStr p)" for t
    by (auto simp: apply_override_def split: option.split)
  have "\<exists>r. apply_openai_chat_extras scale [(''reasoning_effort'', PStr p)] mode b cap mt = Inr r
      \<and> map_of r ''reasoning_effort'' = Some (PStr p)" for mode b
    by (auto simp: apply_openai_chat_extras_def Let_def intro: o)
  moreover have "rank_of e' \<le> rank_of m" using assms(7) by auto
  ultimately show ?thesis
    using assms(1,3) n a by (simp add: apply_reasoning_config_def)
qed

theorem chat_effort_capped_witness:
  "\<exists>r. apply_reasoning_config (\<lambda>m r. m) [(''effort'', PStr ''max'')]
      (default_openai_chat\<lparr>max_effort := Some ''medium''\<rparr>) (Some ''openai_chat'') None = Inr r
    \<and> map_of r ''reasoning_effort'' = Some (PStr ''medium'')"
  using chat_effort_capped [of "[(''effort'', PStr ''max'')]" "''max''"
      "default_openai_chat\<lparr>max_effort := Some ''medium''\<rparr>" "''medium''" "''medium''" "''medium''"
      "\<lambda>m r. m" None]
  by (simp add: ladder_def effort_rank_def rank_of_def default_openai_chat_def)

end
