(* ===== verification/AnthropicMessageOps.thy ===== *)
theory AnthropicMessageOps
  imports AnthropicToolOps ChatMessageOps Reasoning
begin

text \<open>
  \<open>converters/anthropic/message_ops.py\<close>: messages between the IR and the Anthropic format.

  A conversion to the provider returns the warnings it adds. It may also write into the IR parts it
  reads, to keep the reasoning it leaves out, so it returns the IR messages as it leaves them; two
  parts of a request that are the same Python object are not modelled.
\<close>

section \<open>From the IR\<close>

definition anthropic_system_to_p :: "pyval list \<Rightarrow> pdict list res" where
  "anthropic_system_to_p content =
     rmap (\<lambda>part. case as_dict part of Some p \<Rightarrow> anthropic_text_to_p p | None \<Rightarrow> Inl TypeError)
       (filter is_text_part content)"

definition anthropic_user_part ::
  "pdict list \<times> string list \<Rightarrow> pyval \<Rightarrow> (pdict list \<times> string list) res" where
  "anthropic_user_part acc part =
     (let (blocks, ws) = acc; add = (\<lambda>r. rbind r (\<lambda>b. Inr (blocks @ [b], ws))) in
      case as_dict part of
        None \<Rightarrow> Inl AttributeError
      | Some p \<Rightarrow>
          if is_text_part part then add (anthropic_text_to_p p)
          else if is_image_part part then add (anthropic_image_to_p p)
          else if is_file_part part then add (anthropic_file_to_p p)
          else if is_tool_result_part part then add (anthropic_tool_result_to_p p)
          else if is_audio_part part then
            Inr (blocks, ws @ [''Audio content not supported in Anthropic Messages API, ignored''])
          else if is_reasoning_part part then
            Inr (blocks, ws @ [''Reasoning content in user message not supported, ignored''])
          else
            Inr (blocks, ws @ [''Unsupported content part type in user message: '' @ py_str (dget p ''type'')]))"

definition user_message :: "pdict list \<Rightarrow> pdict" where
  "user_message blocks = [(''role'', PStr ''user''), (''content'', PList (map PDict blocks))]"

definition anthropic_user_to_p :: "pyval list \<Rightarrow> (pdict \<times> string list) res" where
  "anthropic_user_to_p content =
     rbind (rfold anthropic_user_part ([], []) content) (\<lambda>(blocks, ws). Inr (user_message blocks, ws))"

text \<open>\<open>d.setdefault(k, dflt)\<close> on a value that must be a dict.\<close>

definition py_setdefault :: "pyval \<Rightarrow> string \<Rightarrow> pyval \<Rightarrow> pyval res" where
  "py_setdefault v k dflt =
     (case as_dict v of Some d \<Rightarrow> Inr (dget_or d k dflt) | None \<Rightarrow> Inl AttributeError)"

definition preserve_unsigned_reasoning :: "pdict \<Rightarrow> pdict res" where
  "preserve_unsigned_reasoning part =
     (let provider_metadata = dget_or part ''provider_metadata'' (PDict []) in
      rbind (py_setdefault provider_metadata ''anthropic'' (PDict [])) (\<lambda>anthropic_meta.
      rbind (py_setdefault anthropic_meta ''unsigned_reasoning_blocks'' (PList [])) (\<lambda>preserved.
        case as_list preserved of
          None \<Rightarrow> Inl AttributeError
        | Some xs \<Rightarrow>
            let kept = PDict [(''reasoning'', dget_or part ''reasoning'' (PStr '''')),
                              (''signature'', dget part ''signature''), (''status'', dget part ''status'')] in
            rbind (set_key anthropic_meta ''unsigned_reasoning_blocks'' (PList (xs @ [kept]))) (\<lambda>meta.
            rbind (set_key provider_metadata ''anthropic'' meta) (\<lambda>pm.
              Inr (dset part ''provider_metadata'' pm))))))"

text \<open>The blocks, the warnings and the parts as the loop leaves them.\<close>

type_synonym assistant_state = "pdict list \<times> string list \<times> pyval list"

definition anthropic_assistant_part :: "string \<Rightarrow> assistant_state \<Rightarrow> pyval \<Rightarrow> assistant_state res" where
  "anthropic_assistant_part policy acc part =
     (let (blocks, ws, parts) = acc; add = (\<lambda>r. rbind r (\<lambda>b. Inr (blocks @ [b], ws, parts @ [part]))) in
      case as_dict part of
        None \<Rightarrow> Inl AttributeError
      | Some p \<Rightarrow>
          if is_text_part part then add (anthropic_text_to_p p)
          else if is_tool_call_part part then add (anthropic_tool_call_to_p p)
          else if is_reasoning_part part then
            (if policy = ''preserve'' \<and> \<not> py_truthy (dget p ''signature'') then
               rbind (preserve_unsigned_reasoning p) (\<lambda>p.
                 Inr (blocks,
                      ws @ [''Unsigned reasoning content in assistant message not supported by target provider, preserved in metadata''],
                      parts @ [PDict p]))
             else add (Inr (anthropic_reasoning_part_to_p p)))
          else if is_refusal_part part then add (anthropic_refusal_to_p p)
          else if is_citation_part part then
            Inr (blocks, ws @ [''Citation content is part of TextBlock in Anthropic, ignored''], parts @ [part])
          else
            Inr (blocks, ws @ [''Unsupported content part type in assistant message: '' @ py_str (dget p ''type'')],
                 parts @ [part]))"

definition unsigned_policy :: "'r reasoning_cap option \<Rightarrow> string" where
  "unsigned_policy cap = (case cap of Some c \<Rightarrow> unsigned_reasoning_blocks c | None \<Rightarrow> ''as_is'')"

definition anthropic_assistant_to_p ::
  "'r reasoning_cap option \<Rightarrow> pyval list \<Rightarrow> (pdict option \<times> string list \<times> pyval list) res" where
  "anthropic_assistant_to_p cap content =
     rbind (rfold (anthropic_assistant_part (unsigned_policy cap)) ([], [], []) content) (\<lambda>(blocks, ws, parts).
       if blocks = [] then
         Inr (None, ws @ [''Assistant message has no Anthropic-compatible content, ignored''], parts)
       else Inr (Some [(''role'', PStr ''assistant''), (''content'', PList (map PDict blocks))], ws, parts))"

definition anthropic_tool_to_p :: "pyval list \<Rightarrow> pdict res" where
  "anthropic_tool_to_p content =
     rbind (rmap (\<lambda>part. case as_dict part of Some p \<Rightarrow> anthropic_tool_result_to_p p | None \<Rightarrow> Inl TypeError)
              (filter is_tool_result_part content)) (\<lambda>blocks.
       Inr (user_message blocks))"

text \<open>The messages one IR message becomes, the warnings, and the IR message as it is left.\<close>

definition anthropic_message_to_p ::
  "'r reasoning_cap option \<Rightarrow> pdict \<Rightarrow> (pdict list \<times> string list \<times> pdict) res" where
  "anthropic_message_to_p cap message =
     (let role = dget message ''role''; content = dget_or message ''content'' (PList []) in
      if role = PStr ''system'' then
        rbind (py_iter content) (\<lambda>parts. rbind (anthropic_system_to_p parts) (\<lambda>bs. Inr (bs, [], message)))
      else if role = PStr ''user'' then
        rbind (py_iter content) (\<lambda>parts. rbind (anthropic_user_to_p parts) (\<lambda>(m, ws). Inr ([m], ws, message)))
      else if role = PStr ''assistant'' then
        rbind (py_iter content) (\<lambda>parts.
        rbind (anthropic_assistant_to_p cap parts) (\<lambda>(m, ws, parts').
          Inr (case m of Some d \<Rightarrow> [d] | None \<Rightarrow> [], ws,
               if parts' = parts then message else dset message ''content'' (PList parts'))))
      else if role = PStr ''tool'' then
        rbind (py_iter content) (\<lambda>parts. rbind (anthropic_tool_to_p parts) (\<lambda>m. Inr ([m], [], message)))
      else Inr ([], [], message))"

definition anthropic_extension_item ::
  "pdict \<Rightarrow> pdict list \<Rightarrow> (pdict list \<times> string list) res" where
  "anthropic_extension_item item messages =
     (let extension_type = dget item ''type'' in
      if extension_type = PStr ''system_event'' then
        Inr (messages, [''System event ignored: '' @ py_str (dget_or item ''event_type'' (PStr ''unknown''))])
      else if extension_type = PStr ''tool_chain_node'' then
        (let ws = [''Tool chain converted to sequential calls'']; tool_call = dget item ''tool_call'' in
         if py_truthy tool_call then
           (case as_dict tool_call of
              Some tc \<Rightarrow>
                rbind (anthropic_tool_call_to_p tc) (\<lambda>c.
                  Inr (messages @ [[(''role'', PStr ''assistant''), (''content'', PList [PDict c])]], ws))
            | None \<Rightarrow> Inl AttributeError)
         else Inr (messages, ws))
      else if extension_type = PStr ''batch_marker'' \<or> extension_type = PStr ''session_control'' then
        Inr (messages, [''Extension item ignored: '' @ py_str extension_type])
      else Inr (messages, []))"

type_synonym sent = "pdict list \<times> string list \<times> pyval list"

definition anthropic_item_to_p :: "'r reasoning_cap option \<Rightarrow> sent \<Rightarrow> pyval \<Rightarrow> sent res" where
  "anthropic_item_to_p cap acc item =
     (let (messages, ws, items) = acc in
      case as_dict item of
        None \<Rightarrow> Inr (messages, ws, items @ [item])
      | Some d \<Rightarrow>
          if is_message item then
            (if dget d ''role'' = PStr ''system'' then Inr (messages, ws, items @ [item])
             else
               rbind (anthropic_message_to_p cap d) (\<lambda>(converted, msg_warnings, d').
                 Inr (messages @ converted, ws @ msg_warnings, items @ [PDict d'])))
          else
            rbind (is_extension_item item) (\<lambda>ext.
              if ext then
                rbind (anthropic_extension_item d messages) (\<lambda>(messages, ext_warnings).
                  Inr (messages, ws @ ext_warnings, items @ [item]))
              else Inr (messages, ws, items @ [item])))"

definition anthropic_messages_to_p :: "'r reasoning_cap option \<Rightarrow> pyval list \<Rightarrow> sent res" where
  "anthropic_messages_to_p cap ir_messages = rfold (anthropic_item_to_p cap) ([], [], []) ir_messages"

section \<open>To the IR\<close>

definition anthropic_content_part_to_ir :: "pyval \<Rightarrow> pdict list res" where
  "anthropic_content_part_to_ir provider_part =
     (let one = (\<lambda>r. rbind r (\<lambda>p. Inr [p])) in
      if is_str provider_part then one (anthropic_text_to_ir provider_part)
      else case as_dict provider_part of
        None \<Rightarrow> Inr []
      | Some d \<Rightarrow>
          let part_type = dget d ''type'' in
          if part_type = PStr ''text'' then one (anthropic_text_to_ir provider_part)
          else if part_type = PStr ''image'' then one (anthropic_image_to_ir provider_part)
          else if part_type = PStr ''document'' then one (anthropic_file_to_ir provider_part)
          else if part_type = PStr ''tool_use'' \<or> part_type = PStr ''server_tool_use'' then
            one (anthropic_tool_call_to_ir provider_part)
          else if part_type = PStr ''tool_result'' then one (anthropic_tool_result_to_ir provider_part)
          else if part_type = PStr ''thinking'' then one (anthropic_reasoning_part_to_ir provider_part)
          else Inr [])"

text \<open>A user message with tool results becomes a tool message, and a user message for the rest.\<close>

definition split_tool_results :: "pyval \<Rightarrow> pdict list \<Rightarrow> pdict list" where
  "split_tool_results role ir_content =
     (let tool_result_parts = filter (\<lambda>p. is_tool_result_part (PDict p)) ir_content;
          other_parts = filter (\<lambda>p. \<not> is_tool_result_part (PDict p)) ir_content in
      if role = PStr ''user'' \<and> tool_result_parts \<noteq> [] then
        (if other_parts = [] then [ir_message ''tool'' ir_content]
         else [ir_message ''tool'' tool_result_parts, ir_message ''user'' other_parts])
      else [[(''role'', role), (''content'', PList (map PDict ir_content))]])"

definition anthropic_message_to_ir :: "pyval \<Rightarrow> pdict list res" where
  "anthropic_message_to_ir provider_message =
     (case as_dict provider_message of
        None \<Rightarrow> Inr []
      | Some msg \<Rightarrow>
          let content = dget msg ''content'' in
          rbind (if is_str content then Inr [text_part content]
                 else case as_list content of
                   Some parts \<Rightarrow> rbind (rmap anthropic_content_part_to_ir parts) (\<lambda>pss. Inr (concat pss))
                 | None \<Rightarrow> Inr []) (\<lambda>ir_content.
            Inr (split_tool_results (dget msg ''role'') ir_content)))"

definition anthropic_messages_to_ir :: "pyval list \<Rightarrow> pdict list res" where
  "anthropic_messages_to_ir provider_messages =
     rbind (rmap anthropic_message_to_ir provider_messages) (\<lambda>mss. Inr (concat mss))"

end
