(* ===== verification/ChatConfigOps.thy ===== *)
theory ChatConfigOps
  imports Reasoning
begin

text \<open>
  \<open>converters/openai_chat/config_ops.py\<close>: the generation, response format, stream, reasoning and
  cache configs between the IR and the Chat Completions request. A warning has no effect on a
  result and is left out. The optional keyword arguments of the reasoning conversion are options.
\<close>

section \<open>Generation config\<close>

definition direct_fields :: "string list" where
  "direct_fields =
     [''temperature'', ''top_p'', ''frequency_penalty'', ''presence_penalty'', ''logit_bias'',
      ''seed'', ''logprobs'', ''top_logprobs'', ''n'']"

definition chat_generation_to_p :: "pdict \<Rightarrow> pdict res" where
  "chat_generation_to_p ir_config =
     (let r1 = copy_fields (same_names direct_fields) ir_config [];
          r2 = copy_fields [(''max_tokens'', ''max_completion_tokens'')] ir_config r1 in
      case map_of ir_config ''stop_sequences'' of
        None \<Rightarrow> Inr r2
      | Some v \<Rightarrow>
          rbind (py_iter v) (\<lambda>stop.
            Inr (if length stop = 1 then dset r2 ''stop'' (stop ! 0)
                 else if length stop > 1 then dset r2 ''stop'' (PList stop)
                 else r2)))"

definition chat_stop_to_ir :: "pdict \<Rightarrow> pdict \<Rightarrow> pdict" where
  "chat_stop_to_ir d result =
     (case map_of d ''stop'' of
        Some (PStr s) \<Rightarrow> dset result ''stop_sequences'' (PList [PStr s])
      | Some (PList xs) \<Rightarrow> dset result ''stop_sequences'' (PList xs)
      | _ \<Rightarrow> result)"

definition chat_generation_to_ir :: "pyval \<Rightarrow> pdict" where
  "chat_generation_to_ir provider_config =
     (case as_dict provider_config of
        None \<Rightarrow> []
      | Some d \<Rightarrow>
          (let r1 = copy_fields (same_names direct_fields) d [];
               r2 = (if dhas d ''max_completion_tokens''
                     then copy_fields [(''max_completion_tokens'', ''max_tokens'')] d r1
                     else copy_fields [(''max_tokens'', ''max_tokens'')] d r1) in
           chat_stop_to_ir d r2))"

section \<open>Response format\<close>

definition chat_format_to_p :: "pdict \<Rightarrow> pdict" where
  "chat_format_to_p ir_format =
     (let fmt_type = dget_or ir_format ''type'' (PStr ''text'') in
      if fmt_type = PStr ''text'' then
        [(''response_format'', PDict [(''type'', PStr ''text'')])]
      else if fmt_type = PStr ''json_object'' then
        [(''response_format'', PDict [(''type'', PStr ''json_object'')])]
      else if fmt_type = PStr ''json_schema'' then
        (let json_schema = dget ir_format ''json_schema'' in
         [(''response_format'', PDict ((''type'', PStr ''json_schema'') #
             (if py_truthy json_schema then [(''json_schema'', json_schema)] else [])))])
      else [])"

definition chat_format_to_ir :: "pyval \<Rightarrow> pdict" where
  "chat_format_to_ir provider_format =
     (case as_dict provider_format of
        None \<Rightarrow> []
      | Some d \<Rightarrow>
          (let fmt_type = dget d ''type'';
               r1 = (if py_truthy fmt_type then [(''type'', fmt_type)] else []) in
           if fmt_type = PStr ''json_schema'' then copy_fields [(''json_schema'', ''json_schema'')] d r1
           else r1))"

section \<open>Stream config\<close>

definition chat_stream_to_p :: "pdict \<Rightarrow> pdict" where
  "chat_stream_to_p ir_stream =
     (let r1 = copy_fields [(''enabled'', ''stream'')] ir_stream [] in
      if py_truthy (dget ir_stream ''include_usage'') \<and> py_truthy (dget_or ir_stream ''enabled'' (PBool False))
      then dset r1 ''stream_options'' (PDict [(''include_usage'', PBool True)]) else r1)"

definition chat_stream_to_ir :: "pyval \<Rightarrow> pdict res" where
  "chat_stream_to_ir provider_stream =
     (case as_dict provider_stream of
        None \<Rightarrow> Inr []
      | Some d \<Rightarrow>
          (let stream = dget d ''stream'';
               r1 = (if stream \<noteq> PNone then [(''enabled'', stream)] else []);
               stream_options = dget d ''stream_options'' in
           if \<not> py_truthy stream_options then Inr r1
           else rbind (py_get stream_options ''include_usage'' PNone) (\<lambda>u.
             Inr (if py_truthy u then dset r1 ''include_usage'' (PBool True) else r1))))"

section \<open>Reasoning config\<close>

definition chat_reasoning_to_p ::
  "(int \<Rightarrow> 'r \<Rightarrow> int) \<Rightarrow> 'r reasoning_cap option \<Rightarrow> int option \<Rightarrow> pdict \<Rightarrow> pdict res" where
  "chat_reasoning_to_p scale reasoning_cap max_tokens ir_reasoning =
     (let cap = (case reasoning_cap of Some c \<Rightarrow> c
                 | None \<Rightarrow> the (map_of default_reasoning_caps ''openai_chat'')) in
      apply_reasoning_config scale ir_reasoning cap (Some ''openai_chat'') max_tokens)"

definition chat_reasoning_to_ir :: "pyval \<Rightarrow> pdict" where
  "chat_reasoning_to_ir provider_reasoning =
     (case as_dict provider_reasoning of
        None \<Rightarrow> []
      | Some d \<Rightarrow>
          (let effort = dget d ''reasoning_effort'';
               r1 = (if py_truthy effort then
                       (if effort = PStr ''none'' then [(''mode'', PStr ''disabled'')]
                        else [(''effort'', effort)])
                     else []) in
           case as_dict (dget d ''thinking'') of
             None \<Rightarrow> r1
           | Some thinking \<Rightarrow>
               (let thinking_type = dget thinking ''type'';
                    r2 = (if py_truthy thinking_type then dset r1 ''mode'' thinking_type else r1);
                    budget = dget thinking ''budget_tokens'' in
                if budget \<noteq> PNone then dset r2 ''budget_tokens'' budget else r2)))"

section \<open>Cache config\<close>

definition chat_cache_to_p :: "pdict \<Rightarrow> pdict" where
  "chat_cache_to_p ir_cache =
     copy_fields [(''key'', ''prompt_cache_key''), (''retention'', ''prompt_cache_retention'')] ir_cache []"

definition chat_cache_to_ir :: "pyval \<Rightarrow> pdict" where
  "chat_cache_to_ir provider_cache =
     (case as_dict provider_cache of
        None \<Rightarrow> []
      | Some d \<Rightarrow>
          copy_fields [(''prompt_cache_key'', ''key''), (''prompt_cache_retention'', ''retention'')] d [])"

section \<open>Fields that come back\<close>

definition stop_ok :: "pyval option \<Rightarrow> bool" where
  "stop_ok v = (case v of None \<Rightarrow> True
     | Some (PList xs) \<Rightarrow> xs \<noteq> [] \<and> list_all is_str xs
     | _ \<Rightarrow> False)"

lemma stop_okE:
  assumes "stop_ok v"
  obtains "v = None" | s where "v = Some (PList [PStr s])"
    | x y xs where "v = Some (PList (x # y # xs))"
  using assms
proof (cases v)
  case (Some w)
  with assms obtain xs where xs: "w = PList xs" "xs \<noteq> []" "list_all is_str xs"
    by (cases w) (auto simp: stop_ok_def)
  then show ?thesis
  proof (cases xs)
    case (Cons a as)
    with xs Some that show ?thesis by (cases as) (auto simp: is_str_iff)
  qed simp
qed simp

lemma direct_names: "k \<in> set direct_fields \<Longrightarrow> (k, k) \<in> set (same_names direct_fields)"
  by (auto simp: same_names_def)

lemma direct_distinct: "distinct (map snd (same_names direct_fields))"
  by (simp add: same_names_def direct_fields_def)

lemma snd_direct: "snd ` set (same_names direct_fields) = set direct_fields"
  by (auto simp: same_names_def image_iff)

lemma direct_other:
  "map_of (copy_fields (same_names direct_fields) d r) k =
     (if k \<in> set direct_fields then (case map_of d k of Some v \<Rightarrow> Some v | None \<Rightarrow> map_of r k)
      else map_of r k)"
  using map_of_copy_fields [OF direct_distinct direct_names [of k], of d r]
    copy_fields_other [of k "same_names direct_fields" d r]
  by (simp add: snd_direct)

text \<open>The request that a generation config gives, field by field.\<close>

lemma chat_generation_fields:
  assumes "stop_ok (map_of ir ''stop_sequences'')"
  obtains p where "chat_generation_to_p ir = Inr p"
    "\<And>k. k \<in> set direct_fields \<Longrightarrow> map_of p k = map_of ir k"
    "map_of p ''max_completion_tokens'' = map_of ir ''max_tokens''" "map_of p ''max_tokens'' = None"
    "map_of p ''stop'' = (case map_of ir ''stop_sequences'' of
       Some (PList [x]) \<Rightarrow> Some x | v \<Rightarrow> v)"
proof -
  let ?r = "copy_fields [(''max_tokens'', ''max_completion_tokens'')] ir
      (copy_fields (same_names direct_fields) ir [])"
  have names: "''stop'' \<notin> set direct_fields" "''max_completion_tokens'' \<notin> set direct_fields"
    "''max_tokens'' \<notin> set direct_fields"
    by (simp_all add: direct_fields_def)
  have r: "map_of ?r k = (if k = ''max_completion_tokens'' then map_of ir ''max_tokens''
      else if k \<in> set direct_fields then map_of ir k else None)" for k
    using names(2) by (auto simp: direct_other split: option.split)
  define p where "p = (case map_of ir ''stop_sequences'' of None \<Rightarrow> ?r
    | Some (PList [x]) \<Rightarrow> dset ?r ''stop'' x | Some v \<Rightarrow> dset ?r ''stop'' v)"
  have g: "chat_generation_to_p ir = Inr p"
    using assms by (cases rule: stop_okE) (simp_all add: chat_generation_to_p_def p_def Let_def)
  have k: "map_of p k = map_of ?r k" if "k \<noteq> ''stop''" for k
    using assms that by (cases rule: stop_okE) (simp_all add: p_def del: copy_fields_simps)
  have s: "map_of p ''stop'' = (case map_of ir ''stop_sequences'' of Some (PList [x]) \<Rightarrow> Some x | v \<Rightarrow> v)"
    using assms names(1) r [of "''stop''"]
    by (cases rule: stop_okE) (simp_all add: p_def del: copy_fields_simps)
  have kr: "map_of p k = (if k = ''max_completion_tokens'' then map_of ir ''max_tokens''
      else if k \<in> set direct_fields then map_of ir k else None)" if "k \<noteq> ''stop''" for k
    using k [OF that] r [of k] by (rule trans)
  show thesis
  proof (rule that [OF g])
    show "map_of p k = map_of ir k" if "k \<in> set direct_fields" for k
      using kr [of k] names that by metis
    show "map_of p ''max_completion_tokens'' = map_of ir ''max_tokens''" "map_of p ''max_tokens'' = None"
      using kr names by simp_all
  qed (rule s)
qed

section \<open>Properties\<close>

text \<open>
  A generation config survives the Chat request: converting it succeeds, and converting the
  request back gives each field the Chat format has, the token limit and the stop sequences with
  exactly the values they had, and no other field. The stop sequences, if any, are a list of at
  least one text.
\<close>

theorem chat_generation_round_trip:
  assumes "stop_ok (map_of ir ''stop_sequences'')"
  shows "\<exists>p. chat_generation_to_p ir = Inr p \<and>
    (\<forall>k. map_of (chat_generation_to_ir (PDict p)) k =
      (if k \<in> set (''max_tokens'' # ''stop_sequences'' # direct_fields) then map_of ir k else None))"
proof -
  obtain p where g: "chat_generation_to_p ir = Inr p"
    and d: "\<And>k. k \<in> set direct_fields \<Longrightarrow> map_of p k = map_of ir k"
    and m: "map_of p ''max_completion_tokens'' = map_of ir ''max_tokens''" "map_of p ''max_tokens'' = None"
    and s: "map_of p ''stop'' = (case map_of ir ''stop_sequences'' of Some (PList [x]) \<Rightarrow> Some x | v \<Rightarrow> v)"
    using chat_generation_fields [OF assms] by blast
  let ?r = "copy_fields (same_names direct_fields) p []"
  define r2 where "r2 = (if dhas p ''max_completion_tokens''
      then copy_fields [(''max_completion_tokens'', ''max_tokens'')] p ?r
      else copy_fields [(''max_tokens'', ''max_tokens'')] p ?r)"
  have names: "''stop_sequences'' \<notin> set direct_fields" "''max_tokens'' \<notin> set direct_fields"
    by (simp_all add: direct_fields_def)
  have r2: "map_of r2 k = (if k = ''max_tokens'' then map_of ir k
      else if k \<in> set direct_fields then map_of ir k else None)" for k
    using d [of k] m names
    by (auto simp: r2_def direct_other dhas_map_of split: option.split)
  have "map_of (chat_stop_to_ir p r2) k =
      (if k = ''stop_sequences'' then map_of ir k else map_of r2 k)" for k
    using assms s r2 [of "''stop_sequences''"] names
    by (cases rule: stop_okE) (auto simp: chat_stop_to_ir_def)
  moreover have "chat_generation_to_ir (PDict p) = chat_stop_to_ir p r2"
    by (simp add: chat_generation_to_ir_def r2_def Let_def)
  ultimately show ?thesis using g r2 by auto
qed

theorem chat_generation_round_trip_witness:
  "\<exists>p. chat_generation_to_p [(''seed'', PInt 7), (''stop_sequences'', PList [PStr ''END'']),
      (''top_k'', PInt 3), (''max_tokens'', PInt 100)] = Inr p \<and>
    map_of (chat_generation_to_ir (PDict p)) ''stop_sequences'' = Some (PList [PStr ''END'']) \<and>
    map_of (chat_generation_to_ir (PDict p)) ''max_tokens'' = Some (PInt 100) \<and>
    map_of (chat_generation_to_ir (PDict p)) ''top_k'' = None"
proof -
  let ?ir = "[(''seed'', PInt 7), (''stop_sequences'', PList [PStr ''END'']),
      (''top_k'', PInt 3), (''max_tokens'', PInt 100)]"
  have "stop_ok (map_of ?ir ''stop_sequences'')" by (simp add: stop_ok_def)
  from chat_generation_round_trip [OF this] show ?thesis
    by (auto simp: direct_fields_def)
qed

end
