(* ===== verification/AnthropicConfigOps.thy ===== *)
theory AnthropicConfigOps
  imports ChatConfigOps
begin

text \<open>
  \<open>converters/anthropic/config_ops.py\<close>: the same five configs between the IR and the Anthropic
  Messages request. The clamped temperature \<open>min(float(x), 1.0)\<close>, which may raise, is the
  parameter \<open>clamp\<close>. A warning has no effect on a result and is left out.
\<close>

section \<open>Generation config\<close>

definition anthropic_generation_to_p :: "(pyval \<Rightarrow> pyval res) \<Rightarrow> pdict \<Rightarrow> pdict res" where
  "anthropic_generation_to_p clamp ir_config =
     (let r1 = [(''max_tokens'', dget_or ir_config ''max_tokens'' (PInt 4096))] in
      rbind (case map_of ir_config ''temperature'' of
               None \<Rightarrow> Inr r1
             | Some t \<Rightarrow> rbind (clamp t) (\<lambda>c. Inr (dset r1 ''temperature'' c))) (\<lambda>r2.
        let r3 = copy_fields (same_names [''top_p'', ''top_k'']) ir_config r2 in
        case map_of ir_config ''stop_sequences'' of
          None \<Rightarrow> Inr r3
        | Some v \<Rightarrow> rbind (py_iter v) (\<lambda>xs. Inr (dset r3 ''stop_sequences'' (PList xs)))))"

definition anthropic_generation_to_ir :: "pyval \<Rightarrow> pdict" where
  "anthropic_generation_to_ir provider_config =
     (case as_dict provider_config of
        None \<Rightarrow> []
      | Some d \<Rightarrow>
          copy_fields (same_names [''max_tokens'', ''temperature'', ''top_p'', ''top_k'', ''stop_sequences'']) d [])"

section \<open>Response format and cache\<close>

definition anthropic_format_to_p :: "pdict \<Rightarrow> pdict" where
  "anthropic_format_to_p ir_format = []"

definition anthropic_format_to_ir :: "pyval \<Rightarrow> pdict" where
  "anthropic_format_to_ir provider_format = []"

definition anthropic_cache_to_p :: "pdict \<Rightarrow> pdict" where
  "anthropic_cache_to_p ir_cache = []"

definition anthropic_cache_to_ir :: "pyval \<Rightarrow> pdict" where
  "anthropic_cache_to_ir provider_cache = []"

section \<open>Stream config\<close>

definition anthropic_stream_to_p :: "pdict \<Rightarrow> pdict" where
  "anthropic_stream_to_p ir_stream = copy_fields [(''enabled'', ''stream'')] ir_stream []"

definition anthropic_stream_to_ir :: "pyval \<Rightarrow> pdict" where
  "anthropic_stream_to_ir provider_stream =
     (case as_dict provider_stream of
        None \<Rightarrow> []
      | Some d \<Rightarrow> if dget d ''stream'' \<noteq> PNone then [(''enabled'', dget d ''stream'')] else [])"

section \<open>Reasoning config\<close>

definition anthropic_reasoning_to_p ::
  "(int \<Rightarrow> 'r \<Rightarrow> int) \<Rightarrow> 'r reasoning_cap option \<Rightarrow> int option \<Rightarrow> pdict \<Rightarrow> pdict res" where
  "anthropic_reasoning_to_p scale reasoning_cap max_tokens ir_reasoning =
     (let cap = (case reasoning_cap of Some c \<Rightarrow> c
                 | None \<Rightarrow> the (map_of default_reasoning_caps ''anthropic'')) in
      apply_reasoning_config scale ir_reasoning cap (Some ''anthropic'') max_tokens)"

definition anthropic_thinking_to_ir :: "pyval \<Rightarrow> pdict" where
  "anthropic_thinking_to_ir v =
     (case as_dict v of
        None \<Rightarrow> []
      | Some thinking \<Rightarrow>
          (let thinking_type = dget thinking ''type'';
               r1 = (if thinking_type = PStr ''adaptive'' then [(''mode'', PStr ''auto'')]
                     else if thinking_type = PStr ''enabled'' then [(''mode'', PStr ''enabled'')]
                     else if thinking_type = PStr ''disabled'' then [(''mode'', PStr ''disabled'')]
                     else []);
               budget_tokens = dget thinking ''budget_tokens'' in
           if budget_tokens \<noteq> PNone then dset r1 ''budget_tokens'' budget_tokens else r1))"

definition anthropic_reasoning_to_ir :: "pyval \<Rightarrow> pdict" where
  "anthropic_reasoning_to_ir provider_reasoning =
     (case as_dict provider_reasoning of
        None \<Rightarrow> []
      | Some d \<Rightarrow>
          (let r1 = anthropic_thinking_to_ir (dget d ''thinking'') in
           case as_dict (dget d ''output_config'') of
             None \<Rightarrow> r1
           | Some oc \<Rightarrow> if dget oc ''effort'' \<noteq> PNone then dset r1 ''effort'' (dget oc ''effort'') else r1))"

text \<open>The IR reasoning configs that the Anthropic request can say.\<close>

definition reasoning_ir :: "string \<Rightarrow> pyval option \<Rightarrow> string option \<Rightarrow> pdict" where
  "reasoning_ir mode budget effort =
     (''mode'', PStr mode) # (case budget of Some b \<Rightarrow> [(''budget_tokens'', b)] | None \<Rightarrow> [])
       @ (case effort of Some e \<Rightarrow> [(''effort'', PStr e)] | None \<Rightarrow> [])"

lemmas reasoning_eval = reasoning_ir_def anthropic_reasoning_to_p_def anthropic_reasoning_to_ir_def
  anthropic_thinking_to_ir_def chat_reasoning_to_p_def chat_reasoning_to_ir_def
  default_reasoning_caps_def default_openai_chat_def default_anthropic_def
  apply_reasoning_config_def normalize_reasoning_input_def apply_effort_def cap_effort_def
  dget_dyn_def serialize_effort_def deep_merge_def apply_openai_chat_extras_def
  apply_anthropic_extras_def apply_override_def Let_def

definition efforts :: "string option list" where
  "efforts = [None, Some ''low'', Some ''medium'', Some ''high'', Some ''xhigh'', Some ''max'']"

lemma auto_plain_trip:
  "effort \<in> set efforts \<Longrightarrow> rbind (anthropic_reasoning_to_p scale None m (reasoning_ir ''auto'' None effort))
      (\<lambda>p. Inr (anthropic_reasoning_to_ir (PDict p))) = Inr (reasoning_ir ''auto'' None effort)"
  unfolding efforts_def list.set by (elim insertE emptyE) (simp_all add: reasoning_eval)

lemma auto_budget_trip:
  "effort \<in> set efforts \<Longrightarrow> b \<noteq> PNone \<Longrightarrow>
   rbind (anthropic_reasoning_to_p scale None m (reasoning_ir ''auto'' (Some b) effort))
      (\<lambda>p. Inr (anthropic_reasoning_to_ir (PDict p))) = Inr (reasoning_ir ''auto'' (Some b) effort)"
  unfolding efforts_def list.set by (elim insertE emptyE) (simp_all add: reasoning_eval)

lemma enabled_trip:
  "effort \<in> set efforts \<Longrightarrow> b \<noteq> PNone \<Longrightarrow>
   rbind (anthropic_reasoning_to_p scale None m (reasoning_ir ''enabled'' (Some b) effort))
      (\<lambda>p. Inr (anthropic_reasoning_to_ir (PDict p))) = Inr (reasoning_ir ''enabled'' (Some b) effort)"
  unfolding efforts_def list.set by (elim insertE emptyE) (simp_all add: reasoning_eval)

section \<open>Properties\<close>

text \<open>
  A Chat request that asks for adaptive thinking becomes an IR config with the mode
  \<open>adaptive\<close>, which is none of the IR modes: converted to an Anthropic request it gives no
  thinking block at all, while the IR mode \<open>auto\<close>, which the Chat converter itself writes as
  adaptive and the Anthropic converter reads from it, gives one.
\<close>

theorem chat_adaptive_lost:
  "chat_reasoning_to_p scale None m [(''mode'', PStr ''auto'')] =
     Inr [(''thinking'', PDict [(''type'', PStr ''adaptive'')])] \<and>
   chat_reasoning_to_ir (PDict [(''thinking'', PDict [(''type'', PStr ''adaptive'')])]) =
     [(''mode'', PStr ''adaptive'')] \<and>
   anthropic_reasoning_to_p scale None m [(''mode'', PStr ''adaptive'')] = Inr [] \<and>
   anthropic_reasoning_to_ir (PDict [(''thinking'', PDict [(''type'', PStr ''adaptive'')])]) =
     [(''mode'', PStr ''auto'')] \<and>
   anthropic_reasoning_to_p scale None m [(''mode'', PStr ''auto'')] =
     Inr [(''thinking'', PDict [(''type'', PStr ''adaptive'')])]"
  by (simp add: reasoning_eval)



end
