(* ===== verification/StreamContext.thy ===== *)
theory StreamContext
  imports PyValue
begin

text \<open>
  \<open>converters/base/context.py\<close>: the context of a conversion and, as an extension of its record, the
  context of a stream. Ids, choice indexes and the fields of a session come from the provider and
  are dynamic values; the dicts keyed by them are \<open>hdict\<close>s. \<open>dict(x)\<close> is modelled for a dict \<open>x\<close>,
  the only value the store methods put in; any other raises \<open>TypeError\<close>.
\<close>

section \<open>The conversion context\<close>

record conversion_context =
  ctx_warnings :: "string list"
  ctx_options :: pdict
  ctx_metadata :: pdict

definition metadata_mode :: "('a conversion_context_scheme) \<Rightarrow> pyval" where
  "metadata_mode ctx = dget_or (ctx_options ctx) ''metadata_mode'' (PStr ''strip'')"

definition store_request_echo :: "pdict \<Rightarrow> 'a conversion_context_scheme \<Rightarrow> 'a conversion_context_scheme" where
  "store_request_echo params ctx =
     ctx\<lparr>ctx_metadata := dset (ctx_metadata ctx) ''_request_echo'' (PDict params)\<rparr>"

definition store_response_extras :: "pdict \<Rightarrow> 'a conversion_context_scheme \<Rightarrow> 'a conversion_context_scheme" where
  "store_response_extras extras ctx =
     ctx\<lparr>ctx_metadata := dset (ctx_metadata ctx) ''_response_extras'' (PDict extras)\<rparr>"

definition store_output_items_meta :: "pdict list \<Rightarrow> 'a conversion_context_scheme \<Rightarrow> 'a conversion_context_scheme" where
  "store_output_items_meta meta ctx =
     ctx\<lparr>ctx_metadata := dset (ctx_metadata ctx) ''_output_items_meta'' (PList (map PDict meta))\<rparr>"

definition py_dict :: "pyval \<Rightarrow> pdict res" where
  "py_dict v = (case as_dict v of Some d \<Rightarrow> Inr d | None \<Rightarrow> Inl TypeError)"

definition get_echo_fields :: "'a conversion_context_scheme \<Rightarrow> pdict res" where
  "get_echo_fields ctx =
     rbind (py_dict (dget_or (ctx_metadata ctx) ''_request_echo'' (PDict []))) (\<lambda>echo.
     rbind (py_dict (dget_or (ctx_metadata ctx) ''_response_extras'' (PDict []))) (\<lambda>extras.
       Inr (dmerge echo extras)))"

definition get_output_items_meta :: "'a conversion_context_scheme \<Rightarrow> pyval" where
  "get_output_items_meta ctx = dget_or (ctx_metadata ctx) ''_output_items_meta'' (PList [])"

text \<open>\<open>metadata.setdefault(key, {}).update(mapping)\<close>, skipped for an empty mapping.\<close>

definition store_map ::
  "string \<Rightarrow> pdict \<Rightarrow> 'a conversion_context_scheme \<Rightarrow> 'a conversion_context_scheme res" where
  "store_map key mapping ctx =
     (if mapping = [] then Inr ctx
      else case as_dict (dget_or (ctx_metadata ctx) key (PDict [])) of
          Some existing \<Rightarrow>
            Inr (ctx\<lparr>ctx_metadata := dset (ctx_metadata ctx) key (PDict (dmerge existing mapping))\<rparr>)
        | None \<Rightarrow> Inl AttributeError)"

definition store_responses_namespace_tool_map ::
  "pdict \<Rightarrow> 'a conversion_context_scheme \<Rightarrow> 'a conversion_context_scheme res" where
  "store_responses_namespace_tool_map = store_map ''_responses_namespace_tool_map''"

definition store_responses_native_tool_type_map ::
  "pdict \<Rightarrow> 'a conversion_context_scheme \<Rightarrow> 'a conversion_context_scheme res" where
  "store_responses_native_tool_type_map = store_map ''_responses_native_tool_type_map''"

text \<open>The entry of a tool in one of the two maps; no entry when the stored value is no dict.\<close>

definition map_entry :: "string \<Rightarrow> string \<Rightarrow> 'a conversion_context_scheme \<Rightarrow> pyval" where
  "map_entry key tool_name ctx =
     (case as_dict (dget_or (ctx_metadata ctx) key (PDict [])) of
        Some m \<Rightarrow> dget m tool_name | None \<Rightarrow> PNone)"

definition get_responses_native_tool_type :: "string \<Rightarrow> 'a conversion_context_scheme \<Rightarrow> string option" where
  "get_responses_native_tool_type tool_name ctx =
     (case as_str (map_entry ''_responses_native_tool_type_map'' tool_name ctx) of
        Some t \<Rightarrow> if t \<noteq> '''' then Some t else None
      | None \<Rightarrow> None)"

definition or_none :: "pyval \<Rightarrow> pyval" where
  "or_none v = (if py_truthy v then v else PNone)"

definition get_responses_namespace_for_tool :: "string \<Rightarrow> 'a conversion_context_scheme \<Rightarrow> pyval" where
  "get_responses_namespace_for_tool tool_name ctx =
     (case map_entry ''_responses_namespace_tool_map'' tool_name ctx of
        PStr s \<Rightarrow> or_none (PStr s)
      | PDict e \<Rightarrow> or_none (dget e ''namespace'')
      | _ \<Rightarrow> PNone)"

definition get_responses_child_name_for_tool :: "string \<Rightarrow> 'a conversion_context_scheme \<Rightarrow> pyval" where
  "get_responses_child_name_for_tool tool_name ctx =
     (case map_entry ''_responses_namespace_tool_map'' tool_name ctx of
        PDict e \<Rightarrow> or_none (dget e ''child_name'')
      | _ \<Rightarrow> PNone)"

section \<open>The stream context\<close>

record stream_context = conversion_context +
  response_id :: pyval
  model :: pyval
  created :: pyval
  current_block_index :: int
  current_block_type :: pyval
  tool_call_id_map :: "pyval hdict"
  tool_call_item_id_map :: "pyval hdict"
  pending_usage :: "pdict option"
  pending_finish :: "pdict option"
  pending_response :: "pdict option"
  pending_text :: pyval
  started :: bool
  ended :: bool
  finished_choice_indexes :: "pyval list"
  tool_call_args :: "string hdict"
  tool_call_order :: "pyval list"
  tool_call_types :: "string hdict"

definition stream_context_init :: stream_context where
  "stream_context_init =
     \<lparr>ctx_warnings = [], ctx_options = [], ctx_metadata = [],
      response_id = PStr '''', model = PStr '''', created = PInt 0, current_block_index = -1,
      current_block_type = PNone, tool_call_id_map = [], tool_call_item_id_map = [],
      pending_usage = None, pending_finish = None, pending_response = None, pending_text = PNone,
      started = False, ended = False, finished_choice_indexes = [], tool_call_args = [],
      tool_call_order = [], tool_call_types = []\<rparr>"

definition next_block_index :: "'a stream_context_scheme \<Rightarrow> int \<times> 'a stream_context_scheme" where
  "next_block_index ctx =
     (let i = current_block_index ctx + 1 in (i, ctx\<lparr>current_block_index := i\<rparr>))"

definition order_add :: "pyval \<Rightarrow> pyval list \<Rightarrow> pyval list" where
  "order_add tool_call_id order = (if pset_mem tool_call_id order then order else order @ [tool_call_id])"

definition register_tool_call ::
  "pyval \<Rightarrow> pyval \<Rightarrow> string \<Rightarrow> 'a stream_context_scheme \<Rightarrow> 'a stream_context_scheme res" where
  "register_tool_call tool_call_id tool_name tool_type ctx =
     rbind (hset (tool_call_id_map ctx) tool_call_id tool_name) (\<lambda>names.
     rbind (hset (tool_call_args ctx) tool_call_id '''') (\<lambda>args.
     rbind (hset (tool_call_types ctx) tool_call_id tool_type) (\<lambda>types.
       Inr (ctx\<lparr>tool_call_id_map := names, tool_call_args := args, tool_call_types := types,
                tool_call_order := order_add tool_call_id (tool_call_order ctx)\<rparr>))))"

definition get_tool_type :: "pyval \<Rightarrow> 'a stream_context_scheme \<Rightarrow> string res" where
  "get_tool_type tool_call_id ctx =
     rbind (hget (tool_call_types ctx) tool_call_id) (\<lambda>t.
       Inr (case t of Some s \<Rightarrow> s | None \<Rightarrow> ''function''))"

definition register_tool_call_item :: "pyval \<Rightarrow> pyval \<Rightarrow> 'a stream_context_scheme \<Rightarrow> 'a stream_context_scheme res" where
  "register_tool_call_item tool_call_id item_id ctx =
     (if py_truthy tool_call_id \<and> py_truthy item_id then
        rbind (hset (tool_call_item_id_map ctx) tool_call_id item_id) (\<lambda>m.
          Inr (ctx\<lparr>tool_call_item_id_map := m\<rparr>))
      else Inr ctx)"

definition get_tool_call_item_id :: "pyval \<Rightarrow> 'a stream_context_scheme \<Rightarrow> pyval res" where
  "get_tool_call_item_id tool_call_id ctx =
     rbind (hget (tool_call_item_id_map ctx) tool_call_id) (\<lambda>t.
       Inr (case t of Some v \<Rightarrow> v | None \<Rightarrow> PStr ''''))"

definition append_tool_call_args :: "pyval \<Rightarrow> pyval \<Rightarrow> 'a stream_context_scheme \<Rightarrow> 'a stream_context_scheme res" where
  "append_tool_call_args tool_call_id delta ctx =
     rbind (hget (tool_call_args ctx) tool_call_id) (\<lambda>old.
     let order = (if old = None then order_add tool_call_id (tool_call_order ctx)
                  else tool_call_order ctx) in
     (case as_str delta of
        None \<Rightarrow> Inl TypeError
      | Some d \<Rightarrow>
          rbind (hset (tool_call_args ctx) tool_call_id (case old of None \<Rightarrow> d | Some a \<Rightarrow> a @ d))
            (\<lambda>args. Inr (ctx\<lparr>tool_call_args := args, tool_call_order := order\<rparr>))))"

definition set_tool_call_args :: "pyval \<Rightarrow> string \<Rightarrow> 'a stream_context_scheme \<Rightarrow> 'a stream_context_scheme res" where
  "set_tool_call_args tool_call_id arguments ctx =
     rbind (hset (tool_call_args ctx) tool_call_id arguments) (\<lambda>args.
       Inr (ctx\<lparr>tool_call_args := args\<rparr>))"

definition get_tool_name :: "pyval \<Rightarrow> 'a stream_context_scheme \<Rightarrow> pyval res" where
  "get_tool_name tool_call_id ctx =
     rbind (hget (tool_call_id_map ctx) tool_call_id) (\<lambda>t.
       Inr (case t of Some v \<Rightarrow> v | None \<Rightarrow> PStr ''''))"

definition get_tool_call_args :: "pyval \<Rightarrow> 'a stream_context_scheme \<Rightarrow> string res" where
  "get_tool_call_args tool_call_id ctx =
     rbind (hget (tool_call_args ctx) tool_call_id) (\<lambda>t.
       Inr (case t of Some s \<Rightarrow> s | None \<Rightarrow> ''''))"

definition get_pending_tool_calls :: "'a stream_context_scheme \<Rightarrow> (pyval \<times> pyval \<times> string) list res" where
  "get_pending_tool_calls ctx =
     rmap (\<lambda>call_id.
       rbind (get_tool_name call_id ctx) (\<lambda>name.
       rbind (get_tool_call_args call_id ctx) (\<lambda>args. Inr (call_id, name, args)))) (tool_call_order ctx)"

definition mark_started :: "'a stream_context_scheme \<Rightarrow> 'a stream_context_scheme" where
  "mark_started ctx = ctx\<lparr>started := True\<rparr>"

definition mark_ended :: "'a stream_context_scheme \<Rightarrow> 'a stream_context_scheme" where
  "mark_ended ctx = ctx\<lparr>ended := True\<rparr>"

definition is_choice_finished :: "pyval \<Rightarrow> 'a stream_context_scheme \<Rightarrow> bool res" where
  "is_choice_finished choice_index ctx =
     rbind (py_hash choice_index) (\<lambda>_. Inr (pset_mem choice_index (finished_choice_indexes ctx)))"

definition mark_choice_finished :: "pyval \<Rightarrow> 'a stream_context_scheme \<Rightarrow> (bool \<times> 'a stream_context_scheme) res" where
  "mark_choice_finished choice_index ctx =
     rbind (py_hash choice_index) (\<lambda>_.
       if pset_mem choice_index (finished_choice_indexes ctx) then Inr (False, ctx)
       else Inr (True, ctx\<lparr>finished_choice_indexes := finished_choice_indexes ctx @ [choice_index]\<rparr>))"

section \<open>Buffered payloads\<close>

definition merge_usage ::
  "(pyval \<Rightarrow> pyval \<Rightarrow> pyval) \<Rightarrow> pdict \<Rightarrow> string \<times> pyval \<Rightarrow> pdict res" where
  "merge_usage fsum pending kv =
     (if is_number (snd kv) then
        rbind (py_add fsum (dget_or pending (fst kv) (PInt 0)) (snd kv)) (\<lambda>s.
          Inr (dset pending (fst kv) s))
      else Inr (dset pending (fst kv) (snd kv)))"

definition buffer_usage ::
  "(pyval \<Rightarrow> pyval \<Rightarrow> pyval) \<Rightarrow> pdict \<Rightarrow> 'a stream_context_scheme \<Rightarrow> 'a stream_context_scheme res" where
  "buffer_usage fsum usage ctx =
     (case pending_usage ctx of
        None \<Rightarrow> Inr (ctx\<lparr>pending_usage := Some usage\<rparr>)
      | Some pending \<Rightarrow>
          rbind (rfold (merge_usage fsum) pending usage) (\<lambda>p. Inr (ctx\<lparr>pending_usage := Some p\<rparr>)))"

definition pop_pending_usage :: "'a stream_context_scheme \<Rightarrow> pdict option \<times> 'a stream_context_scheme" where
  "pop_pending_usage ctx = (pending_usage ctx, ctx\<lparr>pending_usage := None\<rparr>)"

definition buffer_finish :: "pdict \<Rightarrow> 'a stream_context_scheme \<Rightarrow> 'a stream_context_scheme" where
  "buffer_finish finish ctx = ctx\<lparr>pending_finish := Some finish\<rparr>"

definition pop_pending_finish :: "'a stream_context_scheme \<Rightarrow> pdict option \<times> 'a stream_context_scheme" where
  "pop_pending_finish ctx = (pending_finish ctx, ctx\<lparr>pending_finish := None\<rparr>)"

end
