(* ===== verification/ChatStream.thy ===== *)
theory ChatStream
  imports StreamContext
begin

text \<open>
  The stream half of \<open>converters/openai_chat/converter.py\<close> with the dispatch of
  \<open>converters/base/converter.py\<close>: Chat Completions chunks to IR stream events and back, over a
  \<open>stream_context\<close> that may be absent.

  A chunk and an event are dicts; what a chunk holds is dynamic. A handler of the decoder threads
  the context and the list of events it appends to. The state that a raising handler leaves behind
  is dropped. A float tool index counts as a value of the wrong type. \<open>fsum\<close> is the sum of two
  usage numbers one of which is a float.
\<close>

section \<open>Reason constants and usage\<close>

definition chat_reason_from_provider :: "(string \<times> string) list" where
  "chat_reason_from_provider =
     [(''stop'', ''stop''), (''length'', ''length''), (''tool_calls'', ''tool_calls''),
      (''content_filter'', ''content_filter''), (''function_call'', ''tool_calls'')]"

definition chat_reason_to_provider :: "(string \<times> string) list" where
  "chat_reason_to_provider =
     [(''stop'', ''stop''), (''length'', ''length''), (''tool_calls'', ''tool_calls''),
      (''content_filter'', ''content_filter'')]"

definition reason_in :: "(string \<times> string) list \<Rightarrow> pyval \<Rightarrow> pyval res" where
  "reason_in tbl reason =
     rbind (dget_dyn tbl reason) (\<lambda>r. Inr (PStr (case r of Some s \<Rightarrow> s | None \<Rightarrow> ''stop'')))"

definition or_zero :: "pyval \<Rightarrow> pyval" where
  "or_zero v = (if py_truthy v then v else PInt 0)"

text \<open>The counters that both usage builders start from.\<close>

definition token_counts :: "pdict \<Rightarrow> pdict" where
  "token_counts u =
     [(''prompt_tokens'', or_zero (dget u ''prompt_tokens'')),
      (''completion_tokens'', or_zero (dget u ''completion_tokens'')),
      (''total_tokens'', or_zero (dget u ''total_tokens''))]"

text \<open>The block for one of the two detail dicts: keep it and lift the field \<open>inner\<close> to \<open>outer\<close>.\<close>

definition lift_detail :: "string \<Rightarrow> string \<Rightarrow> string \<Rightarrow> pdict \<Rightarrow> pdict \<Rightarrow> pdict res" where
  "lift_detail key inner outer u info =
     (let details = dget u key in
      if \<not> py_truthy details then Inr info
      else
        rbind (py_contains details inner) (\<lambda>present.
          let info' = dset info key details in
          if present then rbind (py_item details inner) (\<lambda>v. Inr (dset info' outer v))
          else Inr info'))"

definition build_ir_usage :: "pyval \<Rightarrow> pdict res" where
  "build_ir_usage p_usage =
     (case as_dict p_usage of
        None \<Rightarrow> Inl AttributeError
      | Some u \<Rightarrow>
          rbind (lift_detail ''prompt_tokens_details'' ''cached_tokens'' ''cache_read_tokens'' u (token_counts u))
            (lift_detail ''completion_tokens_details'' ''reasoning_tokens'' ''reasoning_tokens'' u))"

text \<open>\<open>usage.setdefault(key, {})[inner] = ir_usage[outer]\<close>\<close>

definition push_detail :: "string \<Rightarrow> string \<Rightarrow> string \<Rightarrow> pdict \<Rightarrow> pdict \<Rightarrow> pdict res" where
  "push_detail key inner outer ir usage =
     (case map_of ir outer of
        None \<Rightarrow> Inr usage
      | Some v \<Rightarrow>
          rbind (set_key (dget_or usage key (PDict [])) inner v) (\<lambda>details. Inr (dset usage key details)))"

definition build_provider_usage :: "pdict \<Rightarrow> pdict res" where
  "build_provider_usage ir =
     rbind (push_detail ''prompt_tokens_details'' ''cached_tokens'' ''cache_read_tokens'' ir
              (copy_fields (same_names [''prompt_tokens_details'', ''completion_tokens_details'']) ir
                (token_counts ir)))
       (push_detail ''completion_tokens_details'' ''reasoning_tokens'' ''reasoning_tokens'' ir)"

section \<open>Events\<close>

definition stream_start_event :: "pyval \<Rightarrow> pyval \<Rightarrow> pyval \<Rightarrow> pdict" where
  "stream_start_event rid mdl crt =
     [(''type'', PStr ''stream_start''), (''response_id'', rid), (''model'', mdl)]
       @ (if crt \<noteq> PNone then [(''created'', crt)] else [])"

definition stream_end_event :: pdict where
  "stream_end_event = [(''type'', PStr ''stream_end'')]"

definition text_delta_event :: "pyval \<Rightarrow> pyval \<Rightarrow> pdict" where
  "text_delta_event text choice =
     [(''type'', PStr ''text_delta''), (''text'', text), (''choice_index'', choice)]"

definition reasoning_delta_event :: "pyval \<Rightarrow> pyval \<Rightarrow> pdict" where
  "reasoning_delta_event reasoning choice =
     [(''type'', PStr ''reasoning_delta''), (''reasoning'', reasoning), (''choice_index'', choice)]"

definition indexed :: "pyval \<Rightarrow> pdict" where
  "indexed tc_index = (if tc_index \<noteq> PNone then [(''tool_call_index'', tc_index)] else [])"

definition tool_call_start_event :: "pyval \<Rightarrow> pyval \<Rightarrow> pyval \<Rightarrow> pyval \<Rightarrow> pdict" where
  "tool_call_start_event tc_id name choice tc_index =
     [(''type'', PStr ''tool_call_start''), (''tool_call_id'', tc_id), (''tool_name'', name),
      (''choice_index'', choice)] @ indexed tc_index"

definition tool_call_delta_event :: "pyval \<Rightarrow> pyval \<Rightarrow> pyval \<Rightarrow> pyval \<Rightarrow> pdict" where
  "tool_call_delta_event tc_id arguments choice tc_index =
     [(''type'', PStr ''tool_call_delta''), (''tool_call_id'', tc_id), (''arguments_delta'', arguments),
      (''choice_index'', choice)] @ indexed tc_index"

definition block_end_event :: "int \<Rightarrow> pdict" where
  "block_end_event i = [(''type'', PStr ''content_block_end''), (''block_index'', PInt i)]"

definition finish_event :: "pyval \<Rightarrow> pyval \<Rightarrow> pdict" where
  "finish_event reason choice =
     [(''type'', PStr ''finish''), (''finish_reason'', PDict [(''reason'', reason)]),
      (''choice_index'', choice)]"

definition usage_event :: "pdict \<Rightarrow> pdict" where
  "usage_event usage = [(''type'', PStr ''usage''), (''usage'', PDict usage)]"

section \<open>Chunks to events\<close>

type_synonym decoder = "stream_context option \<times> pdict list"

definition emit :: "pdict \<Rightarrow> decoder \<Rightarrow> decoder" where
  "emit e st = (fst st, snd st @ [e])"

definition handle_stream_start_from_p :: "pdict \<Rightarrow> stream_context \<Rightarrow> pdict list \<Rightarrow> stream_context \<times> pdict list" where
  "handle_stream_start_from_p chunk ctx events =
     (let rid = dget chunk ''id''; mdl = dget chunk ''model''; crt = dget chunk ''created'' in
      if py_truthy rid \<and> py_truthy mdl then
        (mark_started (ctx\<lparr>response_id := rid, model := mdl,
                           created := (if crt \<noteq> PNone then crt else created ctx)\<rparr>),
         events @ [stream_start_event rid mdl crt])
      else (ctx, events))"

text \<open>\<open>order[tc_index]\<close> where \<open>0 <= tc_index < len(order)\<close>.\<close>

definition order_at :: "pyval list \<Rightarrow> pyval \<Rightarrow> pyval option res" where
  "order_at order tc_index =
     (case int_of tc_index of
        None \<Rightarrow> Inl TypeError
      | Some i \<Rightarrow> Inr (if 0 \<le> i \<and> i < int (length order) then Some (order ! nat i) else None))"

definition effective_id :: "stream_context option \<Rightarrow> pyval \<Rightarrow> pyval \<Rightarrow> pyval res" where
  "effective_id ctx tc_id tc_index =
     (case ctx of
        Some c \<Rightarrow>
          if \<not> py_truthy tc_id \<and> tc_index \<noteq> PNone then
            rbind (order_at (tool_call_order c) tc_index) (\<lambda>r.
              Inr (case r of Some v \<Rightarrow> v | None \<Rightarrow> tc_id))
          else Inr tc_id
      | None \<Rightarrow> Inr tc_id)"

definition on_context ::
  "(stream_context \<Rightarrow> stream_context res) \<Rightarrow> decoder \<Rightarrow> decoder res" where
  "on_context f st =
     (case fst st of None \<Rightarrow> Inr st | Some c \<Rightarrow> rbind (f c) (\<lambda>c'. Inr (Some c', snd st)))"

definition tool_start_step :: "pyval \<Rightarrow> pyval \<Rightarrow> pyval \<Rightarrow> pyval \<Rightarrow> decoder \<Rightarrow> decoder res" where
  "tool_start_step tc_func tc_id tc_index choice st =
     (if py_truthy tc_id then
        rbind (py_get tc_func ''name'' (PStr '''')) (\<lambda>name.
          on_context (register_tool_call tc_id name ''function'')
            (emit (tool_call_start_event tc_id name choice tc_index) st))
      else Inr st)"

definition tool_delta_step :: "pyval \<Rightarrow> pyval \<Rightarrow> pyval \<Rightarrow> pyval \<Rightarrow> decoder \<Rightarrow> decoder res" where
  "tool_delta_step tc_func eff_id tc_index choice st =
     rbind (py_get tc_func ''arguments'' PNone) (\<lambda>arguments.
       if py_truthy arguments then
         let st' = emit (tool_call_delta_event (if py_truthy eff_id then eff_id else PStr '''')
                           arguments choice tc_index) st in
         if py_truthy eff_id then on_context (append_tool_call_args eff_id arguments) st' else Inr st'
       else Inr st)"

definition handle_tool_call :: "pyval \<Rightarrow> decoder \<Rightarrow> pyval \<Rightarrow> decoder res" where
  "handle_tool_call choice st tc =
     rbind (py_get tc ''function'' (PDict [])) (\<lambda>tc_func.
     rbind (py_get tc ''id'' PNone) (\<lambda>tc_id.
     rbind (py_get tc ''index'' PNone) (\<lambda>tc_index.
     rbind (tool_start_step tc_func tc_id tc_index choice st) (\<lambda>st1.
     rbind (effective_id (fst st1) tc_id tc_index) (\<lambda>eff_id.
       tool_delta_step tc_func eff_id tc_index choice st1)))))"

definition handle_tool_calls_from_p :: "pyval \<Rightarrow> pyval \<Rightarrow> decoder \<Rightarrow> decoder res" where
  "handle_tool_calls_from_p tool_calls choice st =
     rbind (py_iter tool_calls) (rfold (handle_tool_call choice) st)"

definition emit_finish :: "pyval \<Rightarrow> pyval \<Rightarrow> decoder \<Rightarrow> decoder res" where
  "emit_finish finish_reason choice st =
     (let st1 = (case fst st of
          Some c \<Rightarrow> if current_block_index c \<ge> 0 then emit (block_end_event (current_block_index c)) st else st
        | None \<Rightarrow> st) in
      rbind (reason_in chat_reason_from_provider finish_reason) (\<lambda>r. Inr (emit (finish_event r choice) st1)))"

definition handle_finish_reason_from_p :: "pyval \<Rightarrow> pyval \<Rightarrow> decoder \<Rightarrow> decoder res" where
  "handle_finish_reason_from_p finish_reason choice st =
     (case fst st of
        None \<Rightarrow> emit_finish finish_reason choice st
      | Some c \<Rightarrow>
          if ended c then Inr st
          else rbind (mark_choice_finished choice c) (\<lambda>(first, c').
            if first then emit_finish finish_reason choice (Some c', snd st) else Inr (Some c', snd st)))"

definition handle_choice_from_p :: "decoder \<Rightarrow> pyval \<Rightarrow> decoder res" where
  "handle_choice_from_p st p_choice =
     (case as_dict p_choice of
        None \<Rightarrow> Inl AttributeError
      | Some ch \<Rightarrow>
          (let choice = dget_or ch ''index'' (PInt 0); delta = dget_or ch ''delta'' (PDict []) in
           rbind (py_get delta ''content'' PNone) (\<lambda>content.
           let st1 = (if py_truthy content then emit (text_delta_event content choice) st else st) in
           rbind (py_get delta ''reasoning_content'' PNone) (\<lambda>reasoning.
           let st2 = (if reasoning \<noteq> PNone then emit (reasoning_delta_event reasoning choice) st1 else st1) in
           rbind (py_get delta ''tool_calls'' PNone) (\<lambda>tool_calls.
           rbind (if py_truthy tool_calls then handle_tool_calls_from_p tool_calls choice st2 else Inr st2)
             (\<lambda>st3.
           let finish_reason = dget ch ''finish_reason'' in
           if py_truthy finish_reason then handle_finish_reason_from_p finish_reason choice st3
           else Inr st3))))))"

text \<open>\<open>any(...)\<close> over the choices, which stops at the first that holds.\<close>

fun any_finished :: "stream_context \<Rightarrow> pyval list \<Rightarrow> bool res" where
  "any_finished c [] = Inr False"
| "any_finished c (ch # chs) =
     rbind (py_get ch ''finish_reason'' PNone) (\<lambda>fr.
     rbind (if py_truthy fr then rbind (py_get ch ''index'' (PInt 0)) (\<lambda>i. is_choice_finished i c)
            else Inr False) (\<lambda>b.
       if b then Inr True else any_finished c chs))"

definition handle_stream_end_from_p :: "pyval \<Rightarrow> pyval \<Rightarrow> decoder \<Rightarrow> decoder res" where
  "handle_stream_end_from_p choices usage st =
     (case fst st of
        None \<Rightarrow> Inr st
      | Some c \<Rightarrow>
          (let st1 = (if started c \<and> as_list choices = Some [] \<and> \<not> ended c
                      then emit stream_end_event (Some (mark_ended c), snd st) else st);
               c1 = (if started c \<and> as_list choices = Some [] \<and> \<not> ended c then mark_ended c else c) in
           if \<not> ended c1 \<and> py_truthy usage then
             rbind (py_iter choices) (\<lambda>chs. rbind (any_finished c1 chs) (\<lambda>b.
               Inr (if b then emit stream_end_event (Some (mark_ended c1), snd st1) else st1)))
           else Inr st1))"

definition stream_response_from_provider :: "pdict \<Rightarrow> stream_context option \<Rightarrow> decoder res" where
  "stream_response_from_provider chunk ctx =
     (let st0 = (case ctx of
          Some c \<Rightarrow> if started c then (ctx, [])
                    else (case handle_stream_start_from_p chunk c [] of (c', evs) \<Rightarrow> (Some c', evs))
        | None \<Rightarrow> (ctx, []));
          choices = dget_or chunk ''choices'' (PList []); usage = dget chunk ''usage'' in
      rbind (py_iter choices) (\<lambda>chs.
      rbind (rfold handle_choice_from_p st0 chs) (\<lambda>st1.
      rbind (if py_truthy usage then rbind (build_ir_usage usage) (\<lambda>u. Inr (emit (usage_event u) st1))
             else Inr st1) (\<lambda>st2.
        handle_stream_end_from_p choices usage st2))))"

section \<open>Events to chunks\<close>

type_synonym encoded = "(pdict \<times> stream_context option) res"

definition chunk_of_choice :: "pyval \<Rightarrow> pdict \<Rightarrow> pdict \<Rightarrow> pdict" where
  "chunk_of_choice choice delta rest =
     [(''choices'', PList [PDict ([(''index'', choice), (''delta'', PDict delta)] @ rest)])]"

definition handle_stream_start_to_p :: "pdict \<Rightarrow> stream_context option \<Rightarrow> encoded" where
  "handle_stream_start_to_p event ctx =
     rbind (ditem event ''response_id'') (\<lambda>rid.
     rbind (ditem event ''model'') (\<lambda>mdl.
       let crt = dget_or event ''created'' (PInt 0);
           chunk = [(''id'', rid), (''object'', PStr ''chat.completion.chunk''), (''model'', mdl),
                    (''created'', crt),
                    (''choices'', PList [PDict [(''index'', PInt 0),
                       (''delta'', PDict [(''role'', PStr ''assistant'')]), (''finish_reason'', PNone)]])] in
       Inr (case ctx of
          Some c \<Rightarrow>
            ([], Some ((mark_started (c\<lparr>response_id := rid, model := mdl, created := crt\<rparr>))
                         \<lparr>pending_response := Some chunk\<rparr>))
        | None \<Rightarrow> (chunk, ctx))))"

definition usage_chunk :: "stream_context \<Rightarrow> pdict \<Rightarrow> pdict" where
  "usage_chunk c usage =
     [(''id'', response_id c), (''object'', PStr ''chat.completion.chunk''), (''model'', model c),
      (''created'', created c), (''choices'', PList []), (''usage'', PDict usage)]"

definition handle_stream_end_to_p :: "pdict \<Rightarrow> stream_context option \<Rightarrow> encoded" where
  "handle_stream_end_to_p event ctx =
     (case ctx of
        Some c \<Rightarrow>
          (case pop_pending_usage (mark_ended c) of
             (Some usage, c') \<Rightarrow>
               rbind (build_provider_usage usage) (\<lambda>u. Inr (usage_chunk c' u, Some c'))
           | (None, c') \<Rightarrow> Inr ([], Some c'))
      | None \<Rightarrow>
          Inr ([(''id'', PStr ''''), (''object'', PStr ''chat.completion.chunk''), (''model'', PStr ''''),
                (''created'', PInt 0), (''choices'', PList [])], ctx))"

text \<open>\<open>chunk["choices"][0].setdefault("delta", {})["role"] = "assistant"\<close>\<close>

definition set_role :: "pdict \<Rightarrow> pdict res" where
  "set_role chunk =
     (if \<not> py_truthy (dget chunk ''choices'') then Inr chunk
      else case as_list (dget chunk ''choices'') of
          Some (first # others) \<Rightarrow>
            (case as_dict first of
               Some d \<Rightarrow>
                 rbind (set_key (dget_or d ''delta'' (PDict [])) ''role'' (PStr ''assistant'')) (\<lambda>delta.
                   Inr (dset chunk ''choices'' (PList (PDict (dset d ''delta'' delta) # others))))
             | None \<Rightarrow> Inl AttributeError)
        | _ \<Rightarrow> Inl TypeError)"

definition envelope_keys :: "string list" where
  "envelope_keys = [''id'', ''object'', ''model'', ''created'']"

definition merge_pending_role :: "pdict \<Rightarrow> stream_context option \<Rightarrow> encoded" where
  "merge_pending_role chunk ctx =
     (case ctx of
        None \<Rightarrow> Inr (chunk, ctx)
      | Some c \<Rightarrow>
          (case pending_response c of
             None \<Rightarrow> Inr (chunk, ctx)
           | Some role_chunk \<Rightarrow>
               rbind (set_role (copy_fields (same_names envelope_keys) role_chunk chunk)) (\<lambda>chunk'.
                 Inr (chunk', Some (c\<lparr>pending_response := None\<rparr>)))))"

definition event_choice :: "pdict \<Rightarrow> pyval" where
  "event_choice event = dget_or event ''choice_index'' (PInt 0)"

definition event_tool_index :: "pdict \<Rightarrow> pyval" where
  "event_tool_index event = dget_or event ''tool_call_index'' (PInt 0)"

definition handle_text_delta_to_p :: "pdict \<Rightarrow> stream_context option \<Rightarrow> encoded" where
  "handle_text_delta_to_p event ctx =
     rbind (ditem event ''text'') (\<lambda>text.
       merge_pending_role (chunk_of_choice (event_choice event) [(''content'', text)] []) ctx)"

definition handle_reasoning_delta_to_p :: "pdict \<Rightarrow> stream_context option \<Rightarrow> encoded" where
  "handle_reasoning_delta_to_p event ctx =
     rbind (ditem event ''reasoning'') (\<lambda>reasoning.
       Inr (chunk_of_choice (event_choice event) [(''reasoning_content'', reasoning)] [], ctx))"

definition handle_tool_call_start_to_p :: "pdict \<Rightarrow> stream_context option \<Rightarrow> encoded" where
  "handle_tool_call_start_to_p event ctx =
     rbind (ditem event ''tool_call_id'') (\<lambda>tc_id.
     rbind (ditem event ''tool_name'') (\<lambda>name.
       merge_pending_role (chunk_of_choice (event_choice event)
         [(''tool_calls'', PList [PDict [(''index'', event_tool_index event), (''id'', tc_id),
            (''type'', PStr ''function''),
            (''function'', PDict [(''name'', name), (''arguments'', PStr '''')])]])] []) ctx))"

definition handle_tool_call_delta_to_p :: "pdict \<Rightarrow> stream_context option \<Rightarrow> encoded" where
  "handle_tool_call_delta_to_p event ctx =
     rbind (ditem event ''arguments_delta'') (\<lambda>arguments.
       Inr (chunk_of_choice (event_choice event)
         [(''tool_calls'', PList [PDict [(''index'', event_tool_index event),
            (''function'', PDict [(''arguments'', arguments)])]])] [], ctx))"

definition handle_finish_to_p :: "pdict \<Rightarrow> stream_context option \<Rightarrow> encoded" where
  "handle_finish_to_p event ctx =
     rbind (ditem event ''finish_reason'') (\<lambda>fr.
     rbind (py_item fr ''reason'') (\<lambda>reason.
     rbind (reason_in chat_reason_to_provider reason) (\<lambda>r.
       Inr (chunk_of_choice (event_choice event) [] [(''finish_reason'', r)], ctx))))"

definition handle_usage_to_p ::
  "(pyval \<Rightarrow> pyval \<Rightarrow> pyval) \<Rightarrow> pdict \<Rightarrow> stream_context option \<Rightarrow> encoded" where
  "handle_usage_to_p fsum event ctx =
     rbind (ditem event ''usage'') (\<lambda>usage.
     case (ctx, as_dict usage) of
       (Some c, Some u) \<Rightarrow> rbind (buffer_usage fsum u c) (\<lambda>c'. Inr ([], Some c'))
     | (Some c, None) \<Rightarrow> Inl (if pending_usage c = None then TypeError else AttributeError)
     | (None, Some u) \<Rightarrow>
         rbind (build_provider_usage u) (\<lambda>p. Inr ([(''choices'', PList []), (''usage'', PDict p)], ctx))
     | (None, None) \<Rightarrow> Inl AttributeError)"

text \<open>\<open>_post_process_to_provider\<close>: the envelope of a non-empty chunk of a started stream.\<close>

definition setdefault :: "string \<Rightarrow> pyval \<Rightarrow> pdict \<Rightarrow> pdict" where
  "setdefault k v d = (if dhas d k then d else dset d k v)"

definition post_process_to_provider :: "pdict \<Rightarrow> stream_context option \<Rightarrow> pdict" where
  "post_process_to_provider result ctx =
     (case ctx of
        Some c \<Rightarrow>
          if started c \<and> result \<noteq> [] then
            setdefault ''created'' (created c) (setdefault ''model'' (model c)
              (setdefault ''object'' (PStr ''chat.completion.chunk'') (setdefault ''id'' (response_id c) result)))
          else result
      | None \<Rightarrow> result)"

text \<open>\<open>_TO_P_DISPATCH\<close>: the handler of each event type.\<close>

definition to_p_dispatch ::
  "(pyval \<Rightarrow> pyval \<Rightarrow> pyval) \<Rightarrow> (string \<times> (pdict \<Rightarrow> stream_context option \<Rightarrow> encoded)) list" where
  "to_p_dispatch fsum =
     [(''stream_start'', handle_stream_start_to_p), (''stream_end'', handle_stream_end_to_p),
      (''content_block_start'', \<lambda>event ctx. Inr ([], ctx)),
      (''content_block_end'', \<lambda>event ctx. Inr ([], ctx)),
      (''text_delta'', handle_text_delta_to_p), (''reasoning_delta'', handle_reasoning_delta_to_p),
      (''tool_call_start'', handle_tool_call_start_to_p),
      (''tool_call_delta'', handle_tool_call_delta_to_p),
      (''finish'', handle_finish_to_p), (''usage'', handle_usage_to_p fsum),
      (''provider_passthrough'', \<lambda>event ctx. Inr ([], ctx))]"

definition stream_response_to_provider ::
  "(pyval \<Rightarrow> pyval \<Rightarrow> pyval) \<Rightarrow> pdict \<Rightarrow> stream_context option \<Rightarrow> encoded" where
  "stream_response_to_provider fsum event ctx =
     rbind (dget_dyn (to_p_dispatch fsum) (dget_or event ''type'' (PStr ''''))) (\<lambda>handler.
       case handler of
         None \<Rightarrow> Inr ([], ctx)
       | Some handle \<Rightarrow>
           rbind (handle event ctx) (\<lambda>(result, ctx'). Inr (post_process_to_provider result ctx', ctx')))"

end
