(* ===== verification/BaseConverter.thy ===== *)
theory BaseConverter
  imports LruCache
begin

text \<open>
  The shared half of the converters, \<open>converters/base/converter.py\<close>: the per-entry caches of tool
  conversions and the incremental validation of a request.

  The converter's own tool conversion, the validators of the vendored \<open>_vendor/validate.py\<close> and
  the texts of the exceptions are parameters. Each cache operation reads the clock once or twice;
  a \<open>cache_env\<close> holds the hash, the float sum and the readings, the \<open>n\<close>-th operation of a call
  using \<open>look n\<close> or \<open>store n\<close>.
\<close>

record 't cache_env =
  env_hash :: "string \<Rightarrow> int"
  env_add :: "'t \<Rightarrow> 't \<Rightarrow> 't"
  env_zero :: 't
  look :: "nat \<Rightarrow> 't \<times> 't"
  store :: "nat \<Rightarrow> 't"

definition look_tool ::
  "'t::linorder cache_env \<Rightarrow> nat \<Rightarrow> string \<Rightarrow> pyval \<Rightarrow> 't caches \<Rightarrow> pyval option \<times> 't caches" where
  "look_tool env n tag t cs =
     get_cached_tool (env_hash env) (env_add env) (fst (look env n)) (snd (look env n)) tag t cs"

definition store_tool ::
  "'t::linorder cache_env \<Rightarrow> nat \<Rightarrow> string \<Rightarrow> pyval \<Rightarrow> pyval \<Rightarrow> 't caches \<Rightarrow> 't caches res" where
  "store_tool env n tag t result cs =
     put_cached_tool (env_hash env) (env_add env) (env_zero env) (store env n) tag t result cs"

definition look_valid ::
  "'t::linorder cache_env \<Rightarrow> nat \<Rightarrow> string \<Rightarrow> pyval \<Rightarrow> 't caches \<Rightarrow> bool \<times> 't caches" where
  "look_valid env n tag e cs =
     is_ir_validated (env_hash env) (env_add env) (fst (look env n)) (snd (look env n)) tag e cs"

definition store_valid ::
  "'t::linorder cache_env \<Rightarrow> nat \<Rightarrow> string \<Rightarrow> pyval \<Rightarrow> 't caches \<Rightarrow> 't caches res" where
  "store_valid env n tag e cs =
     mark_ir_validated (env_hash env) (env_add env) (env_zero env) (store env n) tag e cs"

section \<open>Tool conversion\<close>

fun type_name :: "pyval \<Rightarrow> string" where
  "type_name PNone = ''NoneType''"
| "type_name (PBool b) = ''bool''"
| "type_name (PInt i) = ''int''"
| "type_name (PFloat s) = ''float''"
| "type_name (PStr s) = ''str''"
| "type_name (PList xs) = ''list''"
| "type_name (PDict d) = ''dict''"

text \<open>The error for a tool that does not convert; building its text may itself raise.\<close>

definition unsupported_tool :: "(pyexn \<Rightarrow> string) \<Rightarrow> pyval \<Rightarrow> pyexn \<Rightarrow> pyexn" where
  "unsupported_tool exn_text t e =
     (let message = (\<lambda>tool_type tool_name.
            ValueError (''Unsupported tool type='' @ py_repr tool_type @ '' name='' @ py_repr tool_name @
                        '': '' @ exn_text e)) in
      case as_dict t of
        None \<Rightarrow> message (PStr (type_name t)) (PStr (py_str t))
      | Some d \<Rightarrow>
          (case py_get (dget_or d ''function'' (PDict [])) ''name'' PNone of
             Inl e' \<Rightarrow> e'
           | Inr name \<Rightarrow>
               message (dget_or d ''type'' (PStr ''unknown''))
                 (if py_truthy name then name else dget_or d ''name'' (PStr ''unnamed''))))"

text \<open>A conversion gives one tool, a list of tools or \<open>None\<close>.\<close>

definition extend_tools :: "pyval list \<Rightarrow> pyval \<Rightarrow> pyval list" where
  "extend_tools ir_tools result =
     (case as_list result of
        Some xs \<Rightarrow> ir_tools @ xs
      | None \<Rightarrow> if result = PNone then ir_tools else ir_tools @ [result])"

definition convert_tool ::
  "(pyexn \<Rightarrow> string) \<Rightarrow> (pyval \<Rightarrow> pyval res) \<Rightarrow> pyval \<Rightarrow> pyval res" where
  "convert_tool exn_text to_ir t =
     (case to_ir t of Inr v \<Rightarrow> Inr v | Inl e \<Rightarrow> Inl (unsupported_tool exn_text t e))"

definition convert_tools_from_p ::
  "(pyexn \<Rightarrow> string) \<Rightarrow> (pyval \<Rightarrow> pyval res) \<Rightarrow> pyval list \<Rightarrow> pyval list res" where
  "convert_tools_from_p exn_text to_ir tools =
     rfold (\<lambda>ir_tools t. rbind (convert_tool exn_text to_ir t) (\<lambda>v. Inr (extend_tools ir_tools v))) [] tools"

definition cached_from_p_step ::
  "'t::linorder cache_env \<Rightarrow> (pyexn \<Rightarrow> string) \<Rightarrow> (pyval \<Rightarrow> pyval res) \<Rightarrow> string \<Rightarrow>
   pyval list \<times> 't caches \<Rightarrow> nat \<times> pyval \<Rightarrow> (pyval list \<times> 't caches) res" where
  "cached_from_p_step env exn_text to_ir tag acc nt =
     (let (ir_tools, cs) = acc; (n, t) = nt; (cached, cs) = look_tool env n tag t cs in
      case cached of
        Some v \<Rightarrow> Inr (extend_tools ir_tools v, cs)
      | None \<Rightarrow>
          rbind (convert_tool exn_text to_ir t) (\<lambda>v.
          rbind (store_tool env n tag t v cs) (\<lambda>cs. Inr (extend_tools ir_tools v, cs))))"

definition get_cached_tools_from_p ::
  "'t::linorder cache_env \<Rightarrow> (pyexn \<Rightarrow> string) \<Rightarrow> (pyval \<Rightarrow> pyval res) \<Rightarrow> string \<Rightarrow>
   pyval list \<Rightarrow> 't caches \<Rightarrow> (pyval list \<times> 't caches) res" where
  "get_cached_tools_from_p env exn_text to_ir converter_tag tools cs =
     rfold (cached_from_p_step env exn_text to_ir (converter_tag @ '':from_p'')) ([], cs) (enumerate 0 tools)"

text \<open>The conversion to the provider may use the caches itself, for the schemas of the tools.\<close>

definition cached_to_p_step ::
  "'t::linorder cache_env \<Rightarrow> (nat \<Rightarrow> pyval \<Rightarrow> 't caches \<Rightarrow> (pyval \<times> 't caches) res) \<Rightarrow> string \<Rightarrow>
   pyval list \<times> 't caches \<Rightarrow> nat \<times> pyval \<Rightarrow> (pyval list \<times> 't caches) res" where
  "cached_to_p_step env to_p tag acc nt =
     (let (results, cs) = acc; (n, t) = nt; (cached, cs) = look_tool env n tag t cs in
      case cached of
        Some v \<Rightarrow> Inr (results @ [v], cs)
      | None \<Rightarrow>
          rbind (to_p n t cs) (\<lambda>(converted, cs).
          rbind (store_tool env n tag t converted cs) (\<lambda>cs. Inr (results @ [converted], cs))))"

definition get_cached_tools_to_p ::
  "'t::linorder cache_env \<Rightarrow> (nat \<Rightarrow> pyval \<Rightarrow> 't caches \<Rightarrow> (pyval \<times> 't caches) res) \<Rightarrow> string \<Rightarrow>
   pyval list \<Rightarrow> 't caches \<Rightarrow> (pyval list \<times> 't caches) res" where
  "get_cached_tools_to_p env to_p converter_tag ir_tools cs =
     rfold (cached_to_p_step env to_p (converter_tag @ '':to_p'')) ([], cs) (enumerate 0 ir_tools)"

section \<open>Incremental validation\<close>

text \<open>
  The validators of single list fields and of a whole request. A field has its name, its tag, its
  own validator and what stands for it when all its entries are known.
\<close>

record validators =
  check_tools :: "pyval list \<Rightarrow> unit res"
  check_messages :: "pyval list \<Rightarrow> unit res"
  check_request :: "pdict \<Rightarrow> pdict res"
  check_response :: "pdict \<Rightarrow> pdict res"

type_synonym field_spec = "string \<times> string \<times> (pyval list \<Rightarrow> unit res) \<times> pyval option"

definition validated_fields :: "validators \<Rightarrow> field_spec list" where
  "validated_fields vs =
     [(''tools'', ''ir.tool'', check_tools vs, None),
      (''messages'', ''ir.message'', check_messages vs, Some (PList []))]"

record 't validation =
  v_data :: pdict
  v_saved :: pdict
  v_newly :: "(string \<times> pyval) list"
  v_ops :: nat
  v_caches :: "'t caches"

text \<open>The entries the cache does not know, in order; each look is one cache operation.\<close>

definition look_entry ::
  "'t::linorder cache_env \<Rightarrow> string \<Rightarrow> pyval list \<times> nat \<times> 't caches \<Rightarrow> pyval \<Rightarrow> pyval list \<times> nat \<times> 't caches" where
  "look_entry env tag acc e =
     (let (new, n, cs) = acc; (known, cs) = look_valid env n tag e cs in
      (if known then new else new @ [e], n + 1, cs))"

definition set_aside :: "string \<Rightarrow> pyval option \<Rightarrow> pyval \<Rightarrow> 't validation \<Rightarrow> 't validation" where
  "set_aside field placeholder original st =
     st\<lparr>v_saved := dset (v_saved st) field original,
        v_data := (case placeholder of
                     Some v \<Rightarrow> dset (v_data st) field v
                   | None \<Rightarrow> ddel (v_data st) field)\<rparr>"

definition check_field_incremental ::
  "'t::linorder cache_env \<Rightarrow> 't validation \<Rightarrow> field_spec \<Rightarrow> 't validation res" where
  "check_field_incremental env st spec =
     (let (field, tag, validator, placeholder) = spec; original = dget (v_data st) field in
      if \<not> py_truthy original then Inr st
      else
        rbind (py_iter original) (\<lambda>entries.
          let (new, n, cs) = foldl (look_entry env tag) ([], v_ops st, v_caches st) entries;
              st = st\<lparr>v_ops := n, v_caches := cs\<rparr> in
          if new = [] then Inr (set_aside field placeholder original st)
          else if length new < length entries then
            rbind (validator new) (\<lambda>_.
              Inr (set_aside field placeholder original
                (st\<lparr>v_newly := v_newly st @ map (Pair tag) new\<rparr>)))
          else Inr st))"

definition mark_entry ::
  "'t::linorder cache_env \<Rightarrow> nat \<times> 't caches \<Rightarrow> string \<times> pyval \<Rightarrow> (nat \<times> 't caches) res" where
  "mark_entry env acc te =
     rbind (store_valid env (fst acc) (fst te) (snd te) (snd acc)) (\<lambda>cs. Inr (fst acc + 1, cs))"

definition mark_field ::
  "'t::linorder cache_env \<Rightarrow> pdict \<Rightarrow> pdict \<Rightarrow> nat \<times> 't caches \<Rightarrow> field_spec \<Rightarrow> (nat \<times> 't caches) res" where
  "mark_field env saved result acc spec =
     (let (field, tag, _, _) = spec; entries = dget result field in
      if dhas saved field \<or> \<not> py_truthy entries then Inr acc
      else rbind (py_iter entries) (\<lambda>es. rfold (mark_entry env) acc (map (Pair tag) es)))"

definition validate_ir_request ::
  "'t::linorder cache_env \<Rightarrow> bool \<Rightarrow> validators \<Rightarrow> pdict \<Rightarrow> 't caches \<Rightarrow> (pdict \<times> 't caches) res" where
  "validate_ir_request env validate_output vs data cs =
     (if \<not> validate_output then Inr (data, cs)
      else
        rbind (rfold (check_field_incremental env)
          \<lparr>v_data = data, v_saved = [], v_newly = [], v_ops = 0, v_caches = cs\<rparr>
          (validated_fields vs)) (\<lambda>st.
        rbind (check_request vs (v_data st)) (\<lambda>result.
        let result = dmerge result (v_saved st) in
        rbind (rfold (mark_entry env) (v_ops st, v_caches st) (v_newly st)) (\<lambda>acc.
        rbind (rfold (mark_field env (v_saved st) result) acc (validated_fields vs)) (\<lambda>acc.
          Inr (result, snd acc))))))"

definition validate_ir_response :: "bool \<Rightarrow> validators \<Rightarrow> pdict \<Rightarrow> pdict res" where
  "validate_ir_response validate_output vs data =
     (if validate_output then check_response vs data else Inr data)"

section \<open>The tool cache is transparent\<close>

text \<open>The cache of tool conversions holds, for the tools of \<open>X\<close>, only what the conversion gives.\<close>

definition tool_cache_ok ::
  "'t cache_env \<Rightarrow> (pyexn \<Rightarrow> string) \<Rightarrow> (pyval \<Rightarrow> pyval res) \<Rightarrow> string \<Rightarrow> pyval set \<Rightarrow> 't caches \<Rightarrow> bool" where
  "tool_cache_ok env exn_text to_ir tag X cs \<longleftrightarrow>
     lru_ok (tool_entry_cache cs) \<and>
     (\<forall>t \<in> X. \<forall>v. lru_holds (tool_entry_cache cs) (entry_cache_key (env_hash env) (tag @ '':from_p'') t) v \<longrightarrow>
        convert_tool exn_text to_ir t = Inr v)"

lemma cached_step_memo:
  "cached_from_p_step env exn_text to_ir (tag @ '':from_p'') (ir_tools, cs) (n, t) =
     rbind (memo_call (lru_get (env_hash env) (env_add env) (fst (look env n)) (snd (look env n)))
              (lru_put (env_hash env) (env_add env) (env_zero env) (store env n))
              (convert_tool exn_text to_ir) (entry_cache_key (env_hash env) (tag @ '':from_p'')) t (tool_entry_cache cs))
       (\<lambda>(v, c). Inr (extend_tools ir_tools v, cs\<lparr>tool_entry_cache := c\<rparr>))"
  by (simp add: cached_from_p_step_def look_tool_def store_tool_def get_cached_tool_def put_cached_tool_def
      memo_call_def rbind_assoc split_beta split: option.splits)

lemma cached_step_direct:
  assumes ok: "tool_cache_ok env exn_text to_ir tag X cs"
    and inj: "inj_on (entry_cache_key (env_hash env) (tag @ '':from_p'')) X" and t: "t \<in> X"
  shows "case convert_tool exn_text to_ir t of
      Inl e \<Rightarrow> cached_from_p_step env exn_text to_ir (tag @ '':from_p'') (ir_tools, cs) (n, t) = Inl e
    | Inr v \<Rightarrow> \<exists>cs'. cached_from_p_step env exn_text to_ir (tag @ '':from_p'') (ir_tools, cs) (n, t) =
        Inr (extend_tools ir_tools v, cs') \<and> tool_cache_ok env exn_text to_ir tag X cs'"
  using lru.memo_call_correct [where X = X and key = "entry_cache_key (env_hash env) (tag @ '':from_p'')"
      and f = "convert_tool exn_text to_ir" and x = t and s = "tool_entry_cache cs" and h = "env_hash env"
      and fadd = "env_add env" and zero = "env_zero env" and e = "look env n" and e' = "(store env n, undefined)"]
    ok inj t
  unfolding cached_step_memo tool_cache_ok_def
  by (fastforce simp: split_beta split: sum.splits)

lemma cached_loop_direct:
  assumes inj: "inj_on (entry_cache_key (env_hash env) (tag @ '':from_p'')) X"
  shows "tool_cache_ok env exn_text to_ir tag X cs \<Longrightarrow> set tools \<subseteq> X \<Longrightarrow>
    (case rfold (\<lambda>ir_tools t. rbind (convert_tool exn_text to_ir t) (\<lambda>v. Inr (extend_tools ir_tools v))) acc tools of
       Inl e \<Rightarrow> rfold (cached_from_p_step env exn_text to_ir (tag @ '':from_p'')) (acc, cs) (enumerate n tools) = Inl e
     | Inr r \<Rightarrow> \<exists>cs'. rfold (cached_from_p_step env exn_text to_ir (tag @ '':from_p'')) (acc, cs) (enumerate n tools) =
         Inr (r, cs') \<and> tool_cache_ok env exn_text to_ir tag X cs')"
proof (induction tools arbitrary: acc cs n)
  case (Cons t tools)
  note step = cached_step_direct [OF Cons.prems(1) inj, of t acc n]
  show ?case
  proof (cases "convert_tool exn_text to_ir t")
    case (Inl e)
    with step Cons.prems(2) show ?thesis by simp
  next
    case (Inr v)
    with step Cons.prems(2) obtain cs1 where
      "cached_from_p_step env exn_text to_ir (tag @ '':from_p'') (acc, cs) (n, t) = Inr (extend_tools acc v, cs1)"
      "tool_cache_ok env exn_text to_ir tag X cs1" by auto
    then have e: "rfold (cached_from_p_step env exn_text to_ir (tag @ '':from_p'')) (acc, cs) (enumerate n (t # tools)) =
        rfold (cached_from_p_step env exn_text to_ir (tag @ '':from_p'')) (extend_tools acc v, cs1) (enumerate (Suc n) tools)"
      by simp
    show ?thesis
      unfolding e using Cons.IH [OF \<open>tool_cache_ok env exn_text to_ir tag X cs1\<close>, of "extend_tools acc v" "Suc n"] Cons.prems(2) Inr
      by simp
  qed
qed simp

text \<open>
  C22. The cache of tool conversions cannot be observed: whatever it holds and whatever the clock
  says, converting a tool list through it gives what converting each tool anew gives, errors
  included, and leaves a cache of which the same is true, provided that no two tools the
  conversion tells apart have the same cache key.
\<close>

theorem cached_tools_direct:
  assumes "tool_cache_ok env exn_text to_ir tag X cs" and "set tools \<subseteq> X"
    and "inj_on (entry_cache_key (env_hash env) (tag @ '':from_p'')) X"
  shows "case convert_tools_from_p exn_text to_ir tools of
      Inl e \<Rightarrow> get_cached_tools_from_p env exn_text to_ir tag tools cs = Inl e
    | Inr r \<Rightarrow> \<exists>cs'. get_cached_tools_from_p env exn_text to_ir tag tools cs = Inr (r, cs') \<and>
        tool_cache_ok env exn_text to_ir tag X cs'"
  unfolding convert_tools_from_p_def get_cached_tools_from_p_def
  using cached_loop_direct [OF assms(3,1,2)] .

definition demo_env :: "int cache_env" where
  "demo_env = \<lparr>env_hash = demo_hash, env_add = (+), env_zero = 0, look = (\<lambda>n. (int n, int n)), store = int\<rparr>"

theorem cached_tools_direct_witness:
  "\<exists>cs'. get_cached_tools_from_p demo_env (\<lambda>_. '''') Inr ''c'' [PInt 1, PNone, PInt 1] (module_caches 9) =
     Inr ([PInt 1, PInt 1], cs')"
proof -
  have "tool_cache_ok demo_env (\<lambda>_. '''') Inr ''c'' {PInt 1, PNone} (module_caches 9)"
    by (simp add: tool_cache_ok_def module_caches_def lru_init_def lru_ok_def lru_inv_def lru_holds_def)
  moreover have "inj_on (entry_cache_key (env_hash demo_env) (''c'' @ '':from_p'')) {PInt 1, PNone}"
    by (simp add: demo_env_def demo_hash_def entry_cache_key_def canonical_json_def int_str_def nat_str.simps nul_def)
  ultimately show ?thesis
    using cached_tools_direct [of demo_env "\<lambda>_. ''''" Inr "''c''" "{PInt 1, PNone}" "module_caches 9" "[PInt 1, PNone, PInt 1]"]
    by (auto simp: convert_tools_from_p_def convert_tool_def extend_tools_def)
qed

section \<open>What a validated request went through\<close>

definition known_entry :: "'t cache_env \<Rightarrow> string \<Rightarrow> 't caches \<Rightarrow> pyval \<Rightarrow> bool" where
  "known_entry env tag cs e \<longleftrightarrow>
     (\<exists>v. lru_holds (ir_validation_cache cs) (ir_validation_key (env_hash env) tag e) v)"

text \<open>A cache has not gained an entry over another.\<close>

definition no_more :: "'t caches \<Rightarrow> 't caches \<Rightarrow> bool" where
  "no_more cs cs' \<longleftrightarrow> lru_ok (ir_validation_cache cs') \<and>
     (\<forall>k v. lru_holds (ir_validation_cache cs') k v \<longrightarrow> lru_holds (ir_validation_cache cs) k v)"

lemma no_more_known: "no_more cs cs' \<Longrightarrow> known_entry env tag cs' e \<Longrightarrow> known_entry env tag cs e"
  by (auto simp: no_more_def known_entry_def)

lemma no_more_trans: "no_more cs cs1 \<Longrightarrow> no_more cs1 cs2 \<Longrightarrow> no_more cs cs2"
  by (auto simp: no_more_def)

lemma look_valid_facts:
  assumes "lru_ok (ir_validation_cache cs)" and "look_valid env n tag e cs = (known, cs')"
  shows "no_more cs cs'" and "known \<Longrightarrow> known_entry env tag cs e"
proof -
  let ?k = "ir_validation_key (env_hash env) tag e" and ?c = "ir_validation_cache cs"
  obtain r c where g: "lru_get (env_hash env) (env_add env) (fst (look env n)) (snd (look env n)) ?k ?c = (r, c)"
    by (cases "lru_get (env_hash env) (env_add env) (fst (look env n)) (snd (look env n)) ?k ?c")
  then have c: "known = (r \<noteq> None)" "ir_validation_cache cs' = c"
    using assms(2) by (auto simp: look_valid_def is_ir_validated_def)
  have "lru_ok c"
    using lru_inv_get [of ?c "env_hash env" "env_add env" "fst (look env n)" "snd (look env n)" ?k]
      lru_get_config(1) [of "env_hash env" "env_add env" "fst (look env n)" "snd (look env n)" ?k ?c] assms(1)
    unfolding lru_ok_def g by simp
  then show "no_more cs cs'"
    using lru_get_holds [OF g] unfolding no_more_def c(2) by blast
  show "known \<Longrightarrow> known_entry env tag cs e"
    using lru_get_holds [OF g] c(1) by (auto simp: known_entry_def)
qed

lemma look_entries:
  "lru_ok (ir_validation_cache cs) \<Longrightarrow> foldl (look_entry env tag) (new0, n, cs) es = (new, n', cs') \<Longrightarrow>
   no_more cs cs' \<and> set new0 \<subseteq> set new \<and> (\<forall>e \<in> set es. e \<in> set new \<or> known_entry env tag cs e)"
proof (induction es arbitrary: new0 n cs)
  case (Cons e es)
  obtain known cs1 where l: "look_valid env n tag e cs = (known, cs1)" by (cases "look_valid env n tag e cs")
  note f = look_valid_facts [OF Cons.prems(1) l]
  have "look_entry env tag (new0, n, cs) e = (if known then new0 else new0 @ [e], n + 1, cs1)"
    using l by (simp add: look_entry_def)
  then have "foldl (look_entry env tag) (if known then new0 else new0 @ [e], n + 1, cs1) es = (new, n', cs')"
    using Cons.prems(2) by (simp only: foldl_Cons)
  moreover have "lru_ok (ir_validation_cache cs1)" using f(1) by (simp add: no_more_def)
  ultimately have ih: "no_more cs1 cs' \<and> set (if known then new0 else new0 @ [e]) \<subseteq> set new \<and>
      (\<forall>e \<in> set es. e \<in> set new \<or> known_entry env tag cs1 e)"
    using Cons.IH by blast
  have "no_more cs cs'" using no_more_trans [OF f(1)] ih by blast
  moreover have "e \<in> set new \<or> known_entry env tag cs e" using ih f(2) by (cases known) auto
  moreover have "\<forall>e \<in> set es. e \<in> set new \<or> known_entry env tag cs e"
    using ih no_more_known [OF f(1)] by blast
  moreover have "set new0 \<subseteq> set new" using ih by (cases known) auto
  ultimately show ?case by simp
qed (simp add: no_more_def)

text \<open>How an entry of a field may have passed.\<close>

definition passed :: "'t cache_env \<Rightarrow> 't caches \<Rightarrow> string \<Rightarrow> (pyval list \<Rightarrow> unit res) \<Rightarrow> pyval \<Rightarrow> bool" where
  "passed env cs tag validator e \<longleftrightarrow>
     known_entry env tag cs e \<or> (\<exists>new. e \<in> set new \<and> validator new = Inr ())"

lemma check_field:
  assumes c: "check_field_incremental env st (field, tag, validator, ph) = Inr st'"
    and ok: "lru_ok (ir_validation_cache (v_caches st))"
  shows "no_more (v_caches st) (v_caches st')"
    and "f \<noteq> field \<Longrightarrow> dget (v_data st') f = dget (v_data st) f \<and> map_of (v_saved st') f = map_of (v_saved st) f"
    and "(v_saved st' = v_saved st \<and> v_data st' = v_data st) \<or>
      (map_of (v_saved st') field = Some (dget (v_data st) field) \<and>
       (\<forall>entries. py_iter (dget (v_data st) field) = Inr entries \<longrightarrow>
         (\<forall>e \<in> set entries. passed env (v_caches st) tag validator e)))"
proof -
  let ?o = "dget (v_data st) field"
  have "no_more (v_caches st) (v_caches st') \<and>
    (f \<noteq> field \<longrightarrow> dget (v_data st') f = dget (v_data st) f \<and> map_of (v_saved st') f = map_of (v_saved st) f) \<and>
    ((v_saved st' = v_saved st \<and> v_data st' = v_data st) \<or>
      (map_of (v_saved st') field = Some ?o \<and>
       (\<forall>entries. py_iter ?o = Inr entries \<longrightarrow> (\<forall>e \<in> set entries. passed env (v_caches st) tag validator e))))"
  proof (cases "py_truthy ?o")
    case False
    with c ok show ?thesis by (simp add: check_field_incremental_def no_more_def)
  next
    case True
    then obtain es where es: "py_iter ?o = Inr es"
      using c by (cases "py_iter ?o") (simp_all add: check_field_incremental_def Let_def)
    obtain new n cs where l: "foldl (look_entry env tag) ([], v_ops st, v_caches st) es = (new, n, cs)"
      by (cases "foldl (look_entry env tag) ([], v_ops st, v_caches st) es")
    note le = look_entries [OF ok l]
    show ?thesis
    proof (cases "new = [] \<or> \<not> length new < length es")
      case True
      with c es l le \<open>py_truthy ?o\<close> show ?thesis
        by (auto simp: check_field_incremental_def Let_def set_aside_def passed_def split: if_splits option.splits)
    next
      case False
      with c es l \<open>py_truthy ?o\<close> have "validator new = Inr ()" and
        "st' = set_aside field ph ?o (st\<lparr>v_ops := n, v_caches := cs, v_newly := v_newly st @ map (Pair tag) new\<rparr>)"
        by (auto simp: check_field_incremental_def Let_def elim!: rbind_InrE)
      with es le show ?thesis
        by (auto simp: set_aside_def passed_def split: option.splits)
    qed
  qed
  then show "no_more (v_caches st) (v_caches st')"
    "f \<noteq> field \<Longrightarrow> dget (v_data st') f = dget (v_data st) f \<and> map_of (v_saved st') f = map_of (v_saved st) f"
    "(v_saved st' = v_saved st \<and> v_data st' = v_data st) \<or>
      (map_of (v_saved st') field = Some ?o \<and>
       (\<forall>entries. py_iter ?o = Inr entries \<longrightarrow> (\<forall>e \<in> set entries. passed env (v_caches st) tag validator e)))"
    by blast+
qed

lemma saved_distinct:
  "check_field_incremental env st spec = Inr st' \<Longrightarrow> distinct (dkeys (v_saved st)) \<Longrightarrow> distinct (dkeys (v_saved st'))"
  by (auto simp: check_field_incremental_def Let_def set_aside_def elim!: rbind_InrE
      split: prod.splits if_splits)

lemma map_of_rev_distinct: "distinct (dkeys d) \<Longrightarrow> map_of (rev d) = map_of d"
proof (induction d)
  case (Cons kv d)
  then have "map_of d (fst kv) = None" by (auto simp: map_of_eq_None_iff)
  with Cons show ?case by (cases kv) (auto simp: map_add_def fun_eq_iff split: option.splits)
qed simp

text \<open>A field after both checks: put aside with its entries passed, or left for the main check.\<close>

definition settled :: "'t cache_env \<Rightarrow> 't caches \<Rightarrow> pdict \<Rightarrow> field_spec \<Rightarrow> 't validation \<Rightarrow> bool" where
  "settled env cs data spec st \<longleftrightarrow>
     (case spec of (field, tag, validator, ph) \<Rightarrow>
       (map_of (v_saved st) field = None \<and> dget (v_data st) field = dget data field) \<or>
       (map_of (v_saved st) field = Some (dget data field) \<and>
        (\<forall>entries. py_iter (dget data field) = Inr entries \<longrightarrow>
          (\<forall>e \<in> set entries. passed env cs tag validator e))))"

lemma passed_mono: "no_more cs cs' \<Longrightarrow> passed env cs' tag validator e \<Longrightarrow> passed env cs tag validator e"
  using no_more_known by (auto simp: passed_def)

lemma settled_check:
  assumes c: "check_field_incremental env st spec = Inr st'" and ok: "no_more cs (v_caches st)"
    and un: "map_of (v_saved st) (fst spec) = None" "dget (v_data st) (fst spec) = dget data (fst spec)"
  shows "settled env cs data spec st'"
proof -
  obtain field tag validator ph where sp: "spec = (field, tag, validator, ph)" by (cases spec)
  have "lru_ok (ir_validation_cache (v_caches st))" using ok by (simp add: no_more_def)
  from check_field(3) [OF c [unfolded sp] this] show ?thesis
  proof
    assume "v_saved st' = v_saved st \<and> v_data st' = v_data st"
    with un show ?thesis by (simp add: settled_def sp)
  qed (use un passed_mono [OF ok] in \<open>simp add: settled_def sp\<close>)
qed

lemma settled_other:
  assumes c: "check_field_incremental env st (f', tag', validator', ph') = Inr st'"
    and ok: "no_more cs (v_caches st)" and s: "settled env cs data (field, tag, validator, ph) st" and n: "field \<noteq> f'"
  shows "settled env cs data (field, tag, validator, ph) st'"
proof -
  have "lru_ok (ir_validation_cache (v_caches st))" using ok by (simp add: no_more_def)
  from check_field(2) [OF c this n] s show ?thesis by (simp add: settled_def)
qed

text \<open>
  C21. Incremental validation skips nothing: when a request is returned as valid, each of its tools
  and messages is in the form the converter built, and the whole list was in the request the main
  validator accepted, or every entry of it was accepted by the field's own validator or is recorded
  in the cache as valid. The validator is assumed to return the request it accepts.
\<close>

theorem validate_request_sound:
  assumes "validate_ir_request env True vs data cs = Inr (result, cs')" and "lru_ok (ir_validation_cache cs)"
    and "\<forall>d r. check_request vs d = Inr r \<longrightarrow> r = d"
    and "(field, tag, validator, ph) \<in> set (validated_fields vs)"
  shows "dget result field = dget data field \<and>
    ((\<exists>d. check_request vs d = Inr d \<and> dget d field = dget data field) \<or>
     (\<forall>entries. py_iter (dget data field) = Inr entries \<longrightarrow>
       (\<forall>e \<in> set entries. passed env cs tag validator e)))"
proof -
  let ?st0 = "\<lparr>v_data = data, v_saved = [], v_newly = [], v_ops = 0, v_caches = cs\<rparr>"
  let ?t = "(''tools'', ''ir.tool'', check_tools vs, None)"
  let ?m = "(''messages'', ''ir.message'', check_messages vs, Some (PList []))"
  from assms(1) obtain st1 st2 d where
    c1: "check_field_incremental env ?st0 ?t = Inr st1" and c2: "check_field_incremental env st1 ?m = Inr st2"
    and v: "check_request vs (v_data st2) = Inr d" and r: "result = dmerge d (v_saved st2)"
    by (auto simp: validate_ir_request_def validated_fields_def Let_def elim!: rbind_InrE)
  have n0: "no_more cs (v_caches ?st0)" using assms(2) by (simp add: no_more_def)
  have n1: "no_more cs (v_caches st1)" using check_field(1) [OF c1] assms(2) by simp
  have "settled env cs data ?t st1" by (rule settled_check [OF c1 n0]) simp_all
  then have st: "settled env cs data ?t st2" by (rule settled_other [OF c2 n1]) simp
  have "settled env cs data ?m st2"
    using check_field(2) [OF c1, of "''messages''"] assms(2) by (intro settled_check [OF c2 n1]) simp_all
  with st have s: "settled env cs data (field, tag, validator, ph) st2"
    using assms(4) by (auto simp: validated_fields_def)
  have "distinct (dkeys (v_saved st2))" using saved_distinct [OF c1] saved_distinct [OF c2] by simp
  then have "map_of result field = (case map_of (v_saved st2) field of Some x \<Rightarrow> Some x | None \<Rightarrow> map_of d field)"
    by (simp add: r map_of_dmerge map_of_rev_distinct map_add_def)
  moreover have "d = v_data st2" using v assms(3) by blast
  ultimately show ?thesis using s v by (auto simp: settled_def dget_or_def)
qed

definition lenient :: validators where
  "lenient = \<lparr>check_tools = (\<lambda>_. Inr ()), check_messages = (\<lambda>_. Inr ()), check_request = Inr, check_response = Inr\<rparr>"

theorem validate_request_sound_witness:
  "\<exists>result cs'. validate_ir_request demo_env True lenient [(''tools'', PList [PNone])] (module_caches 9) =
     Inr (result, cs') \<and> dget result ''tools'' = PList [PNone]"
proof -
  let ?run = "validate_ir_request demo_env True lenient [(''tools'', PList [PNone])] (module_caches 9)"
  have "case ?run of Inl _ \<Rightarrow> False | Inr _ \<Rightarrow> True" by code_simp
  then obtain result cs' where run: "?run = Inr (result, cs')" by (cases ?run) auto
  have "lru_ok (ir_validation_cache (module_caches (9::int)))"
    by (simp add: module_caches_def lru_init_def lru_ok_def lru_inv_def)
  from validate_request_sound [OF run this, of "''tools''" "''ir.tool''" "check_tools lenient" None] run show ?thesis
    by (simp add: validated_fields_def lenient_def)
qed

end
