(* ===== verification/ChatConverter.thy ===== *)
theory ChatConverter
  imports ChatStream ChatMessageOps ChatConfigOps BaseConverter
begin

text \<open>
  The requests and responses of \<open>converters/openai_chat/converter.py\<close>: \<open>OpenAIChatConverter\<close>
  composed of the content, tool, message and configuration operations.

  A \<open>chat_env\<close> holds what a conversion takes from outside the code: the readings of the caches,
  the order of Python sets, the reading of floats, the reasoning capability of the context options,
  the texts of exceptions and the validators. A request or response that is no dict (an SDK object)
  is not modelled; where the IR declares a TypedDict, another value raises at its first use.
\<close>

record ('t, 'r) chat_env =
  tool_caches :: "'t cache_env"
  schema_env :: "nat \<Rightarrow> 't sanitize_env"
  set_order :: "pyval list \<Rightarrow> pyval list"
  float_text :: "string \<Rightarrow> string"
  budget_scale :: "int \<Rightarrow> 'r \<Rightarrow> int"
  cap_option :: "'r reasoning_cap option"
  exn_text :: "pyexn \<Rightarrow> string"
  validate_output :: bool
  ir_validators :: validators

definition chat_tag :: string where
  "chat_tag = ''openai_chat''"

text \<open>A value declared as a TypedDict, and one declared as a list of them.\<close>

definition typed_dict :: "pyval \<Rightarrow> pdict res" where
  "typed_dict v = (case as_dict v of Some d \<Rightarrow> Inr d | None \<Rightarrow> Inl AttributeError)"

definition typed_dicts :: "pyval \<Rightarrow> pdict list res" where
  "typed_dicts v = rbind (py_iter v) (rmap typed_dict)"

section \<open>Requests to the provider\<close>

definition tool_to_p ::
  "('t::linorder, 'r) chat_env \<Rightarrow> nat \<Rightarrow> pyval \<Rightarrow> 't caches \<Rightarrow> (pyval \<times> 't caches) res" where
  "tool_to_p env n t cs = rbind (typed_dict t) (\<lambda>d. ir_tool_definition_to_p (schema_env env n) d cs)"

text \<open>The state of a request conversion: the result so far, the context and the caches.\<close>

type_synonym 't req = "pdict \<times> conversion_context \<times> 't caches"

definition apply_tools :: "('t::linorder, 'r) chat_env \<Rightarrow> pdict \<Rightarrow> 't req \<Rightarrow> 't req res" where
  "apply_tools env ir_request st =
     (let (result, ctx, cs) = st; tools = dget ir_request ''tools'' in
      if py_truthy tools then
        rbind (py_iter tools) (\<lambda>ts.
        rbind (get_cached_tools_to_p (tool_caches env) (tool_to_p env) chat_tag ts cs) (\<lambda>(ps, cs).
          Inr (dset result ''tools'' (PList ps), ctx, cs)))
      else Inr st)"

definition apply_tool_config :: "('t::linorder, 'r) chat_env \<Rightarrow> pdict \<Rightarrow> 't req \<Rightarrow> 't req res" where
  "apply_tool_config env ir_request st =
     rbind (apply_tools env ir_request st) (\<lambda>(result, ctx, cs).
     let tc = dget ir_request ''tool_choice''; tcfg = dget ir_request ''tool_config'' in
     rbind (if py_truthy tc
            then rbind (typed_dict tc) (\<lambda>d. Inr (dset result ''tool_choice'' (ir_tool_choice_to_p d)))
            else Inr result) (\<lambda>result.
     if py_truthy tcfg then
       rbind (typed_dict tcfg) (\<lambda>d.
         Inr (dmerge result (ir_tool_config_to_p d),
              (if dhas d ''max_calls''
               then ctx\<lparr>ctx_warnings := ctx_warnings ctx @ [''OpenAI Chat does not support max_tool_calls, ignored'']\<rparr>
               else ctx), cs))
     else Inr (result, ctx, cs)))"

text \<open>\<open>if v: result.update(f(v))\<close> for a setting of the request.\<close>

definition apply_setting :: "pdict \<Rightarrow> string \<Rightarrow> (pdict \<Rightarrow> pdict res) \<Rightarrow> pdict \<Rightarrow> pdict res" where
  "apply_setting ir_request field f result =
     (let v = dget ir_request field in
      if py_truthy v then
        rbind (typed_dict v) (\<lambda>d. rbind (f d) (\<lambda>fields. Inr (dmerge result fields)))
      else Inr result)"

text \<open>\<open>result.get("max_tokens") or result.get("max_completion_tokens")\<close>, an integer or \<open>None\<close>.\<close>

definition max_tokens_of :: "pdict \<Rightarrow> int option" where
  "max_tokens_of result =
     (let a = dget result ''max_tokens'' in
      int_of (if py_truthy a then a else dget result ''max_completion_tokens''))"

definition apply_settings :: "('t, 'r) chat_env \<Rightarrow> pdict \<Rightarrow> pdict \<Rightarrow> pdict res" where
  "apply_settings env ir_request result =
     rbind (apply_setting ir_request ''generation'' chat_generation_to_p result) (\<lambda>result.
     rbind (apply_setting ir_request ''response_format'' (\<lambda>d. Inr (chat_format_to_p d)) result) (\<lambda>result.
     rbind (apply_setting ir_request ''stream'' (\<lambda>d. Inr (chat_stream_to_p d)) result) (\<lambda>result.
     rbind (apply_setting ir_request ''reasoning''
              (chat_reasoning_to_p (budget_scale env) (cap_option env) (max_tokens_of result)) result) (\<lambda>result.
     rbind (apply_setting ir_request ''cache'' (\<lambda>d. Inr (chat_cache_to_p d)) result) (\<lambda>result.
       apply_setting ir_request ''provider_extensions'' Inr result)))))"

text \<open>The messages of the request, after the repair of the tool calls.\<close>

definition request_messages :: "('t, 'r) chat_env \<Rightarrow> pdict \<Rightarrow> (pdict list \<times> string list) res" where
  "request_messages env ir_request =
     rbind (typed_dicts (dget_or ir_request ''messages'' (PList []))) (\<lambda>messages.
     rbind (fix_orphaned_tool_calls_ir (set_order env) ''[No output available yet]'' messages) (\<lambda>(ms, _).
       ir_messages_to_p (map PDict ms)))"

definition request_to_provider ::
  "('t::linorder, 'r) chat_env \<Rightarrow> pdict \<Rightarrow> conversion_context \<Rightarrow> 't caches \<Rightarrow> (pdict \<times> pdict \<times> conversion_context \<times> 't caches) res" where
  "request_to_provider env ir_request ctx cs =
     rbind (ditem ir_request ''model'') (\<lambda>mdl.
     let system_instruction = dget ir_request ''system_instruction'';
         system = (if py_truthy system_instruction
                   then [[(''role'', PStr ''system''), (''content'', system_instruction)]] else []) in
     rbind (request_messages env ir_request) (\<lambda>(converted, msg_warnings).
     let (ir_request, config_warnings) = strip_orphaned_tool_config ir_request;
         ctx = ctx\<lparr>ctx_warnings := ctx_warnings ctx @ config_warnings @ msg_warnings\<rparr>;
         result = [(''model'', mdl), (''messages'', PList (map PDict (system @ converted)))] in
     rbind (apply_tool_config env ir_request (result, ctx, cs)) (\<lambda>(result, ctx, cs).
     rbind (apply_settings env ir_request result) (\<lambda>result.
       Inr (result, ir_request, ctx, cs)))))"

section \<open>Requests from the provider\<close>

text \<open>The text of a system message; \<open>None\<close> leaves the text found before.\<close>

definition system_text_of :: "pdict \<Rightarrow> string option res" where
  "system_text_of msg =
     (let content = dget_or msg ''content'' (PStr '''') in
      case as_str content of
        Some s \<Rightarrow> Inr (Some s)
      | None \<Rightarrow>
          (case as_list content of
             None \<Rightarrow> Inr None
           | Some parts \<Rightarrow>
               rbind (rmap (\<lambda>part. py_item part ''text'') (filter is_text_part parts)) (\<lambda>ts.
                 if ts = [] then Inr None else rbind (py_join '' '' ts) (\<lambda>s. Inr (Some s)))))"

definition extract_message ::
  "(string \<Rightarrow> string) \<Rightarrow> pdict list \<times> string option \<Rightarrow> pyval \<Rightarrow> (pdict list \<times> string option) res" where
  "extract_message flt acc msg =
     (let (ir_messages, system_text) = acc in
      if (case as_dict msg of Some d \<Rightarrow> dget d ''role'' = PStr ''system'' | None \<Rightarrow> False) then
        rbind (system_text_of (the (as_dict msg))) (\<lambda>s.
          Inr (ir_messages, case s of Some t \<Rightarrow> Some t | None \<Rightarrow> system_text))
      else
        rbind (p_message_to_ir flt [] msg) (\<lambda>converted.
          case converted of
            Some m \<Rightarrow> Inr (if m \<noteq> [] then ir_messages @ [m] else ir_messages, system_text)
          | None \<Rightarrow> Inr (ir_messages, system_text)))"

definition extract_system_and_messages ::
  "(string \<Rightarrow> string) \<Rightarrow> pyval list \<Rightarrow> (pdict list \<times> string option) res" where
  "extract_system_and_messages flt messages = rfold (extract_message flt) ([], None) messages"

text \<open>\<open>if v is not None: r[k] = f(v)\<close> and \<open>if d: r[k] = d\<close>.\<close>

definition set_if_given :: "string \<Rightarrow> pyval \<Rightarrow> (pyval \<Rightarrow> pyval res) \<Rightarrow> pdict \<Rightarrow> pdict res" where
  "set_if_given k v f r = (if v \<noteq> PNone then rbind (f v) (\<lambda>w. Inr (dset r k w)) else Inr r)"

definition set_if_filled :: "string \<Rightarrow> pdict \<Rightarrow> pdict \<Rightarrow> pdict" where
  "set_if_filled k d r = (if d \<noteq> [] then dset r k (PDict d) else r)"

definition settings_from_p :: "pdict \<Rightarrow> pdict \<Rightarrow> pdict res" where
  "settings_from_p p r =
     rbind (set_if_given ''tool_choice'' (dget p ''tool_choice'')
              (\<lambda>v. rbind (p_tool_choice_to_ir v) (\<lambda>d. Inr (PDict d))) r) (\<lambda>r.
     rbind (set_if_given ''tool_config'' (dget p ''parallel_tool_calls'')
              (\<lambda>v. Inr (PDict (p_tool_config_to_ir (PDict [(''parallel_tool_calls'', v)])))) r) (\<lambda>r.
     let r = set_if_filled ''generation'' (chat_generation_to_ir (PDict p)) r;
         rf = dget p ''response_format'';
         r = (if py_truthy rf then dset r ''response_format'' (PDict (chat_format_to_ir rf)) else r);
         r = set_if_filled ''reasoning'' (chat_reasoning_to_ir (PDict p)) r;
         stream = dget p ''stream''; stream_options = dget p ''stream_options'' in
     rbind (if stream \<noteq> PNone \<or> py_truthy stream_options
            then rbind (chat_stream_to_ir (PDict [(''stream'', stream), (''stream_options'', stream_options)]))
                   (\<lambda>d. Inr (dset r ''stream'' (PDict d)))
            else Inr r) (\<lambda>r.
     let cache_fields = copy_fields (same_names [''prompt_cache_key'', ''prompt_cache_retention'']) p [] in
       Inr (if cache_fields \<noteq> [] then dset r ''cache'' (PDict (chat_cache_to_ir (PDict cache_fields))) else r))))"

definition tools_from_p ::
  "('t::linorder, 'r) chat_env \<Rightarrow> pdict \<Rightarrow> pdict \<Rightarrow> 't caches \<Rightarrow> (pdict \<times> 't caches) res" where
  "tools_from_p env p r cs =
     (let tools = dget p ''tools'' in
      if py_truthy tools then
        rbind (py_iter tools) (\<lambda>ts.
        rbind (get_cached_tools_from_p (tool_caches env) (exn_text env)
                 (\<lambda>t. rbind (p_tool_definition_to_ir t) (\<lambda>d. Inr (PDict d))) chat_tag ts cs) (\<lambda>(its, cs).
          Inr (dset r ''tools'' (PList its), cs)))
      else Inr (r, cs))"

definition request_from_provider ::
  "('t::linorder, 'r) chat_env \<Rightarrow> pdict \<Rightarrow> 't caches \<Rightarrow> (pdict \<times> 't caches) res" where
  "request_from_provider env p cs =
     rbind (py_iter (dget_or p ''messages'' (PList []))) (\<lambda>messages.
     rbind (extract_system_and_messages (float_text env) messages) (\<lambda>(ir_messages, system_text).
     let r = [(''model'', dget_or p ''model'' (PStr '''')), (''messages'', PList (map PDict ir_messages))];
         r = (case system_text of
                Some s \<Rightarrow> if s \<noteq> [] then dset r ''system_instruction'' (PStr s) else r
              | None \<Rightarrow> r) in
     rbind (tools_from_p env p r cs) (\<lambda>(r, cs).
     rbind (settings_from_p p r) (\<lambda>r.
       validate_ir_request (tool_caches env) (validate_output env) (ir_validators env) r cs))))"

section \<open>Responses from the provider\<close>

definition choice_from_p :: "(string \<Rightarrow> string) \<Rightarrow> pyval \<Rightarrow> pdict res" where
  "choice_from_p flt p_choice =
     rbind (typed_dict p_choice) (\<lambda>c.
     rbind (p_message_to_ir flt [] (dget_or c ''message'' (dget_or c ''delta'' (PDict [])))) (\<lambda>message.
     rbind (reason_in chat_reason_from_provider (dget c ''finish_reason'')) (\<lambda>reason.
     let info = [(''index'', dget_or c ''index'' (PInt 0)),
                 (''message'', case message of Some m \<Rightarrow> PDict m | None \<Rightarrow> PNone),
                 (''finish_reason'', PDict [(''reason'', reason)])] in
       Inr (copy_fields (same_names [''logprobs'']) c info))))"

definition response_from_provider :: "('t, 'r) chat_env \<Rightarrow> pdict \<Rightarrow> pdict res" where
  "response_from_provider env p =
     rbind (py_iter (dget_or p ''choices'' (PList []))) (\<lambda>p_choices.
     rbind (rmap (choice_from_p (float_text env)) p_choices) (\<lambda>choices.
     let r = [(''id'', dget_or p ''id'' (PStr '''')), (''object'', PStr ''response''),
              (''created'', dget_or p ''created'' (PInt 0)), (''model'', dget_or p ''model'' (PStr '''')),
              (''choices'', PList (map PDict choices))] in
     rbind (if py_truthy (dget p ''usage'')
            then rbind (build_ir_usage (dget p ''usage'')) (\<lambda>u. Inr (dset r ''usage'' (PDict u)))
            else Inr r) (\<lambda>r.
     rbind (set_if_given ''service_tier'' (dget p ''service_tier'') Inr r) (\<lambda>r.
     rbind (set_if_given ''system_fingerprint'' (dget p ''system_fingerprint'') Inr r) (\<lambda>r.
       validate_ir_response (validate_output env) (ir_validators env) r)))))"

section \<open>Responses to the provider\<close>

record choice_acc =
  c_texts :: "pyval list"
  c_reasonings :: "pyval list"
  c_calls :: "pyval list"
  c_refusal :: pyval
  c_annotations :: "pyval list"

definition choice_part :: "choice_acc \<Rightarrow> pyval \<Rightarrow> choice_acc res" where
  "choice_part a part =
     (case as_dict part of
        None \<Rightarrow> Inr a
      | Some p \<Rightarrow>
          if is_text_part part then
            rbind (ditem p ''text'') (\<lambda>t. Inr (a\<lparr>c_texts := c_texts a @ [t]\<rparr>))
          else if is_reasoning_part part then
            Inr (a\<lparr>c_reasonings := c_reasonings a @ [dget_or p ''reasoning'' (PStr '''')]\<rparr>)
          else if is_tool_call_part part then
            rbind (ir_tool_call_to_p p) (\<lambda>c. Inr (a\<lparr>c_calls := c_calls a @ [c]\<rparr>))
          else if is_refusal_part part then
            Inr (a\<lparr>c_refusal := dget_or p ''refusal'' (PStr '''')\<rparr>)
          else if is_citation_part part then
            rbind (ir_citation_to_p p) (\<lambda>ann.
              case ann of
                Some d \<Rightarrow> Inr (a\<lparr>c_annotations := c_annotations a @ [PDict d]\<rparr>)
              | None \<Rightarrow> Inr a)
          else Inr a)"

definition choice_content :: "choice_acc \<Rightarrow> pdict \<Rightarrow> pdict res" where
  "choice_content a m =
     rbind (if c_texts a \<noteq> [] then rbind (py_join '' '' (c_texts a)) (\<lambda>s. Inr (dset m ''content'' (PStr s)))
            else if c_calls a = [] then Inr (dset m ''content'' (PStr ''''))
            else Inr m) (\<lambda>m.
     let m = (if c_calls a \<noteq> [] then
                let m = dset m ''tool_calls'' (PList (c_calls a)) in
                if c_texts a = [] then dset m ''content'' PNone else m
              else m);
         m = (if c_refusal a \<noteq> PNone then dset m ''refusal'' (c_refusal a) else m) in
       Inr (if c_annotations a \<noteq> [] then dset m ''annotations'' (PList (c_annotations a)) else m))"

definition choice_reasoning :: "pyval list \<Rightarrow> choice_acc \<Rightarrow> pdict \<Rightarrow> pdict res" where
  "choice_reasoning content_parts a m =
     (if c_reasonings a \<noteq> [] then
        rbind (py_join [CHR 0x0A] (c_reasonings a)) (\<lambda>s.
          restore_reasoning content_parts (dset m ''reasoning_content'' (PStr s)))
      else Inr m)"

definition build_choice_to_provider :: "pdict \<Rightarrow> pdict option res" where
  "build_choice_to_provider choice =
     (let msg = dget choice ''message'' in
      if \<not> py_truthy msg then Inr None
      else
        rbind (typed_dict msg) (\<lambda>message.
        rbind (py_iter (dget_or message ''content'' (PList []))) (\<lambda>content_parts.
        rbind (rfold choice_part
          \<lparr>c_texts = [], c_reasonings = [], c_calls = [], c_refusal = PNone, c_annotations = []\<rparr> content_parts) (\<lambda>a.
        rbind (choice_content a [(''role'', dget_or message ''role'' (PStr ''assistant''))]) (\<lambda>m.
        rbind (choice_reasoning content_parts a m) (\<lambda>m.
        rbind (py_get (dget_or choice ''finish_reason'' (PDict [])) ''reason'' (PStr ''stop'')) (\<lambda>reason.
        rbind (reason_in chat_reason_to_provider reason) (\<lambda>finish_reason.
          Inr (Some (copy_fields (same_names [''logprobs'']) choice
            [(''index'', dget_or choice ''index'' (PInt 0)), (''message'', PDict m),
             (''finish_reason'', finish_reason)]))))))))))"

definition response_to_provider :: "pdict \<Rightarrow> pdict res" where
  "response_to_provider ir =
     rbind (py_iter (dget_or ir ''choices'' (PList []))) (\<lambda>choices.
     rbind (rmap (\<lambda>c. rbind (typed_dict c) build_choice_to_provider) choices) (\<lambda>cs.
     let r = [(''id'', dget_or ir ''id'' (PStr '''')), (''object'', PStr ''chat.completion''),
              (''created'', dget_or ir ''created'' (PInt 0)), (''model'', dget_or ir ''model'' (PStr '''')),
              (''choices'', PList (concat (map (\<lambda>c. case c of Some d \<Rightarrow> [PDict d] | None \<Rightarrow> []) cs)))];
         ir_usage = dget ir ''usage'' in
     rbind (if py_truthy ir_usage
            then rbind (typed_dict ir_usage) (\<lambda>u.
                 rbind (build_provider_usage u) (\<lambda>pu. Inr (dset r ''usage'' (PDict pu))))
            else Inr r) (\<lambda>r.
       Inr (copy_fields (same_names [''service_tier'', ''system_fingerprint'']) ir r))))"

section \<open>Message lists\<close>

definition messages_to_provider :: "pyval list \<Rightarrow> (pdict list \<times> string list) res" where
  "messages_to_provider messages = ir_messages_to_p messages"

definition messages_from_provider :: "(string \<Rightarrow> string) \<Rightarrow> pyval list \<Rightarrow> pdict list res" where
  "messages_from_provider flt provider_messages = p_messages_to_ir flt provider_messages"

end
