(* ===== verification/AnthropicConverter.thy ===== *)
theory AnthropicConverter
  imports AnthropicMessageOps AnthropicConfigOps ChatConverter
begin

text \<open>
  The requests and responses of \<open>converters/anthropic/converter.py\<close>: \<open>AnthropicConverter\<close> composed of
  the content, tool, message and configuration operations. Beside what a Chat conversion takes from
  outside, an \<open>anthropic_env\<close> holds the clamp of a temperature, the sum of two token counts one of
  which is a float, and the reading of the clock in seconds.
\<close>

record ('t, 'r) anthropic_env = "('t, 'r) chat_env" +
  clamp_temperature :: "pyval \<Rightarrow> pyval res"
  float_sum :: "pyval \<Rightarrow> pyval \<Rightarrow> pyval"
  now_seconds :: int

definition anthropic_tag :: string where
  "anthropic_tag = ''anthropic''"

definition anthropic_reason_from_provider :: "(string \<times> string) list" where
  "anthropic_reason_from_provider =
     [(''end_turn'', ''stop''), (''max_tokens'', ''length''), (''tool_use'', ''tool_calls''),
      (''stop_sequence'', ''stop''), (''refusal'', ''refusal'')]"

definition anthropic_reason_to_provider :: "(string \<times> string) list" where
  "anthropic_reason_to_provider =
     [(''stop'', ''end_turn''), (''length'', ''max_tokens''), (''tool_calls'', ''tool_use''),
      (''content_filter'', ''end_turn''), (''refusal'', ''refusal'')]"

text \<open>\<open>TABLE.get(reason, d)\<close>.\<close>

definition reason_or :: "string \<Rightarrow> (string \<times> string) list \<Rightarrow> pyval \<Rightarrow> pyval res" where
  "reason_or d tbl reason =
     rbind (dget_dyn tbl reason) (\<lambda>r. Inr (PStr (case r of Some s \<Rightarrow> s | None \<Rightarrow> d)))"

section \<open>Usage\<close>

definition anthropic_ir_usage :: "(pyval \<Rightarrow> pyval \<Rightarrow> pyval) \<Rightarrow> pyval \<Rightarrow> pdict res" where
  "anthropic_ir_usage fsum p_usage =
     (case as_dict p_usage of
        None \<Rightarrow> Inl AttributeError
      | Some u \<Rightarrow>
          let input_tokens = or_zero (dget u ''input_tokens''); output_tokens = or_zero (dget u ''output_tokens'') in
          rbind (py_add fsum input_tokens output_tokens) (\<lambda>total.
            Inr (copy_fields [(''cache_read_input_tokens'', ''cache_read_tokens''),
                              (''cache_creation_input_tokens'', ''cache_creation_tokens'')] u
              [(''prompt_tokens'', input_tokens), (''completion_tokens'', output_tokens), (''total_tokens'', total)])))"

definition anthropic_provider_usage :: "pdict \<Rightarrow> pdict" where
  "anthropic_provider_usage ir_usage =
     copy_fields [(''cache_read_tokens'', ''cache_read_input_tokens''),
                  (''cache_creation_tokens'', ''cache_creation_input_tokens'')] ir_usage
       [(''input_tokens'', or_zero (dget ir_usage ''prompt_tokens'')),
        (''output_tokens'', or_zero (dget ir_usage ''completion_tokens''))]"

section \<open>Requests to the provider\<close>

definition anthropic_tool_of ::
  "('t::linorder, 'r) anthropic_env \<Rightarrow> nat \<Rightarrow> pyval \<Rightarrow> 't caches \<Rightarrow> (pyval \<times> 't caches) res" where
  "anthropic_tool_of env n t cs =
     rbind (typed_dict t) (\<lambda>d. anthropic_tool_definition_to_p (schema_env env n) d cs)"

text \<open>The two settings that share the field \<open>tool_choice\<close>.\<close>

definition anthropic_choice :: "pdict \<Rightarrow> pdict \<Rightarrow> pdict res" where
  "anthropic_choice ir_request result =
     (let v = dget ir_request ''tool_choice'' in
      if py_truthy v then
        rbind (typed_dict v) (\<lambda>d. Inr (dset result ''tool_choice'' (PDict (anthropic_tool_choice_to_p d))))
      else Inr result)"

definition merge_choice :: "pdict \<Rightarrow> pdict \<Rightarrow> pdict res" where
  "merge_choice tc_fields result =
     (case as_dict (dget_or result ''tool_choice'' (PDict [(''type'', PStr ''auto'')])) of
        Some d \<Rightarrow> Inr (dset result ''tool_choice'' (PDict (dmerge d tc_fields)))
      | None \<Rightarrow> Inl AttributeError)"

definition anthropic_tool_config ::
  "('t::linorder, 'r) anthropic_env \<Rightarrow> pdict \<Rightarrow> 't req \<Rightarrow> 't req res" where
  "anthropic_tool_config env ir_request st =
     (let (result, ctx, cs) = st; tools = dget ir_request ''tools''; tcfg = dget ir_request ''tool_config'' in
      rbind (if py_truthy tools then
               rbind (py_iter tools) (\<lambda>ts.
               rbind (get_cached_tools_to_p (tool_caches env) (anthropic_tool_of env) anthropic_tag ts cs) (\<lambda>(ps, cs).
                 Inr (dset result ''tools'' (PList ps), cs)))
             else Inr (result, cs)) (\<lambda>(result, cs).
      rbind (anthropic_choice ir_request result) (\<lambda>result.
      if \<not> py_truthy tcfg then Inr (result, ctx, cs)
      else
        rbind (typed_dict tcfg) (\<lambda>d.
        let tc_fields = anthropic_tool_config_to_p d in
        rbind (if tc_fields \<noteq> [] then merge_choice tc_fields result else Inr result) (\<lambda>result.
          Inr (result,
               (if dhas d ''max_calls''
                then ctx\<lparr>ctx_warnings := ctx_warnings ctx @ [''Anthropic does not support max_tool_calls, ignored'']\<rparr>
                else ctx), cs))))))"

text \<open>The first system message with a text fills an absent system prompt.\<close>

definition system_from_message :: "pdict \<Rightarrow> pdict \<Rightarrow> pdict res" where
  "system_from_message result item =
     (if dget item ''role'' = PStr ''system'' then
        rbind (py_iter (dget_or item ''content'' (PList []))) (\<lambda>parts.
        rbind (rmap (\<lambda>part. py_item part ''text'') (filter is_text_part parts)) (\<lambda>text_parts.
          if text_parts \<noteq> [] \<and> \<not> dhas result ''system'' then
            rbind (py_join '' '' text_parts) (\<lambda>s. Inr (dset result ''system'' (PStr s)))
          else Inr result))
      else Inr result)"

definition anthropic_generation :: "('t, 'r) anthropic_env \<Rightarrow> pdict \<Rightarrow> pdict \<Rightarrow> pdict res" where
  "anthropic_generation env ir_request result =
     (if py_truthy (dget ir_request ''generation'') then
        apply_setting ir_request ''generation'' (anthropic_generation_to_p (clamp_temperature env)) result
      else Inr (dset result ''max_tokens'' (PInt 4096)))"

definition anthropic_settings :: "('t, 'r) anthropic_env \<Rightarrow> pdict \<Rightarrow> pdict \<Rightarrow> pdict res" where
  "anthropic_settings env ir_request result =
     rbind (apply_setting ir_request ''response_format'' (\<lambda>d. Inr (anthropic_format_to_p d)) result) (\<lambda>result.
     rbind (apply_setting ir_request ''stream'' (\<lambda>d. Inr (anthropic_stream_to_p d)) result) (\<lambda>result.
     rbind (apply_setting ir_request ''reasoning''
              (anthropic_reasoning_to_p (budget_scale env) (cap_option env) (int_of (dget result ''max_tokens''))) result)
       (\<lambda>result.
     rbind (apply_setting ir_request ''cache'' (\<lambda>d. Inr (anthropic_cache_to_p d)) result) (\<lambda>result.
       apply_setting ir_request ''provider_extensions'' Inr result))))"

text \<open>
  The result, the request without an orphaned tool setting, the repaired messages as the conversion
  leaves them, the context and the caches.
\<close>

definition anthropic_request_to_p ::
  "('t::linorder, 'r) anthropic_env \<Rightarrow> pdict \<Rightarrow> conversion_context \<Rightarrow> 't caches \<Rightarrow> (pdict \<times> pdict \<times> pyval list \<times> conversion_context \<times> 't caches) res" where
  "anthropic_request_to_p env ir_request ctx cs =
     rbind (ditem ir_request ''model'') (\<lambda>mdl.
     let system_instruction = dget ir_request ''system_instruction'';
         result = [(''model'', mdl)] @ (if py_truthy system_instruction then [(''system'', system_instruction)] else []) in
     rbind (typed_dicts (dget_or ir_request ''messages'' (PList []))) (\<lambda>messages.
     rbind (fix_orphaned_tool_calls_ir (set_order env) ''[No output available yet]'' messages) (\<lambda>(ir_messages, _).
     let (ir_request, config_warnings) = strip_orphaned_tool_config ir_request in
     rbind (rfold system_from_message result ir_messages) (\<lambda>result.
     rbind (anthropic_messages_to_p (cap_option env) (map PDict ir_messages)) (\<lambda>(converted_msgs, msg_warnings, left_messages).
     let ctx = ctx\<lparr>ctx_warnings := ctx_warnings ctx @ config_warnings @ msg_warnings\<rparr> in
     rbind (anthropic_generation env ir_request
              (dset result ''messages'' (PList (map PDict converted_msgs)))) (\<lambda>result.
     rbind (anthropic_tool_config env ir_request (result, ctx, cs)) (\<lambda>(result, ctx, cs).
     rbind (anthropic_settings env ir_request result) (\<lambda>result.
       Inr (result, ir_request, left_messages, ctx, cs)))))))))"

section \<open>Requests from the provider\<close>

definition system_of_request :: "pyval \<Rightarrow> pdict \<Rightarrow> pdict res" where
  "system_of_request system_content r =
     (if \<not> py_truthy system_content then Inr r
      else if is_str system_content then Inr (dset r ''system_instruction'' system_content)
      else case as_list system_content of
        None \<Rightarrow> Inr r
      | Some parts \<Rightarrow>
          rbind (rmap (\<lambda>part. py_item part ''text'') (filter is_text_part parts)) (\<lambda>text_parts.
            if text_parts \<noteq> [] then
              rbind (py_join '' '' text_parts) (\<lambda>s. Inr (dset r ''system_instruction'' (PStr s)))
            else Inr r))"

definition anthropic_request_from_p ::
  "('t::linorder, 'r) anthropic_env \<Rightarrow> pdict \<Rightarrow> 't caches \<Rightarrow> (pdict \<times> 't caches) res" where
  "anthropic_request_from_p env p cs =
     rbind (system_of_request (dget p ''system'')
              [(''model'', dget_or p ''model'' (PStr '''')), (''messages'', PList [])]) (\<lambda>r.
     rbind (py_iter (dget_or p ''messages'' (PList []))) (\<lambda>messages.
     rbind (anthropic_messages_to_ir messages) (\<lambda>ir_messages.
     let r = dset r ''messages'' (PList (map PDict ir_messages)); tools = dget p ''tools'' in
     rbind (if py_truthy tools then
              rbind (py_iter tools) (\<lambda>ts.
              rbind (get_cached_tools_from_p (tool_caches env) (exn_text env)
                       (\<lambda>t. as_value (anthropic_tool_definition_to_ir t)) anthropic_tag ts cs) (\<lambda>(its, cs).
                Inr (dset r ''tools'' (PList its), cs)))
            else Inr (r, cs)) (\<lambda>(r, cs).
     let choice = dget p ''tool_choice'';
         r = (if choice \<noteq> PNone then
                set_if_filled ''tool_config'' (anthropic_tool_config_to_ir choice)
                  (dset r ''tool_choice'' (PDict (anthropic_tool_choice_to_ir choice)))
              else r);
         r = set_if_filled ''generation'' (anthropic_generation_to_ir (PDict p)) r;
         r = set_if_filled ''reasoning'' (anthropic_reasoning_to_ir (PDict p)) r;
         stream = dget p ''stream'';
         r = (if stream \<noteq> PNone
              then dset r ''stream'' (PDict (anthropic_stream_to_ir (PDict [(''stream'', stream)]))) else r) in
       validate_ir_request (tool_caches env) (validate_output env) (ir_validators env) r cs))))"

section \<open>Metadata kept for a round trip\<close>

definition anthropic_core_keys :: "string list" where
  "anthropic_core_keys = [''id'', ''type'', ''role'', ''content'', ''model'', ''stop_reason'', ''stop_sequence'', ''usage'']"

definition usage_core_keys :: "string list" where
  "usage_core_keys = [''input_tokens'', ''output_tokens'', ''cache_read_input_tokens'']"

definition block_meta :: "pyval \<Rightarrow> pdict" where
  "block_meta block = (case as_dict block of Some d \<Rightarrow> copy_fields (same_names [''citations'']) d [] | None \<Rightarrow> [])"

definition capture_preserve_metadata ::
  "pdict \<Rightarrow> 'a conversion_context_scheme \<Rightarrow> 'a conversion_context_scheme res" where
  "capture_preserve_metadata p ctx =
     (let p_usage = dget p ''usage''; extras = filter (\<lambda>kv. fst kv \<notin> set anthropic_core_keys) p in
      rbind (if py_truthy p_usage then
               rbind (typed_dict p_usage) (\<lambda>u.
                 let usage_extras = filter (\<lambda>kv. fst kv \<notin> set usage_core_keys) u in
                 Inr (if usage_extras \<noteq> [] then dset extras ''_usage_extras'' (PDict usage_extras) else extras))
             else Inr extras) (\<lambda>extras.
      let ctx = (if extras \<noteq> [] then store_response_extras extras ctx else ctx) in
      rbind (py_iter (dget_or p ''content'' (PList []))) (\<lambda>content_blocks.
        let items_meta = map block_meta content_blocks in
        Inr (if list_ex (\<lambda>m. m \<noteq> []) items_meta then store_output_items_meta items_meta ctx else ctx))))"

fun apply_items_meta :: "pyval list \<Rightarrow> pdict list \<Rightarrow> pdict list res" where
  "apply_items_meta (m # ms) (c # cs) =
     rbind (typed_dict m) (\<lambda>d. rbind (apply_items_meta ms cs) (\<lambda>cs. Inr (dmerge c d # cs)))"
| "apply_items_meta _ cs = Inr cs"

definition apply_preserve_metadata ::
  "pdict \<Rightarrow> pdict list \<Rightarrow> 'a conversion_context_scheme \<Rightarrow> pdict res" where
  "apply_preserve_metadata p content ctx =
     rbind (get_echo_fields ctx) (\<lambda>echo.
     let usage_extras = dget echo ''_usage_extras''; echo = ddel echo ''_usage_extras'' in
     rbind (if py_truthy usage_extras \<and> dhas p ''usage'' then
              rbind (py_dict usage_extras) (\<lambda>ue.
              rbind (typed_dict (dget p ''usage'')) (\<lambda>u. Inr (dset p ''usage'' (PDict (dmerge u ue)))))
            else Inr p) (\<lambda>p.
     let p = dmerge p (filter (\<lambda>kv. fst kv \<notin> set anthropic_core_keys) echo) in
     rbind (py_iter (get_output_items_meta ctx)) (\<lambda>items_meta.
     rbind (apply_items_meta items_meta content) (\<lambda>content.
       Inr (dset p ''content'' (PList (map PDict content)))))))"

section \<open>Responses from the provider\<close>

definition anthropic_response_from_p ::
  "('t, 'r) anthropic_env \<Rightarrow> pdict \<Rightarrow> 'a conversion_context_scheme \<Rightarrow> (pdict \<times> 'a conversion_context_scheme) res" where
  "anthropic_response_from_p env p ctx =
     rbind (anthropic_message_to_ir (PDict p)) (\<lambda>ir_messages.
     let message = (case ir_messages of [m] \<Rightarrow> PDict m | _ \<Rightarrow> PList (map PDict ir_messages));
         stop_reason = dget p ''stop_reason''; stop_sequence = dget p ''stop_sequence'';
         reason = (if py_truthy stop_reason
                   then (case map_of anthropic_reason_from_provider (py_str stop_reason) of
                           Some s \<Rightarrow> s | None \<Rightarrow> ''stop'')
                   else ''stop'');
         finish = [(''reason'', PStr reason)] @
                  (if py_truthy stop_sequence then [(''stop_sequence'', stop_sequence)] else []);
         choice = [(''index'', PInt 0), (''message'', message), (''finish_reason'', PDict finish)];
         p_usage = dget p ''usage'' in
     rbind (anthropic_ir_usage (float_sum env) (if py_truthy p_usage then p_usage else PDict [])) (\<lambda>usage.
     rbind (if metadata_mode ctx = PStr ''preserve'' then capture_preserve_metadata p ctx else Inr ctx) (\<lambda>ctx.
     rbind (validate_ir_response (validate_output env) (ir_validators env)
              [(''id'', dget_or p ''id'' (PStr '''')), (''object'', PStr ''response''),
               (''created'', PInt (now_seconds env)), (''model'', dget_or p ''model'' (PStr '''')),
               (''choices'', PList [PDict choice]), (''usage'', PDict usage)]) (\<lambda>r.
       Inr (r, ctx)))))"

section \<open>Responses to the provider\<close>

definition anthropic_response_part :: "pdict list \<Rightarrow> pyval \<Rightarrow> pdict list res" where
  "anthropic_response_part blocks part =
     (let add = (\<lambda>r. rbind r (\<lambda>b. Inr (blocks @ [b]))) in
      case as_dict part of
        None \<Rightarrow> Inr blocks
      | Some p \<Rightarrow>
          if is_text_part part then add (anthropic_text_to_p p)
          else if is_tool_call_part part then add (anthropic_tool_call_to_p p)
          else if is_reasoning_part part then add (Inr (anthropic_reasoning_part_to_p p))
          else Inr blocks)"

text \<open>The fields of the first choice, and the content blocks.\<close>

definition anthropic_choice_fields :: "pdict \<Rightarrow> (pdict \<times> pdict list) res" where
  "anthropic_choice_fields choice =
     (let message = dget choice ''message'' in
      rbind (if py_truthy message then
               rbind (typed_dict message) (\<lambda>m.
               rbind (py_iter (dget_or m ''content'' (PList []))) (\<lambda>parts.
               rbind (rfold anthropic_response_part [] parts) (\<lambda>blocks.
                 Inr ([(''role'', dget_or m ''role'' (PStr ''assistant''))], blocks))))
             else Inr ([], [])) (\<lambda>(fields, blocks).
      rbind (typed_dict (dget_or choice ''finish_reason'' (PDict []))) (\<lambda>finish_reason.
      rbind (reason_or ''end_turn'' anthropic_reason_to_provider (dget_or finish_reason ''reason'' (PStr ''stop'')))
        (\<lambda>stop_reason.
          Inr (fields @ [(''stop_reason'', stop_reason)] @
                 copy_fields (same_names [''stop_sequence'']) finish_reason [], blocks)))))"

definition anthropic_response_to_p :: "pdict \<Rightarrow> 'a conversion_context_scheme \<Rightarrow> pdict res" where
  "anthropic_response_to_p ir ctx =
     rbind (case dget_or ir ''choices'' (PList []) of
              PList (c # _) \<Rightarrow> rbind (typed_dict c) anthropic_choice_fields
            | v \<Rightarrow> if py_truthy v then Inl TypeError else Inr ([], [])) (\<lambda>(fields, content).
     let usage = dget ir ''usage'' in
     rbind (typed_dict (if py_truthy usage then usage else PDict [])) (\<lambda>ir_usage.
     let p = [(''id'', dget_or ir ''id'' (PStr '''')), (''type'', PStr ''message''),
              (''model'', dget_or ir ''model'' (PStr '''')), (''content'', PList (map PDict content))] @
             fields @ [(''usage'', PDict (anthropic_provider_usage ir_usage))] in
       if metadata_mode ctx = PStr ''preserve'' then apply_preserve_metadata p content ctx else Inr p))"

section \<open>Message lists\<close>

definition anthropic_messages_to_provider :: "'r reasoning_cap option \<Rightarrow> pyval list \<Rightarrow> sent res" where
  "anthropic_messages_to_provider cap messages = anthropic_messages_to_p cap messages"

definition anthropic_messages_from_provider :: "pyval list \<Rightarrow> pdict list res" where
  "anthropic_messages_from_provider provider_messages = anthropic_messages_to_ir provider_messages"

end
