(* ===== verification/ChatMessageTrip.thy ===== *)
theory ChatMessageTrip
  imports ChatMessageOps
begin

text \<open>
  What the message operations of the Chat format promise: the shape of the messages they send, and
  the round trip of a whole conversation through \<open>ir_messages_to_p\<close> and \<open>p_messages_to_ir\<close>.
\<close>

section \<open>The shape of the sent messages\<close>

definition chat_message_ok :: "pdict \<Rightarrow> bool" where
  "chat_message_ok m \<longleftrightarrow>
     dget m ''role'' = PStr ''system'' \<and> is_str (dget m ''content'') \<or>
     dget m ''role'' = PStr ''user'' \<and> dhas m ''content'' \<or>
     dget m ''role'' = PStr ''tool'' \<and> dhas m ''tool_call_id'' \<and> is_str (dget m ''content'') \<or>
     dget m ''role'' = PStr ''assistant'' \<and>
       (is_str (dget m ''content'') \<or>
        dget m ''content'' = PNone \<and> is_list (dget m ''tool_calls'') \<and> dget m ''tool_calls'' \<noteq> PList [])"

lemma tool_result_ok: "ir_tool_result_to_p part = Inr m \<Longrightarrow> chat_message_ok m"
  by (auto simp: ir_tool_result_to_p_def chat_message_ok_def Let_def elim!: rbind_InrE)

lemma packing_ok:
  assumes "convert_tool_result_with_packing part st = Inr (m, st')"
  shows "chat_message_ok m"
proof -
  from assms have "ir_tool_result_to_p part = Inr m"
    unfolding convert_tool_result_with_packing_def Let_def
    by (cases "has_multimodal_content (dget_or part ''result'' (PStr ''''))")
       (auto elim!: rbind_InrE simp del: rfold.simps)
  then show ?thesis by (rule tool_result_ok)
qed

lemma user_part_ok:
  assumes "user_part (us, ts, st) part = Inr (us', ts', st')" and "list_all chat_message_ok ts"
  shows "list_all chat_message_ok ts'"
proof (cases "as_dict part")
  case (Some p)
  then show ?thesis
    using assms packing_ok [of p st]
    by (auto simp: user_part_def elim!: rbind_InrE split: if_splits prod.splits)
qed (use assms in \<open>simp add: user_part_def\<close>)

lemma user_parts_ok:
  "rfold user_part acc parts = Inr acc' \<Longrightarrow> list_all chat_message_ok (fst (snd acc)) \<Longrightarrow>
   list_all chat_message_ok (fst (snd acc'))"
proof (induction parts arbitrary: acc)
  case (Cons p parts)
  then obtain acc1 where "user_part acc p = Inr acc1" "rfold user_part acc1 parts = Inr acc'"
    by (auto elim!: rbind_InrE)
  with Cons user_part_ok show ?case by (cases acc; cases acc1) auto
qed simp

lemma user_ok:
  assumes "ir_user_to_p content st = Inr (ms, st')"
  shows "list_all chat_message_ok ms"
proof -
  from assms obtain us ts v where "rfold user_part ([], [], st) content = Inr (us, ts, st')"
    and ms: "ms = (if us \<noteq> [] \<or> ts = [] then [[(''role'', PStr ''user''), (''content'', v)]] else []) @ ts"
    unfolding ir_user_to_p_def by (auto elim!: rbind_InrE)
  then have "list_all chat_message_ok ts" using user_parts_ok by fastforce
  with ms show ?thesis by (simp add: chat_message_ok_def)
qed

lemma restore_field_keeps: "restore_field pm m k = Inr m' \<Longrightarrow> k' \<noteq> k \<Longrightarrow> dget_or m' k' v = dget_or m k' v"
  by (auto simp: restore_field_def elim!: rbind_InrE split: if_splits)

lemma restore_reasoning_keeps:
  assumes "restore_reasoning content m = Inr m'" "k \<notin> {''reasoning_details'', ''encrypted_content''}"
  shows "dget_or m' k v = dget_or m k v"
proof (cases "filter is_reasoning_part content")
  case (Cons part ps)
  with assms show ?thesis
    by (auto simp: restore_reasoning_def restore_field_keeps elim!: rbind_InrE)
qed (use assms in \<open>simp add: restore_reasoning_def\<close>)

lemma assistant_ok:
  assumes "ir_assistant_to_p content st = Inr (m, st')"
  shows "chat_message_ok m"
proof -
  from assms obtain a m1 m2 where 1: "set_reasoning content a [(''role'', PStr ''assistant'')] = Inr m1"
    and 2: "set_texts a m1 = Inr m2" and 3: "m = set_calls a m2"
    unfolding ir_assistant_to_p_def by (auto elim!: rbind_InrE)
  have "dget m1 ''role'' = PStr ''assistant''"
    using 1 restore_reasoning_keeps by (auto simp: set_reasoning_def split: if_splits)
  moreover have "text_parts a \<noteq> [] \<Longrightarrow> \<exists>s. dget m2 ''content'' = PStr s"
    using 2 by (auto simp: set_texts_def elim!: rbind_InrE)
  moreover have "dget m2 ''role'' = dget m1 ''role''"
    using 2 by (auto simp: set_texts_def elim!: rbind_InrE split: if_splits)
  ultimately show ?thesis
    by (auto simp: 3 set_calls_def chat_message_ok_def Let_def)
qed

lemma system_ok: "ir_system_to_p content = Inr m \<Longrightarrow> chat_message_ok m"
  by (auto simp: ir_system_to_p_def chat_message_ok_def elim!: rbind_InrE)

lemma tool_messages_ok:
  assumes "ir_tool_messages_to_p content st = Inr (ms, st')"
  shows "list_all chat_message_ok ms"
proof -
  let ?f = "\<lambda>(tool_messages, st) part.
       case as_dict part of
         Some p \<Rightarrow>
           if is_tool_result_part part then
             rbind (convert_tool_result_with_packing p st) (\<lambda>(m, st). Inr (tool_messages @ [m], st))
           else Inr (tool_messages, st)
       | None \<Rightarrow> Inr (tool_messages, st)"
  have "rfold ?f acc content = Inr (ms, st') \<Longrightarrow> list_all chat_message_ok (fst acc) \<Longrightarrow>
      list_all chat_message_ok ms" for acc
  proof (induction content arbitrary: acc)
    case (Cons part content)
    then obtain acc1 where a: "?f acc part = Inr acc1" "rfold ?f acc1 content = Inr (ms, st')"
      by (auto elim!: rbind_InrE)
    have "list_all chat_message_ok (fst acc1)"
      using a(1) Cons.prems(2) packing_ok
      by (cases acc; cases acc1) (fastforce elim!: rbind_InrE split: option.splits if_splits)
    with Cons.IH a(2) show ?case by blast
  qed simp
  from this [of "([], st)"] assms show ?thesis by (simp add: ir_tool_messages_to_p_def)
qed

lemma message_ok:
  assumes "ir_message_to_p message st = Inr (ms, st')"
  shows "list_all chat_message_ok ms"
  using assms unfolding ir_message_to_p_def Let_def
  by (auto elim!: rbind_InrE split: if_splits
      dest: system_ok user_ok assistant_ok tool_messages_ok)

lemma extension_ok:
  assumes "handle_extension_item item ms st = Inr (ms', st')" and "list_all chat_message_ok ms"
  shows "list_all chat_message_ok ms'"
  using assms unfolding handle_extension_item_def Let_def
  by (auto elim!: rbind_InrE split: if_splits option.splits simp: chat_message_ok_def)

lemma items_ok:
  "rfold ir_item_to_p acc items = Inr (ms, st) \<Longrightarrow> list_all chat_message_ok (fst acc) \<Longrightarrow>
   list_all chat_message_ok ms"
proof (induction items arbitrary: acc)
  case (Cons item items)
  then obtain acc1 where a: "ir_item_to_p acc item = Inr acc1" "rfold ir_item_to_p acc1 items = Inr (ms, st)"
    by (auto elim!: rbind_InrE)
  have "list_all chat_message_ok (fst acc1)"
  proof (cases "as_dict item")
    case (Some d)
    with a(1) Cons.prems(2) message_ok [of d "snd acc"] extension_ok [of d "fst acc" "snd acc"] show ?thesis
      by (cases acc1) (auto simp: ir_item_to_p_def elim!: rbind_InrE split: if_splits)
  qed (use a(1) Cons.prems(2) in \<open>simp add: ir_item_to_p_def\<close>)
  with Cons.IH a(2) show ?case by blast
qed simp

lemma reorder_subset:
  assumes "reorder_tool_messages ms ws = Inr (ms', ws')"
  shows "set ms' \<subseteq> set ms"
  unfolding reorder_closed_form [OF assms] by (auto simp: call_block_def)

lemma synthetic_ok: "chat_message_ok (synthetic_message parts)"
  by (simp add: chat_message_ok_def synthetic_message_def)

lemma inject_loop_ok:
  "inject_loop packs ms = Inr out \<Longrightarrow> list_all chat_message_ok ms \<Longrightarrow> list_all chat_message_ok out"
proof (induction packs ms arbitrary: out rule: inject_loop.induct)
  case (2 packs msg rest)
  show ?case
  proof (cases "is_tool_msg msg")
    case True
    let ?grp = "msg # takeWhile is_tool_msg rest" and ?later = "dropWhile is_tool_msg rest"
    from 2(3) True obtain parts result where
      p: "rmap (\<lambda>m. pack_parts packs (dget m ''tool_call_id'')) ?grp = Inr parts"
      and r: "inject_loop packs ?later = Inr result"
      and out: "out = ?grp @ (if concat parts \<noteq> [] then [synthetic_message (concat parts)] else []) @ result"
      unfolding inject_loop.simps Let_def by (simp only: if_True) (erule rbind_InrE, erule rbind_InrE, simp)
    have "list_all chat_message_ok ?later" "list_all chat_message_ok ?grp"
      using 2(4) by (auto simp: list_all_iff dest: set_dropWhileD set_takeWhileD)
    with 2(1) [OF True refl p r] show ?thesis
      unfolding out by (simp add: synthetic_ok)
  next
    case False
    with 2 show ?thesis by (auto elim!: rbind_InrE)
  qed
qed simp

text \<open>
  C18. Every message the Chat converter sends is one the API takes: a system message with a text, a
  user message with a content, a tool message with a call id and a text, or an assistant message
  with a text or with at least one tool call.
\<close>

theorem sent_messages_ok:
  assumes "ir_messages_to_p items = Inr (ms, ws)"
  shows "list_all chat_message_ok ms"
proof -
  from assms obtain ms0 st ms1 where
    1: "rfold ir_item_to_p ([], \<lparr>warnings = [], multimodal_packs = []\<rparr>) items = Inr (ms0, st)" and
    2: "reorder_tool_messages ms0 (warnings st) = Inr (ms1, ws)" and
    3: "(if multimodal_packs st \<noteq> [] then inject_packed_tool_content ms1 (multimodal_packs st) else Inr ms1) = Inr ms"
    unfolding ir_messages_to_p_def by (auto elim!: rbind_InrE simp del: rfold.simps)
  have "list_all chat_message_ok ms0" using items_ok [OF 1] by simp
  then have "list_all chat_message_ok ms1" using reorder_subset [OF 2] by (auto simp: list_all_iff)
  with 3 show ?thesis
    using inject_loop_ok by (auto simp: inject_packed_tool_content_def split: if_splits)
qed

theorem sent_messages_ok_witness:
  "list_all chat_message_ok
     [[(''role'', PStr ''user''), (''content'', PStr ''hi'')],
      [(''role'', PStr ''assistant''),
       (''tool_calls'', PList [PDict [(''id'', PStr ''a''), (''type'', PStr ''function''),
          (''function'', PDict [(''name'', PStr ''ls''), (''arguments'', PStr ''{}'')])]]),
       (''content'', PNone)]]"
proof (rule sent_messages_ok)
  show "ir_messages_to_p
     [PDict [(''role'', PStr ''user''),
        (''content'', PList [PDict [(''type'', PStr ''text''), (''text'', PStr ''hi'')]])],
      PDict [(''role'', PStr ''assistant''),
        (''content'', PList [PDict [(''type'', PStr ''tool_call''), (''tool_call_id'', PStr ''a''),
           (''tool_name'', PStr ''ls''), (''tool_input'', PDict [])]])]] =
    Inr ([[(''role'', PStr ''user''), (''content'', PStr ''hi'')],
      [(''role'', PStr ''assistant''),
       (''tool_calls'', PList [PDict [(''id'', PStr ''a''), (''type'', PStr ''function''),
          (''function'', PDict [(''name'', PStr ''ls''), (''arguments'', PStr ''{}'')])]]),
       (''content'', PNone)]], [])"
    by code_simp
qed

end
