(* ===== verification/ChatConversation.thy ===== *)
theory ChatConversation
  imports ChatMessageTrip
begin

text \<open>
  The round trip of a conversation through the Chat format. A conversation is a list of turns: a
  system or a user text, or an assistant answer with its tool calls and their results.
\<close>

record call =
  callid :: string
  callname :: string
  callinput :: pdict
  callresult :: string

datatype turn = System string | User string | Assistant "string option" "call list"

section \<open>The turns in the two formats\<close>

definition ir_call :: "call \<Rightarrow> pdict" where
  "ir_call c = [(''type'', PStr ''tool_call''), (''tool_call_id'', PStr (callid c)),
     (''tool_name'', PStr (callname c)), (''tool_input'', PDict (callinput c)), (''tool_type'', PStr ''function'')]"

definition option_text :: "string option \<Rightarrow> pdict list" where
  "option_text t = (case t of Some s \<Rightarrow> [text_part (PStr s)] | None \<Rightarrow> [])"

fun ir_turn :: "turn \<Rightarrow> pdict list" where
  "ir_turn (System s) = [ir_message ''system'' [text_part (PStr s)]]"
| "ir_turn (User s) = [ir_message ''user'' [text_part (PStr s)]]"
| "ir_turn (Assistant t cs) =
     ir_message ''assistant'' (option_text t @ map ir_call cs) #
     map (\<lambda>c. tool_result_message (PStr (callid c)) (PStr (callresult c))) cs"

definition chat_call :: "call \<Rightarrow> pyval" where
  "chat_call c = PDict [(''id'', PStr (callid c)), (''type'', PStr ''function''),
     (''function'', PDict [(''name'', PStr (callname c)),
        (''arguments'', PStr (json_dumps default_opts (PDict (callinput c))))])]"

definition chat_answer :: "call \<Rightarrow> pdict" where
  "chat_answer c = [(''role'', PStr ''tool''), (''tool_call_id'', PStr (callid c)), (''content'', PStr (callresult c))]"

definition chat_assistant :: "string option \<Rightarrow> call list \<Rightarrow> pdict" where
  "chat_assistant t cs =
     (case t of
        Some s \<Rightarrow> [(''role'', PStr ''assistant''), (''content'', PStr s)] @
          (if cs = [] then [] else [(''tool_calls'', PList (map chat_call cs))])
      | None \<Rightarrow> [(''role'', PStr ''assistant''), (''tool_calls'', PList (map chat_call cs)), (''content'', PNone)])"

fun chat_turn :: "turn \<Rightarrow> pdict list" where
  "chat_turn (System s) = [[(''role'', PStr ''system''), (''content'', PStr s)]]"
| "chat_turn (User s) = [[(''role'', PStr ''user''), (''content'', PStr s)]]"
| "chat_turn (Assistant t cs) = chat_assistant t cs # map chat_answer cs"

fun turn_calls :: "turn \<Rightarrow> call list" where
  "turn_calls (Assistant t cs) = cs"
| "turn_calls _ = []"

text \<open>An assistant turn says or calls something, and the calls have ids and well-formed inputs.\<close>

fun good_turn :: "(string \<Rightarrow> string) \<Rightarrow> turn \<Rightarrow> bool" where
  "good_turn flt (Assistant t cs) \<longleftrightarrow>
     (case t of Some s \<Rightarrow> s \<noteq> [] | None \<Rightarrow> cs \<noteq> []) \<and>
     list_all (\<lambda>c. callid c \<noteq> [] \<and> json_ok flt (PDict (callinput c))) cs"
| "good_turn flt _ \<longleftrightarrow> True"

section \<open>To the Chat format\<close>

lemma tool_call_to_chat: "ir_tool_call_to_p (ir_call c) = Inr (chat_call c)"
  by (simp add: ir_tool_call_to_p_def ir_call_def chat_call_def)

lemma typed_parts [simp]:
  "is_text_part (PDict (text_part t))"
  "\<not> is_text_part (PDict (ir_call c))" "is_tool_call_part (PDict (ir_call c))"
  by (simp_all add: is_text_part_def is_tool_call_part_def is_typed_def text_part_def ir_call_def)

lemma assistant_calls:
  "rfold assistant_part (a, st) (map (\<lambda>c. PDict (ir_call c)) cs) =
     Inr (a\<lparr>tool_calls := tool_calls a @ map chat_call cs\<rparr>, st)"
  by (induction cs arbitrary: a) (simp_all add: assistant_part_def tool_call_to_chat)

lemma join_text: "py_join sep [PStr s] = Inr s"
  by (simp add: py_join_def join_with_def)

lemma assistant_to_chat:
  assumes "good_turn flt (Assistant t cs)"
  shows "ir_assistant_to_p (map PDict (option_text t @ map ir_call cs)) st = Inr (chat_assistant t cs, st)"
proof (cases t)
  case None
  with assms show ?thesis
    by (simp add: ir_assistant_to_p_def option_text_def comp_def assistant_calls set_reasoning_def set_texts_def
        set_calls_def chat_assistant_def Let_def)
next
  case (Some s)
  with assms show ?thesis
    by (simp add: ir_assistant_to_p_def option_text_def comp_def assistant_calls set_reasoning_def set_texts_def
        set_calls_def chat_assistant_def Let_def assistant_part_def text_part_def is_text_part_def is_typed_def join_text)
qed

lemma answer_to_chat:
  "ir_message_to_p (tool_result_message (PStr (callid c)) (PStr (callresult c))) st = Inr ([chat_answer c], st)"
  by (simp add: ir_message_to_p_def tool_result_message_def ir_message_def ir_tool_messages_to_p_def
      is_tool_result_part_def is_typed_def convert_tool_result_with_packing_def has_multimodal_content_def
      ir_tool_result_to_p_def chat_answer_def)

lemma messages_are_messages [simp]:
  "is_message (PDict (ir_message r ps))" "is_message (PDict (tool_result_message i r'))"
  by (simp_all add: is_message_def ir_message_def tool_result_message_def)

lemma answers_to_chat:
  "rfold ir_item_to_p (ms, st)
     (map (\<lambda>c. PDict (tool_result_message (PStr (callid c)) (PStr (callresult c)))) cs) =
   Inr (ms @ map chat_answer cs, st)"
  by (induction cs arbitrary: ms) (simp_all add: ir_item_to_p_def answer_to_chat)

lemma turn_to_chat:
  assumes "good_turn flt t"
  shows "rfold ir_item_to_p (ms, st) (map PDict (ir_turn t)) = Inr (ms @ chat_turn t, st)"
proof (cases t)
  case (Assistant tx cs)
  have "ir_message_to_p (ir_message ''assistant'' (option_text tx @ map ir_call cs)) st =
      Inr ([chat_assistant tx cs], st)"
    using assistant_to_chat [of flt tx cs st] assms Assistant
    by (simp add: ir_message_to_p_def ir_message_def)
  with Assistant show ?thesis
    using answers_to_chat by (simp add: ir_item_to_p_def comp_def)
qed (simp_all add: ir_item_to_p_def is_message_def ir_message_to_p_def ir_message_def ir_system_to_p_def ir_user_to_p_def
      user_part_def is_text_part_def is_typed_def text_part_def ir_text_to_p_def join_text)

lemma turns_to_chat:
  "list_all (good_turn flt) ts \<Longrightarrow>
   rfold ir_item_to_p (ms, st) (map PDict (concat (map ir_turn ts))) = Inr (ms @ concat (map chat_turn ts), st)"
proof (induction ts arbitrary: ms)
  case (Cons t ts)
  then show ?case using turn_to_chat [of flt t ms st] by (simp add: rfold_append)
qed simp

section \<open>The order is already right\<close>

lemma role_of_chat [simp]:
  "is_tool_msg (chat_answer c)" "\<not> is_tool_msg (chat_assistant t cs)"
  by (simp_all add: is_tool_msg_def chat_answer_def chat_assistant_def split: option.splits)

lemma tool_id_answer [simp]: "tool_id (chat_answer c) = PStr (callid c)"
  by (simp add: tool_id_def chat_answer_def)

definition chat_others :: "turn \<Rightarrow> pdict" where
  "chat_others t = hd (chat_turn t)"

lemma chat_turn_split: "chat_turn t = chat_others t # map chat_answer (turn_calls t)"
  by (cases t) (simp_all add: chat_others_def)

lemma others_not_tool [simp]: "\<not> is_tool_msg (chat_others t)"
  by (cases t) (simp_all add: chat_others_def is_tool_msg_def [of "_ # _"])

lemma filter_tools: "filter is_tool_msg (concat (map chat_turn ts)) = map chat_answer (concat (map turn_calls ts))"
  by (induction ts) (simp_all add: chat_turn_split)

lemma filter_others: "filter (\<lambda>m. \<not> is_tool_msg m) (concat (map chat_turn ts)) = map chat_others ts"
proof -
  have "filter (\<lambda>m. \<not> is_tool_msg m) (map chat_answer cs) = []" for cs
    by (induction cs) simp_all
  then show ?thesis by (induction ts) (simp_all add: chat_turn_split)
qed

lemma chat_call_ids:
  "list_all (\<lambda>c. callid c \<noteq> []) cs \<Longrightarrow>
   filter py_truthy (map (\<lambda>tc. case as_dict tc of Some d \<Rightarrow> dget d ''id'' | None \<Rightarrow> PNone) (map chat_call cs)) =
   map (\<lambda>c. PStr (callid c)) cs"
  by (induction cs) (simp_all add: chat_call_def)

lemma placed_ids_turn:
  assumes "good_turn flt t"
  shows "placed_ids (chat_others t) = map (\<lambda>c. PStr (callid c)) (turn_calls t)"
proof (cases t)
  case (Assistant tx cs)
  have "list_all (\<lambda>c. callid c \<noteq> []) cs" using assms Assistant by (simp add: list_all_iff)
  note ids = chat_call_ids [OF this]
  from Assistant ids show ?thesis
    by (auto simp: placed_ids_def chat_others_def chat_assistant_def split: option.splits)
qed (simp_all add: placed_ids_def chat_others_def)

lemma group_total:
  "list_all (\<lambda>tm. is_str (tool_id (snd tm))) tms \<Longrightarrow> \<exists>g'. rfold group_step g tms = Inr g'"
proof (induction tms arbitrary: g)
  case (Cons tm tms)
  then obtain s where "tool_id (snd tm) = PStr s" by (auto simp: is_str_iff)
  then obtain g1 where "group_step g tm = Inr g1"
    by (cases "s = []") (simp_all add: group_step_def tool_id_def Let_def)
  with Cons show ?case by simp
qed simp

lemma place_calls_total: "\<exists>acc'. rfold (place_call g) acc (map chat_call cs) = Inr acc'"
  by (induction cs arbitrary: acc) (auto simp: place_call_def chat_call_def split: option.splits)

lemma place_total: "\<exists>acc'. place_message g acc (chat_others t) = Inr acc'"
proof (cases t)
  case (Assistant tx cs)
  then show ?thesis
    using place_calls_total
    by (simp add: place_message_def chat_others_def chat_assistant_def Let_def split: option.splits)
qed (simp_all add: place_message_def chat_others_def)

lemma places_total: "\<exists>acc'. rfold (place_message g) acc (map chat_others ts) = Inr acc'"
proof (induction ts arbitrary: acc)
  case (Cons t ts)
  obtain acc1 where "place_message g acc (chat_others t) = Inr acc1" using place_total by blast
  with Cons show ?case by simp
qed simp

lemma reorder_total:
  "\<exists>out w. reorder_tool_messages (concat (map chat_turn ts)) ws = Inr (out, w)"
proof -
  let ?tms = "enumerate 0 (map chat_answer (concat (map turn_calls ts)))"
  have "list_all (\<lambda>tm. is_str (tool_id (snd tm))) ?tms"
    by (auto simp: list_all_iff set_zip enumerate_eq_zip)
  then obtain g where "rfold group_step [] ?tms = Inr g" using group_total by blast
  moreover obtain acc where "rfold (place_message g) ([], []) (map chat_others ts) = Inr acc"
    using places_total by blast
  ultimately show ?thesis
    by (cases acc) (simp add: reorder_tool_messages_def filter_tools filter_others Let_def)
qed

lemma answers_chat: "callid c \<noteq> [] \<Longrightarrow> answers_call (PStr i) (chat_answer c) \<longleftrightarrow> callid c = i"
  by (auto simp: answers_call_def)

lemma filter_one:
  assumes "distinct (map callid cs)" "c \<in> set cs" "list_all (\<lambda>c. callid c \<noteq> []) cs"
  shows "filter (answers_call (PStr (callid c))) (map chat_answer cs) = [chat_answer c]"
  using assms
proof (induction cs)
  case (Cons d cs)
  show ?case
  proof (cases "c = d")
    case True
    have ne: "\<forall>c' \<in> set cs. callid c' \<noteq> callid d" using Cons.prems(1) by (auto simp: image_iff)
    have "filter (answers_call (PStr (callid d))) (map chat_answer cs) = []"
      using Cons.prems ne by (simp add: filter_empty_conv answers_chat list_all_iff)
    with True Cons.prems show ?thesis by (simp add: answers_chat)
  next
    case False
    then have "callid d \<noteq> callid c" "c \<in> set cs" using Cons.prems by auto
    with Cons show ?thesis by (simp add: answers_chat)
  qed
qed simp

lemma turn_block:
  assumes d: "distinct (map callid cs)" and s: "set (turn_calls t) \<subseteq> set cs"
    and n: "list_all (\<lambda>c. callid c \<noteq> []) cs" and g: "good_turn flt t"
  shows "call_block (map chat_answer cs) (chat_others t) = chat_turn t"
proof -
  have "concat (map (\<lambda>c. filter (answers_call (PStr (callid c))) (map chat_answer cs)) ds) = map chat_answer ds"
    if "set ds \<subseteq> set cs" for ds
    using that filter_one [OF d _ n] by (induction ds) simp_all
  from this [OF s] show ?thesis
    by (simp add: call_block_def placed_ids_turn [OF g] chat_turn_split comp_def)
qed

text \<open>A value equals itself when no dict in it has a key twice.\<close>

fun proper :: "pyval \<Rightarrow> bool" where
  "proper (PList xs) \<longleftrightarrow> list_all proper xs"
| "proper (PDict d) \<longleftrightarrow> distinct (dkeys d) \<and> list_all (\<lambda>kv. proper (snd kv)) d"
| "proper _ \<longleftrightarrow> True"

lemma py_eq_list: "list_all (\<lambda>x. py_eq x x) xs \<Longrightarrow> py_eq (PList xs) (PList xs)"
  by (induction xs) simp_all

lemma py_eq_dict:
  "distinct (dkeys d) \<Longrightarrow> list_all (\<lambda>kv. py_eq (snd kv) (snd kv)) d \<Longrightarrow> py_eq (PDict d) (PDict d)"
proof (induction d)
  case (Cons kv d)
  then have "\<not> dhas d (fst kv)" by (auto simp: dhas_def list_ex_iff)
  with Cons show ?case by (cases kv) (simp add: ddel_absent)
qed simp

lemma py_eq_refl: "proper v \<Longrightarrow> py_eq v v"
proof (induction v)
  case (PList xs)
  then show ?case by (intro py_eq_list) (simp add: list_all_iff)
next
  case (PDict d)
  then have "list_all (\<lambda>kv. py_eq (snd kv) (snd kv)) d" by (fastforce simp: list_all_iff)
  with PDict.prems show ?case by (intro py_eq_dict) simp_all
qed simp_all

lemma proper_turn: "list_all (\<lambda>m. proper (PDict m)) (chat_turn t)"
proof (cases t)
  case (Assistant tx cs)
  have "list_all proper (map chat_call cs)" "list_all (\<lambda>m. proper (PDict m)) (map chat_answer cs)"
    by (induction cs) (simp_all add: chat_call_def chat_answer_def)
  with Assistant show ?thesis by (simp add: chat_assistant_def split: option.splits)
qed simp_all

definition good_conversation :: "(string \<Rightarrow> string) \<Rightarrow> turn list \<Rightarrow> bool" where
  "good_conversation flt ts \<longleftrightarrow>
     list_all (good_turn flt) ts \<and> distinct (map callid (concat (map turn_calls ts)))"

lemma call_ids_nonempty:
  "list_all (good_turn flt) ts \<Longrightarrow> list_all (\<lambda>c. callid c \<noteq> []) (concat (map turn_calls ts))"
proof (induction ts)
  case (Cons t ts)
  then show ?case by (cases t) (auto simp: list_all_iff)
qed simp

lemma messages_eq_turns: "messages_eq (concat (map chat_turn ts)) (concat (map chat_turn ts))"
  unfolding messages_eq_def
proof (rule py_eq_refl)
  have "list_all (\<lambda>m. proper (PDict m)) (concat (map chat_turn ts))"
    using proper_turn by (induction ts) simp_all
  then show "proper (PList (map PDict (concat (map chat_turn ts))))"
    by (simp add: list_all_iff del: proper.simps(2))
qed

lemma reorder_turns:
  assumes "good_conversation flt ts"
  shows "reorder_tool_messages (concat (map chat_turn ts)) ws = Inr (concat (map chat_turn ts), ws)"
proof -
  define cs where "cs = concat (map turn_calls ts)"
  let ?ms = "concat (map chat_turn ts)" and ?tools = "map chat_answer cs"
  have d: "distinct (map callid cs)" and n: "list_all (\<lambda>c. callid c \<noteq> []) cs"
    and g: "list_all (good_turn flt) ts"
    using assms call_ids_nonempty [of flt ts] by (simp_all add: good_conversation_def cs_def)
  obtain out w where r: "reorder_tool_messages ?ms ws = Inr (out, w)" using reorder_total by blast
  have tools: "filter is_tool_msg ?ms = ?tools" by (simp add: filter_tools cs_def)
  have "set us \<subseteq> set ts \<Longrightarrow>
      concat (map (call_block ?tools) (map chat_others us)) = concat (map chat_turn us)" for us
  proof (induction us)
    case (Cons t us)
    then have "call_block ?tools (chat_others t) = chat_turn t"
      using g by (intro turn_block [OF d _ n]) (auto simp: cs_def list_all_iff)
    with Cons show ?case by simp
  qed simp
  moreover have "filter (unasked (map chat_others ts)) ?tools = []"
  proof -
    have "\<not> unasked (map chat_others ts) (chat_answer c)" if c: "c \<in> set cs" for c
    proof -
      obtain t where t: "t \<in> set ts" "c \<in> set (turn_calls t)" using c by (auto simp: cs_def)
      then have "PStr (callid c) \<in> set (placed_ids (chat_others t))"
        using g by (auto simp: list_all_iff placed_ids_turn)
      moreover have "answers_call (PStr (callid c)) (chat_answer c)"
        using n c by (simp add: answers_chat list_all_iff)
      ultimately show ?thesis using t(1) by (auto simp: unasked_def list_all_iff)
    qed
    then show ?thesis by (auto simp: filter_empty_conv)
  qed
  ultimately have "out = ?ms" and "?tools \<noteq> [] \<Longrightarrow> w = ws"
    using reorder_closed [OF r] messages_eq_turns by (simp_all add: tools filter_others)
  moreover have "?tools = [] \<Longrightarrow> w = ws"
    using r unfolding reorder_tool_messages_def tools by simp
  ultimately show ?thesis using r by blast
qed

section \<open>Back to the IR\<close>

lemma call_to_ir:
  "json_ok flt (PDict (callinput c)) \<Longrightarrow> p_tool_call_to_ir flt (chat_call c) = Inr (ir_call c)"
  using arguments_round_trip [of flt "callinput c"]
  by (simp add: p_tool_call_to_ir_def chat_call_def ir_call_def del: json_ok.simps)

lemma calls_to_ir:
  "list_all (\<lambda>c. json_ok flt (PDict (callinput c))) cs \<Longrightarrow>
   rmap (p_tool_call_to_ir flt) (map chat_call cs) = Inr (map ir_call cs)"
  by (induction cs) (simp_all add: call_to_ir del: json_ok.simps)

lemma assistant_to_ir:
  assumes "good_turn flt (Assistant t cs)"
  shows "p_message_to_ir flt [] (PDict (chat_assistant t cs)) =
    Inr (Some (ir_message ''assistant'' (option_text t @ map ir_call cs)))"
proof -
  have "list_all (\<lambda>c. json_ok flt (PDict (callinput c))) cs"
    using assms by (simp add: list_all_iff)
  note calls = calls_to_ir [OF this]
  show ?thesis
  proof (cases t)
    case None
    with assms calls show ?thesis
      by (simp add: p_message_to_ir_def p_assistant_to_ir_def chat_assistant_def reasoning_to_ir_def each_of_def
          option_text_def Let_def)
  next
    case (Some s)
    with assms calls show ?thesis
      by (simp add: p_message_to_ir_def p_assistant_to_ir_def chat_assistant_def reasoning_to_ir_def each_of_def
          option_text_def Let_def)
  qed
qed

lemma answer_to_ir:
  "p_message_to_ir flt [] (PDict (chat_answer c)) =
     Inr (Some (tool_result_message (PStr (callid c)) (PStr (callresult c))))"
  by (simp add: p_message_to_ir_def p_tool_to_ir_def chat_answer_def)

lemma turn_to_ir:
  assumes "good_turn flt t"
  shows "rmap (p_message_to_ir flt []) (map PDict (chat_turn t)) = Inr (map Some (ir_turn t))"
proof (cases t)
  case (Assistant tx cs)
  have "rmap (p_message_to_ir flt []) (map PDict (map chat_answer cs)) =
      Inr (map Some (map (\<lambda>c. tool_result_message (PStr (callid c)) (PStr (callresult c))) cs))"
    by (induction cs) (simp_all add: answer_to_ir)
  with Assistant assms assistant_to_ir [of flt tx cs] show ?thesis by (simp del: good_turn.simps)
qed (simp_all add: p_message_to_ir_def p_system_to_ir_def p_user_to_ir_def)

lemma turns_to_ir:
  "list_all (good_turn flt) ts \<Longrightarrow>
   rmap (p_message_to_ir flt []) (map PDict (concat (map chat_turn ts))) =
     Inr (map Some (concat (map ir_turn ts)))"
proof (induction ts)
  case (Cons t ts)
  then show ?case using turn_to_ir [of flt t] by (simp add: rmap_append)
qed simp

lemma turns_not_synthetic: "list_all not_synthetic (concat (map chat_turn ts))"
proof -
  have "list_all not_synthetic (chat_turn t)" for t
    by (cases t) (auto simp: not_synthetic_def is_synthetic_tool_content_msg_def chat_assistant_def
        chat_answer_def list_all_iff split: option.splits)
  then show ?thesis by (induction ts) simp_all
qed

lemma conversation_to_chat:
  assumes "good_conversation flt ts"
  shows "ir_messages_to_p (map PDict (concat (map ir_turn ts))) = Inr (concat (map chat_turn ts), [])"
proof -
  have "list_all (good_turn flt) ts" using assms by (simp add: good_conversation_def)
  from turns_to_chat [OF this] reorder_turns [OF assms] show ?thesis
    by (simp add: ir_messages_to_p_def del: map_concat)
qed

text \<open>
  C1. A conversation survives the Chat format: converting its IR messages to Chat messages raises
  no error and no warning, and converting those back gives the very same IR messages, when each
  assistant turn says or calls something, the call ids of the conversation are distinct non-empty
  texts, and the tool inputs are JSON values.
\<close>

theorem chat_conversation_round_trip:
  assumes "good_conversation flt ts"
  shows "\<exists>ms. ir_messages_to_p (map PDict (concat (map ir_turn ts))) = Inr (ms, []) \<and>
    p_messages_to_ir flt (map PDict ms) = Inr (concat (map ir_turn ts))"
proof (intro exI conjI)
  have g: "list_all (good_turn flt) ts" using assms by (simp add: good_conversation_def)
  show "ir_messages_to_p (map PDict (concat (map ir_turn ts))) = Inr (concat (map chat_turn ts), [])"
    by (rule conversation_to_chat [OF assms])
  show "p_messages_to_ir flt (map PDict (concat (map chat_turn ts))) = Inr (concat (map ir_turn ts))"
    using unpack_clean [OF turns_not_synthetic, of "[]" "[]"] turns_to_ir [OF g]
    by (simp add: p_messages_to_ir_def unpack_tool_content_def comp_def del: map_concat)
qed

theorem chat_conversation_round_trip_witness:
  "\<exists>ms. ir_messages_to_p (map PDict (concat (map ir_turn
       [User ''hi'', Assistant None [\<lparr>callid = ''a'', callname = ''ls'', callinput = [], callresult = ''ok''\<rparr>]]))) =
       Inr (ms, []) \<and>
     p_messages_to_ir id (map PDict ms) = Inr (concat (map ir_turn
       [User ''hi'', Assistant None [\<lparr>callid = ''a'', callname = ''ls'', callinput = [], callresult = ''ok''\<rparr>]]))"
  by (rule chat_conversation_round_trip) (simp add: good_conversation_def)

end
