(* ===== verification/ToolArgLog.thy ===== *)
theory ToolArgLog
  imports Prelude
begin

text \<open>
  The contract between a stream converter and the context that accumulates the arguments of tool
  calls: registering a call empties its text, appending extends it, and neither touches the text
  of another call. Under it the table always holds what replaying the log of the calls gives.
\<close>

datatype 'i arg_op = Register 'i | Append 'i string

text \<open>The text of the key \<open>k\<close> after an operation; \<open>key\<close> maps an id to the key it is stored under.\<close>

fun replay :: "('i \<Rightarrow> 'k) \<Rightarrow> 'k \<Rightarrow> string \<Rightarrow> 'i arg_op \<Rightarrow> string" where
  "replay key k txt (Register i) = (if key i = k then [] else txt)"
| "replay key k txt (Append i d) = (if key i = k then txt @ d else txt)"

locale tool_arg_log =
  fixes key :: "'i \<Rightarrow> 'k" and args_of :: "'s \<Rightarrow> 'k \<Rightarrow> string"
    and register :: "'i \<Rightarrow> 'a \<Rightarrow> 's \<Rightarrow> 's res" and append :: "'i \<Rightarrow> string \<Rightarrow> 's \<Rightarrow> 's res"
  assumes register_text: "register i a s = Inr s' \<Longrightarrow> args_of s' k = (if key i = k then [] else args_of s k)"
    and append_text: "append i d s = Inr s' \<Longrightarrow> args_of s' k = (if key i = k then args_of s k @ d else args_of s k)"
begin

text \<open>A state transition that a list of operations explains.\<close>

definition explains :: "'i arg_op list \<Rightarrow> 's \<Rightarrow> 's \<Rightarrow> bool" where
  "explains ops s s' \<longleftrightarrow> (\<forall>k. args_of s' k = foldl (replay key k) (args_of s k) ops)"

lemma explains_Nil: "(\<And>k. args_of s' k = args_of s k) \<Longrightarrow> explains [] s s'"
  by (simp add: explains_def)

lemma explains_register: "register i a s = Inr s' \<Longrightarrow> explains [Register i] s s'"
  by (simp add: explains_def register_text)

lemma explains_append: "append i d s = Inr s' \<Longrightarrow> explains [Append i d] s s'"
  by (simp add: explains_def append_text)

lemma explains_trans: "explains ops s s' \<Longrightarrow> explains ops' s' s'' \<Longrightarrow> explains (ops @ ops') s s''"
  by (simp add: explains_def)

end

end
