(* ===== verification/ChatStreamLife.thy ===== *)
theory ChatStreamLife
  imports ChatStream ToolArgLog
begin

text \<open>
  What a decoded Chat stream can look like, whatever the provider sends. Every handler of the
  decoder is a sequence of the elementary steps of the relation \<open>dec_step\<close> on contexts and event
  logs, so that an invariant is proved once for each step.
\<close>

section \<open>Elementary steps\<close>

abbreviation event_type :: "pdict \<Rightarrow> pyval" where
  "event_type e \<equiv> dget e ''type''"

definition quiet_types :: "string list" where
  "quiet_types = [''text_delta'', ''reasoning_delta'', ''usage'', ''content_block_end'']"

inductive dec_step :: "stream_context \<times> pdict list \<Rightarrow> stream_context \<times> pdict list \<Rightarrow> bool" where
  quiet: "event_type e \<in> PStr ` set quiet_types \<Longrightarrow> dec_step (c, evs) (c, evs @ [e])"
| begin_stream: "\<not> started c \<Longrightarrow>
    dec_step (c, evs) (mark_started (c\<lparr>response_id := rid, model := mdl, created := crt'\<rparr>),
      evs @ [stream_start_event rid mdl crt])"
| tool_start: "register_tool_call i name t c = Inr c' \<Longrightarrow>
    dec_step (c, evs) (c', evs @ [tool_call_start_event i name ch ix])"
| tool_delta: "append_tool_call_args i (PStr d) c = Inr c' \<Longrightarrow> py_truthy i \<Longrightarrow>
    dec_step (c, evs) (c', evs @ [tool_call_delta_event i (PStr d) ch ix])"
| lost_delta: "dec_step (c, evs) (c, evs @ [tool_call_delta_event (PStr '''') d ch ix])"
| finish: "\<not> ended c \<Longrightarrow> mark_choice_finished ch c = Inr (True, c') \<Longrightarrow>
    dec_step (c, evs) (c', evs @ [finish_event r ch])"
| end_stream: "\<not> ended c \<Longrightarrow> dec_step (c, evs) (mark_ended c, evs @ [stream_end_event])"

abbreviation dec_steps :: "stream_context \<times> pdict list \<Rightarrow> stream_context \<times> pdict list \<Rightarrow> bool" where
  "dec_steps \<equiv> dec_step\<^sup>*\<^sup>*"

text \<open>A decoder state with a context, and the steps between two of them.\<close>

definition leads :: "decoder \<Rightarrow> decoder \<Rightarrow> bool" where
  "leads st st' \<longleftrightarrow> (\<forall>c. fst st = Some c \<longrightarrow> (\<exists>c'. fst st' = Some c' \<and> dec_steps (c, snd st) (c', snd st')))"

lemma leads_refl [simp]: "leads st st"
  by (simp add: leads_def)

lemma leads_trans:
  assumes "leads st st'" "leads st' st''"
  shows "leads st st''"
  unfolding leads_def
proof (intro allI impI)
  fix c assume "fst st = Some c"
  then obtain c' where c': "fst st' = Some c'" "dec_steps (c, snd st) (c', snd st')"
    using assms(1) unfolding leads_def by blast
  then obtain c'' where "fst st'' = Some c''" "dec_steps (c', snd st') (c'', snd st'')"
    using assms(2) unfolding leads_def by blast
  with c'(2) show "\<exists>c'. fst st'' = Some c' \<and> dec_steps (c, snd st) (c', snd st'')"
    by (blast intro: rtranclp_trans)
qed

lemma leads_step: "dec_step (c, evs) (c', evs') \<Longrightarrow> leads (Some c, evs) (Some c', evs')"
  by (auto simp: leads_def)

lemma leads_no_context [simp]: "leads (None, evs) st"
  by (simp add: leads_def)

lemma leads_quiet: "event_type e \<in> PStr ` set quiet_types \<Longrightarrow> leads st (emit e st)"
  by (cases st; cases "fst st") (auto simp: emit_def intro: leads_step dec_step.quiet)

lemma tool_start_leads:
  "tool_start_step f i ix ch st = Inr st' \<Longrightarrow> leads st st'"
  by (cases st; cases "fst st")
    (auto simp: tool_start_step_def on_context_def emit_def split: if_splits
      elim!: rbind_InrE intro: leads_step dec_step.tool_start)

lemma append_delta_str:
  assumes "append_tool_call_args i d c = Inr c'" obtains s where "d = PStr s"
  using assms by (cases "as_str d") (auto simp: append_tool_call_args_def Let_def elim!: rbind_InrE)

lemma tool_delta_leads:
  assumes "tool_delta_step f i ix ch st = Inr st'" shows "leads st st'"
proof (cases st)
  case (Pair co evs)
  show ?thesis
  proof (cases co)
    case (Some c)
    obtain args where a: "py_get f ''arguments'' PNone = Inr args"
      using assms by (auto simp: tool_delta_step_def elim!: rbind_InrE)
    consider "st' = st" | "py_truthy args" "\<not> py_truthy i" "st' = emit (tool_call_delta_event (PStr '''') args ch ix) st"
      | c' where "py_truthy args" "py_truthy i" "append_tool_call_args i args c = Inr c'"
        "st' = (Some c', evs @ [tool_call_delta_event i args ch ix])"
      using assms a Pair Some
      by (auto simp: tool_delta_step_def on_context_def emit_def Let_def split: if_splits elim!: rbind_InrE)
    then show ?thesis
    proof cases
      case 2
      with Pair Some show ?thesis by (auto simp: emit_def intro: leads_step dec_step.lost_delta)
    next
      case 3
      then obtain s where "args = PStr s" by (auto elim: append_delta_str)
      with 3 Pair Some show ?thesis by (auto intro: leads_step dec_step.tool_delta)
    qed simp
  qed (simp add: Pair)
qed

lemma rfold_leads:
  assumes "rfold f st xs = Inr st'" "\<And>st x st'. f st x = Inr st' \<Longrightarrow> leads st st'"
  shows "leads st st'"
  using assms(1)
  by (induction xs arbitrary: st) (auto elim!: rbind_InrE dest!: assms(2) intro: leads_trans)

lemma handle_tool_call_leads: "handle_tool_call ch st tc = Inr st' \<Longrightarrow> leads st st'"
  by (auto simp: handle_tool_call_def elim!: rbind_InrE
      dest!: tool_start_leads tool_delta_leads intro: leads_trans)

lemma handle_tool_calls_leads: "handle_tool_calls_from_p tcs ch st = Inr st' \<Longrightarrow> leads st st'"
  by (auto simp: handle_tool_calls_from_p_def elim!: rbind_InrE intro: rfold_leads handle_tool_call_leads)

lemma finish_leads:
  assumes "handle_finish_reason_from_p fr ch st = Inr st'" shows "leads st st'"
proof (cases "fst st")
  case (Some c)
  obtain evs where st: "st = (Some c, evs)" using Some by (cases st) simp
  show ?thesis
  proof (cases "ended c")
    case False
    obtain first c' where m: "mark_choice_finished ch c = Inr (first, c')"
      using assms st False by (auto simp: handle_finish_reason_from_p_def elim!: rbind_InrE)
    show ?thesis
    proof (cases first)
      case True
      have idx: "current_block_index c' = current_block_index c"
        using m by (auto simp: mark_choice_finished_def split: if_splits elim!: rbind_InrE)
      let ?b = "if current_block_index c \<ge> 0 then [block_end_event (current_block_index c)] else []"
      obtain r where "st' = (Some c', evs @ ?b @ [finish_event r ch])"
        using assms st False m True idx
        by (auto simp: handle_finish_reason_from_p_def emit_finish_def emit_def Let_def elim!: rbind_InrE)
      moreover have "dec_steps (c, evs) (c, evs @ ?b)"
        by (auto simp: block_end_event_def quiet_types_def intro!: r_into_rtranclp dec_step.quiet)
      moreover have "dec_step (c, evs @ ?b) (c', (evs @ ?b) @ [finish_event r ch])"
        using m True by (intro dec_step.finish False) simp
      ultimately show ?thesis using st by (auto simp: leads_def intro: rtranclp.rtrancl_into_rtrancl)
    next
      case False
      then have "c' = c" using m by (auto simp: mark_choice_finished_def split: if_splits elim!: rbind_InrE)
      then show ?thesis using assms st \<open>\<not> ended c\<close> m False by (simp add: handle_finish_reason_from_p_def)
    qed
  qed (use assms st in \<open>simp add: handle_finish_reason_from_p_def\<close>)
qed (cases st, simp)

lemma handle_choice_leads:
  assumes "handle_choice_from_p st p = Inr st'" shows "leads st st'"
proof -
  obtain ch where p: "p = PDict ch" using assms by (cases "as_dict p") (auto simp: handle_choice_from_p_def)
  let ?i = "dget_or ch ''index'' (PInt 0)"
  obtain content reasoning tcs st3 where
    st3: "(if py_truthy tcs then handle_tool_calls_from_p tcs ?i
        (if reasoning \<noteq> PNone then emit (reasoning_delta_event reasoning ?i)
           (if py_truthy content then emit (text_delta_event content ?i) st else st)
         else (if py_truthy content then emit (text_delta_event content ?i) st else st))
      else Inr (if reasoning \<noteq> PNone then emit (reasoning_delta_event reasoning ?i)
           (if py_truthy content then emit (text_delta_event content ?i) st else st)
         else (if py_truthy content then emit (text_delta_event content ?i) st else st))) = Inr st3"
    and fin: "(if py_truthy (dget ch ''finish_reason'') then
        handle_finish_reason_from_p (dget ch ''finish_reason'') ?i st3 else Inr st3) = Inr st'"
    using assms p by (auto simp: handle_choice_from_p_def Let_def elim!: rbind_InrE)
  have 1: "leads st (if py_truthy content then emit (text_delta_event content ?i) st else st)" (is "leads st ?st1")
    by (auto simp: text_delta_event_def quiet_types_def intro!: leads_quiet)
  have 2: "leads ?st1 (if reasoning \<noteq> PNone then emit (reasoning_delta_event reasoning ?i) ?st1 else ?st1)"
    by (auto simp: reasoning_delta_event_def quiet_types_def intro!: leads_quiet)
  have 3: "leads (if reasoning \<noteq> PNone then emit (reasoning_delta_event reasoning ?i) ?st1 else ?st1) st3"
    using st3 by (cases "py_truthy tcs") (simp_all add: handle_tool_calls_leads)
  have 4: "leads st3 st'" using fin by (auto split: if_splits intro: finish_leads)
  show ?thesis using 1 2 3 4 by (blast intro: leads_trans)
qed

lemma stream_end_leads:
  assumes "handle_stream_end_from_p choices usage st = Inr st'" shows "leads st st'"
proof (cases "fst st")
  case (Some c)
  obtain evs where st: "st = (Some c, evs)" using Some by (cases st) simp
  define fin where "fin \<longleftrightarrow> started c \<and> choices = PList [] \<and> \<not> ended c"
  define st1 where "st1 = (if fin then emit stream_end_event (Some (mark_ended c), evs) else st)"
  define c1 where "c1 = (if fin then mark_ended c else c)"
  have l1: "leads st st1"
    by (auto simp: st1_def fin_def st emit_def intro: leads_step dec_step.end_stream)
  have s1: "st1 = (Some c1, snd st1)" by (simp add: st1_def c1_def emit_def st)
  have "(if \<not> ended c1 \<and> py_truthy usage then
      rbind (py_iter choices) (\<lambda>chs. rbind (any_finished c1 chs) (\<lambda>b.
        Inr (if b then emit stream_end_event (Some (mark_ended c1), snd st1) else st1)))
      else Inr st1) = Inr st'"
    using assms unfolding handle_stream_end_from_p_def st fst_conv snd_conv option.case Let_def as_list_Some
      c1_def st1_def fin_def
    by (simp cong: if_cong)
  then consider "st' = st1" | "\<not> ended c1" "st' = emit stream_end_event (Some (mark_ended c1), snd st1)"
    by (auto split: if_splits elim!: rbind_InrE)
  then have "leads st1 st'"
  proof cases
    case 2
    then have "leads (Some c1, snd st1) st'" by (auto simp: emit_def intro: leads_step dec_step.end_stream)
    then show ?thesis using s1 by simp
  qed simp
  with l1 show ?thesis by (rule leads_trans)
qed (cases st, simp)

lemma stream_start_leads:
  assumes "\<not> started c" "handle_stream_start_from_p chunk c evs = (c', evs')"
  shows "dec_steps (c, evs) (c', evs')"
proof (cases "py_truthy (dget chunk ''id'') \<and> py_truthy (dget chunk ''model'')")
  case True
  let ?crt = "dget chunk ''created''"
  have "(c', evs') = (mark_started (c\<lparr>response_id := dget chunk ''id'', model := dget chunk ''model'',
      created := (if ?crt \<noteq> PNone then ?crt else created c)\<rparr>),
      evs @ [stream_start_event (dget chunk ''id'') (dget chunk ''model'') ?crt])"
    using assms(2) True by (simp add: handle_stream_start_from_p_def Let_def)
  then show ?thesis using dec_step.begin_stream [OF assms(1)] by (simp only: r_into_rtranclp)
next
  case False
  then show ?thesis using assms(2) by (auto simp: handle_stream_start_from_p_def Let_def split: if_splits)
qed

text \<open>The whole chunk.\<close>

lemma chunk_steps:
  assumes "stream_response_from_provider chunk (Some c) = Inr (co, es)"
  obtains c' where "co = Some c'" "dec_steps (c, []) (c', es)"
proof -
  obtain c0 evs0 where st0: "(if started c then (Some c, []) else
      (case handle_stream_start_from_p chunk c [] of (c', evs) \<Rightarrow> (Some c', evs))) = (Some c0, evs0)"
    by (cases "started c"; cases "handle_stream_start_from_p chunk c []") auto
  have 0: "dec_steps (c, []) (c0, evs0)"
    using st0 stream_start_leads [of c chunk "[]"]
    by (cases "started c"; cases "handle_stream_start_from_p chunk c []") auto
  let ?us = "dget chunk ''usage''" and ?chs = "dget_or chunk ''choices'' (PList [])"
  obtain chs st1 st2 where r: "rfold handle_choice_from_p (Some c0, evs0) chs = Inr st1"
    "(if py_truthy ?us then rbind (build_ir_usage ?us) (\<lambda>u. Inr (emit (usage_event u) st1)) else Inr st1) = Inr st2"
    "handle_stream_end_from_p ?chs ?us st2 = Inr (co, es)"
    using assms st0 by (auto simp: stream_response_from_provider_def Let_def elim!: rbind_InrE)
  have "leads (Some c0, evs0) st1" by (rule rfold_leads [OF r(1)]) (rule handle_choice_leads)
  moreover have "leads st1 st2"
    using r(2) by (auto simp: usage_event_def quiet_types_def split: if_splits elim!: rbind_InrE intro!: leads_quiet)
  moreover have "leads st2 (co, es)" by (rule stream_end_leads [OF r(3)])
  ultimately have "leads (Some c0, evs0) (co, es)" by (blast intro: leads_trans)
  then obtain c' where "co = Some c'" "dec_steps (c0, evs0) (c', es)" by (auto simp: leads_def)
  with 0 that show thesis by (blast intro: rtranclp_trans)
qed

section \<open>Runs over chunks\<close>

text \<open>The events of a stream of chunks that share one context.\<close>

definition decode_chunk :: "stream_context \<times> pdict list \<Rightarrow> pdict \<Rightarrow> (stream_context \<times> pdict list) res" where
  "decode_chunk st chunk =
     rbind (stream_response_from_provider chunk (Some (fst st))) (\<lambda>(co, es).
       case co of Some c' \<Rightarrow> Inr (c', snd st @ es) | None \<Rightarrow> Inl TypeError)"

definition decode_run :: "pdict list \<Rightarrow> stream_context \<times> pdict list \<Rightarrow> (stream_context \<times> pdict list) res" where
  "decode_run chunks st = rfold decode_chunk st chunks"

lemma dec_step_extends:
  assumes "dec_step (c, evs) (c', evs')"
  obtains es where "evs' = evs @ es" "\<And>p. dec_step (c, p) (c', p @ es)"
  using assms by (cases rule: dec_step.cases) (fast intro: dec_step.intros)+

lemma dec_steps_extends:
  assumes "dec_steps (c, evs) (c', evs')"
  shows "\<exists>es. evs' = evs @ es \<and> (\<forall>p. dec_steps (c, p) (c', p @ es))"
  using assms
proof (induction "(c', evs')" arbitrary: c' evs' rule: rtranclp_induct)
  case base
  then show ?case by auto
next
  case (step y)
  obtain c1 evs1 where y: "y = (c1, evs1)" by (cases y)
  from step(3) [OF y] obtain es where es: "evs1 = evs @ es" "\<And>p. dec_steps (c, p) (c1, p @ es)" by auto
  from step(2) y obtain es' where "evs' = evs1 @ es'" "\<And>p. dec_step (c1, p) (c', p @ es')"
    by (auto elim: dec_step_extends)
  with es show ?case by (metis append.assoc rtranclp.rtrancl_into_rtrancl)
qed

lemma decode_run_steps:
  "decode_run chunks st = Inr st' \<Longrightarrow> dec_steps st st'"
proof (induction chunks arbitrary: st)
  case (Cons chunk chunks)
  obtain c evs where st: "st = (c, evs)" by (cases st)
  from Cons.prems obtain st1 where r: "decode_chunk st chunk = Inr st1" "decode_run chunks st1 = Inr st'"
    by (auto simp: decode_run_def elim!: rbind_InrE)
  from r(1) obtain co es where s: "stream_response_from_provider chunk (Some c) = Inr (co, es)"
    "(case co of Some c' \<Rightarrow> Inr (c', evs @ es) | None \<Rightarrow> Inl TypeError) = Inr st1"
    unfolding decode_chunk_def st fst_conv snd_conv by (auto elim!: rbind_InrE)
  from s(1) obtain c' where c': "co = Some c'" "dec_steps (c, []) (c', es)" by (rule chunk_steps)
  then have "dec_steps (c, evs) (c', evs @ es)" using dec_steps_extends [of c "[]" c' es] by auto
  moreover have "st1 = (c', evs @ es)" using s(2) c' by simp
  ultimately show ?case using Cons.IH [OF r(2)] st by simp
qed (simp add: decode_run_def)

section \<open>The life of a stream\<close>

definition type_count :: "string \<Rightarrow> pdict list \<Rightarrow> nat" where
  "type_count t evs = length (filter (\<lambda>e. event_type e = PStr t) evs)"

definition finish_count :: "pyval \<Rightarrow> pdict list \<Rightarrow> nat" where
  "finish_count choice evs =
     length (filter (\<lambda>e. event_type e = PStr ''finish'' \<and>
       py_hash (dget e ''choice_index'') = py_hash choice) evs)"

text \<open>No choice finishes once the stream has ended.\<close>

definition no_late_finish :: "pdict list \<Rightarrow> bool" where
  "no_late_finish evs \<longleftrightarrow>
     list_all (\<lambda>e. event_type e \<noteq> PStr ''finish'') (dropWhile (\<lambda>e. event_type e \<noteq> PStr ''stream_end'') evs)"

definition life_inv :: "stream_context \<times> pdict list \<Rightarrow> bool" where
  "life_inv st \<longleftrightarrow> (case st of (c, evs) \<Rightarrow>
     type_count ''stream_start'' evs = (if started c then 1 else 0) \<and>
     type_count ''stream_end'' evs = (if ended c then 1 else 0) \<and>
     (\<forall>ch. finish_count ch evs = (if pset_mem ch (finished_choice_indexes c) then 1 else 0)) \<and>
     no_late_finish evs)"

lemma no_late_finish_append:
  "no_late_finish evs \<Longrightarrow> type_count ''stream_end'' evs = 0 \<or> event_type e \<noteq> PStr ''finish'' \<Longrightarrow>
   no_late_finish (evs @ [e])"
  by (induction evs) (auto simp: no_late_finish_def type_count_def)

lemma event_types [simp]:
  "event_type (stream_start_event rid mdl crt) = PStr ''stream_start''"
  "event_type stream_end_event = PStr ''stream_end''"
  "event_type (tool_call_start_event i n ch ix) = PStr ''tool_call_start''"
  "event_type (tool_call_delta_event i d ch ix) = PStr ''tool_call_delta''"
  "event_type (finish_event r ch) = PStr ''finish''"
  "dget (finish_event r ch) ''choice_index'' = ch"
  by (simp_all add: stream_start_event_def stream_end_event_def tool_call_start_event_def
      tool_call_delta_event_def finish_event_def)

lemma register_keeps:
  "register_tool_call i n t c = Inr c' \<Longrightarrow> started c' = started c \<and> ended c' = ended c \<and>
     finished_choice_indexes c' = finished_choice_indexes c"
  by (auto simp: register_tool_call_def elim!: rbind_InrE)

lemma append_keeps:
  "append_tool_call_args i d c = Inr c' \<Longrightarrow> started c' = started c \<and> ended c' = ended c \<and>
     finished_choice_indexes c' = finished_choice_indexes c"
  by (auto simp: append_tool_call_args_def Let_def split: option.splits elim!: rbind_InrE)

lemma life_inv_step: "dec_step st st' \<Longrightarrow> life_inv st \<Longrightarrow> life_inv st'"
proof (induction rule: dec_step.induct)
  case (quiet e c evs)
  then have "event_type e \<noteq> PStr ''stream_start''" "event_type e \<noteq> PStr ''stream_end''"
    "event_type e \<noteq> PStr ''finish''"
    by (auto simp: quiet_types_def)
  with quiet show ?case
    by (auto simp: life_inv_def type_count_def finish_count_def intro: no_late_finish_append)
next
  case (finish c ch c' evs r)
  then have "c' = c\<lparr>finished_choice_indexes := finished_choice_indexes c @ [ch]\<rparr>"
    "\<not> pset_mem ch (finished_choice_indexes c)"
    by (auto simp: mark_choice_finished_def split: if_splits elim!: rbind_InrE)
  with finish show ?case
    by (auto simp: life_inv_def type_count_def finish_count_def pset_mem_iff intro!: no_late_finish_append)
qed (auto simp: life_inv_def type_count_def finish_count_def mark_started_def mark_ended_def
    dest!: register_keeps append_keeps intro!: no_late_finish_append)

lemma life_inv_run:
  assumes "decode_run chunks st = Inr st'" "life_inv st" shows "life_inv st'"
  using decode_run_steps [OF assms(1)] assms(2)
  by (induction rule: rtranclp_induct) (auto intro: life_inv_step)

lemma life_inv_init: "life_inv (stream_context_init, [])"
  by (simp add: life_inv_def stream_context_init_def type_count_def finish_count_def no_late_finish_def pset_mem_def)

section \<open>The tool call table replays the events\<close>

definition args_at :: "stream_context \<Rightarrow> pyval res \<Rightarrow> string" where
  "args_at c k =
     (case k of Inl _ \<Rightarrow> [] | Inr h \<Rightarrow> (case map_of (tool_call_args c) h of Some s \<Rightarrow> s | None \<Rightarrow> []))"

lemma register_args:
  "register_tool_call i n t c = Inr c' \<Longrightarrow> args_at c' k = (if py_hash i = k then [] else args_at c k)"
  by (auto simp: register_tool_call_def hset_def args_at_def split: sum.splits elim!: rbind_InrE)

lemma append_args:
  assumes "append_tool_call_args i (PStr d) c = Inr c'"
  shows "args_at c' k = (if py_hash i = k then args_at c k @ d else args_at c k)"
proof -
  obtain h where h: "py_hash i = Inr h" "tool_call_args c' =
      dset (tool_call_args c) h (case map_of (tool_call_args c) h of None \<Rightarrow> d | Some a \<Rightarrow> a @ d)"
    using assms by (auto simp: append_tool_call_args_def hget_def hset_def Let_def elim!: rbind_InrE)
  then show ?thesis
    by (cases k) (auto simp: args_at_def split: option.splits)
qed

interpretation chat_args: tool_arg_log py_hash args_at
    "\<lambda>i nt. register_tool_call i (fst nt) (snd nt)" "\<lambda>i d. append_tool_call_args i (PStr d)"
  by unfold_locales (auto simp: register_args append_args)

text \<open>The table operations that an event stands for.\<close>

definition event_ops :: "pdict \<Rightarrow> pyval arg_op list" where
  "event_ops e =
     (if event_type e = PStr ''tool_call_start'' then [Register (dget e ''tool_call_id'')]
      else if event_type e = PStr ''tool_call_delta'' \<and> py_truthy (dget e ''tool_call_id'') then
        (case as_str (dget e ''arguments_delta'') of
           Some d \<Rightarrow> [Append (dget e ''tool_call_id'') d] | None \<Rightarrow> [])
      else [])"

definition log_ops :: "pdict list \<Rightarrow> pyval arg_op list" where
  "log_ops evs = concat (map event_ops evs)"

lemma log_ops_append [simp]: "log_ops (xs @ ys) = log_ops xs @ log_ops ys"
  by (simp add: log_ops_def)

lemma event_ops_simps [simp]:
  "log_ops [stream_start_event rid mdl crt] = []" "log_ops [stream_end_event] = []"
  "log_ops [finish_event r ch] = []"
  "log_ops [tool_call_start_event i n ch ix] = [Register i]"
  "log_ops [tool_call_delta_event (PStr '''') d ch ix] = []"
  "py_truthy i \<Longrightarrow> log_ops [tool_call_delta_event i (PStr s) ch ix] = [Append i s]"
  by (simp_all add: log_ops_def event_ops_def stream_start_event_def stream_end_event_def
      finish_event_def tool_call_start_event_def tool_call_delta_event_def)

lemma silent_explained:
  assumes "log_ops [e] = []" "tool_call_args c' = tool_call_args c"
  shows "\<exists>es. evs @ [e] = evs @ es \<and> chat_args.explains (log_ops es) c c'"
proof -
  have "args_at c' k = args_at c k" for k unfolding args_at_def by (simp only: assms(2))
  then have "chat_args.explains (log_ops [e]) c c'"
    unfolding assms(1) by (rule chat_args.explains_Nil)
  then show ?thesis by blast
qed

lemma dec_step_explained:
  assumes "dec_step st st'"
  shows "\<exists>es. snd st' = snd st @ es \<and> chat_args.explains (log_ops es) (fst st) (fst st')"
  using assms
proof cases
  case (quiet e c evs)
  then have "log_ops [e] = []" by (auto simp: log_ops_def event_ops_def quiet_types_def)
  then show ?thesis unfolding quiet fst_conv snd_conv by (rule silent_explained) simp
next
  case (begin_stream c evs rid mdl crt' crt)
  then show ?thesis unfolding begin_stream fst_conv snd_conv
    by (intro silent_explained) (simp_all add: mark_started_def)
next
  case (tool_start i name t c c' evs ch ix)
  then show ?thesis using chat_args.explains_register [of i "(name, t)" c c']
    by (auto intro!: exI [of _ "[tool_call_start_event i name ch ix]"])
next
  case (tool_delta i d c c' evs ch ix)
  then show ?thesis
    by (auto intro!: exI [of _ "[tool_call_delta_event i (PStr d) ch ix]"] chat_args.explains_append)
next
  case (lost_delta c evs d ch ix)
  then show ?thesis unfolding lost_delta fst_conv snd_conv by (intro silent_explained) simp_all
next
  case (finish c ch c' evs r)
  then have "tool_call_args c' = tool_call_args c"
    by (auto simp: mark_choice_finished_def split: if_splits elim!: rbind_InrE)
  then show ?thesis unfolding finish fst_conv snd_conv by (intro silent_explained) simp_all
next
  case (end_stream c evs)
  then show ?thesis unfolding end_stream fst_conv snd_conv
    by (intro silent_explained) (simp_all add: mark_ended_def)
qed

lemma dec_steps_explained:
  assumes "dec_steps st st'"
  shows "\<exists>es. snd st' = snd st @ es \<and> chat_args.explains (log_ops es) (fst st) (fst st')"
  using assms
proof (induction rule: rtranclp_induct)
  case base
  then show ?case by (auto intro!: exI [of _ "[]"] chat_args.explains_Nil simp: log_ops_def)
next
  case (step y z)
  then obtain es es' where "snd y = snd st @ es" "chat_args.explains (log_ops es) (fst st) (fst y)"
    "snd z = snd y @ es'" "chat_args.explains (log_ops es') (fst y) (fst z)"
    using dec_step_explained [OF step(2)] by auto
  then show ?case
    by (auto intro!: exI [of _ "es @ es'"] chat_args.explains_trans)
qed

section \<open>Properties\<close>


text \<open>A provider that repeats its finish to attach the usage, and then sends an empty chunk.\<close>

definition demo_chunks :: "pdict list" where
  "demo_chunks =
     (let fin = PDict [(''index'', PInt 0), (''delta'', PDict []), (''finish_reason'', PStr ''stop'')] in
      [[(''id'', PStr ''c''), (''model'', PStr ''m''), (''choices'', PList [fin])],
       [(''id'', PStr ''c''), (''model'', PStr ''m''), (''choices'', PList [fin]),
        (''usage'', PDict [(''total_tokens'', PInt 3)])],
       [(''id'', PStr ''c''), (''model'', PStr ''m''), (''choices'', PList [])]])"

lemma demo_chunks_run:
  "\<exists>c evs. decode_run demo_chunks (stream_context_init, []) = Inr (c, evs) \<and> ended c \<and> length evs = 4"
proof -
  have "case decode_run demo_chunks (stream_context_init, []) of
      Inl _ \<Rightarrow> False | Inr (c, evs) \<Rightarrow> ended c \<and> length evs = 4"
    by code_simp
  then show ?thesis
    by (cases "decode_run demo_chunks (stream_context_init, [])") auto
qed


text \<open>
  C19. After any decoded stream, the argument text that the context holds for a tool call is exactly
  what the events say: the argument deltas of that call since its last start, in order.
\<close>

theorem chat_stream_tool_args:
  assumes "decode_run chunks (stream_context_init, []) = Inr (c, evs)"
  shows "get_tool_call_args (PStr i) c =
    Inr (foldl (replay py_hash (Inr (PStr i))) [] (log_ops evs))"
proof -
  have "chat_args.explains (log_ops evs) stream_context_init c"
    using dec_steps_explained [OF decode_run_steps [OF assms]] by auto
  then have "args_at c (Inr (PStr i)) =
      foldl (replay py_hash (Inr (PStr i))) (args_at stream_context_init (Inr (PStr i))) (log_ops evs)"
    by (simp add: chat_args.explains_def)
  then show ?thesis
    by (simp add: get_tool_call_args_def args_at_def stream_context_init_def split: option.splits)
qed

definition demo_tool_chunks :: "pdict list" where
  "demo_tool_chunks =
     (let tc = (\<lambda>d. [(''id'', PStr ''c''), (''model'', PStr ''m''), (''choices'', PList [PDict
          [(''index'', PInt 0), (''delta'', PDict [(''tool_calls'', PList [PDict d])])]])]) in
      [tc [(''index'', PInt 0), (''id'', PStr ''a''), (''function'', PDict [(''name'', PStr ''ls'')])],
       tc [(''index'', PInt 0), (''function'', PDict [(''arguments'', PStr ''{'')])],
       tc [(''index'', PInt 0), (''function'', PDict [(''arguments'', PStr ''}'')])]])"

lemma demo_tool_run:
  "\<exists>c evs. decode_run demo_tool_chunks (stream_context_init, []) = Inr (c, evs) \<and>
     log_ops evs = [Register (PStr ''a''), Append (PStr ''a'') ''{'', Append (PStr ''a'') ''}'']"
proof -
  have "case decode_run demo_tool_chunks (stream_context_init, []) of
      Inl _ \<Rightarrow> False
    | Inr (c, evs) \<Rightarrow> log_ops evs = [Register (PStr ''a''), Append (PStr ''a'') ''{'', Append (PStr ''a'') ''}'']"
    by code_simp
  then show ?thesis
    by (cases "decode_run demo_tool_chunks (stream_context_init, [])") auto
qed

theorem chat_stream_tool_args_witness:
  "\<exists>c evs. decode_run demo_tool_chunks (stream_context_init, []) = Inr (c, evs) \<and>
     get_tool_call_args (PStr ''a'') c = Inr ''{}''"
  using demo_tool_run chat_stream_tool_args [of demo_tool_chunks] by fastforce

end
