(* ===== verification/ChatStreamTrip.thy ===== *)
theory ChatStreamTrip
  imports ChatStreamLife
begin

text \<open>
  A stream of IR events written as Chat chunks by one gateway and read by another: the decoder gives
  back the events that the encoder was given.
\<close>

section \<open>Well-formed streams\<close>

text \<open>The events between the start and the usage of a stream, with the choice of each.\<close>

datatype body_event =
    TextD string int
  | ReasonD string int
  | ToolStart string string int
  | ToolArgs nat string int
  | FinishE string int

text \<open>
  The IR event. \<open>ids\<close> are the tool calls started so far: a start takes the next index, an argument
  delta names the index of its call.
\<close>

primrec body_dict :: "string list \<Rightarrow> body_event \<Rightarrow> pdict" where
  "body_dict ids (TextD t ch) = text_delta_event (PStr t) (PInt ch)"
| "body_dict ids (ReasonD t ch) = reasoning_delta_event (PStr t) (PInt ch)"
| "body_dict ids (ToolStart i n ch) =
     tool_call_start_event (PStr i) (PStr n) (PInt ch) (PInt (int (length ids)))"
| "body_dict ids (ToolArgs k d ch) =
     tool_call_delta_event (PStr (ids ! k)) (PStr d) (PInt ch) (PInt (int k))"
| "body_dict ids (FinishE r ch) = finish_event (PStr r) (PInt ch)"

primrec next_ids :: "string list \<Rightarrow> body_event \<Rightarrow> string list" where
  "next_ids ids (TextD t ch) = ids"
| "next_ids ids (ReasonD t ch) = ids"
| "next_ids ids (ToolStart i n ch) = ids @ [i]"
| "next_ids ids (ToolArgs k d ch) = ids"
| "next_ids ids (FinishE r ch) = ids"

primrec next_done :: "int list \<Rightarrow> body_event \<Rightarrow> int list" where
  "next_done done (TextD t ch) = done"
| "next_done done (ReasonD t ch) = done"
| "next_done done (ToolStart i n ch) = done"
| "next_done done (ToolArgs k d ch) = done"
| "next_done done (FinishE r ch) = done @ [ch]"

text \<open>Texts and argument deltas are not empty, ids are fresh, and a choice finishes once.\<close>

primrec body_ok :: "string list \<Rightarrow> int list \<Rightarrow> body_event \<Rightarrow> bool" where
  "body_ok ids done (TextD t ch) = (t \<noteq> '''')"
| "body_ok ids done (ReasonD t ch) = True"
| "body_ok ids done (ToolStart i n ch) = (i \<noteq> '''' \<and> i \<notin> set ids)"
| "body_ok ids done (ToolArgs k d ch) = (d \<noteq> '''' \<and> k < length ids)"
| "body_ok ids done (FinishE r ch) =
     (r \<in> {''stop'', ''length'', ''tool_calls'', ''content_filter''} \<and> ch \<notin> set done)"

fun body_dicts :: "string list \<Rightarrow> body_event list \<Rightarrow> pdict list" where
  "body_dicts ids [] = []"
| "body_dicts ids (e # es) = body_dict ids e # body_dicts (next_ids ids e) es"

fun stream_ok :: "string list \<Rightarrow> int list \<Rightarrow> body_event list \<Rightarrow> bool" where
  "stream_ok ids done [] = True"
| "stream_ok ids done (e # es) =
     (body_ok ids done e \<and> stream_ok (next_ids ids e) (next_done done e) es)"

definition usage_of :: "int \<Rightarrow> int \<Rightarrow> int \<Rightarrow> pdict" where
  "usage_of p c t =
     [(''prompt_tokens'', PInt p), (''completion_tokens'', PInt c), (''total_tokens'', PInt t)]"

definition stream_events :: "string \<Rightarrow> string \<Rightarrow> int \<Rightarrow> body_event list \<Rightarrow> pdict \<Rightarrow> pdict list" where
  "stream_events rid mdl crt body usage =
     stream_start_event (PStr rid) (PStr mdl) (PInt crt) # body_dicts [] body
       @ [usage_event usage, stream_end_event]"

text \<open>The encoder over a list of events with one context; an empty result is no chunk.\<close>

definition encode_event ::
  "(pyval \<Rightarrow> pyval \<Rightarrow> pyval) \<Rightarrow> stream_context \<times> pdict list \<Rightarrow> pdict \<Rightarrow> (stream_context \<times> pdict list) res" where
  "encode_event fsum st event =
     rbind (stream_response_to_provider fsum event (Some (fst st))) (\<lambda>(chunk, co).
       case co of
         Some c' \<Rightarrow> Inr (c', if chunk \<noteq> [] then snd st @ [chunk] else snd st)
       | None \<Rightarrow> Inl TypeError)"

definition encode_run ::
  "(pyval \<Rightarrow> pyval \<Rightarrow> pyval) \<Rightarrow> pdict list \<Rightarrow> stream_context \<times> pdict list \<Rightarrow> (stream_context \<times> pdict list) res" where
  "encode_run fsum events st = rfold (encode_event fsum) st events"

section \<open>The chunk of each event\<close>

definition role_delta :: "bool \<Rightarrow> pdict \<Rightarrow> pdict" where
  "role_delta role d = (if role then d @ [(''role'', PStr ''assistant'')] else d)"

definition enveloped :: "string \<Rightarrow> string \<Rightarrow> int \<Rightarrow> pdict \<Rightarrow> pdict" where
  "enveloped rid mdl crt chunk =
     chunk @ [(''id'', PStr rid), (''object'', PStr ''chat.completion.chunk''), (''model'', PStr mdl),
              (''created'', PInt crt)]"

text \<open>The chunk of a body event; \<open>role\<close> says that it carries the buffered role.\<close>

primrec body_chunk :: "nat \<Rightarrow> bool \<Rightarrow> body_event \<Rightarrow> pdict" where
  "body_chunk n role (TextD t ch) =
     chunk_of_choice (PInt ch) (role_delta role [(''content'', PStr t)]) []"
| "body_chunk n role (ReasonD t ch) =
     chunk_of_choice (PInt ch) [(''reasoning_content'', PStr t)] []"
| "body_chunk n role (ToolStart i nm ch) =
     chunk_of_choice (PInt ch) (role_delta role
       [(''tool_calls'', PList [PDict [(''index'', PInt (int n)), (''id'', PStr i),
          (''type'', PStr ''function''),
          (''function'', PDict [(''name'', PStr nm), (''arguments'', PStr '''')])]])]) []"
| "body_chunk n role (ToolArgs k d ch) =
     chunk_of_choice (PInt ch) [(''tool_calls'', PList [PDict [(''index'', PInt (int k)),
       (''function'', PDict [(''arguments'', PStr d)])]])] []"
| "body_chunk n role (FinishE r ch) = chunk_of_choice (PInt ch) [] [(''finish_reason'', PStr r)]"

primrec takes_role :: "body_event \<Rightarrow> bool" where
  "takes_role (TextD t ch) = True"
| "takes_role (ReasonD t ch) = False"
| "takes_role (ToolStart i n ch) = True"
| "takes_role (ToolArgs k d ch) = False"
| "takes_role (FinishE r ch) = False"

definition role_chunk :: "string \<Rightarrow> string \<Rightarrow> int \<Rightarrow> pdict" where
  "role_chunk rid mdl crt =
     [(''id'', PStr rid), (''object'', PStr ''chat.completion.chunk''), (''model'', PStr mdl),
      (''created'', PInt crt),
      (''choices'', PList [PDict [(''index'', PInt 0),
         (''delta'', PDict [(''role'', PStr ''assistant'')]), (''finish_reason'', PNone)]])]"

text \<open>An encoder in the middle of a stream.\<close>

definition enc_inv :: "string \<Rightarrow> string \<Rightarrow> int \<Rightarrow> bool \<Rightarrow> stream_context \<Rightarrow> bool" where
  "enc_inv rid mdl crt role c \<longleftrightarrow>
     started c \<and> response_id c = PStr rid \<and> model c = PStr mdl \<and> created c = PInt crt \<and>
     pending_usage c = None \<and> pending_response c = (if role then Some (role_chunk rid mdl crt) else None)"

lemmas enc_eval = stream_response_to_provider_def to_p_dispatch_def dget_dyn_def
  text_delta_event_def reasoning_delta_event_def tool_call_start_event_def
  tool_call_delta_event_def finish_event_def indexed_def
  handle_text_delta_to_p_def handle_reasoning_delta_to_p_def handle_tool_call_start_to_p_def
  handle_tool_call_delta_to_p_def handle_finish_to_p_def reason_in_def chat_reason_to_provider_def
  event_choice_def event_tool_index_def merge_pending_role_def set_role_def set_key_def
  chunk_of_choice_def envelope_keys_def same_names_def post_process_to_provider_def setdefault_def
  role_chunk_def role_delta_def enveloped_def

lemma encode_body:
  assumes "enc_inv rid mdl crt role c" "body_ok ids done e"
  shows "\<exists>c'. encode_event fsum (c, chunks) (body_dict ids e) =
      Inr (c', chunks @ [enveloped rid mdl crt (body_chunk (length ids) role e)]) \<and>
    enc_inv rid mdl crt (role \<and> \<not> takes_role e) c'"
  using assms
  by (cases e; cases role) (auto simp: encode_event_def enc_inv_def enc_eval)

lemma encode_start:
  "\<exists>c. encode_event fsum (stream_context_init, [])
      (stream_start_event (PStr rid) (PStr mdl) (PInt crt)) = Inr (c, []) \<and> enc_inv rid mdl crt True c"
  by (auto simp: encode_event_def enc_inv_def stream_response_to_provider_def to_p_dispatch_def
      dget_dyn_def stream_start_event_def handle_stream_start_to_p_def post_process_to_provider_def
      stream_context_init_def mark_started_def role_chunk_def Let_def)

fun body_chunks :: "string list \<Rightarrow> bool \<Rightarrow> body_event list \<Rightarrow> pdict list" where
  "body_chunks ids role [] = []"
| "body_chunks ids role (e # es) =
     body_chunk (length ids) role e # body_chunks (next_ids ids e) (role \<and> \<not> takes_role e) es"

lemma encode_bodies:
  "enc_inv rid mdl crt role c \<Longrightarrow> stream_ok ids done es \<Longrightarrow>
   \<exists>c' role'. encode_run fsum (body_dicts ids es) (c, chunks) =
      Inr (c', chunks @ map (enveloped rid mdl crt) (body_chunks ids role es)) \<and> enc_inv rid mdl crt role' c'"
proof (induction es arbitrary: ids "done" role c chunks)
  case (Cons e es)
  from encode_body [OF Cons.prems(1), of ids "done" e fsum chunks] Cons.prems(2) obtain c1 where
    c1: "encode_event fsum (c, chunks) (body_dict ids e) =
      Inr (c1, chunks @ [enveloped rid mdl crt (body_chunk (length ids) role e)])"
    "enc_inv rid mdl crt (role \<and> \<not> takes_role e) c1" by auto
  from Cons.prems(2) have "stream_ok (next_ids ids e) (next_done done e) es" by simp
  from Cons.IH [OF c1(2) this, of "chunks @ [enveloped rid mdl crt (body_chunk (length ids) role e)]"] c1(1)
  show ?case by (simp add: encode_run_def)
qed (auto simp: encode_run_def)

definition end_chunk :: "string \<Rightarrow> string \<Rightarrow> int \<Rightarrow> pdict \<Rightarrow> pdict" where
  "end_chunk rid mdl crt usage =
     [(''id'', PStr rid), (''object'', PStr ''chat.completion.chunk''), (''model'', PStr mdl),
      (''created'', PInt crt), (''choices'', PList []), (''usage'', PDict usage)]"

lemma or_zero_int [simp]: "or_zero (PInt i) = PInt i"
  by (simp add: or_zero_def)

lemma encode_end:
  assumes "enc_inv rid mdl crt role c"
  shows "\<exists>c'. encode_run fsum [usage_event (usage_of p q t), stream_end_event] (c, chunks) =
    Inr (c', chunks @ [end_chunk rid mdl crt (usage_of p q t)])"
  using assms
  by (auto simp: encode_run_def encode_event_def enc_inv_def stream_response_to_provider_def
      to_p_dispatch_def dget_dyn_def usage_event_def stream_end_event_def handle_usage_to_p_def
      buffer_usage_def handle_stream_end_to_p_def pop_pending_usage_def mark_ended_def
      build_provider_usage_def token_counts_def push_detail_def usage_of_def usage_chunk_def
      end_chunk_def post_process_to_provider_def setdefault_def same_names_def)

section \<open>The events of each chunk\<close>

text \<open>A decoder that has read the chunks of the calls \<open>ids\<close>; before the first one it has not begun.\<close>

definition dec_inv :: "bool \<Rightarrow> string list \<Rightarrow> int list \<Rightarrow> stream_context \<Rightarrow> bool" where
  "dec_inv begun ids done c \<longleftrightarrow>
     started c = begun \<and> \<not> ended c \<and> current_block_index c < 0 \<and>
     tool_call_order c = map PStr ids \<and> finished_choice_indexes c = map PInt done \<and>
     (\<forall>i \<in> set ids. map_of (tool_call_args c) (PStr i) \<noteq> None)"

definition start_of :: "bool \<Rightarrow> string \<Rightarrow> string \<Rightarrow> int \<Rightarrow> pdict list" where
  "start_of begun rid mdl crt =
     (if begun then [] else [stream_start_event (PStr rid) (PStr mdl) (PInt crt)])"

lemma order_at_nth: "k < length ids \<Longrightarrow> order_at (map PStr ids) (PInt (int k)) = Inr (Some (PStr (ids ! k)))"
  by (simp add: order_at_def)

lemma pset_mem_PInt: "pset_mem (PInt i) (map PInt xs) \<longleftrightarrow> i \<in> set xs"
  by (auto simp: pset_mem_iff image_iff)

lemma pset_mem_PStr: "pset_mem (PStr i) (map PStr xs) \<longleftrightarrow> i \<in> set xs"
  by (auto simp: pset_mem_iff image_iff)

lemmas dec_eval = decode_chunk_def stream_response_from_provider_def handle_stream_start_from_p_def
  handle_choice_from_p_def handle_tool_calls_from_p_def handle_tool_call_def tool_start_step_def
  tool_delta_step_def effective_id_def on_context_def emit_def order_at_nth
  register_tool_call_def append_tool_call_args_def order_add_def pset_mem_PStr pset_mem_PInt
  handle_finish_reason_from_p_def mark_choice_finished_def emit_finish_def reason_in_def
  chat_reason_from_provider_def dget_dyn_def handle_stream_end_from_p_def enveloped_def
  chunk_of_choice_def role_delta_def mark_started_def start_of_def map_of_dset Let_def

lemma decode_body:
  assumes "dec_inv begun ids done c" "body_ok ids done e" "rid \<noteq> ''''" "mdl \<noteq> ''''"
  shows "\<exists>c'. decode_chunk (c, evs) (enveloped rid mdl crt (body_chunk (length ids) role e)) =
      Inr (c', evs @ start_of begun rid mdl crt @ [body_dict ids e]) \<and>
    dec_inv True (next_ids ids e) (next_done done e) c'"
  using assms
  by (cases e; cases begun; cases role) (auto simp: dec_inv_def dec_eval)

lemma decode_bodies:
  "dec_inv begun ids done c \<Longrightarrow> stream_ok ids done es \<Longrightarrow> rid \<noteq> '''' \<Longrightarrow> mdl \<noteq> '''' \<Longrightarrow>
   \<exists>c' ids' done'. decode_run (map (enveloped rid mdl crt) (body_chunks ids role es)) (c, evs) =
      Inr (c', evs @ (if es = [] then [] else start_of begun rid mdl crt) @ body_dicts ids es) \<and>
     dec_inv (begun \<or> es \<noteq> []) ids' done' c'"
proof (induction es arbitrary: begun ids "done" role c evs)
  case (Cons e es)
  then have ok: "body_ok ids done e" "stream_ok (next_ids ids e) (next_done done e) es" by auto
  let ?evs = "evs @ start_of begun rid mdl crt @ [body_dict ids e]"
  obtain c1 where c1: "decode_chunk (c, evs) (enveloped rid mdl crt (body_chunk (length ids) role e)) =
      Inr (c1, ?evs)" "dec_inv True (next_ids ids e) (next_done done e) c1"
    using decode_body [OF Cons.prems(1) ok(1) Cons.prems(3,4)] by blast
  obtain c2 ids' done' where "decode_run (map (enveloped rid mdl crt)
      (body_chunks (next_ids ids e) (role \<and> \<not> takes_role e) es)) (c1, ?evs) =
      Inr (c2, ?evs @ body_dicts (next_ids ids e) es)" "dec_inv True ids' done' c2"
    using Cons.IH [OF c1(2) ok(2) Cons.prems(3,4), of "role \<and> \<not> takes_role e" ?evs]
    by (auto simp: start_of_def)
  with c1(1) show ?case by (auto simp: decode_run_def)
qed (auto simp: decode_run_def)

lemma decode_end:
  assumes "dec_inv begun ids done c" "rid \<noteq> ''''" "mdl \<noteq> ''''"
  shows "\<exists>c'. decode_run [end_chunk rid mdl crt (usage_of p q t)] (c, evs) =
    Inr (c', evs @ start_of begun rid mdl crt @ [usage_event (usage_of p q t), stream_end_event]) \<and> ended c'"
  using assms
  by (cases begun) (auto simp: dec_inv_def decode_run_def dec_eval end_chunk_def usage_of_def build_ir_usage_def
      lift_detail_def token_counts_def mark_ended_def)

section \<open>Whole streams\<close>

definition chat_chunks :: "string \<Rightarrow> string \<Rightarrow> int \<Rightarrow> body_event list \<Rightarrow> pdict \<Rightarrow> pdict list" where
  "chat_chunks rid mdl crt body usage =
     map (enveloped rid mdl crt) (body_chunks [] True body) @ [end_chunk rid mdl crt usage]"

lemma chat_stream_written:
  assumes "stream_ok [] [] body"
  shows "\<exists>c. encode_run fsum (stream_events rid mdl crt body (usage_of p q t)) (stream_context_init, []) =
      Inr (c, chat_chunks rid mdl crt body (usage_of p q t))"
proof -
  let ?tail = "[usage_event (usage_of p q t), stream_end_event]"
  let ?chunks = "map (enveloped rid mdl crt) (body_chunks [] True body)"
  obtain c0 where c0: "encode_event fsum (stream_context_init, [])
      (stream_start_event (PStr rid) (PStr mdl) (PInt crt)) = Inr (c0, [])" "enc_inv rid mdl crt True c0"
    using encode_start by blast
  obtain c1 role where c1: "encode_run fsum (body_dicts [] body) (c0, []) = Inr (c1, ?chunks)"
    "enc_inv rid mdl crt role c1"
    using encode_bodies [OF c0(2) assms, of fsum "[]"] by auto
  obtain c2 where c2: "encode_run fsum ?tail (c1, ?chunks) = Inr (c2, ?chunks @ [end_chunk rid mdl crt (usage_of p q t)])"
    using encode_end [OF c1(2)] by blast
  have "encode_run fsum (stream_events rid mdl crt body (usage_of p q t)) (stream_context_init, []) =
      Inr (c2, ?chunks @ [end_chunk rid mdl crt (usage_of p q t)])"
    using c0 c1 c2 by (simp add: encode_run_def stream_events_def rfold_append del: rfold.simps)
      (simp add: encode_run_def rfold_append)
  then show ?thesis by (auto simp: chat_chunks_def)
qed

lemma chat_stream_read:
  assumes "stream_ok [] [] body" "rid \<noteq> ''''" "mdl \<noteq> ''''" "dec_inv False [] [] c"
  shows "\<exists>c'. decode_run (chat_chunks rid mdl crt body (usage_of p q t)) (c, []) =
      Inr (c', stream_events rid mdl crt body (usage_of p q t)) \<and> ended c'"
proof -
  let ?tail = "[usage_event (usage_of p q t), stream_end_event]"
  obtain d ids' done' where d: "decode_run (map (enveloped rid mdl crt) (body_chunks [] True body)) (c, []) =
      Inr (d, (if body = [] then [] else start_of False rid mdl crt) @ body_dicts [] body)"
    "dec_inv (body \<noteq> []) ids' done' d"
    using decode_bodies [OF assms(4,1-3), of crt True "[]"] by (auto simp del: split_paired_Ex)
  obtain d' where "decode_run [end_chunk rid mdl crt (usage_of p q t)]
      (d, (if body = [] then [] else start_of False rid mdl crt) @ body_dicts [] body) =
      Inr (d', ((if body = [] then [] else start_of False rid mdl crt) @ body_dicts [] body)
        @ start_of (body \<noteq> []) rid mdl crt @ ?tail)" "ended d'"
    using decode_end [OF d(2) assms(2,3)] by blast
  then have "decode_run (chat_chunks rid mdl crt body (usage_of p q t)) (c, []) =
      Inr (d', stream_events rid mdl crt body (usage_of p q t))" "ended d'"
    using d(1) by (auto simp: decode_run_def rfold_append stream_events_def start_of_def chat_chunks_def)
  then show ?thesis by blast
qed

lemma dec_inv_init: "dec_inv False [] [] (stream_context_init\<lparr>ctx_options := opts\<rparr>)" "dec_inv False [] [] stream_context_init"
  by (simp_all add: dec_inv_def stream_context_init_def)

section \<open>Properties\<close>

text \<open>
  C3. Streams survive the Chat format. A stream of IR events that starts, sends texts, reasoning,
  tool calls with their argument deltas and finishes in any order, then its usage, then its end,
  is encoded without error into chunks, and a fresh decoder gives back exactly these events from
  the chunks, with the ids of argument deltas restored from their indexes.
\<close>

theorem chat_stream_round_trip:
  assumes "stream_ok [] [] body" "rid \<noteq> ''''" "mdl \<noteq> ''''"
  shows "\<exists>c chunks c'. encode_run fsum (stream_events rid mdl crt body (usage_of p q t)) (stream_context_init, []) =
      Inr (c, chunks) \<and>
    decode_run chunks (stream_context_init, []) =
      Inr (c', stream_events rid mdl crt body (usage_of p q t)) \<and> ended c'"
  using chat_stream_written [OF assms(1), of fsum rid mdl crt p q t]
    chat_stream_read [OF assms dec_inv_init(2), of crt p q t] by blast

theorem chat_stream_round_trip_witness:
  "\<exists>c chunks c'. encode_run (\<lambda>x y. x) (stream_events ''r'' ''m'' 7
      [ReasonD ''hm'' 0, TextD ''hi'' 0, ToolStart ''a'' ''ls'' 0, ToolStart ''b'' ''cat'' 0,
       ToolArgs 1 ''{'' 0, ToolArgs 0 ''{}'' 0, ToolArgs 1 ''}'' 0, FinishE ''tool_calls'' 0]
      (usage_of 1 2 3)) (stream_context_init, []) = Inr (c, chunks) \<and>
    decode_run chunks (stream_context_init, []) = Inr (c', stream_events ''r'' ''m'' 7
      [ReasonD ''hm'' 0, TextD ''hi'' 0, ToolStart ''a'' ''ls'' 0, ToolStart ''b'' ''cat'' 0,
       ToolArgs 1 ''{'' 0, ToolArgs 0 ''{}'' 0, ToolArgs 1 ''}'' 0, FinishE ''tool_calls'' 0]
      (usage_of 1 2 3)) \<and> ended c'"
  by (rule chat_stream_round_trip) simp_all

end
