(* ===== verification/ChatRequestTrip.thy ===== *)
theory ChatRequestTrip
  imports ChatConverter ChatConversation ChatStreamTrip
begin

text \<open>
  End-to-end properties of the Chat converter: a request and a response of the IR survive the
  Chat format, and two cases where a Chat request loses what it holds.
\<close>

section \<open>A conversation needs no repair\<close>

lemma call_parts_ids:
  "list_all (\<lambda>c. callid c \<noteq> []) cs \<Longrightarrow>
   List.map_filter (part_id_of ''tool_call'' ''tool_call_id'') (map PDict (option_text t @ map ir_call cs)) =
     map (\<lambda>c. PStr (callid c)) cs"
proof -
  assume cs: "list_all (\<lambda>c. callid c \<noteq> []) cs"
  have "List.map_filter (part_id_of ''tool_call'' ''tool_call_id'') (map PDict (map ir_call cs)) =
      map (\<lambda>c. PStr (callid c)) cs"
    using cs by (induction cs) (simp_all add: List.map_filter_def ir_call_def)
  moreover have "List.map_filter (part_id_of ''tool_call'' ''tool_call_id'') (map PDict (option_text t)) = []"
    by (simp add: option_text_def text_part_def List.map_filter_def split: option.splits)
  ultimately show ?thesis by (simp add: List.map_filter_def)
qed

lemma calls_of_turn:
  assumes "list_all (\<lambda>c. callid c \<noteq> []) cs"
  shows "ids_in (call_ids (ir_message ''assistant'' (option_text t @ map ir_call cs))) v \<longleftrightarrow>
    (\<exists>c \<in> set cs. v = PStr (callid c))"
proof -
  have "\<exists>S. pset_of (map (\<lambda>c. PStr (callid c)) cs) = Inr S" by (rule pset_of_hashable) auto
  then obtain S where S: "pset_of (map (\<lambda>c. PStr (callid c)) cs) = Inr S" by blast
  have "pset_mem v S \<longleftrightarrow> (\<exists>c \<in> set cs. v = PStr (callid c))"
    using pset_of_mem [OF S, of v] by (auto simp: pset_mem_iff)
  moreover have "call_ids (ir_message ''assistant'' (option_text t @ map ir_call cs)) = Inr S"
    using call_parts_ids [OF assms, of t] S
    by (simp add: call_ids_def msg_content_def extract_part_ids_def ir_message_def)
  ultimately show ?thesis by (simp add: ids_in_def)
qed

lemma result_of_answer:
  "i \<noteq> [] \<Longrightarrow> result_ids (tool_result_message (PStr i) r) = Inr [PStr i]"
  by (simp add: result_ids_def msg_content_def extract_part_ids_def tool_result_message_def ir_message_def
      List.map_filter_def pset_of_def pset_add_def pset_mem_def)

lemma role_of_ir [simp]:
  "dget (ir_message r ps) ''role'' = PStr r" "dget (tool_result_message i res) ''role'' = PStr ''tool''"
  by (simp_all add: ir_message_def tool_result_message_def)

lemma turn_messages_ok: "good_turn flt t \<Longrightarrow> list_all ir_message_ok (ir_turn t)"
proof (cases t)
  case (Assistant tx cs)
  assume "good_turn flt t"
  then show ?thesis using Assistant
    by (auto simp: ir_message_ok_def msg_content_def ir_message_def tool_result_message_def list_all_iff
        option_text_def text_part_def ir_call_def split: option.splits)
qed (simp_all add: ir_message_ok_def msg_content_def ir_message_def text_part_def)

lemma conversation_paired:
  assumes g: "list_all (good_turn flt) ts"
  shows "paired (concat (map ir_turn ts))"
  unfolding paired_def
proof (intro conjI allI impI ballI)
  let ?ms = "concat (map ir_turn ts)"
  have turn: "\<exists>t \<in> set ts. m \<in> set (ir_turn t)" if "m \<in> set ?ms" for m using that by auto
  have ids: "list_all (\<lambda>c. callid c \<noteq> []) cs" if "Assistant tx cs \<in> set ts" for tx cs
    using g that by (auto simp: list_all_iff)
  show "answers ?ms v" if "calls ?ms v" for v
  proof -
    from that obtain m where m: "m \<in> set ?ms" "dget m ''role'' = PStr ''assistant''" "ids_in (call_ids m) v"
      by (auto simp: calls_def)
    from turn [OF m(1)] obtain t where t: "t \<in> set ts" "m \<in> set (ir_turn t)" by blast
    obtain tx cs where a: "t = Assistant tx cs" "m = ir_message ''assistant'' (option_text tx @ map ir_call cs)"
      using t(2) m(2) by (cases t) auto
    obtain c where c: "c \<in> set cs" "v = PStr (callid c)"
      using m(3) a calls_of_turn [OF ids] t(1) by blast
    have "callid c \<noteq> []" using ids t(1) a(1) c(1) by (auto simp: list_all_iff)
    then have "ids_in (result_ids (tool_result_message v (PStr (callresult c)))) v"
      using c(2) result_of_answer by (simp add: ids_in_def pset_mem_def)
    moreover have "tool_result_message v (PStr (callresult c)) \<in> set ?ms"
      using t(1) a(1) c by force
    ultimately show ?thesis unfolding answers_def using role_of_ir(2) by blast
  qed
  show "\<exists>v \<in> set T. calls ?ms v"
    if m: "m \<in> set ?ms" "dget m ''role'' = PStr ''tool''" "result_ids m = Inr T" "T \<noteq> []" for m T
  proof -
    from turn [OF m(1)] obtain t where t: "t \<in> set ts" "m \<in> set (ir_turn t)" by blast
    obtain tx cs c where a: "t = Assistant tx cs" "c \<in> set cs"
      "m = tool_result_message (PStr (callid c)) (PStr (callresult c))"
      using t(2) m(2) by (cases t) auto
    have "callid c \<noteq> []" using ids t(1) a(1,2) by (auto simp: list_all_iff)
    then have "T = [PStr (callid c)]" using m(3) a(3) result_of_answer by simp
    moreover have "ids_in (call_ids (ir_message ''assistant'' (option_text tx @ map ir_call cs))) (PStr (callid c))"
      using calls_of_turn [OF ids] t(1) a(1,2) by blast
    then have "calls ?ms (PStr (callid c))" using t(1) a(1) unfolding calls_def by force
    ultimately show ?thesis by simp
  qed
qed

lemma conversation_unrepaired:
  assumes "list_all (good_turn flt) ts" and "\<And>S. set (enum S) = set S"
  shows "fix_orphaned_tool_calls_ir enum p (concat (map ir_turn ts)) = Inr (concat (map ir_turn ts), [])"
proof (rule paired_fix_id [OF _ conversation_paired [OF assms(1)] assms(2)])
  show "list_all ir_message_ok (concat (map ir_turn ts))"
    using assms(1) turn_messages_ok [of flt] by (induction ts) auto
qed

section \<open>Requests\<close>

lemma typed_dicts_map: "rmap typed_dict (map PDict ms) = Inr ms"
  by (induction ms) (simp_all add: typed_dict_def)

definition conversation_request :: "string \<Rightarrow> string \<Rightarrow> turn list \<Rightarrow> pdict" where
  "conversation_request mdl sys ts =
     [(''model'', PStr mdl), (''messages'', PList (map PDict (concat (map ir_turn ts)))),
      (''system_instruction'', PStr sys)]"

definition chat_request :: "string \<Rightarrow> string \<Rightarrow> turn list \<Rightarrow> pdict" where
  "chat_request mdl sys ts =
     [(''model'', PStr mdl),
      (''messages'', PList (map PDict ([(''role'', PStr ''system''), (''content'', PStr sys)] # concat (map chat_turn ts))))]"

lemma request_to_chat:
  assumes g: "good_conversation flt ts" and s: "sys \<noteq> []" and e: "\<And>S. set (set_order env S) = set S"
  shows "request_to_provider env (conversation_request mdl sys ts) ctx cs =
    Inr (chat_request mdl sys ts, conversation_request mdl sys ts, ctx, cs)"
proof -
  let ?r = "conversation_request mdl sys ts"
  have "list_all (good_turn flt) ts" using g by (simp add: good_conversation_def)
  note unrepaired = conversation_unrepaired [OF this, where enum = "set_order env", OF e]
  have "request_messages env ?r = Inr (concat (map chat_turn ts), [])"
    using conversation_to_chat [OF g] unrepaired
    by (simp add: request_messages_def conversation_request_def typed_dicts_def typed_dicts_map del: map_concat)
  moreover have "strip_orphaned_tool_config ?r = (?r, [])"
    by (simp add: strip_orphaned_tool_config_def strip_field_def conversation_request_def)
  moreover have "apply_tool_config env ?r st = Inr st" for st
    by (cases st) (simp add: apply_tool_config_def apply_tools_def conversation_request_def)
  moreover have "apply_settings env ?r result = Inr result" for result
    by (simp add: apply_settings_def apply_setting_def conversation_request_def)
  ultimately show ?thesis
    using s by (simp add: request_to_provider_def chat_request_def)
      (simp add: conversation_request_def Let_def)
qed

definition not_system :: "turn \<Rightarrow> bool" where
  "not_system t = (case t of System s \<Rightarrow> False | _ \<Rightarrow> True)"

lemma extract_messages:
  "rmap (p_message_to_ir flt []) (map PDict ms) = Inr (map Some is) \<Longrightarrow>
   list_all (\<lambda>m. dget m ''role'' \<noteq> PStr ''system'') ms \<Longrightarrow> list_all (\<lambda>m. m \<noteq> []) is \<Longrightarrow>
   rfold (extract_message flt) (acc, s) (map PDict ms) = Inr (acc @ is, s)"
proof (induction ms arbitrary: "is" acc)
  case (Cons m ms)
  then obtain i is' where i: "p_message_to_ir flt [] (PDict m) = Inr (Some i)" "is = i # is'"
    "rmap (p_message_to_ir flt []) (map PDict ms) = Inr (map Some is')"
    by (cases "is") (auto elim!: rbind_InrE)
  with Cons show ?case by (simp add: extract_message_def)
qed simp

lemma turn_roles: "not_system t \<Longrightarrow> list_all (\<lambda>m. dget m ''role'' \<noteq> PStr ''system'') (chat_turn t)"
  by (cases t) (auto simp: not_system_def chat_assistant_def chat_answer_def list_all_iff split: option.splits)

lemma turn_nonempty: "list_all (\<lambda>m. m \<noteq> []) (ir_turn t)"
  by (cases t) (auto simp: ir_message_def tool_result_message_def list_all_iff)

lemma extract_conversation:
  assumes g: "list_all (good_turn flt) ts" and n: "list_all not_system ts"
  shows "extract_system_and_messages flt
      (map PDict ([(''role'', PStr ''system''), (''content'', PStr sys)] # concat (map chat_turn ts))) =
    Inr (concat (map ir_turn ts), Some sys)"
proof -
  have "list_all (\<lambda>m. dget m ''role'' \<noteq> PStr ''system'') (concat (map chat_turn ts))"
    using n turn_roles by (induction ts) auto
  moreover have "list_all (\<lambda>m. m \<noteq> []) (concat (map ir_turn ts))"
    using turn_nonempty by (induction ts) auto
  ultimately have "rfold (extract_message flt) ([], Some sys) (map PDict (concat (map chat_turn ts))) =
      Inr ([] @ concat (map ir_turn ts), Some sys)"
    using turns_to_ir [OF g] by (intro extract_messages)
  then show ?thesis
    by (simp add: extract_system_and_messages_def extract_message_def system_text_of_def del: map_concat)
qed



definition demo_chat :: "(int, int) chat_env" where
  "demo_chat =
     \<lparr>tool_caches = demo_env,
      schema_env = (\<lambda>n. \<lparr>san_hash = demo_hash, san_add = (+), san_zero = 0, san_limit = 100, san_defs_keys = [],
                         san_look = (0, 0), san_store = (0, 0)\<rparr>),
      set_order = id, float_text = id, budget_scale = (\<lambda>b r. b * r), cap_option = None, exn_text = (\<lambda>_. ''''),
      validate_output = True, ir_validators = lenient\<rparr>"

definition demo_ctx :: conversion_context where
  "demo_ctx = \<lparr>ctx_warnings = [], ctx_options = [], ctx_metadata = []\<rparr>"


section \<open>Responses\<close>

record completion =
  said :: "string option"
  asked :: "call list"
  why :: string

definition good_completion :: "(string \<Rightarrow> string) \<Rightarrow> completion \<Rightarrow> bool" where
  "good_completion flt a \<longleftrightarrow> good_turn flt (Assistant (said a) (asked a)) \<and>
     why a \<in> {''stop'', ''length'', ''tool_calls'', ''content_filter''}"

definition ir_choice :: "nat \<times> completion \<Rightarrow> pdict" where
  "ir_choice ia =
     [(''index'', PInt (int (fst ia))),
      (''message'', PDict (ir_message ''assistant'' (option_text (said (snd ia)) @ map ir_call (asked (snd ia))))),
      (''finish_reason'', PDict [(''reason'', PStr (why (snd ia)))])]"

definition chat_choice :: "nat \<times> completion \<Rightarrow> pdict" where
  "chat_choice ia =
     [(''index'', PInt (int (fst ia))), (''message'', PDict (chat_assistant (said (snd ia)) (asked (snd ia)))),
      (''finish_reason'', PStr (why (snd ia)))]"

definition response_of :: "string \<Rightarrow> string \<Rightarrow> int \<Rightarrow> string \<Rightarrow> pdict list \<Rightarrow> pdict \<Rightarrow> pdict" where
  "response_of kind rid crt mdl choices usage =
     [(''id'', PStr rid), (''object'', PStr kind), (''created'', PInt crt), (''model'', PStr mdl),
      (''choices'', PList (map PDict choices)), (''usage'', PDict usage)]"

lemma choice_calls:
  "rfold choice_part a (map (\<lambda>c. PDict (ir_call c)) cs) =
     Inr (a\<lparr>c_calls := c_calls a @ map chat_call cs\<rparr>)"
proof (induction cs arbitrary: a)
  case (Cons c cs)
  have "\<not> is_reasoning_part (PDict (ir_call c))"
    by (simp add: is_reasoning_part_def is_typed_def ir_call_def)
  then have "choice_part a (PDict (ir_call c)) = Inr (a\<lparr>c_calls := c_calls a @ [chat_call c]\<rparr>)"
    by (simp add: choice_part_def tool_call_to_chat)
  with Cons show ?case by simp
qed simp

lemma choice_to_chat:
  assumes "good_completion flt (snd ia)"
  shows "build_choice_to_provider (ir_choice ia) = Inr (Some (chat_choice ia))"
proof -
  have t: "good_turn flt (Assistant (said (snd ia)) (asked (snd ia)))" using assms by (simp add: good_completion_def)
  have why: "reason_in chat_reason_to_provider (PStr (why (snd ia))) = Inr (PStr (why (snd ia)))"
    using assms by (auto simp: good_completion_def reason_in_def chat_reason_to_provider_def dget_dyn_def)
  show ?thesis
  proof (cases "said (snd ia)")
    case None
    with t why show ?thesis
      by (simp add: build_choice_to_provider_def ir_choice_def ir_message_def option_text_def comp_def choice_calls
          choice_content_def choice_reasoning_def chat_choice_def chat_assistant_def typed_dict_def Let_def
          same_names_def)
  next
    case (Some s)
    with t why show ?thesis
      by (simp add: build_choice_to_provider_def ir_choice_def ir_message_def option_text_def comp_def choice_calls
          choice_content_def choice_reasoning_def chat_choice_def chat_assistant_def typed_dict_def Let_def
          same_names_def
          choice_part_def text_part_def is_text_part_def is_typed_def join_text)
  qed
qed

lemma choice_to_ir:
  assumes "good_completion flt (snd ia)"
  shows "choice_from_p flt (PDict (chat_choice ia)) = Inr (ir_choice ia)"
proof -
  have t: "good_turn flt (Assistant (said (snd ia)) (asked (snd ia)))" using assms by (simp add: good_completion_def)
  have "reason_in chat_reason_from_provider (PStr (why (snd ia))) = Inr (PStr (why (snd ia)))"
    using assms by (auto simp: good_completion_def reason_in_def chat_reason_from_provider_def dget_dyn_def)
  with assistant_to_ir [OF t] show ?thesis
    by (simp add: choice_from_p_def typed_dict_def chat_choice_def ir_choice_def same_names_def)
qed

lemma choices_to_chat:
  "list_all (\<lambda>ia. good_completion flt (snd ia)) ias \<Longrightarrow>
   rmap (\<lambda>c. rbind (typed_dict c) build_choice_to_provider) (map PDict (map ir_choice ias)) =
     Inr (map Some (map chat_choice ias))"
  by (induction ias) (simp_all add: typed_dict_def choice_to_chat [of flt])

lemma choices_to_ir:
  "list_all (\<lambda>ia. good_completion flt (snd ia)) ias \<Longrightarrow>
   rmap (choice_from_p flt) (map PDict (map chat_choice ias)) = Inr (map ir_choice ias)"
  by (induction ias) (simp_all add: choice_to_ir)

text \<open>
  C20. A response survives the Chat format: written as a Chat completion and read back, a response
  gives exactly itself to validation, for any number of choices that say or call something, with
  any of the four reasons to finish, and any token counts.
\<close>

theorem chat_response_round_trip:
  assumes "list_all (good_completion (float_text env)) as"
  shows "\<exists>p. response_to_provider (response_of ''response'' rid crt mdl (map ir_choice (enumerate 0 as)) (usage_of i j k)) =
      Inr p \<and>
    response_from_provider env p = validate_ir_response (validate_output env) (ir_validators env)
      (response_of ''response'' rid crt mdl (map ir_choice (enumerate 0 as)) (usage_of i j k))"
proof (intro exI conjI)
  let ?p = "response_of ''chat.completion'' rid crt mdl (map chat_choice (enumerate 0 as)) (usage_of i j k)"
  have g: "list_all (\<lambda>ia. good_completion (float_text env) (snd ia)) (enumerate 0 as)"
    using assms by (auto simp: list_all_iff in_set_enumerate_eq)
  have "concat (map (\<lambda>c. case c of None \<Rightarrow> [] | Some d \<Rightarrow> [PDict d]) (map Some ds)) = map PDict ds" for ds
    by (induction ds) simp_all
  then show "response_to_provider (response_of ''response'' rid crt mdl (map ir_choice (enumerate 0 as)) (usage_of i j k)) =
      Inr ?p"
    using choices_to_chat [OF g]
    by (simp add: response_to_provider_def response_of_def typed_dict_def usage_of_def build_provider_usage_def
        token_counts_def push_detail_def or_zero_def comp_def same_names_def del: map_map)
  show "response_from_provider env ?p = validate_ir_response (validate_output env) (ir_validators env)
      (response_of ''response'' rid crt mdl (map ir_choice (enumerate 0 as)) (usage_of i j k))"
    using choices_to_ir [OF g]
    by (simp add: response_from_provider_def response_of_def set_if_given_def usage_of_def build_ir_usage_def
        token_counts_def lift_detail_def or_zero_def del: map_map)
qed

theorem chat_response_round_trip_witness:
  "\<exists>p. response_to_provider (response_of ''response'' ''r'' 7 ''m''
        (map ir_choice (enumerate 0 [\<lparr>said = Some ''hi'', asked = [], why = ''length''\<rparr>])) (usage_of 1 2 3)) = Inr p \<and>
    response_from_provider demo_chat p = Inr (response_of ''response'' ''r'' 7 ''m''
        (map ir_choice (enumerate 0 [\<lparr>said = Some ''hi'', asked = [], why = ''length''\<rparr>])) (usage_of 1 2 3))"
  using chat_response_round_trip [of demo_chat "[\<lparr>said = Some ''hi'', asked = [], why = ''length''\<rparr>]" "''r''" 7 "''m''" 1 2 3]
  by (simp add: demo_chat_def good_completion_def validate_ir_response_def lenient_def)

section \<open>Where a request loses something\<close>

text \<open>Of two system messages, the reader keeps the text of the last one only.\<close>

lemma first_system_message_lost:
  "extract_system_and_messages flt
     [PDict [(''role'', PStr ''system''), (''content'', PStr ''a'')],
      PDict [(''role'', PStr ''system''), (''content'', PStr ''b'')]] = Inr ([], Some ''b'')"
  by (simp add: extract_system_and_messages_def extract_message_def system_text_of_def)

end
