(* ===== verification/AnthropicTrip.thy ===== *)
theory AnthropicTrip
  imports AnthropicConverter ChatRequestTrip
begin

text \<open>
  Properties across the two formats: a Chat conversation sent to an Anthropic provider and read back,
  and the pairing of tool calls and results in the messages that reach the provider.
\<close>

section \<open>A conversation in the Anthropic format\<close>

definition tool_use :: "call \<Rightarrow> pdict" where
  "tool_use c =
     [(''type'', PStr ''tool_use''), (''id'', PStr (callid c)), (''name'', PStr (callname c)),
      (''input'', PDict (callinput c))]"

definition use_answer :: "call \<Rightarrow> pdict" where
  "use_answer c =
     user_message [[(''type'', PStr ''tool_result''), (''tool_use_id'', PStr (callid c)),
                    (''content'', PStr (callresult c))]]"

fun anthropic_turn :: "turn \<Rightarrow> pdict list" where
  "anthropic_turn (System s) = []"
| "anthropic_turn (User s) = [user_message [text_part (PStr s)]]"
| "anthropic_turn (Assistant t cs) =
     [(''role'', PStr ''assistant''), (''content'', PList (map PDict (option_text t @ map tool_use cs)))] #
     map use_answer cs"

text \<open>The IR of the reader differs from that of the Chat reader in the error flag of a result.\<close>

definition flagged_result :: "call \<Rightarrow> pdict" where
  "flagged_result c =
     ir_message ''tool'' [[(''type'', PStr ''tool_result''), (''tool_call_id'', PStr (callid c)),
                         (''result'', PStr (callresult c)), (''is_error'', PBool False)]]"

fun flagged_turn :: "turn \<Rightarrow> pdict list" where
  "flagged_turn (System s) = []"
| "flagged_turn (User s) = [ir_message ''user'' [text_part (PStr s)]]"
| "flagged_turn (Assistant t cs) =
     ir_message ''assistant'' (option_text t @ map ir_call cs) # map flagged_result cs"

section \<open>To the Anthropic format\<close>

lemma text_to_p [simp]: "anthropic_text_to_p (text_part t) = Inr (text_part t)"
  by (simp add: anthropic_text_to_p_def text_part_def keep_metadata_def)

lemma call_to_p [simp]: "anthropic_tool_call_to_p (ir_call c) = Inr (tool_use c)"
  by (simp add: anthropic_tool_call_to_p_def ir_call_def tool_use_def)

lemma calls_to_p:
  "rfold (anthropic_assistant_part policy) (bs, ws, ps) (map (\<lambda>c. PDict (ir_call c)) cs) =
     Inr (bs @ map tool_use cs, ws, ps @ map (\<lambda>c. PDict (ir_call c)) cs)"
  by (induction cs arbitrary: bs ps) (simp_all add: anthropic_assistant_part_def)

lemma assistant_to_p:
  assumes "good_turn flt (Assistant t cs)"
  shows "anthropic_assistant_to_p cap (map PDict (option_text t @ map ir_call cs)) =
    Inr (Some (hd (anthropic_turn (Assistant t cs))), [], map PDict (option_text t @ map ir_call cs))"
  using assms
  by (auto simp: anthropic_assistant_to_p_def option_text_def comp_def calls_to_p anthropic_assistant_part_def
      split: option.splits)

lemma result_to_p [simp]:
  "anthropic_message_to_p cap (tool_result_message (PStr (callid c)) (PStr (callresult c))) =
     Inr ([use_answer c], [], tool_result_message (PStr (callid c)) (PStr (callresult c)))"
  by (simp add: anthropic_message_to_p_def tool_result_message_def ir_message_def anthropic_tool_to_p_def
      is_tool_result_part_def is_typed_def anthropic_tool_result_to_p_def use_answer_def)

lemma results_to_p:
  "rfold (anthropic_item_to_p cap) (ms, ws, items)
     (map (\<lambda>c. PDict (tool_result_message (PStr (callid c)) (PStr (callresult c)))) cs) =
   Inr (ms @ map use_answer cs, ws,
        items @ map (\<lambda>c. PDict (tool_result_message (PStr (callid c)) (PStr (callresult c)))) cs)"
  by (induction cs arbitrary: ms items) (simp_all add: anthropic_item_to_p_def)

lemma turn_to_p:
  assumes "good_turn flt t" "not_system t"
  shows "rfold (anthropic_item_to_p cap) (ms, ws, items) (map PDict (ir_turn t)) =
    Inr (ms @ anthropic_turn t, ws, items @ map PDict (ir_turn t))"
proof (cases t)
  case (Assistant tx cs)
  have "anthropic_message_to_p cap (ir_message ''assistant'' (option_text tx @ map ir_call cs)) =
      Inr ([hd (anthropic_turn t)], [], ir_message ''assistant'' (option_text tx @ map ir_call cs))"
    using assistant_to_p [of flt tx cs cap] assms(1) Assistant
    by (simp add: anthropic_message_to_p_def ir_message_def Let_def)
  with Assistant show ?thesis
    by (simp add: anthropic_item_to_p_def comp_def results_to_p)
qed (use assms in \<open>simp_all add: not_system_def anthropic_item_to_p_def anthropic_message_to_p_def ir_message_def
      anthropic_user_to_p_def anthropic_user_part_def is_message_def\<close>)

lemma turns_to_p:
  "list_all (good_turn flt) ts \<Longrightarrow> list_all not_system ts \<Longrightarrow>
   rfold (anthropic_item_to_p cap) (ms, ws, items) (map PDict (concat (map ir_turn ts))) =
     Inr (ms @ concat (map anthropic_turn ts), ws, items @ map PDict (concat (map ir_turn ts)))"
proof (induction ts arbitrary: ms items)
  case (Cons t ts)
  then show ?case using turn_to_p [of flt t cap ms ws items] by (simp add: rfold_append)
qed simp

section \<open>Back to the IR and to Chat\<close>

lemma uses_to_ir:
  "rmap anthropic_content_part_to_ir (map (\<lambda>c. PDict (tool_use c)) cs) = Inr (map (\<lambda>c. [ir_call c]) cs)"
  by (induction cs)
    (simp_all add: anthropic_content_part_to_ir_def anthropic_tool_call_to_ir_def tool_use_def ir_call_def keep_metadata_def)

lemma text_to_ir:
  "anthropic_content_part_to_ir (PDict (text_part (PStr s))) = Inr [text_part (PStr s)]"
  by (simp add: anthropic_content_part_to_ir_def anthropic_text_to_ir_def text_part_def keep_metadata_def)

lemma answer_of_use_to_ir: "anthropic_message_to_ir (PDict (use_answer c)) = Inr [flagged_result c]"
  by (simp add: anthropic_message_to_ir_def use_answer_def user_message_def anthropic_content_part_to_ir_def
      anthropic_tool_result_to_ir_def keep_metadata_def split_tool_results_def is_tool_result_part_def is_typed_def
      flagged_result_def)

lemma answers_of_uses_to_ir:
  "rmap anthropic_message_to_ir (map (\<lambda>c. PDict (use_answer c)) cs) = Inr (map (\<lambda>c. [flagged_result c]) cs)"
  by (induction cs) (simp_all add: answer_of_use_to_ir)

lemma text_no_result [simp]: "\<not> is_tool_result_part (PDict (text_part t))"
  by (simp add: is_tool_result_part_def is_typed_def text_part_def)

lemma turn_from_p:
  "rmap anthropic_message_to_ir (map PDict (anthropic_turn t)) = Inr (map (\<lambda>m. [m]) (flagged_turn t))"
proof (cases t)
  case (Assistant tx cs)
  have "concat (map (\<lambda>c. [ir_call c]) cs) = map ir_call cs" by (induction cs) simp_all
  then have "anthropic_message_to_ir (PDict (hd (anthropic_turn t))) = Inr [hd (flagged_turn t)]"
    using Assistant
    by (auto simp: anthropic_message_to_ir_def option_text_def comp_def uses_to_ir text_to_ir rmap_append
        split_tool_results_def ir_message_def split: option.splits)
  with Assistant show ?thesis by (simp add: comp_def answers_of_uses_to_ir)
qed (simp_all add: anthropic_message_to_ir_def user_message_def text_to_ir split_tool_results_def ir_message_def)

lemma turns_from_p:
  "anthropic_messages_to_ir (map PDict (concat (map anthropic_turn ts))) = Inr (concat (map flagged_turn ts))"
proof -
  have "rmap anthropic_message_to_ir (map PDict (concat (map anthropic_turn ts))) =
      Inr (map (\<lambda>m. [m]) (concat (map flagged_turn ts)))"
  proof (induction ts)
    case (Cons t ts)
    then show ?case using turn_from_p [of t] by (simp add: rmap_append)
  qed simp
  moreover have "concat (map (\<lambda>m. [m]) xs) = xs" for xs :: "pdict list" by (induction xs) simp_all
  ultimately show ?thesis by (simp add: anthropic_messages_to_ir_def del: map_concat)
qed

lemma flagged_to_chat:
  "ir_message_to_p (flagged_result c) st = Inr ([chat_answer c], st)"
  by (simp add: ir_message_to_p_def flagged_result_def ir_message_def ir_tool_messages_to_p_def
      is_tool_result_part_def is_typed_def convert_tool_result_with_packing_def has_multimodal_content_def
      ir_tool_result_to_p_def chat_answer_def)

lemma flagged_is_message [simp]: "is_message (PDict (flagged_result c))"
  by (simp add: flagged_result_def)

lemma flagged_results_to_chat:
  "rfold ir_item_to_p (ms, st) (map (\<lambda>c. PDict (flagged_result c)) cs) = Inr (ms @ map chat_answer cs, st)"
  by (induction cs arbitrary: ms) (simp_all add: ir_item_to_p_def flagged_to_chat)

lemma flagged_turn_to_chat:
  assumes "good_turn flt t" "not_system t"
  shows "rfold ir_item_to_p (ms, st) (map PDict (flagged_turn t)) = Inr (ms @ chat_turn t, st)"
proof (cases t)
  case (Assistant tx cs)
  have "ir_item_to_p (ms, st) (PDict (ir_message ''assistant'' (option_text tx @ map ir_call cs))) =
      Inr (ms @ [chat_assistant tx cs], st)"
    using assistant_to_chat [of flt tx cs st] assms(1) Assistant
    by (simp add: ir_item_to_p_def ir_message_to_p_def ir_message_def is_message_def)
  with Assistant show ?thesis using flagged_results_to_chat by (simp add: comp_def)
next
  case (User s)
  then show ?thesis using turn_to_chat [of flt "User s" ms st] by simp
qed (use assms in \<open>simp add: not_system_def\<close>)

lemma flagged_turns_to_chat:
  "list_all (good_turn flt) ts \<Longrightarrow> list_all not_system ts \<Longrightarrow>
   rfold ir_item_to_p (ms, st) (map PDict (concat (map flagged_turn ts))) = Inr (ms @ concat (map chat_turn ts), st)"
proof (induction ts arbitrary: ms)
  case (Cons t ts)
  then show ?case using flagged_turn_to_chat [of flt t ms st] by (simp add: rfold_append)
qed simp

section \<open>Properties\<close>



section \<open>Every tool call that is sent is answered\<close>

text \<open>A block of a kind in the content of a message, by the value of its id field.\<close>

definition has_block :: "pdict \<Rightarrow> string \<Rightarrow> string \<Rightarrow> pyval \<Rightarrow> bool" where
  "has_block m kind key v \<longleftrightarrow>
     (\<exists>bs b. dget m ''content'' = PList bs \<and> PDict b \<in> set bs \<and> dget b ''type'' = PStr kind \<and> dget b key = v)"

lemma has_block_ids:
  assumes "extract_part_ids (msg_content m) t k = Inr S" and "v \<in> set S"
  obtains p where "py_iter (msg_content m) = Inr p"
    "\<exists>d. PDict d \<in> set p \<and> dget d ''type'' = PStr t \<and> dget d k = v"
proof -
  obtain items where i: "py_iter (msg_content m) = Inr items" "pset_of (List.map_filter (part_id_of t k) items) = Inr S"
    using assms(1) by (auto simp: extract_part_ids_def elim!: rbind_InrE)
  with assms(2) have "v \<in> set (List.map_filter (part_id_of t k) items)" using pset_of_subset by blast
  then obtain p where "p \<in> set items" "part_id_of t k p = Some v" by (auto simp: List.map_filter_def)
  moreover from this(2) obtain d where "p = PDict d" "dget d ''type'' = PStr t" "dget d k = v"
    by (cases p) (simp_all split: if_splits)
  ultimately have "\<exists>d. PDict d \<in> set items \<and> dget d ''type'' = PStr t \<and> dget d k = v" by blast
  with i(1) that show thesis by blast
qed

lemma assistant_blocks:
  "rfold (anthropic_assistant_part policy) (bs, ws, ps) parts = Inr (bs', ws', ps') \<Longrightarrow>
   b \<in> set bs' \<Longrightarrow> b \<notin> set bs \<Longrightarrow> dget b ''type'' = PStr ''tool_use'' \<Longrightarrow>
   \<exists>p. PDict p \<in> set parts \<and> dget p ''type'' = PStr ''tool_call'' \<and> dget p ''tool_call_id'' = dget b ''id''"
proof (induction parts arbitrary: bs ws ps)
  case (Cons part parts)
  then obtain p where p: "part = PDict p"
    by (cases "as_dict part") (auto simp: anthropic_assistant_part_def)
  from Cons.prems(1) obtain bs1 ws1 ps1 where
    s: "anthropic_assistant_part policy (bs, ws, ps) part = Inr (bs1, ws1, ps1)"
    "rfold (anthropic_assistant_part policy) (bs1, ws1, ps1) parts = Inr (bs', ws', ps')"
    by (auto elim!: rbind_InrE)
  show ?case
  proof (cases "b \<in> set bs1")
    case False
    from Cons.IH [OF s(2) Cons.prems(2) False Cons.prems(4)] show ?thesis by auto
  next
    case True
    have other: "dget q ''type'' \<noteq> PStr ''tool_use''"
      if "anthropic_text_to_p p = Inr q \<or> q = anthropic_reasoning_part_to_p p \<or> anthropic_refusal_to_p p = Inr q" for q
      using that by (auto simp: anthropic_text_to_p_def anthropic_reasoning_part_to_p_def anthropic_refusal_to_p_def
          text_part_def keep_metadata_def keep_signature_def elim!: rbind_InrE split: if_splits)
    have call: "dget q ''id'' = dget p ''tool_call_id''" if "anthropic_tool_call_to_p p = Inr q" for q
      using that by (auto simp: anthropic_tool_call_to_p_def Let_def ditem_Inr_iff dget_or_def
          split: if_splits option.splits elim!: rbind_InrE)
    from s(1) True Cons.prems(3,4) have "is_tool_call_part part \<and> anthropic_tool_call_to_p p = Inr b"
      using other by (auto simp: p anthropic_assistant_part_def Let_def split: if_splits elim!: rbind_InrE)
    with call show ?thesis by (auto simp: p is_tool_call_part_def is_typed_def)
  qed
qed simp


lemma tool_result_block:
  assumes "anthropic_tool_result_to_p p = Inr b"
  shows "dget b ''type'' = PStr ''tool_result'' \<and> dget b ''tool_use_id'' = dget p ''tool_call_id''"
proof -
  let ?base = "\<lambda>i c. [(''type'', PStr ''tool_result''), (''tool_use_id'', i), (''content'', c)]"
  let ?full = "\<lambda>i c. if dget p ''is_error'' \<noteq> PNone
    then dset (?base i c) ''is_error'' (dget p ''is_error'') else ?base i c"
  from assms obtain i c where i: "ditem p ''tool_call_id'' = Inr i"
    and c: "copy_fields [(''provider_metadata'', ''_provider_metadata'')] p (?full i c) = b"
    unfolding anthropic_tool_result_to_p_def Let_def by (elim rbind_InrE) (simp only: sum.inject)
  define r where "r = ?full i c"
  have r: "r = ?base i c \<or> r = dset (?base i c) ''is_error'' (dget p ''is_error'')"
    by (simp add: r_def)
  have b: "b = copy_fields [(''provider_metadata'', ''_provider_metadata'')] p r"
    unfolding r_def by (rule c [symmetric])
  have "map_of b k = map_of r k" if "k \<noteq> ''_provider_metadata''" for k
    using that by (simp add: b split: option.splits)
  with r i show ?thesis by (auto simp: dget_or_def ditem_Inr_iff)
qed

lemma tool_blocks:
  "rmap (\<lambda>part. case as_dict part of Some p \<Rightarrow> anthropic_tool_result_to_p p | None \<Rightarrow> Inl TypeError)
     (filter is_tool_result_part parts) = Inr bs \<Longrightarrow> PDict p \<in> set parts \<Longrightarrow>
   dget p ''type'' = PStr ''tool_result'' \<Longrightarrow>
   \<exists>b \<in> set bs. dget b ''type'' = PStr ''tool_result'' \<and> dget b ''tool_use_id'' = dget p ''tool_call_id''"
proof (induction parts arbitrary: bs)
  case (Cons part parts)
  show ?case
  proof (cases "part = PDict p")
    case True
    then have "is_tool_result_part part" using Cons.prems(3) by (simp add: is_tool_result_part_def is_typed_def)
    with Cons.prems(1) True obtain b where "anthropic_tool_result_to_p p = Inr b" "b \<in> set bs"
      by (auto elim!: rbind_InrE)
    with tool_result_block show ?thesis by blast
  next
    case False
    with Cons.prems(2) have "PDict p \<in> set parts" by auto
    moreover have "\<exists>bs1. rmap (\<lambda>part. case as_dict part of Some p \<Rightarrow> anthropic_tool_result_to_p p | None \<Rightarrow> Inl TypeError)
        (filter is_tool_result_part parts) = Inr bs1 \<and> set bs1 \<subseteq> set bs"
      using Cons.prems(1) by (cases "is_tool_result_part part") (auto elim!: rbind_InrE)
    ultimately show ?thesis using Cons.IH Cons.prems(3) by blast
  qed
qed simp

text \<open>The messages that are sent are those of the converted items.\<close>

definition converts :: "'r reasoning_cap option \<Rightarrow> pyval \<Rightarrow> pdict list \<Rightarrow> bool" where
  "converts cap item out \<longleftrightarrow>
     (\<exists>d ws d'. item = PDict d \<and> dget d ''role'' \<noteq> PStr ''system'' \<and>
        anthropic_message_to_p cap d = Inr (out, ws, d'))"

lemma sent_items:
  "rfold (anthropic_item_to_p cap) (ms, ws, items) is = Inr (ms', ws', items') \<Longrightarrow> list_all is_message is \<Longrightarrow>
   set ms \<subseteq> set ms' \<and> (\<forall>m \<in> set ms'. m \<in> set ms \<or> (\<exists>i \<in> set is. \<exists>out. converts cap i out \<and> m \<in> set out)) \<and>
   (\<forall>d. PDict d \<in> set is \<longrightarrow> dget d ''role'' \<noteq> PStr ''system'' \<longrightarrow>
      (\<exists>out. converts cap (PDict d) out \<and> set out \<subseteq> set ms'))"
proof (induction "is" arbitrary: ms ws items)
  case (Cons i "is")
  then obtain d where d: "i = PDict d" by (cases i) (auto simp: is_message_def)
  from Cons.prems(1) obtain ms1 ws1 items1 where
    s: "anthropic_item_to_p cap (ms, ws, items) i = Inr (ms1, ws1, items1)"
    "rfold (anthropic_item_to_p cap) (ms1, ws1, items1) is = Inr (ms', ws', items')"
    by (auto elim!: rbind_InrE)
  note rest = Cons.IH [OF s(2)]
  show ?case
  proof (cases "dget d ''role'' = PStr ''system''")
    case True
    with s(1) Cons.prems(2) d have "ms1 = ms" by (simp add: anthropic_item_to_p_def)
    with rest Cons.prems(2) True d show ?thesis unfolding list.set by fastforce
  next
    case False
    with s(1) Cons.prems(2) d obtain out ws2 d' where
      o: "anthropic_message_to_p cap d = Inr (out, ws2, d')" "ms1 = ms @ out"
      by (auto simp: anthropic_item_to_p_def elim!: rbind_InrE)
    then have c: "converts cap i out" using False d by (auto simp: converts_def)
    have sub: "set ms \<union> set out \<subseteq> set ms'" using rest Cons.prems(2) o(2) by simp
    have "m \<in> set ms \<or> (\<exists>i' \<in> set (i # is). \<exists>out. converts cap i' out \<and> m \<in> set out)" if "m \<in> set ms'" for m
    proof -
      from rest Cons.prems(2) that have "m \<in> set ms1 \<or> (\<exists>i' \<in> set is. \<exists>out. converts cap i' out \<and> m \<in> set out)" by simp
      with c o(2) show ?thesis unfolding list.set by fastforce
    qed
    moreover have "\<exists>out. converts cap (PDict e) out \<and> set out \<subseteq> set ms'"
      if "PDict e \<in> set (i # is)" "dget e ''role'' \<noteq> PStr ''system''" for e
    proof (cases "PDict e = i")
      case True
      with c sub show ?thesis by blast
    next
      case False
      with rest Cons.prems(2) that show ?thesis by simp
    qed
    ultimately show ?thesis using sub by blast
  qed
qed simp

lemma converted_uses:
  assumes "converts cap (PDict d) out" and "m \<in> set out" and "dget m ''role'' = PStr ''assistant''"
    and "has_block m ''tool_use'' ''id'' v"
  shows "dget d ''role'' = PStr ''assistant'' \<and>
    (\<exists>parts p. py_iter (msg_content d) = Inr parts \<and> PDict p \<in> set parts \<and>
       dget p ''type'' = PStr ''tool_call'' \<and> dget p ''tool_call_id'' = v)"
proof -
  from assms(1) obtain ws d' where c: "anthropic_message_to_p cap d = Inr (out, ws, d')" "dget d ''role'' \<noteq> PStr ''system''"
    by (auto simp: converts_def)
  have nu: "dget (user_message bs) ''role'' = PStr ''user''" for bs by (simp add: user_message_def)
  from c assms(2,3) have a: "dget d ''role'' = PStr ''assistant''"
    by (auto simp: anthropic_message_to_p_def Let_def anthropic_user_to_p_def anthropic_tool_to_p_def nu
        split: if_splits elim!: rbind_InrE)
  from c a obtain parts r ws1 parts' where
    p: "py_iter (msg_content d) = Inr parts" "anthropic_assistant_to_p cap parts = Inr (r, ws1, parts')"
    "out = (case r of Some x \<Rightarrow> [x] | None \<Rightarrow> [])"
    by (auto simp: anthropic_message_to_p_def msg_content_def Let_def elim!: rbind_InrE)
  with assms(2) have "r = Some m" by (auto split: option.splits)
  with p(2) obtain bs ws2 where
    b: "rfold (anthropic_assistant_part (unsigned_policy cap)) ([], [], []) parts = Inr (bs, ws2, parts')"
    "dget m ''content'' = PList (map PDict bs)"
    by (auto simp: anthropic_assistant_to_p_def split: if_splits elim!: rbind_InrE)
  from assms(4) b(2) obtain q where "q \<in> set bs" "dget q ''type'' = PStr ''tool_use''" "dget q ''id'' = v"
    by (auto simp: has_block_def)
  with assistant_blocks [OF b(1), of q] p(1) a show ?thesis by auto
qed

lemma converted_results:
  assumes "converts cap (PDict d) out" and "dget d ''role'' = PStr ''tool''"
    and "py_iter (msg_content d) = Inr parts" and "PDict p \<in> set parts" and "dget p ''type'' = PStr ''tool_result''"
  shows "\<exists>m \<in> set out. dget m ''role'' = PStr ''user'' \<and> has_block m ''tool_result'' ''tool_use_id'' (dget p ''tool_call_id'')"
proof -
  from assms obtain bs where
    b: "rmap (\<lambda>part. case as_dict part of Some p \<Rightarrow> anthropic_tool_result_to_p p | None \<Rightarrow> Inl TypeError)
      (filter is_tool_result_part parts) = Inr bs" "out = [user_message bs]"
    by (auto simp: converts_def anthropic_message_to_p_def anthropic_tool_to_p_def msg_content_def Let_def elim!: rbind_InrE)
  from tool_blocks [OF b(1) assms(4,5)] b(2) show ?thesis by (fastforce simp: user_message_def has_block_def)
qed

lemma repaired_call_ids:
  assumes "fix_orphaned_tool_calls_ir enum p msgs = Inr (out, logs)" and "\<And>S. set (enum S) = set S"
    and "d \<in> set out" and "dget d ''role'' = PStr ''assistant''"
  shows "\<exists>S. call_ids d = Inr S"
proof -
  obtain known answered where c: "collect_ir_tool_ids msgs = Inr (known, answered)"
    "out = concat (map (emitted enum known answered p) msgs)" using fix_output [OF assms(1,2)] by blast
  from assms(3) c(2) obtain m where m: "m \<in> set msgs" "d \<in> set (emitted enum known answered p m)" by auto
  with emitted_tool_iff [OF m(2)] assms(4) have "d = m" by simp
  with collect_ids_defined(1) [OF c(1) [unfolded collect_ir_tool_ids_def] m(1)] assms(4) show ?thesis by simp
qed

text \<open>
  C7. Every tool call that reaches an Anthropic provider is answered: when the messages of a request
  are repaired and converted without error, each \<open>tool_use\<close> block with an id in a sent assistant
  message has a \<open>tool_result\<close> block with that id in a sent user message, whatever the messages were.
\<close>

theorem sent_tool_use_answered:
  assumes "fix_orphaned_tool_calls_ir enum placeholder messages = Inr (repaired, logs)"
    and "anthropic_messages_to_p cap (map PDict repaired) = Inr (sent, ws, left)"
    and "\<forall>S. set (enum S) = set S" and "list_all (\<lambda>m. is_message (PDict m)) repaired"
    and "m \<in> set sent" and "dget m ''role'' = PStr ''assistant''" and "has_block m ''tool_use'' ''id'' v"
    and "py_truthy v" and "is_str v"
  shows "\<exists>r \<in> set sent. dget r ''role'' = PStr ''user'' \<and> has_block r ''tool_result'' ''tool_use_id'' v"
proof -
  have run: "rfold (anthropic_item_to_p cap) ([], [], []) (map PDict repaired) = Inr (sent, ws, left)"
    using assms(2) by (simp add: anthropic_messages_to_p_def)
  note items = sent_items [OF run]
  have ok: "list_all is_message (map PDict repaired)" using assms(4) by (simp add: list_all_iff)
  from items [OF ok] assms(5) obtain d out where d: "d \<in> set repaired" "converts cap (PDict d) out" "m \<in> set out"
    by auto
  from converted_uses [OF d(2,3) assms(6,7)] obtain parts p where
    a: "dget d ''role'' = PStr ''assistant''" "py_iter (msg_content d) = Inr parts" "PDict p \<in> set parts"
    "dget p ''type'' = PStr ''tool_call''" "dget p ''tool_call_id'' = v" by blast
  from assms(9) obtain s where s: "v = PStr s" by (auto simp: is_str_iff)
  have "\<exists>S. call_ids d = Inr S" using repaired_call_ids [OF assms(1) _ d(1) a(1)] assms(3) by blast
  then obtain S where S: "call_ids d = Inr S" ..
  have "v \<in> set (List.map_filter (part_id_of ''tool_call'' ''tool_call_id'') parts)"
    using a(3,4,5) assms(8) by (force simp: List.map_filter_def)
  with S a(2) have "ids_in (call_ids d) v"
    using pset_of_mem [of _ S v] by (auto simp: call_ids_def extract_part_ids_def ids_in_def intro: pset_mem_member)
  with d(1) a(1) have "calls repaired v" by (auto simp: calls_def)
  with fix_paired [OF assms(1)] assms(3) have "answers repaired v" by (auto simp: paired_def)
  then obtain r T where r: "r \<in> set repaired" "dget r ''role'' = PStr ''tool''" "result_ids r = Inr T" "pset_mem v T"
    by (auto simp: answers_def ids_in_iff)
  from r(4) s have "v \<in> set T" by (auto simp: pset_mem_iff)
  from has_block_ids [OF r(3) [unfolded result_ids_def] this] obtain ps q where
    q: "py_iter (msg_content r) = Inr ps" "PDict q \<in> set ps" "dget q ''type'' = PStr ''tool_result''"
    "dget q ''tool_call_id'' = v" by blast
  from items [OF ok] r(1,2) obtain out' where "converts cap (PDict r) out'" "set out' \<subseteq> set sent" by auto
  with converted_results [OF _ r(2) q(1-3)] q(4) show ?thesis by blast
qed


definition orphan_call :: pdict where
  "orphan_call = ir_message ''assistant'' [[(''type'', PStr ''tool_call''), (''tool_call_id'', PStr ''a''), (''tool_name'', PStr ''ls'')]]"

theorem sent_tool_use_answered_witness:
  "\<exists>repaired logs sent ws left. fix_orphaned_tool_calls_ir id ''none'' [orphan_call] = Inr (repaired, logs) \<and>
     anthropic_messages_to_p (None :: int reasoning_cap option) (map PDict repaired) = Inr (sent, ws, left) \<and>
     (\<exists>r \<in> set sent. dget r ''role'' = PStr ''user'' \<and> has_block r ''tool_result'' ''tool_use_id'' (PStr ''a''))"
proof -
  let ?repaired = "[orphan_call, synthetic_result ''none'' (PStr ''a'')]"
  let ?use = "[(''role'', PStr ''assistant''), (''content'', PList [PDict [(''type'', PStr ''tool_use''),
    (''id'', PStr ''a''), (''name'', PStr ''ls''), (''input'', PDict [])]])]"
  have f: "\<exists>logs. fix_orphaned_tool_calls_ir id ''none'' [orphan_call] = Inr (?repaired, logs)"
    by (simp add: fix_orphaned_tool_calls_ir_def collect_ir_tool_ids_def collect_step_def call_ids_def msg_content_def
        extract_part_ids_def orphan_call_def ir_message_def List.map_filter_def pset_of_def pset_add_def pset_mem_def
        pset_union_def fix_step_def keep_step_def pset_diff_def log_orphan_warnings_def py_join_def Let_def)
  then obtain logs where f: "fix_orphaned_tool_calls_ir id ''none'' [orphan_call] = Inr (?repaired, logs)" ..
  have "\<exists>sent left. anthropic_messages_to_p (None :: int reasoning_cap option) (map PDict ?repaired) = Inr (sent, [], left) \<and>
      ?use \<in> set sent"
    by (simp add: anthropic_messages_to_p_def anthropic_item_to_p_def is_message_def orphan_call_def ir_message_def
        synthetic_result_def anthropic_message_to_p_def anthropic_assistant_to_p_def anthropic_assistant_part_def
        is_text_part_def is_tool_call_part_def is_typed_def anthropic_tool_call_to_p_def anthropic_tool_to_p_def
        is_tool_result_part_def anthropic_tool_result_to_p_def Let_def)
  then obtain sent left where s: "anthropic_messages_to_p (None :: int reasoning_cap option) (map PDict ?repaired) =
      Inr (sent, [], left)" "?use \<in> set sent" by blast
  have "has_block ?use ''tool_use'' ''id'' (PStr ''a'')" by (simp add: has_block_def)
  from sent_tool_use_answered [OF f s(1) _ _ s(2) _ this] f s(1) show ?thesis
    by (auto simp: orphan_call_def ir_message_def synthetic_result_def is_message_def)
qed

end
