(* ===== verification/Transforms.thy ===== *)
theory Transforms
  imports ImageLimit
begin

text \<open>
  \<open>shims/transforms.py\<close>: the transforms a provider shim is made of. A factory that returns a
  closure is the function of its arguments and of the body; a body changed in place is the
  returned body. \<open>NamedTransform\<close> is the wrapper of the function a provider writes itself. \<open>body_transform\<close> and \<open>ir_transform\<close> name the closures the factories build, with
  \<open>run_transform\<close> and \<open>run_ir_transform\<close> for their \<open>__call__\<close>.
\<close>

section \<open>Body transforms\<close>

definition strip_fields :: "string list \<Rightarrow> pdict \<Rightarrow> pdict" where
  "strip_fields keys body = foldl ddel body keys"

definition rename_field :: "string \<Rightarrow> string \<Rightarrow> pdict \<Rightarrow> pdict" where
  "rename_field old new body =
     (if dhas body old then dset (ddel body old) new (dget body old) else body)"

definition set_default :: "pdict \<Rightarrow> string \<times> pyval \<Rightarrow> pdict" where
  "set_default body kv = (if dhas body (fst kv) then body else dset body (fst kv) (snd kv))"

definition set_defaults :: "pdict \<Rightarrow> pdict \<Rightarrow> pdict" where
  "set_defaults defaults body = foldl set_default body defaults"

definition on_messages :: "(pdict \<Rightarrow> pdict) \<Rightarrow> pdict \<Rightarrow> pdict" where
  "on_messages f body =
     (case dget body ''messages'' of
        PList msgs \<Rightarrow>
          if msgs = [] then body
          else dset body ''messages''
                 (PList (map (\<lambda>msg. case msg of PDict d \<Rightarrow> PDict (f d) | _ \<Rightarrow> msg) msgs))
      | _ \<Rightarrow> body)"

definition replace_message_field :: "string \<Rightarrow> pyval \<Rightarrow> pyval \<Rightarrow> pdict \<Rightarrow> pdict" where
  "replace_message_field field old_value new_value =
     on_messages (\<lambda>msg. if py_eq (dget msg field) old_value then dset msg field new_value else msg)"

definition default_message_field :: "string \<Rightarrow> pyval \<Rightarrow> pdict \<Rightarrow> pdict" where
  "default_message_field field dflt =
     on_messages (\<lambda>msg. if dget msg field = PNone then dset msg field dflt else msg)"

datatype body_transform =
    StripFields "string list"
  | RenameField string string
  | SetDefaults pdict
  | ReplaceMessageField string pyval pyval
  | DefaultMessageField string pyval
  | NamedTransform "pdict \<Rightarrow> pdict"

primrec run_transform :: "body_transform \<Rightarrow> pdict \<Rightarrow> pdict" where
  "run_transform (StripFields keys) = strip_fields keys"
| "run_transform (RenameField old new) = rename_field old new"
| "run_transform (SetDefaults defaults) = set_defaults defaults"
| "run_transform (ReplaceMessageField field old_value new_value) =
     replace_message_field field old_value new_value"
| "run_transform (DefaultMessageField field dflt) = default_message_field field dflt"
| "run_transform (NamedTransform f) = f"

definition apply_transforms :: "body_transform list \<Rightarrow> pdict \<Rightarrow> pdict" where
  "apply_transforms transforms body = foldl (\<lambda>b t. run_transform t b) body transforms"

section \<open>IR transforms\<close>

record transform_context =
  ctx_model :: string
  input_modalities :: "string list option"
  request_id :: string

datatype ir_transform = StripNonVisionImages | TruncateImages int | UnwindParallelToolCalls

primrec run_ir_transform :: "ir_transform \<Rightarrow> transform_context \<Rightarrow> pdict \<Rightarrow> pdict res" where
  "run_ir_transform StripNonVisionImages context body =
     (case input_modalities context of
        None \<Rightarrow> Inr body
      | Some ms \<Rightarrow> if ''image'' \<in> set ms then Inr body else strip_images_for_non_vision body)"
| "run_ir_transform (TruncateImages m) context body = truncate_images body m"
| "run_ir_transform UnwindParallelToolCalls context body = unwind_parallel_tool_calls_ir body"

definition apply_ir_transforms ::
  "ir_transform list \<Rightarrow> transform_context \<Rightarrow> pdict \<Rightarrow> pdict res" where
  "apply_ir_transforms transforms context body =
     rfold (\<lambda>b t. run_ir_transform t context b) body transforms"

section \<open>Idempotence\<close>

lemma strip_fields_absent: "k \<in> set keys \<Longrightarrow> \<not> dhas (strip_fields keys body) k"
proof -
  have keep: "\<not> dhas b k \<Longrightarrow> \<not> dhas (foldl ddel b keys) k" for b :: pdict and keys
    by (induction keys arbitrary: b) auto
  show "k \<in> set keys \<Longrightarrow> \<not> dhas (strip_fields keys body) k"
    unfolding strip_fields_def using keep by (induction keys arbitrary: body) auto
qed

lemma strip_fields_noop: "(\<And>k. k \<in> set keys \<Longrightarrow> \<not> dhas body k) \<Longrightarrow> strip_fields keys body = body"
  unfolding strip_fields_def by (induction keys) (auto simp: ddel_absent)

lemma rename_field_twice: "rename_field old new (rename_field old new body) = rename_field old new body"
proof (cases "old = new")
  case True
  have n: "dset (ddel d new) new v = ddel d new @ [(new, v)]" for d :: pdict and v
    by (rule length_dset_new) simp
  have "ddel (ddel d new @ [(new, v)]) new = ddel d new" for d :: pdict and v
    by (induction d) auto
  moreover have "dget (ddel d new @ [(new, v)]) new = v" for d :: pdict and v
    by (induction d) auto
  ultimately show ?thesis using True by (auto simp: rename_field_def n dhas_def)
qed (auto simp: rename_field_def)

lemma set_defaults_has: "k \<in> set (dkeys defaults) \<Longrightarrow> dhas (set_defaults defaults body) k"
proof -
  have keep: "dhas b k \<Longrightarrow> dhas (foldl set_default b ds) k" for b and ds
    by (induction ds arbitrary: b) (auto simp: set_default_def)
  show "k \<in> set (dkeys defaults) \<Longrightarrow> dhas (set_defaults defaults body) k"
    unfolding set_defaults_def
  proof (induction defaults arbitrary: body)
    case (Cons kv ds)
    have "dhas (set_default body kv) (fst kv)" by (simp add: set_default_def)
    with Cons keep show ?case by (cases "k = fst kv") auto
  qed simp
qed

lemma set_defaults_noop: "(\<And>k. k \<in> set (dkeys ds) \<Longrightarrow> dhas body k) \<Longrightarrow> set_defaults ds body = body"
  unfolding set_defaults_def by (induction ds) (auto simp: set_default_def)

lemma dset_same_value: "map_of d k = Some v \<Longrightarrow> dset d k v = d"
  by (induction d) auto

lemma on_messages_twice:
  assumes "\<And>m. f (f m) = f m"
  shows "on_messages f (on_messages f body) = on_messages f body"
proof (cases "dget body ''messages''")
  case (PList msgs)
  define g where "g = (\<lambda>msg. case msg of PDict d \<Rightarrow> PDict (f d) | _ \<Rightarrow> msg)"
  have "g \<circ> g = g" using assms by (auto simp: g_def fun_eq_iff split: pyval.split)
  with PList show ?thesis
    unfolding on_messages_def g_def [symmetric] by (cases "msgs = []") simp_all
qed (simp_all add: on_messages_def)

section \<open>Properties\<close>

text \<open>
  Every body transform that a factory makes is idempotent, as the module promises: applying it to
  its own output changes nothing, also not the order of the fields.
\<close>

theorem body_transform_idempotent:
  assumes "\<And>f. t \<noteq> NamedTransform f"
  shows "run_transform t (run_transform t body) = run_transform t body"
proof (cases t)
  case (StripFields keys)
  then show ?thesis using strip_fields_noop strip_fields_absent by simp
next
  case (SetDefaults defaults)
  then show ?thesis using set_defaults_noop set_defaults_has by simp
next
  case (ReplaceMessageField field old_value new_value)
  then show ?thesis by (auto simp: replace_message_field_def intro!: on_messages_twice)
next
  case (DefaultMessageField field dflt)
  then show ?thesis by (auto simp: default_message_field_def intro!: on_messages_twice)
qed (use assms in \<open>auto simp: rename_field_twice\<close>)

text \<open>
  Every IR transform is idempotent: where it returns a request, it returns that request
  again when applied to it in the same context.
\<close>

theorem ir_transform_idempotent:
  assumes "run_ir_transform t context body = Inr body'" and "\<And>m. t = TruncateImages m \<Longrightarrow> 0 \<le> m"
  shows "run_ir_transform t context body' = Inr body'"
proof (cases t)
  case StripNonVisionImages
  show ?thesis
  proof (cases "strip_images_for_non_vision body = Inr body'")
    case True
    then obtain ps where "request_positions body = Inr ps"
      by (auto simp: strip_images_for_non_vision_def elim!: rbind_InrE)
    then have "request_positions body' = Inr []"
      using replace_images_positions [of body ps placeholder_no_vision "length ps"] True
      by (auto simp: strip_images_for_non_vision_def split: if_splits)
    with assms(1) StripNonVisionImages show ?thesis
      by (auto simp: strip_images_for_non_vision_def split: option.splits)
  qed (use assms(1) StripNonVisionImages in \<open>auto split: option.splits if_splits\<close>)
next
  case (TruncateImages m)
  then obtain ps where ps: "request_positions body = Inr ps"
    using assms(1) by (auto simp: truncate_images_def elim!: rbind_InrE)
  have "\<exists>qs. request_positions body' = Inr qs \<and> int (length qs) \<le> m"
  proof (cases "int (length ps) \<le> m")
    case True
    then show ?thesis using ps assms(1) TruncateImages by (auto simp: truncate_images_def)
  next
    case False
    then show ?thesis
      using ps assms TruncateImages
        replace_images_positions [OF ps placeholders_inert(1), of "nat (int (length ps) - m)"]
      by (auto simp: truncate_images_def)
  qed
  then show ?thesis using TruncateImages by (auto simp: truncate_images_def)
next
  case UnwindParallelToolCalls
  with assms(1) show ?thesis using unwind_settled by simp
qed


theorem ir_transform_idempotent_witness:
  "\<exists>r. run_ir_transform (TruncateImages 1) \<lparr>ctx_model = [], input_modalities = None, request_id = []\<rparr>
     demo_image_request = Inr r
   \<and> run_ir_transform (TruncateImages 1) \<lparr>ctx_model = [], input_modalities = None, request_id = []\<rparr> r = Inr r"
proof -
  let ?c = "\<lparr>ctx_model = [], input_modalities = None, request_id = []\<rparr> :: transform_context"
  obtain r where r: "run_ir_transform (TruncateImages 1) ?c demo_image_request = Inr r"
    using replace_images_positions [OF demo_positions placeholders_inert(1), of 1]
    by (auto simp: truncate_images_def demo_positions)
  show ?thesis using r ir_transform_idempotent [OF r] by auto
qed

end
