(* ===== verification/ProviderShims.thy ===== *)
theory ProviderShims
  imports Transforms Reasoning
begin

text \<open>
  \<open>shims/provider_shim.py\<close>: the shim of a provider and the registry of plugin shims, and the
  functions that the \<open>transforms.py\<close> of a built-in provider declares.

  The built-in shims are read from the YAML files of \<open>shims/providers\<close>: the mapping of their names is
  a parameter. The module's registry is passed and returned. An INFO record has no effect.
\<close>

section \<open>Shims and their registry\<close>

record 'r provider_shim =
  shim_name :: string
  shim_base :: string
  default_base_url :: "string option"
  default_api_key_env :: "string option"
  logo :: "string option"
  model_id_field :: "string option"
  from_transforms :: "body_transform list"
  to_transforms :: "body_transform list"
  ir_transforms :: "ir_transform list"
  reasoning :: "'r reasoning_cap option"

type_synonym 'r shims = "(string \<times> 'r provider_shim) list"

datatype 'r shim_ref = NoShim | Instance "'r provider_shim" | Named string

definition base_types :: "string list" where
  "base_types = [''openai_chat'', ''openai_responses'', ''open_responses'', ''anthropic'', ''google'']"

definition register_shim :: "'r shims \<Rightarrow> 'r provider_shim \<Rightarrow> 'r shims \<Rightarrow> 'r shims res" where
  "register_shim builtin shim registry =
     (if map_of builtin (shim_name shim) \<noteq> None then Inl (ValueError (''built-in shim '' @ repr_str (shim_name shim) @ '' is immutable and cannot be overridden''))
      else Inr (dset registry (shim_name shim) shim))"

definition unregister_shim :: "string \<Rightarrow> 'r shims \<Rightarrow> 'r provider_shim option \<times> 'r shims" where
  "unregister_shim name registry = (map_of registry name, ddel registry name)"

definition get_shim :: "'r shims \<Rightarrow> 'r shims \<Rightarrow> string \<Rightarrow> 'r provider_shim option" where
  "get_shim builtin registry name =
     (case map_of builtin name of Some s \<Rightarrow> Some s | None \<Rightarrow> map_of registry name)"

definition resolve_shim :: "'r shims \<Rightarrow> 'r shims \<Rightarrow> 'r shim_ref \<Rightarrow> 'r provider_shim option" where
  "resolve_shim builtin registry shim =
     (case shim of
        NoShim \<Rightarrow> None
      | Instance s \<Rightarrow> Some s
      | Named name \<Rightarrow>
          (case map_of builtin name of Some s \<Rightarrow> Some s | None \<Rightarrow> map_of registry name))"

definition list_shims :: "'r shims \<Rightarrow> 'r shims \<Rightarrow> 'r provider_shim list" where
  "list_shims builtin registry = map snd builtin @ map snd registry"

definition resolve_base :: "'r shims \<Rightarrow> 'r shims \<Rightarrow> string \<Rightarrow> string" where
  "resolve_base builtin registry name =
     (if name \<in> set base_types then name
      else case (case map_of builtin name of Some s \<Rightarrow> Some s | None \<Rightarrow> map_of registry name) of
          Some shim \<Rightarrow> shim_base shim
        | None \<Rightarrow> name)"

definition reset_registry :: "'r shims \<Rightarrow> 'r shims" where
  "reset_registry registry = []"

text \<open>The calls a plugin or a test can make; a refused registration changes nothing.\<close>

datatype 'r registry_op = Register "'r provider_shim" | Unregister string | Reset

primrec registry_step :: "'r shims \<Rightarrow> 'r shims \<Rightarrow> 'r registry_op \<Rightarrow> 'r shims" where
  "registry_step builtin registry (Register s) =
     (case register_shim builtin s registry of Inr r \<Rightarrow> r | Inl e \<Rightarrow> registry)"
| "registry_step builtin registry (Unregister n) = snd (unregister_shim n registry)"
| "registry_step builtin registry Reset = reset_registry registry"

section \<open>Transforms of the built-in providers\<close>

text \<open>\<open>str.strip\<close> over the code points below 256.\<close>

definition py_space :: "char \<Rightarrow> bool" where
  "py_space c =
     (let n = of_char c :: nat in (9 \<le> n \<and> n \<le> 13) \<or> (28 \<le> n \<and> n \<le> 32) \<or> n = 133 \<or> n = 160)"

definition py_strip :: "string \<Rightarrow> string" where
  "py_strip s = rev (dropWhile py_space (rev (dropWhile py_space s)))"

text \<open>What comes before and after the first occurrence of a separator.\<close>

fun cut_at :: "string \<Rightarrow> string \<Rightarrow> (string \<times> string) option" where
  "cut_at sep [] = (if sep = [] then Some ([], []) else None)"
| "cut_at sep (c # cs) =
     (if starts_with (c # cs) sep then Some ([], drop (length sep) (c # cs))
      else map_option (\<lambda>(a, b). (c # a, b)) (cut_at sep cs))"

lemma cut_at_shorter: "cut_at sep s = Some (a, b) \<Longrightarrow> length b \<le> length s"
  by (induction s arbitrary: a b) (auto split: if_splits)

text \<open>
  The groups of \<open>_THINK_RE.findall(content)\<close> and the text \<open>_THINK_RE.sub("", content)\<close>, for the
  expression \<open><think>(.*?)</think>\<close> with DOTALL: leftmost matches, each up to the first end tag.
\<close>

function think_blocks :: "string \<Rightarrow> string list \<times> string" where
  "think_blocks [] = ([], [])"
| "think_blocks (c # cs) =
     (case (if starts_with (c # cs) ''<think>'' then cut_at ''</think>'' (drop 7 (c # cs)) else None) of
        Some (m, rest) \<Rightarrow> (case think_blocks rest of (gs, t) \<Rightarrow> (m # gs, t))
      | None \<Rightarrow> (case think_blocks cs of (gs, t) \<Rightarrow> (gs, c # t)))"
  by pat_completeness auto
termination
  by (relation "measure length") (auto dest!: cut_at_shorter split: if_splits)

text \<open>A change of the message of every choice.\<close>

definition on_choices :: "(pdict \<Rightarrow> pdict) \<Rightarrow> pdict \<Rightarrow> pdict" where
  "on_choices f body =
     (case dget body ''choices'' of
        PList choices \<Rightarrow>
          dset body ''choices'' (PList (map (\<lambda>choice.
            case choice of
              PDict d \<Rightarrow> (case dget d ''message'' of PDict m \<Rightarrow> PDict (dset d ''message'' (PDict (f m))) | _ \<Rightarrow> choice)
            | _ \<Rightarrow> choice) choices))
      | _ \<Rightarrow> body)"

definition inject_reasoning_split :: "pdict \<Rightarrow> pdict" where
  "inject_reasoning_split body =
     (if dhas body ''thinking'' \<and> \<not> dhas body ''reasoning_split''
      then dset body ''reasoning_split'' (PBool True) else body)"

definition think_message :: "pdict \<Rightarrow> pdict" where
  "think_message message =
     (if dhas message ''reasoning_content'' then message
      else case dget message ''content'' of
          PStr content \<Rightarrow>
            (case think_blocks content of (matches, rest) \<Rightarrow>
               if matches \<noteq> [] then
                 dset (dset message ''reasoning_content'' (PStr (join_with [CHR 0x0A] (map py_strip matches))))
                   ''content'' (PStr (py_strip rest))
               else message)
        | _ \<Rightarrow> message)"

definition parse_think_tags :: "pdict \<Rightarrow> pdict" where
  "parse_think_tags = on_choices think_message"

definition reasoning_message :: "pdict \<Rightarrow> pdict" where
  "reasoning_message message =
     (if dhas message ''reasoning'' \<and> \<not> dhas message ''reasoning_content''
      then dset (ddel message ''reasoning'') ''reasoning_content'' (dget message ''reasoning'') else message)"

definition rename_reasoning :: "pdict \<Rightarrow> pdict" where
  "rename_reasoning = on_choices reasoning_message"

definition qwen_to_transforms :: "body_transform list" where
  "qwen_to_transforms = [StripFields [''frequency_penalty'', ''logit_bias'']]"

definition moonshot_to_transforms :: "body_transform list" where
  "moonshot_to_transforms = [StripFields [''logprobs'', ''top_logprobs'', ''logit_bias'', ''seed'']]"

definition deepseek_to_transforms :: "body_transform list" where
  "deepseek_to_transforms = [StripFields [''n'', ''logit_bias'', ''seed'']]"

definition zhipu_to_transforms :: "body_transform list" where
  "zhipu_to_transforms =
     [StripFields [''n'', ''presence_penalty'', ''frequency_penalty'', ''logprobs'', ''top_logprobs'',
        ''logit_bias'', ''seed'']]"

definition minimax_to_transforms :: "body_transform list" where
  "minimax_to_transforms =
     [StripFields [''logprobs'', ''top_logprobs'', ''seed'', ''stop''], NamedTransform inject_reasoning_split]"

definition minimax_from_transforms :: "body_transform list" where
  "minimax_from_transforms = [NamedTransform parse_think_tags]"

definition openrouter_from_transforms :: "body_transform list" where
  "openrouter_from_transforms = [NamedTransform rename_reasoning]"

section \<open>Lemmas\<close>

lemma registry_disjoint:
  assumes "\<forall>n. n \<in> set (dkeys registry) \<longrightarrow> map_of builtin n = None"
  shows "n \<in> set (dkeys (registry_step builtin registry op)) \<Longrightarrow> map_of builtin n = None"
proof (cases op)
  case (Register s)
  have "set (dkeys (dset registry (shim_name s) s)) \<subseteq> insert (shim_name s) (set (dkeys registry))"
    unfolding dset_def update_keys by auto
  then show "n \<in> set (dkeys (registry_step builtin registry op)) \<Longrightarrow> map_of builtin n = None"
    using assms Register by (auto simp: register_shim_def split: if_splits)
next
  case (Unregister m)
  have "set (dkeys (ddel registry m)) \<subseteq> set (dkeys registry)"
    unfolding ddel_def delete_keys by auto
  then show "n \<in> set (dkeys (registry_step builtin registry op)) \<Longrightarrow> map_of builtin n = None"
    using assms Unregister by (auto simp: unregister_shim_def)
qed (simp add: reset_registry_def)

lemma on_choices_stream:
  assumes "\<And>c d. dget body ''choices'' = PList cs \<Longrightarrow> c \<in> set cs \<Longrightarrow> c = PDict d \<Longrightarrow> \<not> is_dict (dget d ''message'')"
    and "dget body ''choices'' = PList cs"
  shows "on_choices f body = body"
proof -
  have "map (\<lambda>choice. case choice of
              PDict d \<Rightarrow> (case dget d ''message'' of PDict m \<Rightarrow> PDict (dset d ''message'' (PDict (f m))) | _ \<Rightarrow> choice)
            | _ \<Rightarrow> choice) cs = cs"
    by (rule map_idI) (auto split: pyval.split dest!: assms(1) [OF assms(2)])
  moreover have "map_of body ''choices'' = Some (PList cs)"
    using assms(2) by (auto simp: dget_or_def split: option.splits)
  ultimately show ?thesis using assms(2) by (simp add: on_choices_def dset_same_value)
qed

section \<open>Properties\<close>

lemma registry_names:
  assumes "\<forall>(n, s) \<in> set registry. shim_name s = n"
  shows "\<forall>(n, s) \<in> set (registry_step builtin registry op). shim_name s = n"
proof (cases op)
  case (Register s)
  have "set (dset registry k v) \<subseteq> insert (k, v) (set registry)" for k and v :: "'a provider_shim"
    by (induction registry) (auto split: if_splits)
  then have "\<forall>(n, t) \<in> set (dset registry (shim_name s) s). shim_name t = n" using assms by blast
  then show ?thesis using assms Register by (simp add: register_shim_def)
next
  case (Unregister m)
  have "set (ddel registry m) \<subseteq> set registry" by (induction registry) (auto split: if_splits)
  then show ?thesis using assms Unregister by (auto simp: unregister_shim_def)
qed (simp add: reset_registry_def)

lemma registry_distinct:
  "distinct (dkeys registry) \<Longrightarrow> distinct (dkeys (registry_step builtin registry op))"
  by (cases op) (auto simp: register_shim_def unregister_shim_def reset_registry_def ddel_def distinct_delete
      simp del: map_append split: if_splits)

text \<open>
  Whatever plugins register, unregister or reset, every listed shim is the one that its own name
  resolves to: a plugin never shadows a built-in shim or another plugin.
\<close>

theorem listed_shims_resolve:
  assumes "distinct (dkeys builtin)" and "\<forall>(n, s) \<in> set builtin. shim_name s = n"
    and "s \<in> set (list_shims builtin (foldl (registry_step builtin) [] ops))"
  shows "resolve_shim builtin (foldl (registry_step builtin) [] ops) (Named (shim_name s)) = Some s"
proof -
  define reg where "reg = foldl (registry_step builtin) [] ops"
  have "distinct (dkeys reg) \<and> (\<forall>(n, s) \<in> set reg. shim_name s = n) \<and>
        (\<forall>n. n \<in> set (dkeys reg) \<longrightarrow> map_of builtin n = None)"
    unfolding reg_def
  proof (induction ops rule: rev_induct)
    case (snoc op ops)
    then show ?case
      using registry_distinct [of "foldl (registry_step builtin) [] ops" builtin op]
        registry_names [of "foldl (registry_step builtin) [] ops" builtin op]
        registry_disjoint [of "foldl (registry_step builtin) [] ops" builtin _ op] by simp
  qed simp
  then have reg: "distinct (dkeys reg)" "\<forall>(n, s) \<in> set reg. shim_name s = n"
      "\<forall>n. n \<in> set (dkeys reg) \<longrightarrow> map_of builtin n = None" by auto
  from assms(3) obtain n where "(n, s) \<in> set builtin \<or> (n, s) \<in> set reg"
    unfolding reg_def [symmetric] list_shims_def by auto blast+
  then show ?thesis
    unfolding reg_def [symmetric]
  proof
    assume b: "(n, s) \<in> set builtin"
    moreover have "map_of builtin n = Some s" using b assms(1) by simp
    ultimately show "resolve_shim builtin reg (Named (shim_name s)) = Some s"
      using assms(2) by (auto simp: resolve_shim_def)
  next
    assume r: "(n, s) \<in> set reg"
    moreover have "map_of reg n = Some s" using r reg(1) by simp
    moreover have "map_of builtin n = None" using r reg(3) by force
    ultimately show "resolve_shim builtin reg (Named (shim_name s)) = Some s"
      using reg(2) by (auto simp: resolve_shim_def)
  qed
qed

end
