(* ===== verification/Capabilities.thy ===== *)
theory Capabilities
  imports ProviderShims StreamContext
begin

text \<open>
  \<open>capabilities.py\<close>: what a conversion enforces of the model whatever the dialect of the provider. The
  capability that \<open>enforce_reasoning\<close> puts into the options of the context is no JSON value; it is the
  result here, and the converters take it as an argument. A request changed in place is the result.
\<close>

definition enforce_reasoning :: "'r provider_shim option \<Rightarrow> 'r reasoning_cap option \<Rightarrow> 'r reasoning_cap option" where
  "enforce_reasoning resolved cap =
     (case resolved of
        None \<Rightarrow> cap
      | Some shim \<Rightarrow> (case reasoning shim of None \<Rightarrow> cap | Some c \<Rightarrow> Some c))"

definition reasoning_ladder :: "string list" where
  "reasoning_ladder = [''minimal'', ''low'', ''medium'', ''high'', ''xhigh'', ''max'', ''ultra'']"

text \<open>The dict \<open>rank\<close>.\<close>

definition ladder_rank :: "(string \<times> int) list" where
  "ladder_rank = zip reasoning_ladder (map int [0..<length reasoning_ladder])"

definition rank_at :: "string \<Rightarrow> int" where
  "rank_at value = (case map_of ladder_rank value of Some i \<Rightarrow> i | None \<Rightarrow> 0)"

text \<open>\<open>min\<close> with the key \<open>(abs(rank[value] - rank[requested]), rank[value])\<close>: the first of the least.\<close>

definition closer :: "string \<Rightarrow> string \<Rightarrow> string \<Rightarrow> bool" where
  "closer requested a b =
     (let da = \<bar>rank_at a - rank_at requested\<bar>; db = \<bar>rank_at b - rank_at requested\<bar> in
      da < db \<or> (da = db \<and> rank_at a < rank_at b))"

definition nearest :: "string \<Rightarrow> string \<Rightarrow> string list \<Rightarrow> string" where
  "nearest requested first others =
     foldl (\<lambda>best v. if closer requested v best then v else best) first others"

definition level_warning :: "string \<Rightarrow> string \<Rightarrow> string" where
  "level_warning requested effective =
     ''Reasoning effort '' @ [CHR 0x27] @ requested @ [CHR 0x27] @ '' is unsupported by the resolved model '' @
     ''profile; using nearest supported level '' @ [CHR 0x27] @ effective @ [CHR 0x27] @ ''.''"

definition enforce_reasoning_levels ::
  "string list option \<Rightarrow> pdict \<Rightarrow> string list \<Rightarrow> pdict \<times> string list" where
  "enforce_reasoning_levels supported_levels ir_request warnings =
     (case (dget ir_request ''reasoning'', supported_levels) of
        (PDict rf, Some levels) \<Rightarrow>
          (case dget rf ''effort'' of
             PStr requested \<Rightarrow>
               if levels = [] \<or> requested \<in> set levels \<or> map_of ladder_rank requested = None
               then (ir_request, warnings)
               else (case filter (\<lambda>v. map_of ladder_rank v \<noteq> None) levels of
                   [] \<Rightarrow> (ir_request, warnings)
                 | first # others \<Rightarrow>
                     let effective = nearest requested first others in
                     (dset ir_request ''reasoning'' (PDict (dset rf ''effort'' (PStr effective))),
                      warnings @ [level_warning requested effective]))
           | _ \<Rightarrow> (ir_request, warnings))
      | _ \<Rightarrow> (ir_request, warnings))"

definition enforce_vision :: "string list option \<Rightarrow> pdict \<Rightarrow> pdict res" where
  "enforce_vision modalities ir_request =
     (case modalities of
        None \<Rightarrow> Inr ir_request
      | Some ms \<Rightarrow> if ''image'' \<in> set ms then Inr ir_request else strip_images_for_non_vision ir_request)"

section \<open>Lemmas\<close>

lemma closer_trans: "closer r a b \<Longrightarrow> \<not> closer r c b \<Longrightarrow> \<not> closer r c a"
  by (auto simp: closer_def Let_def)

lemma nearest_least:
  "nearest r f os \<in> set (f # os) \<and> (\<forall>v \<in> set (f # os). \<not> closer r v (nearest r f os))"
  unfolding nearest_def
proof (induction os rule: rev_induct)
  case (snoc v vs)
  let ?b = "foldl (\<lambda>best v. if closer r v best then v else best) f vs"
  have self: "\<not> closer r v v" for v by (simp add: closer_def Let_def)
  show ?case
  proof (cases "closer r v ?b")
    case True
    then have "\<forall>w \<in> set (f # vs). \<not> closer r w v" using snoc closer_trans by blast
    with True self show ?thesis by simp
  next
    case False
    with snoc show ?thesis by auto
  qed
qed (simp add: closer_def Let_def)

section \<open>Properties\<close>

text \<open>
  C37. Exactly an effort of the ladder that the model profile does not support is replaced, by a supported
  level of the ladder, with one warning: no supported level is nearer to the request, and of two
  levels as near it is the lower one. Nothing else of the request changes.
\<close>

theorem effort_clamped:
  assumes "dget ir ''reasoning'' = PDict rf" "dget rf ''effort'' = PStr requested"
    and "map_of ladder_rank requested \<noteq> None" "requested \<notin> set levels"
    and "\<exists>v \<in> set levels. map_of ladder_rank v \<noteq> None"
  shows "\<exists>effective \<in> set levels.
      enforce_reasoning_levels (Some levels) ir ws
        = (dset ir ''reasoning'' (PDict (dset rf ''effort'' (PStr effective))), ws @ [level_warning requested effective])
    \<and> map_of ladder_rank effective \<noteq> None
    \<and> (\<forall>v \<in> set levels. map_of ladder_rank v \<noteq> None \<longrightarrow>
         \<bar>rank_at effective - rank_at requested\<bar> \<le> \<bar>rank_at v - rank_at requested\<bar> \<and>
         (\<bar>rank_at effective - rank_at requested\<bar> = \<bar>rank_at v - rank_at requested\<bar> \<longrightarrow>
            rank_at effective \<le> rank_at v))"
proof -
  obtain f os where c: "filter (\<lambda>v. map_of ladder_rank v \<noteq> None) levels = f # os"
    using assms(5) by (cases "filter (\<lambda>v. map_of ladder_rank v \<noteq> None) levels") (auto simp: filter_empty_conv)
  have mem: "v \<in> set (f # os) \<longleftrightarrow> v \<in> set levels \<and> map_of ladder_rank v \<noteq> None" for v
    unfolding c [symmetric] by auto
  define e where "e = nearest requested f os"
  have e: "e \<in> set levels" "map_of ladder_rank e \<noteq> None"
    using nearest_least [of requested f os] mem [of e] by (auto simp: e_def)
  have least: "v \<in> set levels \<Longrightarrow> map_of ladder_rank v \<noteq> None \<Longrightarrow> \<not> closer requested v e" for v
    using nearest_least [of requested f os] mem [of v] by (auto simp: e_def)
  have "enforce_reasoning_levels (Some levels) ir ws
        = (dset ir ''reasoning'' (PDict (dset rf ''effort'' (PStr e))), ws @ [level_warning requested e])"
    using assms c by (auto simp: enforce_reasoning_levels_def e_def Let_def)
  with e least show ?thesis by (intro bexI [of _ e]) (fastforce simp: closer_def Let_def)+
qed

theorem effort_clamped_witness:
  "enforce_reasoning_levels (Some [''high'', ''low''])
     [(''reasoning'', PDict [(''effort'', PStr ''medium'')])] []
   = ([(''reasoning'', PDict [(''effort'', PStr ''low'')])], [level_warning ''medium'' ''low''])
   \<and> (\<exists>e \<in> set [''high'', ''low'']. enforce_reasoning_levels (Some [''high'', ''low''])
     [(''reasoning'', PDict [(''effort'', PStr ''medium'')])] [] =
       ([(''reasoning'', PDict [(''effort'', PStr e)])], [level_warning ''medium'' e]))"
proof -
  have l: "ladder_rank = [(''minimal'', 0), (''low'', 1), (''medium'', 2), (''high'', 3), (''xhigh'', 4), (''max'', 5), (''ultra'', 6)]"
    by (simp add: ladder_rank_def reasoning_ladder_def upt_conv_Cons)
  have "enforce_reasoning_levels (Some [''high'', ''low''])
     [(''reasoning'', PDict [(''effort'', PStr ''medium'')])] []
   = ([(''reasoning'', PDict [(''effort'', PStr ''low'')])], [level_warning ''medium'' ''low''])"
    by (simp add: enforce_reasoning_levels_def l dget_or_def nearest_def closer_def rank_at_def Let_def)
  moreover have "\<exists>e \<in> set [''high'', ''low'']. enforce_reasoning_levels (Some [''high'', ''low''])
     [(''reasoning'', PDict [(''effort'', PStr ''medium'')])] [] =
       ([(''reasoning'', PDict [(''effort'', PStr e)])], [level_warning ''medium'' e])"
    using effort_clamped [of "[(''reasoning'', PDict [(''effort'', PStr ''medium'')])]" "[(''effort'', PStr ''medium'')]"
        "''medium''" "[''high'', ''low'']" "[]"] by (auto simp: l dget_or_def)
  ultimately show ?thesis by blast
qed

end
