(* ===== verification/AnthropicStream.thy ===== *)
theory AnthropicStream
  imports AnthropicConverter
begin

text \<open>
  The stream half of \<open>converters/anthropic/converter.py\<close>: the events of the Anthropic Messages API to
  IR stream events and back, over a \<open>stream_context\<close> that may be absent.

  A handler of the encoder returns one chunk or a list of chunks. What a raising handler leaves
  behind is dropped. A block index that is no integer counts as a value of the wrong type.
\<close>

section \<open>Events to the IR\<close>

definition block_start_event :: "pyval \<Rightarrow> pyval \<Rightarrow> pdict" where
  "block_start_event i block_type =
     [(''type'', PStr ''content_block_start''), (''block_index'', i), (''block_type'', block_type)]"

definition block_stop_event :: "pyval \<Rightarrow> pdict" where
  "block_stop_event i = [(''type'', PStr ''content_block_end''), (''block_index'', i)]"

definition at_block :: "pyval \<Rightarrow> pdict \<Rightarrow> pdict" where
  "at_block i e = (if i \<noteq> PNone then dset e ''block_index'' i else e)"

definition message_start_from_p ::
  "(pyval \<Rightarrow> pyval \<Rightarrow> pyval) \<Rightarrow> pdict \<Rightarrow> decoder \<Rightarrow> decoder res" where
  "message_start_from_p fsum chunk st =
     (let message = dget_or chunk ''message'' (PDict []) in
      rbind (case fst st of
               None \<Rightarrow> Inr st
             | Some c \<Rightarrow>
                 rbind (py_get message ''id'' (PStr '''')) (\<lambda>rid.
                 rbind (py_get message ''model'' (PStr '''')) (\<lambda>mdl.
                   Inr (emit (stream_start_event rid mdl PNone)
                          (Some (mark_started (c\<lparr>response_id := rid, model := mdl\<rparr>)), snd st))))) (\<lambda>st.
      rbind (py_get message ''usage'' PNone) (\<lambda>usage.
        if py_truthy usage then
          rbind (py_dict usage) (\<lambda>u.
          rbind (anthropic_ir_usage fsum (PDict (dset u ''output_tokens'' (PInt 0)))) (\<lambda>iu.
            Inr (emit (usage_event iu) st)))
        else Inr st)))"

definition block_start_from_p :: "pdict \<Rightarrow> decoder \<Rightarrow> decoder res" where
  "block_start_from_p chunk st =
     (let content_block = dget_or chunk ''content_block'' (PDict []); block_index = dget_or chunk ''index'' (PInt 0) in
      rbind (py_get content_block ''type'' (PStr '''')) (\<lambda>block_type.
      let st = (case fst st of
                  None \<Rightarrow> st
                | Some c \<Rightarrow> emit (block_start_event block_index block_type) (Some (snd (next_block_index c)), snd st)) in
      if block_type = PStr ''tool_use'' \<or> block_type = PStr ''server_tool_use'' then
        rbind (py_get content_block ''id'' (PStr '''')) (\<lambda>tool_call_id.
        rbind (py_get content_block ''name'' (PStr '''')) (\<lambda>tool_name.
        let start = [(''type'', PStr ''tool_call_start''), (''tool_call_id'', tool_call_id), (''tool_name'', tool_name)] in
        case fst st of
          None \<Rightarrow> Inr (emit start st)
        | Some c \<Rightarrow>
            rbind (register_tool_call tool_call_id tool_name ''function'' c) (\<lambda>c.
              Inr (emit (start @ [(''tool_call_index'', PInt (int (length (tool_call_order c)) - 1))])
                     (Some c, snd st)))))
      else Inr st))"

text \<open>\<open>order.index(v)\<close> for a member \<open>v\<close>.\<close>

definition order_index :: "pyval list \<Rightarrow> pyval \<Rightarrow> int" where
  "order_index order v = int (length (takeWhile (\<lambda>w. py_hash w \<noteq> py_hash v) order))"

definition latest_call :: "stream_context option \<Rightarrow> pyval" where
  "latest_call ctx =
     (case ctx of
        Some c \<Rightarrow> if tool_call_id_map c \<noteq> [] then fst (last (tool_call_id_map c)) else PStr ''''
      | None \<Rightarrow> PStr '''')"

definition json_delta_from_p :: "pdict \<Rightarrow> pyval \<Rightarrow> decoder \<Rightarrow> decoder res" where
  "json_delta_from_p delta i st =
     (let tool_call_id = latest_call (fst st); partial_json = dget_or delta ''partial_json'' (PStr '''');
          event = at_block i [(''type'', PStr ''tool_call_delta''), (''tool_call_id'', tool_call_id),
                              (''arguments_delta'', partial_json)] in
      case fst st of
        Some c \<Rightarrow>
          if py_truthy tool_call_id then
            rbind (append_tool_call_args tool_call_id partial_json c) (\<lambda>c'.
              Inr (emit (if pset_mem tool_call_id (tool_call_order c)
                         then dset event ''tool_call_index'' (PInt (order_index (tool_call_order c) tool_call_id))
                         else event) (Some c', snd st)))
          else Inr (emit event st)
      | None \<Rightarrow> Inr (emit event st))"

definition block_delta_from_p :: "pdict \<Rightarrow> decoder \<Rightarrow> decoder res" where
  "block_delta_from_p chunk st =
     (case as_dict (dget_or chunk ''delta'' (PDict [])) of
        None \<Rightarrow> Inl AttributeError
      | Some delta \<Rightarrow>
          let delta_type = dget_or delta ''type'' (PStr ''''); i = dget chunk ''index'' in
          if delta_type = PStr ''text_delta'' then
            Inr (emit (at_block i [(''type'', PStr ''text_delta''), (''text'', dget_or delta ''text'' (PStr ''''))]) st)
          else if delta_type = PStr ''input_json_delta'' then json_delta_from_p delta i st
          else if delta_type = PStr ''thinking_delta'' then
            Inr (emit (at_block i [(''type'', PStr ''reasoning_delta''),
                                   (''reasoning'', dget_or delta ''thinking'' (PStr ''''))]) st)
          else if delta_type = PStr ''signature_delta'' then
            Inr (emit (at_block i [(''type'', PStr ''reasoning_delta''), (''reasoning'', PStr ''''),
                                   (''signature'', dget_or delta ''signature'' (PStr ''''))]) st)
          else Inr st)"

definition block_stop_from_p :: "pdict \<Rightarrow> decoder \<Rightarrow> decoder res" where
  "block_stop_from_p chunk st =
     Inr (case fst st of
            None \<Rightarrow> st
          | Some c \<Rightarrow> emit (block_stop_event (dget_or chunk ''index'' (PInt 0))) st)"

definition message_delta_from_p ::
  "(pyval \<Rightarrow> pyval \<Rightarrow> pyval) \<Rightarrow> pdict \<Rightarrow> decoder \<Rightarrow> decoder res" where
  "message_delta_from_p fsum chunk st =
     rbind (py_get (dget_or chunk ''delta'' (PDict [])) ''stop_reason'' PNone) (\<lambda>stop_reason.
     let usage = dget chunk ''usage'' in
     rbind (if py_truthy usage then rbind (anthropic_ir_usage fsum usage) (\<lambda>iu. Inr (emit (usage_event iu) st))
            else Inr st) (\<lambda>st.
       if py_truthy stop_reason then
         rbind (reason_in anthropic_reason_from_provider stop_reason) (\<lambda>r.
           Inr (emit [(''type'', PStr ''finish''), (''finish_reason'', PDict [(''reason'', r)])] st))
       else Inr st))"

definition message_stop_from_p :: "pdict \<Rightarrow> decoder \<Rightarrow> decoder res" where
  "message_stop_from_p chunk st =
     Inr (case fst st of None \<Rightarrow> st | Some c \<Rightarrow> emit stream_end_event (Some (mark_ended c), snd st))"

definition from_p_dispatch ::
  "(pyval \<Rightarrow> pyval \<Rightarrow> pyval) \<Rightarrow> (string \<times> (pdict \<Rightarrow> decoder \<Rightarrow> decoder res)) list" where
  "from_p_dispatch fsum =
     [(''message_start'', message_start_from_p fsum), (''content_block_start'', block_start_from_p),
      (''content_block_delta'', block_delta_from_p), (''content_block_stop'', block_stop_from_p),
      (''message_delta'', message_delta_from_p fsum), (''message_stop'', message_stop_from_p)]"

definition anthropic_stream_from_p ::
  "(pyval \<Rightarrow> pyval \<Rightarrow> pyval) \<Rightarrow> pdict \<Rightarrow> stream_context option \<Rightarrow> decoder res" where
  "anthropic_stream_from_p fsum chunk ctx =
     rbind (dget_dyn (from_p_dispatch fsum) (dget_or chunk ''type'' (PStr ''''))) (\<lambda>handler.
       case handler of None \<Rightarrow> Inr (ctx, []) | Some handle \<Rightarrow> handle chunk (ctx, []))"

section \<open>Events to the provider\<close>

datatype chunks = Chunk pdict | Chunks "pdict list"

type_synonym sse = "(chunks \<times> stream_context option) res"

definition start_usage :: "stream_context option \<Rightarrow> pdict" where
  "start_usage ctx =
     (let zero = [(''input_tokens'', PInt 0), (''output_tokens'', PInt 0)] in
      case ctx of
        None \<Rightarrow> zero
      | Some c \<Rightarrow>
          (case pending_usage c of
             None \<Rightarrow> zero
           | Some u \<Rightarrow>
               copy_fields [(''cache_read_tokens'', ''cache_read_input_tokens''),
                            (''cache_creation_tokens'', ''cache_creation_input_tokens'')] u
                 (dset zero ''input_tokens'' (or_zero (dget u ''prompt_tokens'')))))"

definition message_start_to_p :: "pdict \<Rightarrow> stream_context option \<Rightarrow> sse" where
  "message_start_to_p event ctx =
     rbind (ditem event ''response_id'') (\<lambda>rid.
     rbind (ditem event ''model'') (\<lambda>mdl.
       Inr (Chunk [(''type'', PStr ''message_start''),
             (''message'', PDict [(''id'', rid), (''type'', PStr ''message''), (''role'', PStr ''assistant''),
                (''model'', mdl), (''content'', PList []), (''stop_reason'', PNone),
                (''usage'', PDict (start_usage ctx))])],
            map_option (\<lambda>c. mark_started (c\<lparr>response_id := rid, model := mdl\<rparr>)) ctx)))"

definition message_delta :: "pdict \<Rightarrow> pyval \<Rightarrow> pdict" where
  "message_delta delta output_tokens =
     [(''type'', PStr ''message_delta''), (''delta'', PDict delta),
      (''usage'', PDict [(''output_tokens'', output_tokens)])]"

definition message_stop :: pdict where
  "message_stop = [(''type'', PStr ''message_stop'')]"

definition message_stop_to_p :: "pdict \<Rightarrow> stream_context option \<Rightarrow> sse" where
  "message_stop_to_p event ctx =
     (case ctx of
        None \<Rightarrow> Inr (Chunk message_stop, ctx)
      | Some c \<Rightarrow>
          (case pop_pending_finish c of
             (None, c) \<Rightarrow> Inr (Chunk message_stop, Some (mark_ended c))
           | (Some finish, c) \<Rightarrow>
               (case pop_pending_usage c of (usage, c) \<Rightarrow>
                  let output_tokens = (case usage of Some u \<Rightarrow> or_zero (dget u ''completion_tokens'') | None \<Rightarrow> PInt 0) in
                  Inr (Chunks [message_delta finish output_tokens, message_stop], Some (mark_ended c)))))"

definition content_block_start :: "pyval \<Rightarrow> pdict \<Rightarrow> pdict" where
  "content_block_start i content_block =
     [(''type'', PStr ''content_block_start''), (''index'', i), (''content_block'', PDict content_block)]"

definition empty_text :: pdict where
  "empty_text = [(''type'', PStr ''text''), (''text'', PStr '''')]"

definition empty_thinking :: pdict where
  "empty_thinking = [(''type'', PStr ''thinking''), (''thinking'', PStr '''')]"

definition content_block_stop :: "pyval \<Rightarrow> pdict" where
  "content_block_stop i = [(''type'', PStr ''content_block_stop''), (''index'', i)]"

definition int_index :: "pyval \<Rightarrow> int res" where
  "int_index v = (case int_of v of Some i \<Rightarrow> Inr i | None \<Rightarrow> Inl TypeError)"

text \<open>The context with the current block set, if there is one.\<close>

definition anchor :: "pyval \<Rightarrow> pyval \<Rightarrow> stream_context option \<Rightarrow> stream_context option res" where
  "anchor i block_type ctx =
     (case ctx of
        None \<Rightarrow> Inr None
      | Some c \<Rightarrow> rbind (int_index i) (\<lambda>n. Inr (Some (c\<lparr>current_block_index := n, current_block_type := block_type\<rparr>))))"

definition block_start_to_p :: "pdict \<Rightarrow> stream_context option \<Rightarrow> sse" where
  "block_start_to_p event ctx =
     rbind (ditem event ''block_index'') (\<lambda>i.
     rbind (ditem event ''block_type'') (\<lambda>block_type.
     rbind (anchor i block_type ctx) (\<lambda>ctx.
       Inr (Chunk (if block_type = PStr ''text'' then content_block_start i empty_text
                   else if block_type = PStr ''thinking'' then content_block_start i empty_thinking
                   else []), ctx))))"

definition block_end_to_p :: "pdict \<Rightarrow> stream_context option \<Rightarrow> sse" where
  "block_end_to_p event ctx =
     rbind (ditem event ''block_index'') (\<lambda>i.
       Inr (Chunk (content_block_stop i),
            map_option (\<lambda>c. c\<lparr>current_block_index := -1, current_block_type := PNone\<rparr>) ctx))"

definition block_delta :: "pdict \<Rightarrow> pdict" where
  "block_delta delta = [(''type'', PStr ''content_block_delta''), (''delta'', PDict delta)]"

definition open_block :: "stream_context \<Rightarrow> pdict list" where
  "open_block c = (if current_block_index c \<ge> 0 then [content_block_stop (PInt (current_block_index c))] else [])"

text \<open>A text or thinking delta: at the block of the event, or at the current block of the context.\<close>

definition delta_to_p :: "string \<Rightarrow> pdict \<Rightarrow> pdict \<Rightarrow> pdict \<Rightarrow> stream_context option \<Rightarrow> sse" where
  "delta_to_p kind start delta event ctx =
     (let result = block_delta delta; i = dget event ''block_index'' in
      if i \<noteq> PNone then
        rbind (anchor i (PStr kind) ctx) (\<lambda>ctx. Inr (Chunk (result @ [(''index'', i)]), ctx))
      else case ctx of
        None \<Rightarrow> Inr (Chunk result, ctx)
      | Some c \<Rightarrow>
          if current_block_index c < 0 \<or>
             (current_block_type c \<noteq> PNone \<and> current_block_type c \<noteq> PStr kind) then
            (case next_block_index c of (n, c') \<Rightarrow>
               Inr (Chunks (open_block c @ [content_block_start (PInt n) start, result @ [(''index'', PInt n)]]),
                    Some (c'\<lparr>current_block_type := PStr kind\<rparr>)))
          else Inr (Chunk (result @ [(''index'', PInt (current_block_index c))]), ctx))"

definition anthropic_text_delta_to_p :: "pdict \<Rightarrow> stream_context option \<Rightarrow> sse" where
  "anthropic_text_delta_to_p event ctx =
     rbind (ditem event ''text'') (\<lambda>t.
       delta_to_p ''text'' empty_text [(''type'', PStr ''text_delta''), (''text'', t)] event ctx)"

definition anthropic_reasoning_delta_to_p :: "pdict \<Rightarrow> stream_context option \<Rightarrow> sse" where
  "anthropic_reasoning_delta_to_p event ctx =
     (let signature = dget event ''signature'' in
      rbind (if signature \<noteq> PNone
             then Inr [(''type'', PStr ''signature_delta''), (''signature'', signature)]
             else rbind (ditem event ''reasoning'') (\<lambda>t.
                    Inr [(''type'', PStr ''thinking_delta''), (''thinking'', t)])) (\<lambda>delta.
        delta_to_p ''thinking'' empty_thinking delta event ctx))"

definition tool_use_start :: "pyval \<Rightarrow> pyval \<Rightarrow> pdict" where
  "tool_use_start tid name =
     [(''type'', PStr ''content_block_start''),
      (''content_block'', PDict [(''type'', PStr ''tool_use''), (''id'', tid), (''name'', name), (''input'', PDict [])])]"

definition anthropic_tool_start_to_p :: "pdict \<Rightarrow> stream_context option \<Rightarrow> sse" where
  "anthropic_tool_start_to_p event ctx =
     rbind (ditem event ''tool_call_id'') (\<lambda>tid.
     rbind (ditem event ''tool_name'') (\<lambda>name.
       case ctx of
         None \<Rightarrow> Inr (Chunk (tool_use_start tid name), ctx)
       | Some c \<Rightarrow>
           let changing = (current_block_index c \<ge> 0 \<and> current_block_type c \<noteq> PNone \<and>
                           current_block_type c \<noteq> PStr ''tool_use'');
               c' = (if changing \<or> current_block_index c < 0 then snd (next_block_index c) else c);
               result = tool_use_start tid name @ [(''index'', PInt (current_block_index c'))] in
           Inr (if changing then Chunks (open_block c @ [result]) else Chunk result,
                Some (c'\<lparr>current_block_type := PStr ''tool_use''\<rparr>))))"

definition anthropic_tool_delta_to_p :: "pdict \<Rightarrow> stream_context option \<Rightarrow> sse" where
  "anthropic_tool_delta_to_p event ctx =
     rbind (ditem event ''arguments_delta'') (\<lambda>arguments.
     let result = block_delta [(''type'', PStr ''input_json_delta''), (''partial_json'', arguments)];
         i = dget event ''block_index'' in
     if i \<noteq> PNone then
       rbind (anchor i (PStr ''tool_use'') ctx) (\<lambda>ctx. Inr (Chunk (result @ [(''index'', i)]), ctx))
     else case ctx of
       None \<Rightarrow> Inr (Chunk result, ctx)
     | Some c \<Rightarrow>
         let c' = (if current_block_index c < 0
                   then (snd (next_block_index c))\<lparr>current_block_type := PStr ''tool_use''\<rparr> else c) in
         Inr (Chunk (result @ [(''index'', PInt (current_block_index c'))]), Some c'))"

definition anthropic_finish_to_p :: "pdict \<Rightarrow> stream_context option \<Rightarrow> sse" where
  "anthropic_finish_to_p event ctx =
     rbind (ditem event ''finish_reason'') (\<lambda>finish_reason.
     rbind (py_item finish_reason ''reason'') (\<lambda>reason.
     rbind (reason_or ''end_turn'' anthropic_reason_to_provider reason) (\<lambda>stop_reason.
       case ctx of
         None \<Rightarrow> Inr (Chunk (message_delta [(''stop_reason'', stop_reason)] (PInt 0)), ctx)
       | Some c \<Rightarrow>
           let results = open_block c;
               c = (if current_block_index c \<ge> 0 then c\<lparr>current_block_index := -1\<rparr> else c) in
           (case pop_pending_usage c of
              (Some usage, c) \<Rightarrow>
                Inr (Chunks (results @ [message_delta [(''stop_reason'', stop_reason)]
                                          (or_zero (dget usage ''completion_tokens''))]), Some c)
            | (None, c) \<Rightarrow>
                Inr (if results \<noteq> [] then Chunks results else Chunk [],
                     Some (buffer_finish [(''stop_reason'', stop_reason)] c))))))"

definition anthropic_usage_to_p ::
  "(pyval \<Rightarrow> pyval \<Rightarrow> pyval) \<Rightarrow> pdict \<Rightarrow> stream_context option \<Rightarrow> sse" where
  "anthropic_usage_to_p fsum event ctx =
     rbind (ditem event ''usage'') (\<lambda>v.
     rbind (typed_dict v) (\<lambda>usage.
     let output_tokens = or_zero (dget usage ''completion_tokens'') in
     case ctx of
       None \<Rightarrow> Inr (Chunk (message_delta [] output_tokens), ctx)
     | Some c \<Rightarrow>
         (case pop_pending_finish c of
            (Some delta, c) \<Rightarrow> Inr (Chunk (message_delta delta output_tokens), Some c)
          | (None, c) \<Rightarrow> rbind (buffer_usage fsum usage c) (\<lambda>c. Inr (Chunk [], Some c)))))"

definition anthropic_to_p_dispatch ::
  "(pyval \<Rightarrow> pyval \<Rightarrow> pyval) \<Rightarrow> (string \<times> (pdict \<Rightarrow> stream_context option \<Rightarrow> sse)) list" where
  "anthropic_to_p_dispatch fsum =
     [(''stream_start'', message_start_to_p), (''stream_end'', message_stop_to_p),
      (''content_block_start'', block_start_to_p), (''content_block_end'', block_end_to_p),
      (''text_delta'', anthropic_text_delta_to_p), (''reasoning_delta'', anthropic_reasoning_delta_to_p),
      (''tool_call_start'', anthropic_tool_start_to_p), (''tool_call_delta'', anthropic_tool_delta_to_p),
      (''finish'', anthropic_finish_to_p), (''usage'', anthropic_usage_to_p fsum),
      (''provider_passthrough'', \<lambda>event ctx. Inr (Chunk [], ctx))]"

definition anthropic_stream_to_p_chunks ::
  "(pyval \<Rightarrow> pyval \<Rightarrow> pyval) \<Rightarrow> pdict \<Rightarrow> stream_context option \<Rightarrow> sse" where
  "anthropic_stream_to_p_chunks fsum event ctx =
     rbind (dget_dyn (anthropic_to_p_dispatch fsum) (dget_or event ''type'' (PStr ''''))) (\<lambda>handler.
       case handler of None \<Rightarrow> Inr (Chunk [], ctx) | Some handle \<Rightarrow> handle event ctx)"

end
