(* ===== verification/Pipeline.thy ===== *)
theory Pipeline
  imports Capabilities AnthropicStream
begin

text \<open>
  \<open>pipeline.py\<close>: the conversion of one request, of its response and of its stream between two
  provider formats, over the converters as records of their operations.

  A hook is a function of what it gets; a hook that changes its argument in place returns it. The
  state \<open>'s\<close> holds the caches that both converters share. The \<open>reasoning_cap\<close> option is an argument of
  the request converters. Timings and the message of a \<open>ConversionError\<close> are left out, as is what a
  raising converter leaves in the context; \<open>ir_request\<close> is what the target converter is given.
\<close>

section \<open>Converters\<close>

record ('r, 's, 'c) converter =
  req_from :: "'r reasoning_cap option \<Rightarrow> pdict \<Rightarrow> conversion_context \<Rightarrow> 's \<Rightarrow> (pdict \<times> conversion_context \<times> 's) res"
  req_to :: "'r reasoning_cap option \<Rightarrow> pdict \<Rightarrow> conversion_context \<Rightarrow> 's \<Rightarrow> (pdict \<times> conversion_context \<times> 's) res"
  resp_from :: "pdict \<Rightarrow> conversion_context \<Rightarrow> 's \<Rightarrow> (pdict \<times> conversion_context \<times> 's) res"
  resp_to :: "pdict \<Rightarrow> conversion_context \<Rightarrow> 's \<Rightarrow> (pdict \<times> conversion_context \<times> 's) res"
  stream_from :: "pdict \<Rightarrow> 'c stream_context_scheme \<Rightarrow> (pdict list \<times> 'c stream_context_scheme) res"
  stream_to :: "pdict \<Rightarrow> 'c stream_context_scheme \<Rightarrow> (chunks \<times> 'c stream_context_scheme) res"
  create_stream_context :: "'c stream_context_scheme"

text \<open>The optional context of the stream functions, which the pipeline always gives.\<close>

definition some_context :: "('a \<times> 'b option) res \<Rightarrow> ('a \<times> 'b) res" where
  "some_context r = rbind r (\<lambda>(a, co). case co of Some c \<Rightarrow> Inr (a, c) | None \<Rightarrow> Inl TypeError)"

definition chat_stream_from :: "pdict \<Rightarrow> stream_context \<Rightarrow> (pdict list \<times> stream_context) res" where
  "chat_stream_from chunk c =
     rbind (stream_response_from_provider chunk (Some c)) (\<lambda>(co, es). some_context (Inr (es, co)))"

definition chat_stream_to :: "(pyval \<Rightarrow> pyval \<Rightarrow> pyval) \<Rightarrow> pdict \<Rightarrow> stream_context \<Rightarrow> (chunks \<times> stream_context) res" where
  "chat_stream_to fsum event c =
     rbind (some_context (stream_response_to_provider fsum event (Some c))) (\<lambda>(d, c). Inr (Chunk d, c))"

definition anthropic_stream_source ::
  "(pyval \<Rightarrow> pyval \<Rightarrow> pyval) \<Rightarrow> pdict \<Rightarrow> stream_context \<Rightarrow> (pdict list \<times> stream_context) res" where
  "anthropic_stream_source fsum chunk c =
     rbind (anthropic_stream_from_p fsum chunk (Some c)) (\<lambda>(co, es). some_context (Inr (es, co)))"

definition anthropic_stream_sink ::
  "(pyval \<Rightarrow> pyval \<Rightarrow> pyval) \<Rightarrow> pdict \<Rightarrow> stream_context \<Rightarrow> (chunks \<times> stream_context) res" where
  "anthropic_stream_sink fsum event c = some_context (anthropic_stream_to_p_chunks fsum event (Some c))"

definition chat_converter ::
  "(pyval \<Rightarrow> pyval \<Rightarrow> pyval) \<Rightarrow> ('t::linorder, 'r) chat_env \<Rightarrow> ('r, 't caches, unit) converter" where
  "chat_converter fsum env =
     \<lparr>req_from = (\<lambda>cap p ctx cs. rbind (request_from_provider (env\<lparr>cap_option := cap\<rparr>) p cs) (\<lambda>(r, cs). Inr (r, ctx, cs))),
      req_to = (\<lambda>cap r ctx cs. rbind (request_to_provider (env\<lparr>cap_option := cap\<rparr>) r ctx cs) (\<lambda>(p, _, ctx, cs). Inr (p, ctx, cs))),
      resp_from = (\<lambda>p ctx cs. rbind (response_from_provider env p) (\<lambda>r. Inr (r, ctx, cs))),
      resp_to = (\<lambda>r ctx cs. rbind (response_to_provider r) (\<lambda>p. Inr (p, ctx, cs))),
      stream_from = chat_stream_from,
      stream_to = chat_stream_to fsum,
      create_stream_context = stream_context_init\<rparr>"

definition anthropic_converter ::
  "('t::linorder, 'r) anthropic_env \<Rightarrow> ('r, 't caches, unit) converter" where
  "anthropic_converter env =
     \<lparr>req_from = (\<lambda>cap p ctx cs. rbind (anthropic_request_from_p (env\<lparr>cap_option := cap\<rparr>) p cs) (\<lambda>(r, cs). Inr (r, ctx, cs))),
      req_to = (\<lambda>cap r ctx cs. rbind (anthropic_request_to_p (env\<lparr>cap_option := cap\<rparr>) r ctx cs) (\<lambda>(p, _, _, ctx, cs). Inr (p, ctx, cs))),
      resp_from = (\<lambda>p ctx cs. rbind (anthropic_response_from_p env p ctx) (\<lambda>(r, ctx). Inr (r, ctx, cs))),
      resp_to = (\<lambda>r ctx cs. rbind (anthropic_response_to_p r ctx) (\<lambda>p. Inr (p, ctx, cs))),
      stream_from = anthropic_stream_source (float_sum env),
      stream_to = anthropic_stream_sink (float_sum env),
      create_stream_context = stream_context_init\<rparr>"

lemma converter_streams [simp]:
  "stream_from (chat_converter fsum env) = chat_stream_from"
  "stream_to (chat_converter fsum env) = chat_stream_to fsum"
  "create_stream_context (chat_converter fsum env) = stream_context_init"
  "stream_from (anthropic_converter aenv) = anthropic_stream_source (float_sum aenv)"
  "stream_to (anthropic_converter aenv) = anthropic_stream_sink (float_sum aenv)"
  "create_stream_context (anthropic_converter aenv) = stream_context_init"
  by (simp_all add: chat_converter_def anthropic_converter_def)

section \<open>The pipeline\<close>

datatype failure = ConversionError string pyexn | RuntimeError string | Raised pyexn

record ('r, 's, 'a, 'b) pipeline =
  source_conv :: "('r, 's, 'a) converter"
  target_conv :: "('r, 's, 'b) converter"
  target_provider :: string
  p_shim :: "'r shim_ref"
  p_modalities :: "string list option"
  p_levels :: "string list option"
  p_runtime :: pdict
  p_options :: pdict
  p_from_transforms :: "body_transform list"
  p_to_transforms :: "body_transform list"
  p_ctx :: "conversion_context option"
  p_cap :: "'r reasoning_cap option"
  p_ir :: "pdict option"

definition pipeline_init ::
  "'r shims \<Rightarrow> 'r shims \<Rightarrow> ('r, 's, 'a) converter \<Rightarrow> ('r, 's, 'b) converter \<Rightarrow> string \<Rightarrow> 'r shim_ref \<Rightarrow>
   string list option \<Rightarrow> string list option \<Rightarrow> pdict \<Rightarrow> pdict \<Rightarrow> ('r, 's, 'a, 'b) pipeline" where
  "pipeline_init builtin registry source target provider shim modalities levels runtime options =
     (let resolved = resolve_shim builtin registry shim in
      \<lparr>source_conv = source, target_conv = target, target_provider = provider, p_shim = shim,
       p_modalities = modalities, p_levels = levels, p_runtime = runtime, p_options = options,
       p_from_transforms = (case resolved of Some s \<Rightarrow> from_transforms s | None \<Rightarrow> []),
       p_to_transforms = (case resolved of Some s \<Rightarrow> to_transforms s | None \<Rightarrow> []),
       p_ctx = None, p_cap = None, p_ir = None\<rparr>)"

definition pipeline_context :: "('r, 's, 'a, 'b) pipeline \<Rightarrow> failure + conversion_context" where
  "pipeline_context p =
     (case p_ctx p of
        None \<Rightarrow> Inl (RuntimeError ''context is not available until convert_request() is called'')
      | Some ctx \<Rightarrow> Inr ctx)"

definition pipeline_ir_request :: "('r, 's, 'a, 'b) pipeline \<Rightarrow> failure + pdict" where
  "pipeline_ir_request p =
     (case p_ir p of
        None \<Rightarrow> Inl (RuntimeError ''ir_request is not available until convert_request() is called'')
      | Some ir \<Rightarrow> Inr ir)"

definition pipeline_warnings :: "('r, 's, 'a, 'b) pipeline \<Rightarrow> string list" where
  "pipeline_warnings p = (case p_ctx p of None \<Rightarrow> [] | Some ctx \<Rightarrow> ctx_warnings ctx)"

text \<open>\<open>apply_ir_transforms\<close> of the module: the transforms of the resolved shim, if it has any.\<close>

definition apply_shim_transforms ::
  "'r provider_shim option \<Rightarrow> string list option \<Rightarrow> string \<Rightarrow> pdict \<Rightarrow> pdict res" where
  "apply_shim_transforms resolved modalities rid ir_request =
     (case resolved of
        None \<Rightarrow> Inr ir_request
      | Some shim \<Rightarrow>
          if ir_transforms shim = [] then Inr ir_request
          else apply_ir_transforms (ir_transforms shim)
                 \<lparr>ctx_model = '''', input_modalities = modalities, request_id = rid\<rparr> ir_request)"

definition request_context :: "string \<Rightarrow> pdict \<Rightarrow> conversion_context" where
  "request_context provider options =
     (let opts = dmerge [(''metadata_mode'', PStr ''preserve'')] options in
      \<lparr>ctx_warnings = (case dget opts ''provider_profile_warning'' of PStr s \<Rightarrow> if s \<noteq> [] then [s] else [] | _ \<Rightarrow> []),
       ctx_options = (if provider = ''google'' then dset opts ''output_format'' (PStr ''rest'') else opts),
       ctx_metadata = []\<rparr>)"

definition runtime_field :: "pdict \<Rightarrow> pdict \<Rightarrow> string \<Rightarrow> pdict" where
  "runtime_field runtime ir_request field =
     (if \<not> dhas runtime field then ir_request
      else
        let generation = (case dget ir_request ''generation'' of PDict g \<Rightarrow> g | _ \<Rightarrow> []);
            v = dget runtime field in
        dset ir_request ''generation'' (PDict (if v = PNone then ddel generation field else dset generation field v)))"

definition runtime_capabilities :: "pdict \<Rightarrow> pdict \<Rightarrow> pdict" where
  "runtime_capabilities runtime ir_request = foldl (runtime_field runtime) ir_request [''temperature'', ''top_p'']"

text \<open>What happens to the IR request between the converters.\<close>

definition adapt_request ::
  "'r provider_shim option \<Rightarrow> ('r, 's, 'a, 'b) pipeline \<Rightarrow> pdict \<Rightarrow> conversion_context \<Rightarrow> (pdict \<times> conversion_context) res" where
  "adapt_request resolved p ir_request ctx =
     (case enforce_reasoning_levels (p_levels p) (runtime_capabilities (p_runtime p) ir_request) (ctx_warnings ctx) of
        (ir, ws) \<Rightarrow>
          rbind (enforce_vision (p_modalities p) ir) (\<lambda>ir.
          rbind (apply_shim_transforms resolved (p_modalities p)
                   (py_str (dget_or (ctx_options ctx) ''request_id'' (PStr ''-''))) ir) (\<lambda>ir.
            Inr (ir, ctx\<lparr>ctx_warnings := ws\<rparr>))))"

definition convert_request ::
  "'r shims \<Rightarrow> 'r shims \<Rightarrow> (pdict \<Rightarrow> pdict res) \<Rightarrow> pdict \<Rightarrow> 's \<Rightarrow> ('r, 's, 'a, 'b) pipeline \<Rightarrow>
   (failure + (pdict \<times> 's)) \<times> ('r, 's, 'a, 'b) pipeline" where
  "convert_request builtin registry on_ir_ready body cs p =
     (if p_ctx p \<noteq> None then
        (Inl (RuntimeError (''convert_request() already called on this pipeline instance. '' @
                            ''ConversionPipeline is one-shot - create a new instance per request.'')), p)
      else
        let ctx = request_context (target_provider p) (p_options p);
            resolved = resolve_shim builtin registry (p_shim p);
            cap = enforce_reasoning resolved None;
            p = p\<lparr>p_ctx := Some ctx, p_cap := cap\<rparr> in
        case req_from (source_conv p) cap body ctx cs of
          Inl e \<Rightarrow> (Inl (ConversionError ''source_to_ir'' e), p)
        | Inr (ir_request, ctx, cs) \<Rightarrow>
            (case rbind (on_ir_ready ir_request) (\<lambda>ir. adapt_request resolved p ir ctx) of
               Inl e \<Rightarrow> (Inl (Raised e), p\<lparr>p_ctx := Some ctx\<rparr>)
             | Inr (ir_request, ctx) \<Rightarrow>
                 let p = p\<lparr>p_ctx := Some ctx, p_ir := Some ir_request\<rparr> in
                 (case req_to (target_conv p) cap ir_request ctx cs of
                    Inl e \<Rightarrow> (Inl (ConversionError ''ir_to_target'' e), p)
                  | Inr (target_body, ctx, cs) \<Rightarrow>
                      (Inr (apply_transforms (p_to_transforms p) target_body, cs), p\<lparr>p_ctx := Some ctx\<rparr>))))"

definition convert_response ::
  "(pdict \<Rightarrow> pdict res) \<Rightarrow> pdict \<Rightarrow> 's \<Rightarrow> ('r, 's, 'a, 'b) pipeline \<Rightarrow>
   (failure + (pdict \<times> 's)) \<times> ('r, 's, 'a, 'b) pipeline" where
  "convert_response on_ir_ready upstream_response cs p =
     (case pipeline_context p of
        Inl f \<Rightarrow> (Inl f, p)
      | Inr ctx \<Rightarrow>
          (case resp_from (target_conv p) (apply_transforms (p_from_transforms p) upstream_response) ctx cs of
             Inl e \<Rightarrow> (Inl (ConversionError ''response_to_ir'' e), p)
           | Inr (ir_response, ctx, cs) \<Rightarrow>
               let p = p\<lparr>p_ctx := Some ctx\<rparr> in
               (case on_ir_ready ir_response of
                  Inl e \<Rightarrow> (Inl (Raised e), p)
                | Inr ir_response \<Rightarrow>
                    (case resp_to (source_conv p) ir_response ctx cs of
                       Inl e \<Rightarrow> (Inl (ConversionError ''ir_to_source'' e), p)
                     | Inr (source_response, ctx, cs) \<Rightarrow>
                         (Inr (source_response, cs), p\<lparr>p_ctx := Some ctx\<rparr>)))))"

end
