(* ===== verification/StreamProcessor.thy ===== *)
theory StreamProcessor
  imports Pipeline
begin

text \<open>
  The stream half of \<open>pipeline.py\<close>: \<open>create_stream_processor\<close> and the class \<open>StreamProcessor\<close>, which
  converts the chunks of a response one at a time.

  The hooks share a state \<open>'h\<close>: \<open>on_ir_event\<close> looks at an event, \<open>transform_ir_event\<close> replaces it by
  any number of events. What a raising call leaves behind is dropped.
\<close>

record ('r, 's, 'a, 'b, 'h) stream_processor =
  sp_target :: "('r, 's, 'b) converter"
  sp_source :: "('r, 's, 'a) converter"
  sp_from_ctx :: "'b stream_context_scheme"
  sp_to_ctx :: "'a stream_context_scheme"
  sp_transforms :: "body_transform list"
  on_ir_event :: "(pdict \<Rightarrow> 'h \<Rightarrow> 'h res) option"
  transform_ir_event :: "(pdict \<Rightarrow> 'h \<Rightarrow> (pdict list \<times> 'h) res) option"
  finalize_on_finish_eof :: bool
  saw_finish :: bool
  sp_hooks :: 'h

definition bridge :: "string \<Rightarrow> pdict \<Rightarrow> pdict \<Rightarrow> pdict" where
  "bridge key src dst = (case map_of src key of Some v \<Rightarrow> dset dst key v | None \<Rightarrow> dst)"

definition create_stream_processor ::
  "(pdict \<Rightarrow> 'h \<Rightarrow> 'h res) option \<Rightarrow> (pdict \<Rightarrow> 'h \<Rightarrow> (pdict list \<times> 'h) res) option \<Rightarrow> bool \<Rightarrow> 'h \<Rightarrow>
   ('r, 's, 'a, 'b) pipeline \<Rightarrow> failure + ('r, 's, 'a, 'b, 'h) stream_processor" where
  "create_stream_processor observe transform finalize h p =
     (case pipeline_context p of
        Inl f \<Rightarrow> Inl f
      | Inr ctx \<Rightarrow>
          let from_ctx = create_stream_context (target_conv p); to_ctx = create_stream_context (source_conv p) in
          Inr \<lparr>sp_target = target_conv p, sp_source = source_conv p,
               sp_from_ctx = from_ctx\<lparr>ctx_options := dset (ctx_options from_ctx) ''metadata_mode'' (PStr ''preserve'')\<rparr>,
               sp_to_ctx = to_ctx\<lparr>ctx_options := dset (ctx_options to_ctx) ''metadata_mode'' (PStr ''preserve''),
                                  ctx_metadata := foldl (\<lambda>m k. bridge k (ctx_metadata ctx) m) (ctx_metadata to_ctx)
                                    [''_request_echo'', ''_responses_namespace_tool_map'', ''_responses_native_tool_type_map'']\<rparr>,
               sp_transforms = p_from_transforms p, on_ir_event = observe, transform_ir_event = transform,
               finalize_on_finish_eof = finalize, saw_finish = False, sp_hooks = h\<rparr>)"

text \<open>The chunks of one event that are not empty.\<close>

definition visible :: "chunks \<Rightarrow> pdict list" where
  "visible cs = (case cs of Chunk d \<Rightarrow> if d \<noteq> [] then [d] else [] | Chunks ds \<Rightarrow> filter (\<lambda>d. d \<noteq> []) ds)"

definition send_event ::
  "('r, 's, 'a, 'b, 'h) stream_processor \<times> pdict list \<Rightarrow> pdict \<Rightarrow> (('r, 's, 'a, 'b, 'h) stream_processor \<times> pdict list) res" where
  "send_event st event =
     (let (sp, result) = st in
      rbind (case on_ir_event sp of None \<Rightarrow> Inr (sp_hooks sp) | Some f \<Rightarrow> f event (sp_hooks sp)) (\<lambda>h.
      rbind (stream_to (sp_source sp) event (sp_to_ctx sp)) (\<lambda>(cs, to_ctx).
        Inr (sp\<lparr>sp_hooks := h, sp_to_ctx := to_ctx\<rparr>, result @ visible cs))))"

definition process_event ::
  "('r, 's, 'a, 'b, 'h) stream_processor \<times> pdict list \<Rightarrow> pdict \<Rightarrow> (('r, 's, 'a, 'b, 'h) stream_processor \<times> pdict list) res" where
  "process_event st ir_event =
     (let (sp, result) = st;
          sp = (if dget ir_event ''type'' = PStr ''finish'' then sp\<lparr>saw_finish := True\<rparr> else sp) in
      rbind (case transform_ir_event sp of None \<Rightarrow> Inr ([ir_event], sp_hooks sp) | Some f \<Rightarrow> f ir_event (sp_hooks sp))
        (\<lambda>(events, h). rfold send_event (sp\<lparr>sp_hooks := h\<rparr>, result) events))"

definition process_ir_events ::
  "pdict list \<Rightarrow> ('r, 's, 'a, 'b, 'h) stream_processor \<Rightarrow> (pdict list \<times> ('r, 's, 'a, 'b, 'h) stream_processor) res" where
  "process_ir_events ir_events sp =
     rbind (rfold process_event (sp, []) ir_events) (\<lambda>(sp, result). Inr (result, sp))"

definition process_chunk ::
  "pdict \<Rightarrow> ('r, 's, 'a, 'b, 'h) stream_processor \<Rightarrow> (pdict list \<times> ('r, 's, 'a, 'b, 'h) stream_processor) res" where
  "process_chunk chunk sp =
     rbind (stream_from (sp_target sp) (apply_transforms (sp_transforms sp) chunk) (sp_from_ctx sp)) (\<lambda>(ir_events, from_ctx).
       process_ir_events ir_events
         (sp\<lparr>sp_from_ctx := from_ctx,
             sp_to_ctx := (sp_to_ctx sp)\<lparr>ctx_metadata :=
               bridge ''_response_extras'' (ctx_metadata from_ctx) (ctx_metadata (sp_to_ctx sp))\<rparr>\<rparr>))"

definition finalize_stream ::
  "('r, 's, 'a, 'b, 'h) stream_processor \<Rightarrow> (pdict list \<times> ('r, 's, 'a, 'b, 'h) stream_processor) res" where
  "finalize_stream sp =
     (if \<not> finalize_on_finish_eof sp \<or> \<not> saw_finish sp \<or> ended (sp_from_ctx sp) then Inr ([], sp)
      else process_ir_events [[(''type'', PStr ''stream_end'')]] (sp\<lparr>sp_from_ctx := (sp_from_ctx sp)\<lparr>ended := True\<rparr>\<rparr>))"

text \<open>A whole upstream: every chunk, then the end of the transport.\<close>

definition process_run ::
  "pdict list \<Rightarrow> ('r, 's, 'a, 'b, 'h) stream_processor \<Rightarrow> (pdict list \<times> ('r, 's, 'a, 'b, 'h) stream_processor) res" where
  "process_run chunks sp =
     rfold (\<lambda>(out, sp) chunk. rbind (process_chunk chunk sp) (\<lambda>(out', sp). Inr (out @ out', sp))) ([], sp) chunks"

definition process_stream ::
  "pdict list \<Rightarrow> ('r, 's, 'a, 'b, 'h) stream_processor \<Rightarrow> (pdict list \<times> ('r, 's, 'a, 'b, 'h) stream_processor) res" where
  "process_stream chunks sp =
     rbind (process_run chunks sp) (\<lambda>(out, sp). rbind (finalize_stream sp) (\<lambda>(out', sp). Inr (out @ out', sp)))"

end
