(* ===== verification/StreamStages.thy ===== *)
theory StreamStages
  imports StreamProcessor ChatRequestTrip
begin

text \<open>
  What the chunk by chunk conversion of a stream amounts to: decode the whole stream, then send all its
  events, then one synthetic end where the upstream stopped without one.
\<close>

section \<open>Sending events\<close>

text \<open>A fold whose step commutes with a change of the state commutes with it.\<close>

lemma rfold_hom:
  assumes "\<And>s x. f (g s) x = rbind (f s x) (\<lambda>s. Inr (g s))"
  shows "rfold f (g s) xs = rbind (rfold f s xs) (\<lambda>s. Inr (g s))"
proof (induction xs arbitrary: s)
  case (Cons x xs)
  then show ?case by (cases "f s x") (simp_all add: assms)
qed simp

definition prefixed :: "'b list \<Rightarrow> 'a \<times> 'b list \<Rightarrow> 'a \<times> 'b list" where
  "prefixed a st = (fst st, a @ snd st)"

lemma send_event_prefix: "send_event (prefixed a st) e = rbind (send_event st e) (\<lambda>s. Inr (prefixed a s))"
  by (cases st) (auto simp: prefixed_def send_event_def rbind_def split: sum.split prod.split)

lemma send_events_prefix:
  "rfold send_event (prefixed a st) es = rbind (rfold send_event st es) (\<lambda>s. Inr (prefixed a s))"
  by (rule rfold_hom) (rule send_event_prefix)

lemma process_event_prefix: "process_event (prefixed a st) e = rbind (process_event st e) (\<lambda>s. Inr (prefixed a s))"
proof -
  have "rfold send_event (sp, a @ r) es = rbind (rfold send_event (sp, r) es) (\<lambda>s. Inr (prefixed a s))"
    for sp :: "('a, 'b, 'c, 'd, 'e) stream_processor" and r es
    using send_events_prefix [of a "(sp, r)" es] by (simp add: prefixed_def)
  then show ?thesis
    by (cases st) (simp add: prefixed_def process_event_def Let_def rbind_assoc case_prod_unfold split: option.split)
qed

lemma process_events_prefix:
  "rfold process_event (prefixed a st) es = rbind (rfold process_event st es) (\<lambda>s. Inr (prefixed a s))"
  by (rule rfold_hom) (rule process_event_prefix)

lemma process_ir_events_append:
  "process_ir_events (a @ b) sp =
     rbind (process_ir_events a sp) (\<lambda>(o1, sp). rbind (process_ir_events b sp) (\<lambda>(o2, sp). Inr (o1 @ o2, sp)))"
proof -
  have "rfold process_event (sp, r) es = rbind (rfold process_event (sp, []) es) (\<lambda>s. Inr (prefixed r s))"
    for sp :: "('a, 'b, 'c, 'd, 'e) stream_processor" and r es
    using process_events_prefix [of r "(sp, [])" es] by (simp add: prefixed_def)
  then have w: "rfold process_event st b = rbind (rfold process_event (fst st, []) b) (\<lambda>s. Inr (prefixed (snd st) s))"
    for st :: "('a, 'b, 'c, 'd, 'e) stream_processor \<times> pdict list" by (metis prod.collapse)
  show ?thesis
  proof (cases "rfold process_event (sp, []) a")
    case (Inr st)
    have "rbind (rfold process_event st b) (\<lambda>(sp, result). Inr (result, sp)) =
        rbind (rfold process_event (fst st, []) b) (\<lambda>s. Inr (snd st @ snd s, fst s))"
      by (subst w) (simp add: rbind_assoc prefixed_def)
    with Inr show ?thesis
      by (simp add: process_ir_events_def rfold_append rbind_assoc case_prod_unfold)
  qed (simp add: process_ir_events_def rfold_append)
qed

lemma process_ir_events_Nil [simp]: "process_ir_events [] sp = Inr ([], sp)"
  by (simp add: process_ir_events_def)

text \<open>The events go by without a look at the upstream side.\<close>

definition upstream_fields where
  "upstream_fields sp = (sp_target sp, sp_source sp, sp_transforms sp, on_ir_event sp, transform_ir_event sp,
     finalize_on_finish_eof sp, sp_from_ctx sp)"

lemma send_event_upstream:
  "send_event (sp, r) e = Inr (sp', r') \<Longrightarrow> upstream_fields sp' = upstream_fields sp \<and> saw_finish sp' = saw_finish sp"
  by (auto simp: send_event_def upstream_fields_def elim!: rbind_InrE)

lemma send_events_upstream:
  "rfold send_event (sp, r) es = Inr (sp', r') \<Longrightarrow> upstream_fields sp' = upstream_fields sp \<and> saw_finish sp' = saw_finish sp"
proof (induction es arbitrary: sp r)
  case (Cons e es)
  then obtain sp1 r1 where "send_event (sp, r) e = Inr (sp1, r1)" "rfold send_event (sp1, r1) es = Inr (sp', r')"
    by (auto elim!: rbind_InrE)
  then show ?case using Cons.IH [of sp1 r1] send_event_upstream [of sp r e] by simp
qed simp

definition finishes :: "pdict list \<Rightarrow> bool" where
  "finishes es = list_ex (\<lambda>e. event_type e = PStr ''finish'') es"

lemma process_events_upstream:
  "rfold process_event (sp, r) es = Inr (sp', r') \<Longrightarrow>
     upstream_fields sp' = upstream_fields sp \<and> saw_finish sp' = (saw_finish sp \<or> finishes es)"
proof (induction es arbitrary: sp r)
  case (Cons e es)
  then obtain sp1 r1 where a: "process_event (sp, r) e = Inr (sp1, r1)" "rfold process_event (sp1, r1) es = Inr (sp', r')"
    by (auto elim!: rbind_InrE)
  have "upstream_fields sp1 = upstream_fields sp \<and> saw_finish sp1 = (saw_finish sp \<or> event_type e = PStr ''finish'')"
    using a(1) by (auto simp: process_event_def upstream_fields_def Let_def split: if_splits
        elim!: rbind_InrE dest!: send_events_upstream)
  then show ?case using Cons.IH [OF a(2)] by (auto simp: finishes_def)
qed (simp add: finishes_def)

lemma process_ir_events_upstream:
  "process_ir_events es sp = Inr (out, sp') \<Longrightarrow>
     upstream_fields sp' = upstream_fields sp \<and> saw_finish sp' = (saw_finish sp \<or> finishes es)"
  by (auto simp: process_ir_events_def elim!: rbind_InrE dest!: process_events_upstream)

definition decoding_at :: "'b stream_context_scheme \<Rightarrow> ('r, 's, 'a, 'b, 'h) stream_processor \<times> pdict list \<Rightarrow>
    ('r, 's, 'a, 'b, 'h) stream_processor \<times> pdict list" where
  "decoding_at c st = ((fst st)\<lparr>sp_from_ctx := c\<rparr>, snd st)"

lemma send_event_at: "send_event (decoding_at c st) e = rbind (send_event st e) (\<lambda>s. Inr (decoding_at c s))"
  by (cases st) (auto simp: decoding_at_def send_event_def rbind_def split: sum.split prod.split option.split)

lemma send_events_at:
  "rfold send_event (decoding_at c st) es = rbind (rfold send_event st es) (\<lambda>s. Inr (decoding_at c s))"
  by (rule rfold_hom) (rule send_event_at)

lemma process_event_at:
  "process_event (decoding_at c st) e = rbind (process_event st e) (\<lambda>s. Inr (decoding_at c s))"
proof -
  obtain sp r where st: "st = (sp, r)" by (cases st)
  have o: "sp\<lparr>sp_from_ctx := c, saw_finish := True, sp_hooks := h\<rparr> = sp\<lparr>saw_finish := True, sp_hooks := h, sp_from_ctx := c\<rparr>"
    "sp\<lparr>sp_from_ctx := c, sp_hooks := h\<rparr> = sp\<lparr>sp_hooks := h, sp_from_ctx := c\<rparr>" for h
    by simp_all
  have "rfold send_event (sp\<lparr>sp_from_ctx := c, saw_finish := True, sp_hooks := h\<rparr>, r) es =
     rbind (rfold send_event (sp\<lparr>saw_finish := True, sp_hooks := h\<rparr>, r) es) (\<lambda>s. Inr (decoding_at c s))" for h es
    using send_events_at [of c "(sp\<lparr>saw_finish := True, sp_hooks := h\<rparr>, r)" es]
    unfolding decoding_at_def o fst_conv snd_conv .
  moreover have "rfold send_event (sp\<lparr>sp_from_ctx := c, sp_hooks := h\<rparr>, r) es =
     rbind (rfold send_event (sp\<lparr>sp_hooks := h\<rparr>, r) es) (\<lambda>s. Inr (decoding_at c s))" for h es
    using send_events_at [of c "(sp\<lparr>sp_hooks := h\<rparr>, r)" es]
    unfolding decoding_at_def o fst_conv snd_conv .
  ultimately show ?thesis
    unfolding st by (simp add: decoding_at_def process_event_def Let_def rbind_assoc case_prod_unfold split: option.split)
qed

lemma process_events_at:
  "rfold process_event (decoding_at c st) es = rbind (rfold process_event st es) (\<lambda>s. Inr (decoding_at c s))"
  by (rule rfold_hom) (rule process_event_at)

lemma process_ir_events_at:
  "process_ir_events es (sp\<lparr>sp_from_ctx := c\<rparr>) =
     rbind (process_ir_events es sp) (\<lambda>(out, sp). Inr (out, sp\<lparr>sp_from_ctx := c\<rparr>))"
  using process_events_at [of c "(sp, [])" es]
  by (simp add: process_ir_events_def rbind_assoc case_prod_beta decoding_at_def)

section \<open>Sources that leave the response extras alone\<close>

definition extras_of :: "'a conversion_context_scheme \<Rightarrow> pyval option" where
  "extras_of c = map_of (ctx_metadata c) ''_response_extras''"

definition decode_stream ::
  "(pdict \<Rightarrow> 'c stream_context_scheme \<Rightarrow> (pdict list \<times> 'c stream_context_scheme) res) \<Rightarrow> body_transform list \<Rightarrow>
   pdict list \<Rightarrow> 'c stream_context_scheme \<Rightarrow> (pdict list \<times> 'c stream_context_scheme) res" where
  "decode_stream decode ts chunks c =
     rfold (\<lambda>(es, c) chunk. rbind (decode (apply_transforms ts chunk) c) (\<lambda>(es', c). Inr (es @ es', c))) ([], c) chunks"

locale quiet_source =
  fixes decode :: "pdict \<Rightarrow> 'c stream_context_scheme \<Rightarrow> (pdict list \<times> 'c stream_context_scheme) res"
  assumes keeps_extras: "decode chunk c = Inr (es, c') \<Longrightarrow> extras_of c' = extras_of c"
begin

lemma process_chunk_quiet:
  assumes "stream_from (sp_target sp) = decode" "extras_of (sp_from_ctx sp) = None"
  shows "process_chunk chunk sp =
    rbind (decode (apply_transforms (sp_transforms sp) chunk) (sp_from_ctx sp)) (\<lambda>(es, c).
      process_ir_events es (sp\<lparr>sp_from_ctx := c\<rparr>))"
proof (cases "decode (apply_transforms (sp_transforms sp) chunk) (sp_from_ctx sp)")
  case (Inr r)
  obtain es c where r: "r = (es, c)" by (cases r)
  then have "extras_of c = None" using keeps_extras [of _ _ es c] assms(2) Inr by metis
  then have b: "bridge ''_response_extras'' (ctx_metadata c) m = m" for m by (simp add: bridge_def extras_of_def)
  show ?thesis by (simp add: process_chunk_def assms(1) Inr r b)
qed (simp add: process_chunk_def assms(1))

lemma decode_stream_quiet:
  "decode_stream decode ts chunks c = Inr (es, c') \<Longrightarrow> extras_of c = None \<Longrightarrow> extras_of c' = None"
proof (induction chunks arbitrary: es c' rule: rev_induct)
  case (snoc chunk chunks)
  from snoc.prems(1) obtain es1 c1 es2 where
    "decode_stream decode ts chunks c = Inr (es1, c1)" "decode (apply_transforms ts chunk) c1 = Inr (es2, c')"
    by (auto simp: decode_stream_def rfold_append elim!: rbind_InrE)
  with snoc show ?case using keeps_extras by metis
qed (simp add: decode_stream_def)

lemma process_run_stages:
  assumes "stream_from (sp_target sp) = decode" "extras_of (sp_from_ctx sp) = None"
  shows "process_run chunks sp =  Inr (out, sp') \<longleftrightarrow>
    (\<exists>es c sp1. decode_stream decode (sp_transforms sp) chunks (sp_from_ctx sp) = Inr (es, c) \<and> extras_of c = None \<and>
       process_ir_events es sp = Inr (out, sp1) \<and> sp' = sp1\<lparr>sp_from_ctx := c\<rparr>)"
proof (induction chunks arbitrary: out sp' rule: rev_induct)
  case Nil
  have "sp = sp\<lparr>sp_from_ctx := sp_from_ctx sp\<rparr>" by simp
  then show ?case using assms(2) by (auto simp: process_run_def decode_stream_def)
next
  case (snoc chunk chunks)
  let ?ts = "sp_transforms sp" and ?c0 = "sp_from_ctx sp"
  have run: "process_run (chunks @ [chunk]) sp =
      rbind (process_run chunks sp) (\<lambda>(out, sp). rbind (process_chunk chunk sp) (\<lambda>(out', sp). Inr (out @ out', sp)))"
    by (simp add: process_run_def rfold_append rbind_return case_prod_unfold)
  have dec: "decode_stream decode ?ts (chunks @ [chunk]) ?c0 =
      rbind (decode_stream decode ?ts chunks ?c0) (\<lambda>(es, c). rbind (decode (apply_transforms ?ts chunk) c) (\<lambda>(es', c). Inr (es @ es', c)))"
    by (simp add: decode_stream_def rfold_append rbind_return case_prod_unfold)
  have step: "process_chunk chunk (sp1\<lparr>sp_from_ctx := c\<rparr>) = rbind (decode (apply_transforms ?ts chunk) c) (\<lambda>(es', c').
      rbind (process_ir_events es' sp1) (\<lambda>(out, sp). Inr (out, sp\<lparr>sp_from_ctx := c'\<rparr>)))"
    if "process_ir_events es sp = Inr (o1, sp1)" "extras_of c = None" for es o1 sp1 c
  proof -
    have "sp_target sp1 = sp_target sp" "sp_transforms sp1 = ?ts"
      using process_ir_events_upstream [OF that(1)] by (auto simp: upstream_fields_def)
    then show ?thesis
      using process_chunk_quiet [of "sp1\<lparr>sp_from_ctx := c\<rparr>" chunk] assms(1) that(2)
      by (simp add: process_ir_events_at)
  qed
  show ?case
  proof
    assume "process_run (chunks @ [chunk]) sp = Inr (out, sp')"
    then obtain o1 spm o2 where m: "process_run chunks sp = Inr (o1, spm)" "process_chunk chunk spm = Inr (o2, sp')" "out = o1 @ o2"
      unfolding run by (auto elim!: rbind_InrE)
    then obtain es c sp1 where e: "decode_stream decode ?ts chunks ?c0 = Inr (es, c)" "extras_of c = None"
      "process_ir_events es sp = Inr (o1, sp1)" "spm = sp1\<lparr>sp_from_ctx := c\<rparr>" using snoc.IH by blast
    from m(2) obtain es' c' sp2 where d: "decode (apply_transforms ?ts chunk) c = Inr (es', c')"
      "process_ir_events es' sp1 = Inr (o2, sp2)" "sp' = sp2\<lparr>sp_from_ctx := c'\<rparr>"
      unfolding e(4) step [OF e(3,2)] by (auto elim!: rbind_InrE)
    have "decode_stream decode ?ts (chunks @ [chunk]) ?c0 = Inr (es @ es', c')" unfolding dec e(1) by (simp add: d(1))
    moreover have "process_ir_events (es @ es') sp = Inr (out, sp2)"
      by (simp add: process_ir_events_append e(3) d(2) m(3))
    ultimately show "\<exists>es c sp1. decode_stream decode ?ts (chunks @ [chunk]) ?c0 = Inr (es, c) \<and> extras_of c = None \<and>
       process_ir_events es sp = Inr (out, sp1) \<and> sp' = sp1\<lparr>sp_from_ctx := c\<rparr>"
      using keeps_extras [OF d(1)] e(2) d(3) by auto
  next
    assume "\<exists>es c sp1. decode_stream decode ?ts (chunks @ [chunk]) ?c0 = Inr (es, c) \<and> extras_of c = None \<and>
       process_ir_events es sp = Inr (out, sp1) \<and> sp' = sp1\<lparr>sp_from_ctx := c\<rparr>"
    then obtain esm c' sp2 where "decode_stream decode ?ts (chunks @ [chunk]) ?c0 = Inr (esm, c')"
      and p: "process_ir_events esm sp = Inr (out, sp2)" "sp' = sp2\<lparr>sp_from_ctx := c'\<rparr>" by blast
    then obtain es c es' where d: "decode_stream decode ?ts chunks ?c0 = Inr (es, c)"
      "decode (apply_transforms ?ts chunk) c = Inr (es', c')" "esm = es @ es'"
      unfolding dec by (auto elim!: rbind_InrE)
    from p(1) obtain o1 sp1 o2 where o: "process_ir_events es sp = Inr (o1, sp1)"
      "process_ir_events es' sp1 = Inr (o2, sp2)" "out = o1 @ o2"
      unfolding d(3) process_ir_events_append by (auto elim!: rbind_InrE)
    have x: "extras_of c = None"
      using d(1) assms(2) by (rule decode_stream_quiet)
    have "process_run chunks sp = Inr (o1, sp1\<lparr>sp_from_ctx := c\<rparr>)" using snoc.IH d(1) x o(1) by blast
    then show "process_run (chunks @ [chunk]) sp = Inr (out, sp')"
      unfolding run by (simp add: step [OF o(1) x] d(2) o(2) o(3) p(2))
  qed
qed

end

section \<open>The two sources\<close>

lemma dec_step_extras: "dec_step (c, evs) (c', evs') \<Longrightarrow> extras_of c' = extras_of c"
  by (cases rule: dec_step.cases)
    (auto simp: extras_of_def mark_started_def mark_ended_def register_tool_call_def append_tool_call_args_def
      mark_choice_finished_def Let_def split: if_splits option.splits elim!: rbind_InrE)

lemma dec_steps_extras: "dec_steps st st' \<Longrightarrow> extras_of (fst st') = extras_of (fst st)"
  by (induction rule: rtranclp_induct) (metis dec_step_extras prod.collapse)+

lemma register_extras: "register_tool_call i n t c = Inr c' \<Longrightarrow> extras_of c' = extras_of c"
  by (auto simp: register_tool_call_def extras_of_def elim!: rbind_InrE)

lemma append_extras: "append_tool_call_args i d c = Inr c' \<Longrightarrow> extras_of c' = extras_of c"
  by (auto simp: append_tool_call_args_def extras_of_def Let_def split: option.splits elim!: rbind_InrE)

interpretation chat_source: quiet_source chat_stream_from
proof
  fix chunk and c c' :: stream_context and es
  assume "chat_stream_from chunk c = Inr (es, c')"
  then have "stream_response_from_provider chunk (Some c) = Inr (Some c', es)"
    by (auto simp: chat_stream_from_def some_context_def split: option.splits elim!: rbind_InrE)
  then have "dec_steps (c, []) (c', es)" by (auto elim: chunk_steps)
  then show "extras_of c' = extras_of c" using dec_steps_extras by fastforce
qed

interpretation anthropic_source: quiet_source "anthropic_stream_source fsum" for fsum
proof
  fix chunk and c c' :: stream_context and es
  assume "anthropic_stream_source fsum chunk c = Inr (es, c')"
  then have "anthropic_stream_from_p fsum chunk (Some c) = Inr (Some c', es)"
    by (auto simp: anthropic_stream_source_def some_context_def split: option.splits elim!: rbind_InrE)
  then show "extras_of c' = extras_of c"
    by (auto simp: anthropic_stream_from_p_def from_p_dispatch_def dget_dyn_def message_start_from_p_def
        block_start_from_p_def block_delta_from_p_def json_delta_from_p_def block_stop_from_p_def
        message_delta_from_p_def message_stop_from_p_def emit_def Let_def extras_of_def next_block_index_def
        mark_started_def mark_ended_def
        split: if_splits option.splits pyval.splits elim!: rbind_InrE
        dest!: register_extras append_extras)
qed

section \<open>An example\<close>

text \<open>An observer that keeps the events that are sent.\<close>

definition keep_events :: "pdict \<Rightarrow> pdict list \<Rightarrow> pdict list res" where
  "keep_events e log = Inr (log @ [e])"

text \<open>A Chat stream that stops after its finish, without a terminal chunk.\<close>

definition demo_upstream :: "pdict list" where
  "demo_upstream =
     [[(''id'', PStr ''c''), (''model'', PStr ''m''),
       (''choices'', PList [PDict [(''index'', PInt 0), (''delta'', PDict [(''content'', PStr ''hi'')])]])],
      [(''id'', PStr ''c''), (''model'', PStr ''m''),
       (''choices'', PList [PDict [(''index'', PInt 0), (''delta'', PDict []), (''finish_reason'', PStr ''stop'')]])]]"

definition demo_pipeline :: "(int, int caches, unit, unit) pipeline" where
  "demo_pipeline =
     (pipeline_init [] [] (chat_converter (\<lambda>_ _. PNone) demo_chat) (chat_converter (\<lambda>_ _. PNone) demo_chat)
        ''openai_chat'' NoShim None None [] [])\<lparr>p_ctx := Some demo_ctx\<rparr>"

lemma demo_processor:
  "\<exists>sp. create_stream_processor (Some keep_events) None True [] demo_pipeline = Inr sp
     \<and> upstream_fields sp = (chat_converter (\<lambda>_ _. PNone) demo_chat, chat_converter (\<lambda>_ _. PNone) demo_chat, [],
         Some keep_events, None, True, stream_context_init\<lparr>ctx_options := [(''metadata_mode'', PStr ''preserve'')]\<rparr>)
     \<and> sp_to_ctx sp = stream_context_init\<lparr>ctx_options := [(''metadata_mode'', PStr ''preserve'')]\<rparr>
     \<and> sp_hooks sp = [] \<and> \<not> saw_finish sp"
  by (simp add: create_stream_processor_def pipeline_context_def demo_pipeline_def pipeline_init_def Let_def
      resolve_shim_def upstream_fields_def bridge_def demo_ctx_def stream_context_init_def)

lemmas process_eval = process_stream_def process_run_def process_chunk_def process_ir_events_def process_event_def
  send_event_def finalize_stream_def visible_def bridge_def apply_transforms_def keep_events_def
  chat_stream_from_def chat_stream_to_def some_context_def

lemma demo_stream:
  "\<exists>sp out sp'. create_stream_processor (Some keep_events) None True [] demo_pipeline = Inr sp
     \<and> process_stream demo_upstream sp = Inr (out, sp') \<and> length out = 2 \<and> finishes (sp_hooks sp')"
proof -
  obtain sp where sp: "create_stream_processor (Some keep_events) None True [] demo_pipeline = Inr sp"
    "upstream_fields sp = (chat_converter (\<lambda>_ _. PNone) demo_chat, chat_converter (\<lambda>_ _. PNone) demo_chat, [],
         Some keep_events, None, True, stream_context_init\<lparr>ctx_options := [(''metadata_mode'', PStr ''preserve'')]\<rparr>)"
    "sp_to_ctx sp = stream_context_init\<lparr>ctx_options := [(''metadata_mode'', PStr ''preserve'')]\<rparr>"
    "sp_hooks sp = []" "\<not> saw_finish sp"
    using demo_processor by blast
  have "\<exists>out sp'. process_stream demo_upstream sp = Inr (out, sp') \<and> length out = 2 \<and> finishes (sp_hooks sp')"
    using sp(2-5)
    by (simp add: process_eval demo_upstream_def upstream_fields_def dec_eval enc_eval stream_context_init_def
       stream_start_event_def handle_stream_start_to_p_def handle_stream_end_to_p_def pop_pending_usage_def mark_ended_def finishes_def pset_mem_def)
  with sp(1) show ?thesis by blast
qed

section \<open>Properties\<close>

text \<open>
  C9. Converting the chunks of a Chat or an Anthropic upstream one at a time, whatever the shim
  transforms and the hooks, is the same as decoding the whole stream first and sending all its events
  afterwards: either both return, with the same output and the same final state, or neither does.
\<close>

theorem stream_conversion_staged:
  fixes env :: "('t::linorder, 'r) chat_env" and aenv :: "('t, 'r) anthropic_env"
  assumes "sp_target sp = chat_converter fsum env \<or> sp_target sp = anthropic_converter aenv"
    and "extras_of (sp_from_ctx sp) = None"
  shows "process_run chunks sp = Inr (out, sp') \<longleftrightarrow>
    (\<exists>es c sp1. decode_stream (stream_from (sp_target sp)) (sp_transforms sp) chunks (sp_from_ctx sp) = Inr (es, c) \<and>
       process_ir_events es sp = Inr (out, sp1) \<and> sp' = sp1\<lparr>sp_from_ctx := c\<rparr>)"
  using assms(1)
proof
  assume t: "sp_target sp = chat_converter fsum env"
  show ?thesis
    using chat_source.process_run_stages [of sp chunks out sp'] chat_source.decode_stream_quiet [OF _ assms(2)]
    unfolding t converter_streams by (simp add: assms(2)) blast
next
  assume t: "sp_target sp = anthropic_converter aenv"
  show ?thesis
    using anthropic_source.process_run_stages [of sp "float_sum aenv" chunks out sp'] anthropic_source.decode_stream_quiet [OF _ assms(2)]
    unfolding t converter_streams by (simp add: assms(2)) blast
qed

theorem stream_conversion_staged_witness:
  "\<exists>sp out sp' es c sp1. create_stream_processor (Some keep_events) None True [] demo_pipeline = Inr sp
     \<and> process_run demo_upstream sp = Inr (out, sp')
     \<and> decode_stream chat_stream_from [] demo_upstream (sp_from_ctx sp) = Inr (es, c)
     \<and> process_ir_events es sp = Inr (out, sp1) \<and> sp' = sp1\<lparr>sp_from_ctx := c\<rparr>"
proof -
  obtain sp where sp: "create_stream_processor (Some keep_events) None True [] demo_pipeline = Inr sp"
    "sp_target sp = chat_converter (\<lambda>_ _. PNone) demo_chat" "sp_transforms sp = []" "extras_of (sp_from_ctx sp) = None"
    using demo_processor by (auto simp: upstream_fields_def extras_of_def stream_context_init_def)
  obtain out sp' where "process_run demo_upstream sp = Inr (out, sp')"
    using demo_stream sp(1) by (auto simp: process_stream_def elim!: rbind_InrE)
  then show ?thesis
    using stream_conversion_staged [of sp "\<lambda>_ _. PNone" demo_chat _ demo_upstream out sp'] sp by auto
qed

lemma process_ir_events_kept:
  assumes "on_ir_event sp = Some keep_events" "transform_ir_event sp = None" "process_ir_events es sp = Inr (out, sp')"
  shows "sp_hooks sp' = sp_hooks sp @ es"
proof -
  have "rfold process_event (sp, r) es = Inr (sp', r') \<Longrightarrow> on_ir_event sp = Some keep_events \<Longrightarrow>
      transform_ir_event sp = None \<Longrightarrow> sp_hooks sp' = sp_hooks sp @ es" for r r'
  proof (induction es arbitrary: sp r)
    case (Cons e es)
    then obtain sp1 r1 where a: "process_event (sp, r) e = Inr (sp1, r1)" "rfold process_event (sp1, r1) es = Inr (sp', r')"
      by (auto elim!: rbind_InrE)
    have "sp_hooks sp1 = sp_hooks sp @ [e] \<and> on_ir_event sp1 = on_ir_event sp \<and> transform_ir_event sp1 = transform_ir_event sp"
      using a(1) Cons.prems(2,3)
      by (auto simp: process_event_def send_event_def keep_events_def Let_def split: if_splits elim!: rbind_InrE)
    then show ?case using Cons.IH [OF a(2)] Cons.prems(2,3) by simp
  qed simp
  then show ?thesis using assms by (auto simp: process_ir_events_def elim!: rbind_InrE)
qed

lemma chat_decode_stream:
  "decode_stream chat_stream_from ts chunks c = Inr (es, c') \<Longrightarrow>
     decode_run (map (apply_transforms ts) chunks) (c, []) = Inr (c', es)"
proof (induction chunks arbitrary: es c' rule: rev_induct)
  case (snoc chunk chunks)
  then obtain es1 c1 es2 where d: "decode_stream chat_stream_from ts chunks c = Inr (es1, c1)"
    "chat_stream_from (apply_transforms ts chunk) c1 = Inr (es2, c')" "es = es1 @ es2"
    by (auto simp: decode_stream_def rfold_append elim!: rbind_InrE)
  from d(2) have "stream_response_from_provider (apply_transforms ts chunk) (Some c1) = Inr (Some c', es2)"
    by (auto simp: chat_stream_from_def some_context_def split: option.splits elim!: rbind_InrE)
  with snoc.IH [OF d(1)] d(3) show ?case by (simp add: decode_run_def rfold_append decode_chunk_def)
qed (simp add: decode_stream_def decode_run_def)

lemma chat_decode_run:
  "decode_run chunks (c, []) = Inr (c', es) \<Longrightarrow> decode_stream chat_stream_from [] chunks c = Inr (es, c')"
proof (induction chunks arbitrary: es c' rule: rev_induct)
  case (snoc chunk chunks)
  then obtain c1 es1 where d: "decode_run chunks (c, []) = Inr (c1, es1)" "decode_chunk (c1, es1) chunk = Inr (c', es)"
    by (auto simp: decode_run_def rfold_append elim!: rbind_InrE)
  then obtain co es2 where "stream_response_from_provider chunk (Some c1) = Inr (co, es2)"
    "(case co of Some c' \<Rightarrow> Inr (c', es1 @ es2) | None \<Rightarrow> Inl TypeError) = Inr (c', es)"
    unfolding decode_chunk_def fst_conv snd_conv by (auto elim!: rbind_InrE)
  with snoc.IH [OF d(1)] show ?case
    by (auto simp: decode_stream_def rfold_append chat_stream_from_def some_context_def apply_transforms_def
        split: option.splits)
qed (simp add: decode_stream_def decode_run_def)



section \<open>The order of the calls\<close>

text \<open>
  C11. A pipeline is one-shot and ordered. Before its request it converts no response and makes no stream
  processor. Once \<open>convert_request\<close> was called, whatever came of it, its context is there, a second
  call is refused and changes nothing, and a stream processor can be made.
\<close>

theorem pipeline_one_shot:
  assumes "p_ctx p = None" and "convert_request builtin registry hook body cs p = (res, p')"
  shows "(\<exists>msg. convert_response hook' up cs' p = (Inl (RuntimeError msg), p)) \<and>
    (\<exists>msg. create_stream_processor obs tr fin h p = Inl (RuntimeError msg)) \<and>
    p_ctx p' \<noteq> None \<and>
    (\<exists>msg. convert_request builtin' registry' hook'' body' cs'' p' = (Inl (RuntimeError msg), p')) \<and>
    (\<exists>sp. create_stream_processor obs tr fin h p' = Inr sp)"
proof -
  have c: "p_ctx p' \<noteq> None"
    using assms by (auto simp: convert_request_def Let_def split: sum.splits prod.splits)
  then show ?thesis
    using assms(1) by (auto simp: convert_response_def create_stream_processor_def pipeline_context_def convert_request_def Let_def)
qed

theorem pipeline_one_shot_witness:
  "\<exists>e p'. convert_request [] [] Inr [(''messages'', PInt 0)] (module_caches 9) (demo_pipeline\<lparr>p_ctx := None\<rparr>) = (Inl e, p')
     \<and> p_ctx p' \<noteq> None
     \<and> (\<exists>msg. convert_request [] [] Inr [] (module_caches 9) p' = (Inl (RuntimeError msg), p'))"
proof -
  have "\<exists>e p'. convert_request [] [] Inr [(''messages'', PInt 0)] (module_caches 9) (demo_pipeline\<lparr>p_ctx := None\<rparr>) = (Inl e, p')"
    by (simp add: convert_request_def demo_pipeline_def pipeline_init_def Let_def chat_converter_def request_from_provider_def)
  then show ?thesis
    using pipeline_one_shot [of "demo_pipeline\<lparr>p_ctx := None\<rparr>" "[]" "[]" Inr "[(''messages'', PInt 0)]" "module_caches 9"]
    by (metis pipeline.select_convs(11) pipeline.update_convs(11) pipeline.surjective)
qed

end
