(* ===== verification/AnthropicStreamTrip.thy ===== *)
theory AnthropicStreamTrip
  imports StreamStages
begin

text \<open>
  What an Anthropic client reads of a stream that the gateway encodes: an executable reader of the event
  protocol (blocks open, grow and close one at a time, with increasing indexes), the message that a
  stream of IR events means, and the theorem that the reader gets that message.
\<close>

section \<open>The reader of the protocol\<close>

datatype block = TextB string | ThinkB string | ToolB string string string

record reading =
  r_id :: "(string \<times> string) option"
  r_blocks :: "block list"
  r_open :: bool
  r_stop :: "(string \<times> int) option"
  r_over :: bool

definition reading_init :: reading where
  "reading_init = \<lparr>r_id = None, r_blocks = [], r_open = False, r_stop = None, r_over = False\<rparr>"

text \<open>The fresh block that a \<open>content_block\<close> announces, and a block with a delta added.\<close>

definition fresh_block :: "pdict \<Rightarrow> block option" where
  "fresh_block b =
     (case dget b ''type'' of
        PStr ty \<Rightarrow>
          if ty = ''text'' then Some (TextB '''')
          else if ty = ''thinking'' then Some (ThinkB '''')
          else if ty = ''tool_use'' then
            (case (dget b ''id'', dget b ''name'') of (PStr i, PStr n) \<Rightarrow> Some (ToolB i n '''') | _ \<Rightarrow> None)
          else None
      | _ \<Rightarrow> None)"

fun grown :: "pdict \<Rightarrow> block \<Rightarrow> block option" where
  "grown d (TextB s) =
     (case (dget d ''type'', dget d ''text'') of
        (PStr ty, PStr t) \<Rightarrow> if ty = ''text_delta'' then Some (TextB (s @ t)) else None
      | _ \<Rightarrow> None)"
| "grown d (ThinkB s) =
     (case (dget d ''type'', dget d ''thinking'') of
        (PStr ty, PStr t) \<Rightarrow> if ty = ''thinking_delta'' then Some (ThinkB (s @ t)) else None
      | _ \<Rightarrow> None)"
| "grown d (ToolB i n s) =
     (case (dget d ''type'', dget d ''partial_json'') of
        (PStr ty, PStr t) \<Rightarrow> if ty = ''input_json_delta'' then Some (ToolB i n (s @ t)) else None
      | _ \<Rightarrow> None)"

definition at_index :: "pdict \<Rightarrow> int \<Rightarrow> bool" where
  "at_index e n = (dget e ''index'' = PInt n)"

definition as_pdict :: "pyval \<Rightarrow> pdict" where
  "as_pdict v = (case v of PDict d \<Rightarrow> d | _ \<Rightarrow> [])"

definition read_event :: "reading \<Rightarrow> pdict \<Rightarrow> reading option" where
  "read_event r e =
     (let bs = r_blocks r; n = int (length bs); ty = dget e ''type'' in
      if r_over r then None
      else if ty = PStr ''message_start'' then
        (case (dget (as_pdict (dget e ''message'')) ''id'', dget (as_pdict (dget e ''message'')) ''model'') of
           (PStr i, PStr m) \<Rightarrow> if r_id r = None then Some (r\<lparr>r_id := Some (i, m)\<rparr>) else None
         | _ \<Rightarrow> None)
      else if r_id r = None then None
      else if ty = PStr ''message_stop'' then
        (if r_open r \<or> r_stop r = None then None else Some (r\<lparr>r_over := True\<rparr>))
      else if r_stop r \<noteq> None then None
      else if ty = PStr ''content_block_start'' then
        (if r_open r \<or> \<not> at_index e n then None
         else map_option (\<lambda>b. r\<lparr>r_blocks := bs @ [b], r_open := True\<rparr>) (fresh_block (as_pdict (dget e ''content_block''))))
      else if ty = PStr ''content_block_delta'' then
        (if \<not> r_open r \<or> \<not> at_index e (n - 1) \<or> bs = [] then None
         else map_option (\<lambda>b. r\<lparr>r_blocks := butlast bs @ [b]\<rparr>) (grown (as_pdict (dget e ''delta'')) (last bs)))
      else if ty = PStr ''content_block_stop'' then
        (if \<not> r_open r \<or> \<not> at_index e (n - 1) then None else Some (r\<lparr>r_open := False\<rparr>))
      else if ty = PStr ''message_delta'' then
        (case (dget (as_pdict (dget e ''delta'')) ''stop_reason'', dget (as_pdict (dget e ''usage'')) ''output_tokens'') of
           (PStr s, PInt k) \<Rightarrow> if r_open r then None else Some (r\<lparr>r_stop := Some (s, k)\<rparr>)
         | _ \<Rightarrow> None)
      else None)"

fun read_events :: "reading \<Rightarrow> pdict list \<Rightarrow> reading option" where
  "read_events r [] = Some r"
| "read_events r (e # es) = (case read_event r e of None \<Rightarrow> None | Some r' \<Rightarrow> read_events r' es)"

lemma read_events_append:
  "read_events r (es @ es') = (case read_events r es of None \<Rightarrow> None | Some r' \<Rightarrow> read_events r' es')"
  by (induction es arbitrary: r) (auto split: option.splits)

section \<open>The message of a stream\<close>

text \<open>Adjacent deltas of a kind make one block; argument deltas belong to the block of their call.\<close>

fun add_block :: "block list \<Rightarrow> body_event \<Rightarrow> block list" where
  "add_block bs (TextD t ch) =
     (case bs of [] \<Rightarrow> [TextB t]
      | _ \<Rightarrow> (case last bs of TextB s \<Rightarrow> butlast bs @ [TextB (s @ t)] | _ \<Rightarrow> bs @ [TextB t]))"
| "add_block bs (ReasonD t ch) =
     (case bs of [] \<Rightarrow> [ThinkB t]
      | _ \<Rightarrow> (case last bs of ThinkB s \<Rightarrow> butlast bs @ [ThinkB (s @ t)] | _ \<Rightarrow> bs @ [ThinkB t]))"
| "add_block bs (ToolStart i n ch) = bs @ [ToolB i n '''']"
| "add_block bs (ToolArgs k d ch) =
     (case bs of [] \<Rightarrow> []
      | _ \<Rightarrow> (case last bs of ToolB i n s \<Rightarrow> butlast bs @ [ToolB i n (s @ d)] | _ \<Rightarrow> bs))"
| "add_block bs (FinishE r ch) = bs"

definition message_blocks :: "body_event list \<Rightarrow> block list" where
  "message_blocks body = foldl add_block [] body"

text \<open>
  The streams that the encoder can keep apart: a tool call does not directly follow another one, and
  its arguments come right after it. \<open>k\<close> counts the calls, \<open>tool\<close> says that one is open.
\<close>

fun separable :: "nat \<Rightarrow> bool \<Rightarrow> body_event list \<Rightarrow> bool" where
  "separable k tool [] = True"
| "separable k tool (e # es) =
     (case e of
        TextD t ch \<Rightarrow> separable k False es
      | ReasonD t ch \<Rightarrow> separable k False es
      | ToolStart i n ch \<Rightarrow> \<not> tool \<and> separable (Suc k) True es
      | ToolArgs j d ch \<Rightarrow> tool \<and> Suc j = k \<and> separable k tool es
      | FinishE r ch \<Rightarrow> False)"

definition stop_of :: "string \<Rightarrow> string" where
  "stop_of r = (case map_of anthropic_reason_to_provider r of Some s \<Rightarrow> s | None \<Rightarrow> ''end_turn'')"

section \<open>The encoder event by event\<close>

definition sink_event ::
  "(pyval \<Rightarrow> pyval \<Rightarrow> pyval) \<Rightarrow> stream_context \<times> pdict list \<Rightarrow> pdict \<Rightarrow> (stream_context \<times> pdict list) res" where
  "sink_event fsum st e =
     rbind (anthropic_stream_sink fsum e (fst st)) (\<lambda>(cs, c). Inr (c, snd st @ visible cs))"

definition kind_of :: "block \<Rightarrow> string" where
  "kind_of b = (case b of TextB _ \<Rightarrow> ''text'' | ThinkB _ \<Rightarrow> ''thinking'' | ToolB _ _ _ \<Rightarrow> ''tool_use'')"

lemmas sink_eval = sink_event_def anthropic_stream_sink_def some_context_def anthropic_stream_to_p_chunks_def
  anthropic_to_p_dispatch_def dget_dyn_def visible_def

lemmas read_eval = read_event_def Let_def as_pdict_def at_index_def

definition reads_blocks :: "reading \<Rightarrow> bool" where
  "reads_blocks r \<longleftrightarrow> r_id r \<noteq> None \<and> r_stop r = None \<and> \<not> r_over r"

lemma read_stop:
  assumes "reads_blocks r" "r_open r" "n = int (length (r_blocks r)) - 1"
  shows "read_event r (content_block_stop (PInt n)) = Some (r\<lparr>r_open := False\<rparr>)"
  using assms by (simp add: reads_blocks_def content_block_stop_def read_eval)

lemma read_start:
  assumes "reads_blocks r" "\<not> r_open r" "n = int (length (r_blocks r))" "fresh_block b = Some fb"
  shows "read_event r (content_block_start (PInt n) b) = Some (r\<lparr>r_blocks := r_blocks r @ [fb], r_open := True\<rparr>)"
  using assms by (simp add: reads_blocks_def content_block_start_def read_eval)

lemma read_tool:
  assumes "reads_blocks r" "\<not> r_open r" "n = int (length (r_blocks r))"
  shows "read_event r (tool_use_start (PStr i) (PStr nm) @ [(''index'', PInt n)]) =
    Some (r\<lparr>r_blocks := r_blocks r @ [ToolB i nm ''''], r_open := True\<rparr>)"
  using assms by (simp add: reads_blocks_def tool_use_start_def read_eval fresh_block_def)

lemma read_delta:
  assumes "reads_blocks r" "r_open r" "n = int (length (r_blocks r)) - 1" "r_blocks r \<noteq> []"
  shows "read_event r (block_delta d @ [(''index'', PInt n)]) =
    map_option (\<lambda>b. r\<lparr>r_blocks := butlast (r_blocks r) @ [b]\<rparr>) (grown d (last (r_blocks r)))"
  using assms by (auto simp: reads_blocks_def block_delta_def read_eval)

text \<open>The chunks of a delta of a kind: in the open block if it is of that kind, else in a new one.\<close>

definition delta_chunks :: "int \<Rightarrow> bool \<Rightarrow> pdict \<Rightarrow> pdict \<Rightarrow> pdict list" where
  "delta_chunks n same start delta =
     (if same then [block_delta delta @ [(''index'', PInt (n - 1))]]
      else (if n > 0 then [content_block_stop (PInt (n - 1))] else []) @
           [content_block_start (PInt n) start, block_delta delta @ [(''index'', PInt n)]])"

lemma read_delta_chunks:
  assumes "reads_blocks r" "r_open r = (r_blocks r \<noteq> [])" "n = int (length (r_blocks r))"
    and "fresh_block start = Some fb" "grown delta fb = Some gb"
    and "same \<Longrightarrow> r_blocks r \<noteq> [] \<and> grown delta (last (r_blocks r)) = Some sb"
  shows "read_events r (delta_chunks n same start delta) =
    Some (r\<lparr>r_blocks := (if same then butlast (r_blocks r) @ [sb] else r_blocks r @ [gb]), r_open := True\<rparr>)"
proof (cases same)
  case True
  have "r = r\<lparr>r_open := True\<rparr>" using True assms(2,6) by simp
  then show ?thesis using True assms by (simp add: delta_chunks_def read_delta)
next
  case False
  let ?r = "r\<lparr>r_open := False\<rparr>" and ?s = "r\<lparr>r_blocks := r_blocks r @ [fb], r_open := True\<rparr>"
  have "r_blocks r = [] \<Longrightarrow> r = ?r" using assms(2) by simp
  then have "read_events r (if n > 0 then [content_block_stop (PInt (n - 1))] else []) = Some ?r"
    using assms(1-3) read_stop [of r "n - 1"] by (cases "r_blocks r = []") auto
  moreover have "read_event ?r (content_block_start (PInt n) start) = Some ?s"
    using read_start [of ?r n start fb] assms(1,3,4) by (simp add: reads_blocks_def)
  moreover have "read_event ?s (block_delta delta @ [(''index'', PInt n)]) = Some (r\<lparr>r_blocks := r_blocks r @ [gb], r_open := True\<rparr>)"
    using read_delta [of ?s n delta] assms(1,3,5) by (simp add: reads_blocks_def)
  ultimately show ?thesis using False by (simp add: delta_chunks_def read_events_append)
qed

text \<open>The encoder emits these chunks.\<close>

definition at_block_count :: "stream_context \<Rightarrow> int \<Rightarrow> pyval \<Rightarrow> bool" where
  "at_block_count c n k \<longleftrightarrow>
     current_block_index c = n - 1 \<and> current_block_type c = k \<and> 0 \<le> n \<and> (k = PNone) = (n = 0) \<and>
     pending_usage c = None \<and> pending_finish c = None"

lemma delta_encoded:
  assumes "at_block_count c n k" "dget event ''block_index'' = PNone"
  shows "\<exists>cs c'. delta_to_p kind start delta event (Some c) = Inr (cs, Some c') \<and>
      visible cs = delta_chunks n (k = PStr kind) start delta \<and>
      at_block_count c' (if k = PStr kind then n else n + 1) (PStr kind)"
proof (cases "k = PStr kind")
  case True
  then show ?thesis using assms
    by (auto simp: delta_to_p_def at_block_count_def delta_chunks_def visible_def block_delta_def)
next
  case False
  then show ?thesis using assms
    by (cases "n = 0")
      (auto simp: delta_to_p_def at_block_count_def next_block_index_def open_block_def delta_chunks_def
        visible_def block_delta_def content_block_start_def content_block_stop_def)
qed

text \<open>An encoder and a reader in the middle of the blocks.\<close>

definition last_kind :: "block list \<Rightarrow> pyval" where
  "last_kind bs = (if bs = [] then PNone else PStr (kind_of (last bs)))"

definition in_blocks :: "stream_context \<Rightarrow> reading \<Rightarrow> bool" where
  "in_blocks c r \<longleftrightarrow>
     at_block_count c (int (length (r_blocks r))) (last_kind (r_blocks r)) \<and> reads_blocks r \<and>
     r_open r = (r_blocks r \<noteq> [])"

lemma event_no_block: "dget (body_dict ids e) ''block_index'' = PNone"
  by (cases e) (simp_all add: text_delta_event_def reasoning_delta_event_def tool_call_start_event_def
      tool_call_delta_event_def finish_event_def indexed_def)

lemma sink_body:
  "anthropic_stream_to_p_chunks fsum (text_delta_event (PStr t) ch) (Some c) =
     delta_to_p ''text'' empty_text [(''type'', PStr ''text_delta''), (''text'', PStr t)] (text_delta_event (PStr t) ch) (Some c)"
  "anthropic_stream_to_p_chunks fsum (reasoning_delta_event (PStr t) ch) (Some c) =
     delta_to_p ''thinking'' empty_thinking [(''type'', PStr ''thinking_delta''), (''thinking'', PStr t)]
       (reasoning_delta_event (PStr t) ch) (Some c)"
  by (simp_all add: anthropic_stream_to_p_chunks_def anthropic_to_p_dispatch_def dget_dyn_def text_delta_event_def
      reasoning_delta_event_def anthropic_text_delta_to_p_def anthropic_reasoning_delta_to_p_def)

lemma sink_Inr:
  "anthropic_stream_to_p_chunks fsum e (Some c) = Inr (cs, Some c') \<Longrightarrow>
     sink_event fsum (c, out) e = Inr (c', out @ visible cs)"
  by (simp add: sink_event_def anthropic_stream_sink_def some_context_def)

lemma delta_step:
  assumes "in_blocks c r" "dget event ''block_index'' = PNone"
    and "anthropic_stream_to_p_chunks fsum event (Some c) = delta_to_p kind start delta event (Some c)"
    and "fresh_block start = Some fb" "grown delta fb = Some gb" "kind_of gb = kind"
    and "last_kind (r_blocks r) = PStr kind \<Longrightarrow> grown delta (last (r_blocks r)) = Some sb \<and> kind_of sb = kind"
    and "bs = (if last_kind (r_blocks r) = PStr kind then butlast (r_blocks r) @ [sb] else r_blocks r @ [gb])"
  shows "\<exists>c' new. sink_event fsum (c, out) event = Inr (c', out @ new) \<and>
    read_events r new = Some (r\<lparr>r_blocks := bs, r_open := True\<rparr>) \<and> in_blocks c' (r\<lparr>r_blocks := bs, r_open := True\<rparr>)"
proof -
  let ?n = "int (length (r_blocks r))" and ?same = "last_kind (r_blocks r) = PStr kind"
  have r: "at_block_count c ?n (last_kind (r_blocks r))" "reads_blocks r" "r_open r = (r_blocks r \<noteq> [])"
    using assms(1) by (auto simp: in_blocks_def)
  obtain cs c' where e: "delta_to_p kind start delta event (Some c) = Inr (cs, Some c')"
    "visible cs = delta_chunks ?n ?same start delta" "at_block_count c' (if ?same then ?n else ?n + 1) (PStr kind)"
    using delta_encoded [OF r(1) assms(2), of kind start delta] by blast
  have ne: "?same \<Longrightarrow> r_blocks r \<noteq> []" by (auto simp: last_kind_def)
  have "read_events r (visible cs) = Some (r\<lparr>r_blocks := bs, r_open := True\<rparr>)"
    unfolding e(2) assms(8) by (rule read_delta_chunks [OF r(2,3) refl assms(4,5)]) (use assms(7) ne in simp)
  moreover have "in_blocks c' (r\<lparr>r_blocks := bs, r_open := True\<rparr>)"
  proof -
    have snoc: "last_kind (xs @ [b]) = PStr (kind_of b)" for xs b by (simp add: last_kind_def)
    have "last_kind bs = PStr kind \<and> int (length bs) = (if ?same then ?n else ?n + 1) \<and> bs \<noteq> []"
    proof (cases ?same)
      case True
      then have "bs = butlast (r_blocks r) @ [sb]" "kind_of sb = kind" using assms(7,8) by simp_all
      with True ne show ?thesis by (simp only: snoc) (cases "r_blocks r"; simp)
    next
      case False
      then have "bs = r_blocks r @ [gb]" using assms(8) by simp
      with False assms(6) show ?thesis by (simp only: snoc) simp
    qed
    with e(3) r(2) show ?thesis by (simp add: in_blocks_def reads_blocks_def)
  qed
  ultimately show ?thesis using sink_Inr [OF e(1) [folded assms(3)]] by blast
qed

lemma encode_body_event:
  assumes "in_blocks c r" "separable k (last_kind (r_blocks r) = PStr ''tool_use'') (e # es)"
  shows "\<exists>c' new. sink_event fsum (c, out) (body_dict ids e) = Inr (c', out @ new) \<and>
    read_events r new = Some (r\<lparr>r_blocks := add_block (r_blocks r) e, r_open := True\<rparr>) \<and>
    in_blocks c' (r\<lparr>r_blocks := add_block (r_blocks r) e, r_open := True\<rparr>)"
proof (cases e)
  case (TextD t ch)
  show ?thesis unfolding TextD body_dict.simps
    by (rule delta_step [OF assms(1) _ sink_body(1), where fb = "TextB ''''" and gb = "TextB t" and
          sb = "case last (r_blocks r) of TextB s \<Rightarrow> TextB (s @ t) | b \<Rightarrow> b"])
      (auto simp: text_delta_event_def empty_text_def fresh_block_def kind_of_def last_kind_def
        split: block.splits list.splits if_splits)
next
  case (ReasonD t ch)
  show ?thesis unfolding ReasonD body_dict.simps
    by (rule delta_step [OF assms(1) _ sink_body(2), where fb = "ThinkB ''''" and gb = "ThinkB t" and
          sb = "case last (r_blocks r) of ThinkB s \<Rightarrow> ThinkB (s @ t) | b \<Rightarrow> b"])
      (auto simp: reasoning_delta_event_def empty_thinking_def fresh_block_def kind_of_def last_kind_def
        split: block.splits list.splits if_splits)
next
  case (ToolStart i nm ch)
  let ?bs = "r_blocks r" and ?n = "int (length (r_blocks r))"
  have nt: "last_kind ?bs \<noteq> PStr ''tool_use''" using assms(2) ToolStart by simp
  have r: "at_block_count c ?n (last_kind ?bs)" "reads_blocks r" "r_open r = (?bs \<noteq> [])"
    using assms(1) by (auto simp: in_blocks_def)
  let ?new = "(if ?bs \<noteq> [] then [content_block_stop (PInt (?n - 1))] else []) @ [tool_use_start (PStr i) (PStr nm) @ [(''index'', PInt ?n)]]"
  obtain cs c' where e: "anthropic_stream_to_p_chunks fsum (body_dict ids e) (Some c) = Inr (cs, Some c')" "visible cs = ?new"
    "at_block_count c' (?n + 1) (PStr ''tool_use'')"
    using r(1) nt unfolding ToolStart
    by (cases "?bs = []")
      (auto simp: anthropic_stream_to_p_chunks_def anthropic_to_p_dispatch_def dget_dyn_def tool_call_start_event_def
        anthropic_tool_start_to_p_def at_block_count_def next_block_index_def open_block_def visible_def
        tool_use_start_def content_block_stop_def last_kind_def Let_def)
  let ?r = "r\<lparr>r_open := False\<rparr>"
  have "read_events r (if ?bs \<noteq> [] then [content_block_stop (PInt (?n - 1))] else []) = Some ?r"
    using r(2,3) read_stop [of r "?n - 1"] by (cases "?bs = []") auto
  then have "read_events r ?new = Some (r\<lparr>r_blocks := ?bs @ [ToolB i nm ''''], r_open := True\<rparr>)"
    using read_tool [of ?r ?n i nm] r(2) by (simp add: read_events_append reads_blocks_def)
  moreover have "in_blocks c' (r\<lparr>r_blocks := ?bs @ [ToolB i nm ''''], r_open := True\<rparr>)"
    using e(3) r(2) by (simp add: in_blocks_def reads_blocks_def last_kind_def kind_of_def add.commute)
  ultimately show ?thesis using sink_Inr [OF e(1)] e(2) ToolStart by auto
next
  case (ToolArgs j d ch)
  let ?bs = "r_blocks r" and ?n = "int (length (r_blocks r))"
  obtain i nm s where b: "?bs \<noteq> []" "last ?bs = ToolB i nm s"
    using assms(2) ToolArgs by (cases "last ?bs") (auto simp: last_kind_def kind_of_def split: if_splits)
  have r: "at_block_count c ?n (last_kind ?bs)" "reads_blocks r" "r_open r"
    using assms(1) b(1) by (auto simp: in_blocks_def)
  let ?delta = "[(''type'', PStr ''input_json_delta''), (''partial_json'', PStr d)]"
  have e: "anthropic_stream_to_p_chunks fsum (body_dict ids e) (Some c) = Inr (Chunk (block_delta ?delta @ [(''index'', PInt (?n - 1))]), Some c)"
    using r(1) b(1) unfolding ToolArgs
    by (auto simp: anthropic_stream_to_p_chunks_def anthropic_to_p_dispatch_def dget_dyn_def tool_call_delta_event_def indexed_def
        anthropic_tool_delta_to_p_def at_block_count_def Let_def)
  have v: "visible (Chunk (block_delta ?delta @ [(''index'', PInt (?n - 1))])) = [block_delta ?delta @ [(''index'', PInt (?n - 1))]]"
    by (simp add: visible_def)
  have ab: "add_block ?bs e = butlast ?bs @ [ToolB i nm (s @ d)]"
    using b ToolArgs by (cases ?bs) auto
  have "read_events r [block_delta ?delta @ [(''index'', PInt (?n - 1))]] = Some (r\<lparr>r_blocks := add_block ?bs e\<rparr>)"
    using read_delta [OF r(2,3) refl b(1), of ?delta] b(2) ab by simp
  moreover have "r\<lparr>r_blocks := add_block ?bs e\<rparr> = r\<lparr>r_blocks := add_block ?bs e, r_open := True\<rparr>" using r(3) by simp
  moreover have "in_blocks c (r\<lparr>r_blocks := add_block ?bs e, r_open := True\<rparr>)"
    using r b ab by (auto simp: in_blocks_def reads_blocks_def last_kind_def kind_of_def)
  ultimately show ?thesis using sink_Inr [OF e] v by metis
qed (use assms in auto)

lemma add_block_kind:
  assumes "separable k (last_kind bs = PStr ''tool_use'') (e # es)"
  shows "\<exists>k'. separable k' (last_kind (add_block bs e) = PStr ''tool_use'') es"
proof (cases e)
  case (TextD t ch)
  have "last_kind (add_block bs e) = PStr ''text''"
    unfolding TextD by (cases bs rule: rev_cases) (auto simp: last_kind_def kind_of_def split: block.splits list.splits)
  then show ?thesis using assms TextD by auto
next
  case (ReasonD t ch)
  have "last_kind (add_block bs e) = PStr ''thinking''"
    unfolding ReasonD by (cases bs rule: rev_cases) (auto simp: last_kind_def kind_of_def split: block.splits list.splits)
  then show ?thesis using assms ReasonD by auto
next
  case (ToolStart i nm ch)
  then show ?thesis using assms by (auto simp: last_kind_def kind_of_def)
next
  case (ToolArgs j d ch)
  then obtain i nm s where "bs \<noteq> []" "last bs = ToolB i nm s"
    using assms by (cases "last bs") (auto simp: last_kind_def kind_of_def split: if_splits)
  then have "last_kind (add_block bs e) = PStr ''tool_use''"
    unfolding ToolArgs by (cases bs) (auto simp: last_kind_def kind_of_def)
  then show ?thesis using assms ToolArgs by auto
qed (use assms in auto)

lemma encode_body_events:
  "in_blocks c r \<Longrightarrow> separable k (last_kind (r_blocks r) = PStr ''tool_use'') es \<Longrightarrow>
   \<exists>c' new. rfold (sink_event fsum) (c, out) (body_dicts ids es) = Inr (c', out @ new) \<and>
     (\<exists>r'. read_events r new = Some r' \<and> in_blocks c' r' \<and>
        r' = r\<lparr>r_blocks := foldl add_block (r_blocks r) es, r_open := r_open r'\<rparr>)"
proof (induction es arbitrary: c r k ids out)
  case Nil
  have "r = r\<lparr>r_blocks := r_blocks r, r_open := r_open r\<rparr>" by simp
  with Nil show ?case by auto
next
  case (Cons e es)
  let ?r = "r\<lparr>r_blocks := add_block (r_blocks r) e, r_open := True\<rparr>"
  obtain c1 new where 1: "sink_event fsum (c, out) (body_dict ids e) = Inr (c1, out @ new)"
    "read_events r new = Some ?r" "in_blocks c1 ?r"
    using encode_body_event [OF Cons.prems] by blast
  obtain k' where "separable k' (last_kind (r_blocks ?r) = PStr ''tool_use'') es"
    using add_block_kind [OF Cons.prems(2)] by auto
  from Cons.IH [OF 1(3) this, of "out @ new" "next_ids ids e"] obtain c2 new' r' where
    2: "rfold (sink_event fsum) (c1, out @ new) (body_dicts (next_ids ids e) es) = Inr (c2, (out @ new) @ new')"
    "read_events ?r new' = Some r'" "in_blocks c2 r'"
    "r' = ?r\<lparr>r_blocks := foldl add_block (r_blocks ?r) es, r_open := r_open r'\<rparr>" by blast
  have "read_events r (new @ new') = Some r'" using 1(2) 2(2) by (simp add: read_events_append)
  moreover have "r' = r\<lparr>r_blocks := foldl add_block (r_blocks r) (e # es), r_open := r_open r'\<rparr>"
    using 2(4) by simp
  ultimately show ?case using 1(1) 2(1,3) by (auto simp del: split_paired_Ex intro!: exI [of _ c2] exI [of _ "new @ new'"])
qed

lemma sink_start:
  "\<exists>c m. sink_event fsum (stream_context_init\<lparr>ctx_options := opts, ctx_metadata := meta\<rparr>, [])
      (stream_start_event (PStr rid) (PStr mdl) (PInt crt)) = Inr (c, [m]) \<and>
    read_event reading_init m = Some (reading_init\<lparr>r_id := Some (rid, mdl)\<rparr>) \<and>
    in_blocks c (reading_init\<lparr>r_id := Some (rid, mdl)\<rparr>)"
  by (auto simp: sink_eval stream_start_event_def message_start_to_p_def start_usage_def stream_context_init_def
      mark_started_def read_eval reading_init_def in_blocks_def at_block_count_def reads_blocks_def last_kind_def)

lemma read_message_delta:
  assumes "reads_blocks r" "\<not> r_open r"
  shows "read_event r (message_delta [(''stop_reason'', PStr s)] (PInt k)) = Some (r\<lparr>r_stop := Some (s, k)\<rparr>)"
  using assms by (auto simp: reads_blocks_def message_delta_def read_eval)

lemma sink_tail:
  assumes "in_blocks c r"
  shows "\<exists>c' new. rfold (sink_event fsum) (c, out)
      [finish_event (PStr rs) (PInt ch), usage_event (usage_of p q t), stream_end_event] = Inr (c', out @ new) \<and>
    read_events r new = Some (r\<lparr>r_open := False, r_stop := Some (stop_of rs, q), r_over := True\<rparr>)"
proof -
  let ?n = "int (length (r_blocks r))" and ?r = "r\<lparr>r_open := False\<rparr>"
  let ?close = "if r_blocks r \<noteq> [] then [content_block_stop (PInt (?n - 1))] else []"
  have r: "at_block_count c ?n (last_kind (r_blocks r))" "reads_blocks r" "r_open r = (r_blocks r \<noteq> [])"
    using assms by (auto simp: in_blocks_def)
  have ro: "reason_or ''end_turn'' anthropic_reason_to_provider (PStr rs) = Inr (PStr (stop_of rs))"
    by (simp add: reason_or_def dget_dyn_def stop_of_def)
  let ?delta = "[(''stop_reason'', PStr (stop_of rs))]"
  have f: "\<exists>c1. sink_event fsum (c, out) (finish_event (PStr rs) (PInt ch)) = Inr (c1, out @ ?close) \<and>
      pending_usage c1 = None \<and> pending_finish c1 = Some ?delta"
    using r(1) by (cases "r_blocks r = []")
      (simp_all add: sink_eval finish_event_def anthropic_finish_to_p_def ro open_block_def at_block_count_def
        pop_pending_usage_def buffer_finish_def content_block_stop_def)
  then obtain c1 where c1: "sink_event fsum (c, out) (finish_event (PStr rs) (PInt ch)) = Inr (c1, out @ ?close)"
    "pending_usage c1 = None" "pending_finish c1 = Some ?delta" by blast
  have u: "\<exists>c2. sink_event fsum (c1, o1) (usage_event (usage_of p q t)) = Inr (c2, o1 @ [message_delta ?delta (PInt q)]) \<and>
      pending_finish c2 = None" for o1
    using c1(2,3) by (simp add: sink_eval usage_event_def usage_of_def anthropic_usage_to_p_def typed_dict_def
        pop_pending_finish_def message_delta_def)
  then obtain c2 where c2: "sink_event fsum (c1, out @ ?close) (usage_event (usage_of p q t)) =
      Inr (c2, (out @ ?close) @ [message_delta ?delta (PInt q)])" "pending_finish c2 = None" by blast
  have e: "\<exists>c3. sink_event fsum (c2, o1) stream_end_event = Inr (c3, o1 @ [message_stop])" for o1
    using c2(2) by (simp add: sink_eval stream_end_event_def message_stop_to_p_def pop_pending_finish_def message_stop_def)
  have "read_events r ?close = Some ?r"
    using r(2,3) read_stop [of r "?n - 1"] by (cases "r_blocks r = []") auto
  then have "read_events r (?close @ [message_delta ?delta (PInt q), message_stop]) =
      Some (r\<lparr>r_open := False, r_stop := Some (stop_of rs, q), r_over := True\<rparr>)"
    using read_message_delta [of ?r "stop_of rs" q] r(2)
    by (simp add: read_events_append reads_blocks_def) (auto simp: read_eval message_stop_def)
  moreover have "\<exists>c'. rfold (sink_event fsum) (c, out)
      [finish_event (PStr rs) (PInt ch), usage_event (usage_of p q t), stream_end_event] =
      Inr (c', out @ ?close @ [message_delta ?delta (PInt q), message_stop])"
    using c1(1) c2(1) e [of "(out @ ?close) @ [message_delta ?delta (PInt q)]"] by auto
  ultimately show ?thesis by (auto simp del: split_paired_Ex)
qed

section \<open>Through the pipeline\<close>

lemma process_plain:
  assumes "rfold (sink_event fsum) (sp_to_ctx sp, out) es = Inr (c', out')"
    and "on_ir_event sp = None" "transform_ir_event sp = None" "stream_to (sp_source sp) = anthropic_stream_sink fsum"
  shows "\<exists>sp'. rfold process_event (sp, out) es = Inr (sp', out')"
  using assms
proof (induction es arbitrary: sp out)
  case (Cons e es)
  then obtain c1 o1 where 1: "sink_event fsum (sp_to_ctx sp, out) e = Inr (c1, o1)" "rfold (sink_event fsum) (c1, o1) es = Inr (c', out')"
    by (auto elim!: rbind_InrE)
  then obtain cs where cs: "anthropic_stream_sink fsum e (sp_to_ctx sp) = Inr (cs, c1)" "o1 = out @ visible cs"
    by (auto simp: sink_event_def elim!: rbind_InrE)
  let ?sp = "if event_type e = PStr ''finish'' then sp\<lparr>saw_finish := True\<rparr> else sp"
  let ?sp1 = "?sp\<lparr>sp_hooks := sp_hooks ?sp, sp_to_ctx := c1\<rparr>"
  have "process_event (sp, out) e = Inr (?sp1, o1)"
    using Cons.prems(2-4) cs by (simp add: process_event_def send_event_def Let_def)
  moreover have "on_ir_event ?sp1 = None" "transform_ir_event ?sp1 = None" "sp_source ?sp1 = sp_source sp"
    using Cons.prems(2,3) by simp_all
  then have "\<exists>sp'. rfold process_event (?sp1, o1) es = Inr (sp', out')"
    using Cons.IH [of ?sp1 o1] 1(2) Cons.prems(4) by simp
  ultimately show ?case by simp
qed simp

lemma stream_ok_snoc: "stream_ok ids done (es @ [e]) \<Longrightarrow> stream_ok ids done es"
  by (induction es arbitrary: ids "done") auto

lemma body_dicts_finish: "body_dicts ids (es @ [FinishE rs ch]) = body_dicts ids es @ [finish_event (PStr rs) (PInt ch)]"
  by (induction es arbitrary: ids) auto

text \<open>The events of a whole stream, read back.\<close>

lemma anthropic_stream_written:
  assumes "separable 0 False deltas"
  shows "\<exists>c out. rfold (sink_event fsum) (stream_context_init\<lparr>ctx_options := opts, ctx_metadata := meta\<rparr>, [])
      (stream_events rid mdl crt (deltas @ [FinishE rs ch]) (usage_of p q t)) = Inr (c, out) \<and>
    read_events reading_init out = Some
      \<lparr>r_id = Some (rid, mdl), r_blocks = message_blocks deltas, r_open = False,
       r_stop = Some (stop_of rs, q), r_over = True\<rparr>"
proof -
  let ?r0 = "reading_init\<lparr>r_id := Some (rid, mdl)\<rparr>"
  obtain c0 m where 0: "sink_event fsum (stream_context_init\<lparr>ctx_options := opts, ctx_metadata := meta\<rparr>, [])
      (stream_start_event (PStr rid) (PStr mdl) (PInt crt)) = Inr (c0, [m])"
    "read_event reading_init m = Some ?r0" "in_blocks c0 ?r0"
    using sink_start by blast
  have "separable 0 (last_kind (r_blocks ?r0) = PStr ''tool_use'') deltas"
    using assms by (simp add: reading_init_def last_kind_def)
  from encode_body_events [OF 0(3) this, of fsum "[m]" "[]"] obtain c1 new r1 where
    1: "rfold (sink_event fsum) (c0, [m]) (body_dicts [] deltas) = Inr (c1, [m] @ new)" "read_events ?r0 new = Some r1"
    "in_blocks c1 r1" "r1 = ?r0\<lparr>r_blocks := foldl add_block (r_blocks ?r0) deltas, r_open := r_open r1\<rparr>" by blast
  obtain c2 new' where 2: "rfold (sink_event fsum) (c1, [m] @ new)
      [finish_event (PStr rs) (PInt ch), usage_event (usage_of p q t), stream_end_event] = Inr (c2, ([m] @ new) @ new')"
    "read_events r1 new' = Some (r1\<lparr>r_open := False, r_stop := Some (stop_of rs, q), r_over := True\<rparr>)"
    using sink_tail [OF 1(3), of fsum "[m] @ new" rs ch p q t] by blast
  have "stream_events rid mdl crt (deltas @ [FinishE rs ch]) (usage_of p q t) =
      stream_start_event (PStr rid) (PStr mdl) (PInt crt) # body_dicts [] deltas @
        [finish_event (PStr rs) (PInt ch), usage_event (usage_of p q t), stream_end_event]"
    by (simp add: stream_events_def body_dicts_finish)
  then have "rfold (sink_event fsum) (stream_context_init\<lparr>ctx_options := opts, ctx_metadata := meta\<rparr>, [])
      (stream_events rid mdl crt (deltas @ [FinishE rs ch]) (usage_of p q t)) = Inr (c2, ([m] @ new) @ new')"
    using 2(1) by (simp only: rfold.simps(2) [of _ _ "stream_start_event _ _ _"] 0(1) rbind_Inr rfold_append 1(1))
  moreover have "r1\<lparr>r_open := False, r_stop := Some (stop_of rs, q), r_over := True\<rparr> =
      \<lparr>r_id = Some (rid, mdl), r_blocks = message_blocks deltas, r_open = False,
       r_stop = Some (stop_of rs, q), r_over = True\<rparr>"
    by (subst 1(4)) (simp add: reading_init_def message_blocks_def)
  moreover have "read_events reading_init ([m] @ new) = Some r1"
    using 0(2) 1(2) by simp
  then have "read_events reading_init (([m] @ new) @ new') =
      Some (r1\<lparr>r_open := False, r_stop := Some (stop_of rs, q), r_over := True\<rparr>)"
    using 2(2) by (simp only: read_events_append option.case)
  ultimately show ?thesis by metis
qed

section \<open>Properties\<close>


definition demo_anthropic :: "(int, int) anthropic_env" where
  "demo_anthropic = chat_env.extend demo_chat
     (anthropic_env.fields (\<lambda>v. Inr v) (\<lambda>_ _. PNone) 0)"

definition demo_bridge :: "(int, int caches, unit, unit) pipeline" where
  "demo_bridge =
     (pipeline_init [] [] (anthropic_converter demo_anthropic) (chat_converter (\<lambda>_ _. PNone) demo_chat)
        ''openai_chat'' NoShim None None [] [])\<lparr>p_ctx := Some demo_ctx\<rparr>"


section \<open>Where the encoder breaks the protocol\<close>

text \<open>
  A tool call that follows another one directly, as a Chat upstream sends parallel calls, starts a
  block with the index of the block of the other one, which is still open: the reader refuses it.
\<close>

lemma second_call_in_the_same_block:
  assumes "in_blocks c r" "last_kind (r_blocks r) = PStr ''tool_use''"
  shows "\<exists>c' chunk. sink_event fsum (c, out) (tool_call_start_event (PStr i) (PStr nm) ch ix) = Inr (c', out @ [chunk]) \<and>
    dget chunk ''type'' = PStr ''content_block_start'' \<and>
    dget chunk ''index'' = PInt (int (length (r_blocks r)) - 1) \<and> read_event r chunk = None"
  using assms
  by (auto simp: in_blocks_def at_block_count_def reads_blocks_def last_kind_def sink_eval tool_call_start_event_def indexed_def
      anthropic_tool_start_to_p_def tool_use_start_def read_eval split: if_splits)

end
