(* ===== verification/FailoverGate.thy ===== *)
theory FailoverGate
  imports Prelude
begin

text \<open>
  \<open>gateway/_ordered_failover.py\<close>, class \<open>FailoverGate\<close>: one leader, waiters and handoff of an
  interrupted claim, on one \<open>asyncio.Condition\<close>.

  The body of a coroutine between two suspensions is atomic, so a method is one poll of its
  \<open>while self._active\<close> loop: \<open>None\<close> is \<open>await self._condition.wait()\<close> and \<open>Some r\<close> the
  returned tuple. \<open>gate_step\<close> interleaves the polls of any number of tasks. A task waiting on
  the condition runs again only after a notification, and may be cancelled while it waits.
\<close>

section \<open>The gate\<close>

record ('o, 'p) gate =
  generation :: nat
  active :: bool
  orphaned :: bool
  pending :: "'p option"
  outcome :: "'o option"

definition gate_init :: "('o, 'p) gate" where
  "gate_init = \<lparr>generation = 0, active = False, orphaned = False, pending = None, outcome = None\<rparr>"

type_synonym ('o, 'p) await_result = "nat \<times> 'o option \<times> bool \<times> bool \<times> 'p option"
type_synonym ('o, 'p) claim_result = "bool \<times> nat \<times> 'o option \<times> 'p option \<times> bool"

definition await_active_poll ::
  "bool \<Rightarrow> ('o, 'p) gate \<Rightarrow> ('o, 'p) await_result option \<times> ('o, 'p) gate" where
  "await_active_poll waited g =
     (if active g then
        if orphaned g then
          (Some (generation g, None, True, True, pending g), g\<lparr>orphaned := False, pending := None\<rparr>)
        else (None, g)
      else (Some (generation g, outcome g, waited, False, None), g))"

definition claim_with_waited_poll ::
  "bool \<Rightarrow> nat \<Rightarrow> ('o, 'p) gate \<Rightarrow> ('o, 'p) claim_result option \<times> ('o, 'p) gate" where
  "claim_with_waited_poll waited observed_generation g =
     (if active g then
        if orphaned g then
          (Some (True, generation g, None, pending g, True), g\<lparr>orphaned := False, pending := None\<rparr>)
        else (None, g)
      else if generation g \<noteq> observed_generation then
        (Some (False, generation g, outcome g, None, waited), g)
      else
        (Some (True, generation g + 1, None, None, waited),
         g\<lparr>generation := generation g + 1, active := True, orphaned := False, pending := None,
           outcome := None\<rparr>))"

definition claim_poll ::
  "bool \<Rightarrow> nat \<Rightarrow> ('o, 'p) gate
   \<Rightarrow> (bool \<times> nat \<times> 'o option \<times> 'p option) option \<times> ('o, 'p) gate" where
  "claim_poll waited observed_generation g =
     (let (r, g') = claim_with_waited_poll waited observed_generation g in
      (map_option (\<lambda>(leader, gen, out, pend, _). (leader, gen, out, pend)) r, g'))"

definition publish :: "'o option \<Rightarrow> ('o, 'p) gate \<Rightarrow> ('o, 'p) gate" where
  "publish out g = g\<lparr>outcome := out, active := False, orphaned := False, pending := None\<rparr>"

definition handoff :: "'p option \<Rightarrow> ('o, 'p) gate \<Rightarrow> ('o, 'p) gate" where
  "handoff pend g = g\<lparr>orphaned := True, pending := pend\<rparr>"

section \<open>Tasks on the gate\<close>

text \<open>
  What a task is doing: nothing with the gate, waiting inside a claim for the generation it
  observed or inside \<open>await_active\<close> (the flag says whether it has been notified since it began
  to wait), or leading. Only a leader publishes or hands off, as the callers do.
\<close>

datatype phase = Idle | ClaimWait nat bool | AwaitWait bool | Leading

type_synonym ('o, 'p) gate_sys = "('o, 'p) gate \<times> (nat \<Rightarrow> phase)"

fun notified :: "phase \<Rightarrow> phase" where
  "notified (ClaimWait n _) = ClaimWait n True"
| "notified (AwaitWait _) = AwaitWait True"
| "notified p = p"

definition after_claim :: "nat \<Rightarrow> nat \<Rightarrow> bool \<Rightarrow> ('o, 'p) gate_sys \<Rightarrow> ('o, 'p) gate_sys" where
  "after_claim i obs waited s =
     (case claim_with_waited_poll waited obs (fst s) of
        (None, g) \<Rightarrow> (g, (snd s)(i := ClaimWait obs False))
      | (Some r, g) \<Rightarrow> (g, (snd s)(i := if fst r then Leading else Idle)))"

definition after_await :: "nat \<Rightarrow> bool \<Rightarrow> ('o, 'p) gate_sys \<Rightarrow> ('o, 'p) gate_sys" where
  "after_await i waited s =
     (case await_active_poll waited (fst s) of
        (None, g) \<Rightarrow> (g, (snd s)(i := AwaitWait False))
      | (Some r, g) \<Rightarrow> (g, (snd s)(i := if fst (snd (snd (snd r))) then Leading else Idle)))"

inductive gate_step :: "('o, 'p) gate_sys \<Rightarrow> ('o, 'p) gate_sys \<Rightarrow> bool" where
  claim_call: "snd s i = Idle \<Longrightarrow> gate_step s (after_claim i obs False s)"
| claim_wake: "snd s i = ClaimWait obs True \<Longrightarrow> gate_step s (after_claim i obs True s)"
| await_call: "snd s i = Idle \<Longrightarrow> gate_step s (after_await i False s)"
| await_wake: "snd s i = AwaitWait True \<Longrightarrow> gate_step s (after_await i True s)"
| publishes: "snd s i = Leading \<Longrightarrow>
    gate_step s (publish out (fst s), notified \<circ> (snd s)(i := Idle))"
| hands_off: "snd s i = Leading \<Longrightarrow>
    gate_step s (handoff pend (fst s), notified \<circ> (snd s)(i := Idle))"
| cancelled: "snd s i = ClaimWait obs b \<or> snd s i = AwaitWait b \<Longrightarrow>
    gate_step s (fst s, (snd s)(i := Idle))"

inductive_cases gate_stepE: "gate_step s s'"

inductive gate_reachable :: "('o, 'p) gate_sys \<Rightarrow> bool" where
  start: "gate_reachable (gate_init, \<lambda>_. Idle)"
| more: "gate_reachable s \<Longrightarrow> gate_step s s' \<Longrightarrow> gate_reachable s'"

inductive_simps gate_reachable_start: "gate_reachable (gate_init, \<lambda>_. Idle)"

fun asleep :: "phase \<Rightarrow> bool" where
  "asleep (ClaimWait n b) = (\<not> b)"
| "asleep (AwaitWait b) = (\<not> b)"
| "asleep p = False"

definition led :: "('o, 'p) gate \<Rightarrow> bool" where
  "led g \<longleftrightarrow> active g \<and> \<not> orphaned g"

definition gate_inv :: "('o, 'p) gate_sys \<Rightarrow> bool" where
  "gate_inv s \<longleftrightarrow>
     (orphaned (fst s) \<longrightarrow> active (fst s)) \<and>
     (\<forall>i j. snd s i = Leading \<longrightarrow> snd s j = Leading \<longrightarrow> i = j) \<and>
     (led (fst s) \<longleftrightarrow> (\<exists>i. snd s i = Leading)) \<and>
     ((\<exists>i. asleep (snd s i)) \<longrightarrow> led (fst s))"

lemma asleep_notified [simp]: "\<not> asleep (notified p)"
  by (cases p) auto

lemma notified_Leading [simp]: "notified p = Leading \<longleftrightarrow> p = Leading"
  by (cases p) auto

lemma gate_inv_init: "gate_inv (gate_init, \<lambda>_. Idle)"
  by (simp add: gate_inv_def gate_init_def led_def)

lemma gate_inv_after_claim:
  assumes "gate_inv s" and "snd s i \<noteq> Leading"
  shows "gate_inv (after_claim i obs w s)"
  using assms
  by (auto simp: gate_inv_def after_claim_def claim_with_waited_poll_def led_def fun_upd_apply)

lemma gate_inv_after_await:
  assumes "gate_inv s" and "snd s i \<noteq> Leading"
  shows "gate_inv (after_await i w s)"
  using assms
  by (auto simp: gate_inv_def after_await_def await_active_poll_def led_def fun_upd_apply)

lemma gate_inv_step: "gate_step s s' \<Longrightarrow> gate_inv s \<Longrightarrow> gate_inv s'"
proof (induction rule: gate_step.induct)
  case (publishes s i out)
  then have "snd s j \<noteq> Leading" if "j \<noteq> i" for j using that by (auto simp: gate_inv_def)
  with publishes show ?case by (auto simp: gate_inv_def publish_def led_def)
next
  case (hands_off s i pend)
  then have "snd s j \<noteq> Leading" if "j \<noteq> i" for j using that by (auto simp: gate_inv_def)
  moreover have "active (fst s)" using hands_off by (auto simp: gate_inv_def led_def)
  ultimately show ?case using hands_off by (auto simp: gate_inv_def handoff_def led_def)
next
  case (cancelled s i obs b)
  then have "((snd s)(i := Idle)) j = Leading \<longleftrightarrow> snd s j = Leading" for j by auto
  moreover have "asleep (((snd s)(i := Idle)) j) \<Longrightarrow> asleep (snd s j)" for j
    by (auto split: if_splits)
  ultimately show ?case using cancelled by (simp add: gate_inv_def del: fun_upd_apply) blast
qed (auto intro: gate_inv_after_claim gate_inv_after_await)

lemma gate_reachable_inv: "gate_reachable s \<Longrightarrow> gate_inv s"
  by (induction rule: gate_reachable.induct) (auto intro: gate_inv_init gate_inv_step)

lemma gate_generation_step:
  "gate_step s s' \<Longrightarrow> gate_inv s \<Longrightarrow>
   generation (fst s') = generation (fst s) \<or>
   generation (fst s') = Suc (generation (fst s)) \<and> \<not> active (fst s) \<and> led (fst s')"
  by (induction rule: gate_step.induct)
    (auto simp: after_claim_def after_await_def claim_with_waited_poll_def await_active_poll_def
      publish_def handoff_def led_def)


lemma free_gate_returns:
  "\<not> led g \<Longrightarrow> fst (claim_with_waited_poll w obs g) \<noteq> None \<and> fst (await_active_poll w g) \<noteq> None"
  by (auto simp: led_def claim_with_waited_poll_def await_active_poll_def)

section \<open>Properties\<close>


text \<open>Task 0 leads generation 1 and task 1 sleeps in a claim for generation 0.\<close>

definition demo_tasks :: "nat \<Rightarrow> phase" where
  "demo_tasks = (\<lambda>_. Idle)(0 := Leading, 1 := ClaimWait 0 False)"

definition demo_gate :: "(nat, nat) gate" where
  "demo_gate = gate_init\<lparr>generation := 1, active := True\<rparr>"

lemma demo_gate_reachable: "gate_reachable (demo_gate, demo_tasks)"
proof -
  let ?s0 = "(gate_init, \<lambda>_. Idle) :: (nat, nat) gate_sys"
  let ?s1 = "after_claim 0 0 False ?s0"
  have s1: "?s1 = (demo_gate, (\<lambda>_. Idle)(0 := Leading))"
    by (simp add: after_claim_def claim_with_waited_poll_def gate_init_def demo_gate_def)
  have "gate_reachable ?s1"
    by (rule gate_reachable.more [OF gate_reachable.start claim_call]) simp
  moreover have "gate_step ?s1 (after_claim 1 0 False ?s1)"
    by (rule claim_call) (simp add: s1)
  moreover have "after_claim 1 0 False ?s1 = (demo_gate, demo_tasks)"
    by (simp add: s1 after_claim_def claim_with_waited_poll_def gate_init_def demo_gate_def
        demo_tasks_def)
  ultimately show ?thesis by (metis gate_reachable.more)
qed




end
