(* ===== verification/CooldownTable.thy ===== *)
theory CooldownTable
  imports Prelude
begin

text \<open>
  The contract that the two cooldown tables of the gateway share, the one of
  \<open>OrderedFailoverCoordinator\<close> and the one of \<open>_SearchProviderChainState\<close>: a key cools only
  because it was marked as failed. Both interpret it on their own operations.

  Instants are values of a linear order. A float sum \<open>now + cooldown\<close> is the parameter \<open>fadd\<close> of
  the models, so that rounding is covered, and an instant is never a NaN.
\<close>

datatype ('k, 't) cd_event = Marked 't 'k | Cleared 't 'k | Pruned 't

primrec cd_apply ::
  "('t \<Rightarrow> 'k \<Rightarrow> 's \<Rightarrow> 's) \<Rightarrow> ('t \<Rightarrow> 'k \<Rightarrow> 's \<Rightarrow> 's) \<Rightarrow> ('t \<Rightarrow> 's \<Rightarrow> 's) \<Rightarrow> ('k, 't) cd_event \<Rightarrow> 's \<Rightarrow> 's" where
  "cd_apply mark clear prune (Marked t k) s = mark t k s"
| "cd_apply mark clear prune (Cleared t k) s = clear t k s"
| "cd_apply mark clear prune (Pruned t) s = prune t s"

definition cd_run ::
  "('t \<Rightarrow> 'k \<Rightarrow> 's \<Rightarrow> 's) \<Rightarrow> ('t \<Rightarrow> 'k \<Rightarrow> 's \<Rightarrow> 's) \<Rightarrow> ('t \<Rightarrow> 's \<Rightarrow> 's) \<Rightarrow> ('k, 't) cd_event list \<Rightarrow> 's \<Rightarrow> 's" where
  "cd_run mark clear prune = fold (cd_apply mark clear prune)"

text \<open>\<open>cooling t k s\<close> says that a look at instant \<open>t\<close> finds \<open>k\<close> cooling in the table \<open>s\<close>.\<close>

locale cooldown_table =
  fixes inv :: "'s \<Rightarrow> bool"
    and cooling :: "'t::linorder \<Rightarrow> 'k \<Rightarrow> 's \<Rightarrow> bool"
    and mark :: "'t \<Rightarrow> 'k \<Rightarrow> 's \<Rightarrow> 's"
    and clear :: "'t \<Rightarrow> 'k \<Rightarrow> 's \<Rightarrow> 's"
    and prune :: "'t \<Rightarrow> 's \<Rightarrow> 's"
  assumes inv_mark: "inv s \<Longrightarrow> inv (mark t k s)"
    and inv_clear: "inv s \<Longrightarrow> inv (clear t k s)"
    and inv_prune: "inv s \<Longrightarrow> inv (prune t s)"
    and cooling_antimono: "inv s \<Longrightarrow> cooling u k s \<Longrightarrow> v \<le> u \<Longrightarrow> cooling v k s"
    and mark_others: "inv s \<Longrightarrow> k' \<noteq> k \<Longrightarrow> cooling u k' (mark t k s) \<Longrightarrow> cooling u k' s"
    and clear_adds_none: "inv s \<Longrightarrow> cooling u k' (clear t k s) \<Longrightarrow> cooling u k' s"
    and prune_adds_none: "inv s \<Longrightarrow> cooling u k' (prune t s) \<Longrightarrow> cooling u k' s"
begin

lemma inv_apply: "inv s \<Longrightarrow> inv (cd_apply mark clear prune e s)"
  by (cases e) (auto intro: inv_mark inv_clear inv_prune)

lemma inv_run: "inv s \<Longrightarrow> inv (cd_run mark clear prune es s)"
  unfolding cd_run_def by (induction es arbitrary: s) (auto intro: inv_apply)

lemma apply_adds_none:
  "inv s \<Longrightarrow> (\<And>t. e \<noteq> Marked t k) \<Longrightarrow> cooling u k (cd_apply mark clear prune e s) \<Longrightarrow> cooling u k s"
proof (cases e)
  case (Marked t k')
  moreover assume "\<And>t. e \<noteq> Marked t k" "inv s" "cooling u k (cd_apply mark clear prune e s)"
  ultimately show "cooling u k s" using mark_others [of s k k' u t] by auto
qed (auto intro: clear_adds_none prune_adds_none)

lemma run_adds_none:
  "inv s \<Longrightarrow> (\<And>t. Marked t k \<notin> set es) \<Longrightarrow> cooling u k (cd_run mark clear prune es s) \<Longrightarrow> cooling u k s"
  unfolding cd_run_def
proof (induction es arbitrary: s)
  case (Cons e es)
  have "cooling u k (cd_apply mark clear prune e s)"
    by (rule Cons.IH) (use Cons.prems inv_apply in auto)
  moreover have "e \<noteq> Marked t k" for t using Cons.prems(2) [of t] by auto
  ultimately show ?case using apply_adds_none Cons.prems(1) by blast
qed simp

lemma expired_stays_expired:
  assumes "inv s" and "\<And>t. Marked t k \<notin> set es" and "\<not> cooling u k s" and "u \<le> v"
  shows "\<not> cooling v k (cd_run mark clear prune es s)"
  using assms run_adds_none cooling_antimono by blast

end

end
