(* ===== verification/OrderedFailover.thy ===== *)
theory OrderedFailover
  imports FailoverGate CooldownTable
begin

text \<open>
  \<open>gateway/_ordered_failover.py\<close>, class \<open>OrderedFailoverCoordinator\<close>: ordered candidates with one
  current, a cooldown per failed candidate and a \<open>FailoverGate\<close>. Each synchronous method reads
  the clock at most once and takes that instant as its first argument. An asynchronous method
  is one poll of the gate, as in \<open>FailoverGate\<close>. The cooldown is a finite positive float.
\<close>

section \<open>State\<close>

record ('c, 't) coordinator =
  candidates :: "'c list"
  current :: 'c
  ring_seconds :: 't
  ring_until :: "('c \<times> 't) list"
  ring_started :: "('c \<times> 't) list"
  ring_details :: "('c \<times> string option) list"
  ring_gate :: "(unit, unit) gate"

definition coordinator_init ::
  "('t::{linorder,zero} \<Rightarrow> bool) \<Rightarrow> 'c list \<Rightarrow> 'c \<Rightarrow> 't \<Rightarrow> ('c, 't) coordinator res" where
  "coordinator_init fin cands cur cooldown =
     (if cands = [] \<or> length (remdups cands) \<noteq> length cands then
        Inl (ValueError ''ordered candidates must be non-empty and unique'')
      else if cur \<notin> set cands then
        Inl (ValueError ''current candidate must belong to ordered candidates'')
      else if \<not> fin cooldown \<or> cooldown \<le> 0 then
        Inl (ValueError ''cooldown_seconds must be positive'')
      else Inr \<lparr>candidates = cands, current = cur, ring_seconds = cooldown, ring_until = [],
                ring_started = [], ring_details = [], ring_gate = gate_init\<rparr>)"

section \<open>Cooldowns\<close>

definition ring_mark_failed ::
  "('t \<Rightarrow> 't \<Rightarrow> 't) \<Rightarrow> 't \<Rightarrow> 'c \<Rightarrow> string option \<Rightarrow> ('c, 't) coordinator \<Rightarrow> ('c, 't) coordinator" where
  "ring_mark_failed fadd now candidate detail st =
     st\<lparr>ring_started := dset (ring_started st) candidate now,
        ring_until := dset (ring_until st) candidate (fadd now (ring_seconds st)),
        ring_details := dset (ring_details st) candidate detail\<rparr>"

definition optional_get :: "('c \<times> 'v option) list \<Rightarrow> 'c \<Rightarrow> 'v option" where
  "optional_get d k = (case map_of d k of None \<Rightarrow> None | Some v \<Rightarrow> v)"

definition ring_prune :: "'t::linorder \<Rightarrow> ('c, 't) coordinator \<Rightarrow> ('c, 't) coordinator res" where
  "ring_prune now st =
     (let until = filter (\<lambda>p. snd p > now) (ring_until st);
          details = map (\<lambda>p. (fst p, optional_get (ring_details st) (fst p))) until in
      rbind (rmap (\<lambda>p. case map_of (ring_started st) (fst p) of
                        None \<Rightarrow> Inl KeyError | Some t \<Rightarrow> Inr (fst p, t)) until)
        (\<lambda>started. Inr (st\<lparr>ring_until := until, ring_details := details, ring_started := started\<rparr>)))"

definition ring_cooldown_detail ::
  "('t::linorder \<Rightarrow> 't \<Rightarrow> 't) \<Rightarrow> 't \<Rightarrow> 'c \<Rightarrow> ('c, 't) coordinator
   \<Rightarrow> (('c, 't) coordinator \<times> (string option \<times> 't) option) res" where
  "ring_cooldown_detail fsub now candidate st =
     (if candidate \<notin> set (candidates st) then
        Inl (ValueError ''candidate must belong to ordered candidates'')
      else rbind (ring_prune now st) (\<lambda>st'.
        Inr (st', case map_of (ring_until st') candidate of
                    None \<Rightarrow> None
                  | Some deadline \<Rightarrow>
                      Some (optional_get (ring_details st') candidate, fsub deadline now))))"

fun index_of :: "'c \<Rightarrow> 'c list \<Rightarrow> nat option" where
  "index_of x [] = None"
| "index_of x (y # ys) = (if x = y then Some 0 else map_option Suc (index_of x ys))"

definition ring_available ::
  "'t::linorder \<Rightarrow> ('c, 't) coordinator \<Rightarrow> (('c, 't) coordinator \<times> 'c list) res" where
  "ring_available now st =
     rbind (ring_prune now st) (\<lambda>st'.
       case index_of (current st') (candidates st') of
         None \<Rightarrow> Inl (ValueError ''tuple.index(x): x not in tuple'')
       | Some start \<Rightarrow>
           let ordered = drop start (candidates st') @ take start (candidates st') in
           Inr (st', filter (\<lambda>c. \<not> dhas (ring_until st') c) ordered))"

definition ring_status_snapshot ::
  "'t::linorder \<Rightarrow> ('c, 't) coordinator \<Rightarrow> (('c, 't) coordinator \<times> ('c \<times> string) list) res" where
  "ring_status_snapshot now st =
     rbind (ring_prune now st) (\<lambda>st'.
       Inr (st', map (\<lambda>c. (c, if dhas (ring_until st') c then ''cooling'' else ''available''))
                   (candidates st')))"

definition drop_cooldown :: "'c \<Rightarrow> ('c, 't) coordinator \<Rightarrow> ('c, 't) coordinator" where
  "drop_cooldown candidate st =
     st\<lparr>ring_until := ddel (ring_until st) candidate,
        ring_started := ddel (ring_started st) candidate,
        ring_details := ddel (ring_details st) candidate\<rparr>"

definition ring_clear_cooldown :: "'c \<Rightarrow> ('c, 't) coordinator \<Rightarrow> ('c, 't) coordinator res" where
  "ring_clear_cooldown candidate st =
     (if candidate \<notin> set (candidates st) then
        Inl (ValueError ''candidate must belong to ordered candidates'')
      else Inr (drop_cooldown candidate st))"

definition ring_clear_started_before ::
  "'t::linorder \<Rightarrow> 'c \<Rightarrow> 't \<Rightarrow> ('c, 't) coordinator \<Rightarrow> (('c, 't) coordinator \<times> bool) res" where
  "ring_clear_started_before now candidate evidence_started_at st =
     (if candidate \<notin> set (candidates st) then
        Inl (ValueError ''candidate must belong to ordered candidates'')
      else rbind (ring_prune now st) (\<lambda>st'.
        case map_of (ring_started st') candidate of
          None \<Rightarrow> Inr (st', False)
        | Some started_at \<Rightarrow>
            if started_at \<ge> evidence_started_at then Inr (st', False)
            else rbind (ring_clear_cooldown candidate st') (\<lambda>st''. Inr (st'', True))))"

definition ring_next_available_after ::
  "'t::linorder \<Rightarrow> 'c \<Rightarrow> ('c, 't) coordinator \<Rightarrow> (('c, 't) coordinator \<times> 'c option) res" where
  "ring_next_available_after now candidate st =
     rbind (ring_prune now st) (\<lambda>st'.
       case index_of candidate (candidates st') of
         None \<Rightarrow> Inl (ValueError ''tuple.index(x): x not in tuple'')
       | Some start \<Rightarrow>
           let ordered = drop (start + 1) (candidates st') @ take (start + 1) (candidates st') in
           Inr (st', find (\<lambda>c. \<not> dhas (ring_until st') c) ordered))"

definition ring_set_current :: "'c \<Rightarrow> ('c, 't) coordinator \<Rightarrow> ('c, 't) coordinator res" where
  "ring_set_current candidate st =
     (if candidate \<notin> set (candidates st) then
        Inl (ValueError ''current candidate must belong to ordered candidates'')
      else Inr (st\<lparr>current := candidate\<rparr>))"

section \<open>The gate\<close>

definition ring_wait_poll ::
  "bool \<Rightarrow> ('c, 't) coordinator \<Rightarrow> bool option \<times> ('c, 't) coordinator" where
  "ring_wait_poll waited0 st =
     (let (r, g) = await_active_poll waited0 (ring_gate st) in
      (map_option (\<lambda>(gen, out, waited, leader, pend). waited) r, st\<lparr>ring_gate := g\<rparr>))"

definition ring_await_observation_poll ::
  "bool \<Rightarrow> ('c, 't) coordinator \<Rightarrow> (('c \<times> nat) \<times> bool \<times> bool) option \<times> ('c, 't) coordinator" where
  "ring_await_observation_poll waited0 st =
     (let (r, g) = await_active_poll waited0 (ring_gate st) in
      (map_option (\<lambda>(gen, out, waited, leader, pend). ((current st, gen), waited, leader)) r,
       st\<lparr>ring_gate := g\<rparr>))"

definition ring_observe :: "('c, 't) coordinator \<Rightarrow> 'c \<times> nat" where
  "ring_observe st = (current st, generation (ring_gate st))"

text \<open>\<open>claim_with_waited\<close> and \<open>claim\<close> pass the generation they read when they are called.\<close>

definition ring_claim_observation_poll ::
  "bool \<Rightarrow> 'c \<times> nat \<Rightarrow> ('c, 't) coordinator \<Rightarrow> (bool \<times> bool) option \<times> ('c, 't) coordinator" where
  "ring_claim_observation_poll waited0 observation st =
     (let (observed, gen) = observation;
          (r, g) = claim_with_waited_poll waited0 gen (ring_gate st) in
      case r of
        None \<Rightarrow> (None, st\<lparr>ring_gate := g\<rparr>)
      | Some (leader, _, _, _, waited) \<Rightarrow>
          if leader \<and> current st \<noteq> observed then
            (Some (False, waited), st\<lparr>ring_gate := publish None g\<rparr>)
          else (Some (leader, waited), st\<lparr>ring_gate := g\<rparr>))"

definition ring_publish :: "('c, 't) coordinator \<Rightarrow> ('c, 't) coordinator" where
  "ring_publish st = st\<lparr>ring_gate := publish None (ring_gate st)\<rparr>"

definition ring_handoff :: "('c, 't) coordinator \<Rightarrow> ('c, 't) coordinator" where
  "ring_handoff st = st\<lparr>ring_gate := handoff None (ring_gate st)\<rparr>"

section \<open>Invariant\<close>

text \<open>The three tables have the same keys in the same order, and the current candidate is one of
  the distinct candidates.\<close>

definition ring_inv :: "('c, 't) coordinator \<Rightarrow> bool" where
  "ring_inv st \<longleftrightarrow>
     dkeys (ring_started st) = dkeys (ring_until st) \<and> dkeys (ring_details st) = dkeys (ring_until st) \<and>
     distinct (dkeys (ring_until st)) \<and> distinct (candidates st) \<and> current st \<in> set (candidates st)"

definition ring_cooling :: "'t::linorder \<Rightarrow> 'c \<Rightarrow> ('c, 't) coordinator \<Rightarrow> bool" where
  "ring_cooling u k st \<longleftrightarrow> (\<exists>t. map_of (ring_until st) k = Some t \<and> u < t)"

lemma dkeys_dset: "dkeys (dset d k v) = (if k \<in> set (dkeys d) then dkeys d else dkeys d @ [k])"
  by (induction d) force+

lemma dkeys_ddel: "dkeys (ddel d k) = filter (\<lambda>x. x \<noteq> k) (dkeys d)"
  by (induction d) auto

lemma ring_inv_mark: "ring_inv st \<Longrightarrow> ring_inv (ring_mark_failed fadd now k detail st)"
  by (simp add: ring_inv_def ring_mark_failed_def dkeys_dset)

lemma ring_cooling_mark:
  "ring_cooling u k' (ring_mark_failed fadd now k detail st) \<longleftrightarrow>
   (if k' = k then u < fadd now (ring_seconds st) else ring_cooling u k' st)"
  by (auto simp: ring_cooling_def ring_mark_failed_def map_of_dset)

lemma ring_inv_drop: "ring_inv st \<Longrightarrow> ring_inv (drop_cooldown k st)"
  by (simp add: ring_inv_def drop_cooldown_def dkeys_ddel)

lemma ring_cooling_drop: "ring_cooling u k' (drop_cooldown k st) \<longleftrightarrow> k' \<noteq> k \<and> ring_cooling u k' st"
  by (auto simp: ring_cooling_def drop_cooldown_def map_of_ddel)

text \<open>Under the invariant the subscript of \<open>_prune\<close> finds its key, so pruning returns.\<close>

lemma ring_prune_Inr:
  assumes "ring_inv st"
  shows "\<exists>st'. ring_prune now st = Inr st' \<and> ring_inv st' \<and>
    ring_until st' = filter (\<lambda>p. snd p > now) (ring_until st) \<and>
    (\<forall>k. dhas (ring_until st') k \<longrightarrow> map_of (ring_started st') k = map_of (ring_started st) k \<and>
         map_of (ring_details st') k = map_of (ring_details st) k) \<and>
    candidates st' = candidates st \<and> current st' = current st \<and>
    ring_seconds st' = ring_seconds st \<and> ring_gate st' = ring_gate st"
proof -
  let ?u = "filter (\<lambda>p. snd p > now) (ring_until st)"
  let ?f = "\<lambda>p. (fst p, the (map_of (ring_started st) (fst p)))"
  let ?d = "map (\<lambda>p. (fst p, optional_get (ring_details st) (fst p))) ?u"
  have has: "map_of (ring_started st) (fst p) \<noteq> None \<and> map_of (ring_details st) (fst p) \<noteq> None"
    if "p \<in> set ?u" for p
    using that assms
    by (metis (no_types, lifting) filter_is_subset image_eqI map_of_eq_None_iff ring_inv_def set_map
        subsetD)
  have r: "rmap (\<lambda>p. case map_of (ring_started st) (fst p) of
      None \<Rightarrow> Inl KeyError | Some t \<Rightarrow> Inr (fst p, t)) ?u = Inr (map ?f ?u)"
    using has by (intro rmap_Inr_map) (auto split: option.split)
  let ?st = "st\<lparr>ring_until := ?u, ring_details := ?d, ring_started := map ?f ?u\<rparr>"
  have "ring_prune now st = Inr ?st" using r by (simp add: ring_prune_def Let_def)
  moreover have "ring_inv ?st"
    using assms distinct_filter_keys [of "ring_until st"] by (simp add: ring_inv_def comp_def)
  moreover have "map_of (map ?f ?u) k = map_of (ring_started st) k \<and>
      map_of ?d k = map_of (ring_details st) k" if "dhas ?u k" for k
  proof -
    from that have "k \<in> fst ` set ?u" by (simp only: dhas_def set_map)
    then obtain p where p: "p \<in> set ?u" "fst p = k" by blast
    have "map_of (map (\<lambda>p. (fst p, g (fst p))) xs) k = Some (g k)" if "k \<in> fst ` set xs"
      for g :: "'a \<Rightarrow> 'x" and xs :: "('a \<times> 'b) list"
      using that by (induction xs) auto
    from this [of ?u "\<lambda>x. the (map_of (ring_started st) x)"]
      this [of ?u "optional_get (ring_details st)"] p has [OF p(1)]
    show ?thesis by (auto simp: optional_get_def)
  qed
  ultimately show ?thesis by (intro exI [of _ ?st]) simp
qed

lemma ring_cooling_prune_has:
  "ring_inv st \<Longrightarrow> dhas (filter (\<lambda>p. snd p > now) (ring_until st)) k \<longleftrightarrow> ring_cooling now k st"
  by (cases "map_of (ring_until st) k")
    (simp_all add: ring_inv_def dhas_map_of map_of_filter_dist ring_cooling_def del: map_of_eq_Some_iff)


lemma ring_inv_init: "coordinator_init fin cands cur cd = Inr st \<Longrightarrow> ring_inv st"
  by (auto simp: coordinator_init_def ring_inv_def split: if_splits
      dest: card_distinct simp: length_remdups_card_conv)

lemma coordinator_init_candidates:
  "coordinator_init fin cands cur cd = Inr st \<Longrightarrow>
   candidates st = cands \<and> ring_until st = [] \<and> ring_seconds st = cd"
  by (auto simp: coordinator_init_def split: if_splits)

section \<open>The shared contract\<close>

definition ring_unmark :: "'t \<Rightarrow> 'c \<Rightarrow> ('c, 't) coordinator \<Rightarrow> ('c, 't) coordinator" where
  "ring_unmark t k st = (case ring_clear_cooldown k st of Inl _ \<Rightarrow> st | Inr st' \<Rightarrow> st')"

definition ring_look :: "'t::linorder \<Rightarrow> ('c, 't) coordinator \<Rightarrow> ('c, 't) coordinator" where
  "ring_look t st = (case ring_prune t st of Inl _ \<Rightarrow> st | Inr st' \<Rightarrow> st')"

lemma ring_look_facts:
  assumes "ring_inv st"
  shows "ring_inv (ring_look t st)" and "ring_cooling u k (ring_look t st) \<Longrightarrow> ring_cooling u k st"
proof -
  obtain st' where st': "ring_prune t st = Inr st'" "ring_inv st'"
    "ring_until st' = filter (\<lambda>p. snd p > t) (ring_until st)"
    using ring_prune_Inr [OF assms] by metis
  then show "ring_inv (ring_look t st)" by (simp add: ring_look_def)
  show "ring_cooling u k (ring_look t st) \<Longrightarrow> ring_cooling u k st"
    using st' assms
    by (cases "map_of (ring_until st) k")
      (auto simp: ring_look_def ring_cooling_def map_of_filter_dist ring_inv_def
        simp del: map_of_eq_Some_iff split: if_splits)
qed

interpretation ring: cooldown_table ring_inv ring_cooling
  "\<lambda>t k. ring_mark_failed fadd t k detail" ring_unmark ring_look
  for fadd :: "'t::linorder \<Rightarrow> 't \<Rightarrow> 't" and detail :: "string option"
proof
  fix s :: "('c, 't) coordinator" and u v t :: 't and k k' :: 'c
  assume s: "ring_inv s"
  show "ring_inv (ring_mark_failed fadd t k detail s)" by (rule ring_inv_mark [OF s])
  show "ring_inv (ring_unmark t k s)"
    using s by (simp add: ring_unmark_def ring_clear_cooldown_def ring_inv_drop)
  show "ring_inv (ring_look t s)" by (rule ring_look_facts(1) [OF s])
  show "ring_cooling u k s \<Longrightarrow> v \<le> u \<Longrightarrow> ring_cooling v k s"
    by (auto simp: ring_cooling_def)
  show "k' \<noteq> k \<Longrightarrow> ring_cooling u k' (ring_mark_failed fadd t k detail s) \<Longrightarrow> ring_cooling u k' s"
    by (simp add: ring_cooling_mark)
  show "ring_cooling u k' (ring_unmark t k s) \<Longrightarrow> ring_cooling u k' s"
    by (simp add: ring_unmark_def ring_clear_cooldown_def ring_cooling_drop split: if_splits)
  show "ring_cooling u k' (ring_look t s) \<Longrightarrow> ring_cooling u k' s"
    by (rule ring_look_facts(2) [OF s])
qed

section \<open>The views of the ring\<close>

lemma index_of_Some: "x \<in> set xs \<Longrightarrow> \<exists>i. index_of x xs = Some i \<and> i < length xs \<and> xs ! i = x"
  by (induction xs) auto

definition rotation :: "nat \<Rightarrow> 'c list \<Rightarrow> 'c list" where
  "rotation n xs = drop n xs @ take n xs"

lemma set_rotation [simp]: "set (rotation n xs) = set xs"
  unfolding rotation_def by (metis append_take_drop_id set_append sup_commute)

lemma mset_rotation [simp]: "mset (rotation n xs) = mset xs"
  unfolding rotation_def by (metis append_take_drop_id mset_append union_commute)

lemma ring_available_Inr:
  assumes "ring_inv st"
  shows "\<exists>st' n. ring_available now st = Inr (st', filter (\<lambda>c. \<not> ring_cooling now c st) (rotation n (candidates st)))
    \<and> n < length (candidates st) \<and> candidates st ! n = current st"
proof -
  obtain st' where p: "ring_prune now st = Inr st'" "current st' = current st"
    "candidates st' = candidates st" "ring_until st' = filter (\<lambda>p. snd p > now) (ring_until st)"
    using ring_prune_Inr [OF assms] by metis
  obtain n where "index_of (current st) (candidates st) = Some n" "n < length (candidates st)"
    "candidates st ! n = current st"
    using assms index_of_Some by (fastforce simp: ring_inv_def)
  with p show ?thesis
    by (auto simp: ring_available_def rotation_def ring_cooling_prune_has [OF assms])
qed

lemma ring_next_Inr:
  assumes "ring_inv st" and "c \<in> set (candidates st)"
  shows "\<exists>st' n. ring_next_available_after now c st =
      Inr (st', find (\<lambda>c. \<not> ring_cooling now c st) (rotation (Suc n) (candidates st)))
    \<and> n < length (candidates st) \<and> candidates st ! n = c"
proof -
  obtain st' where p: "ring_prune now st = Inr st'" "candidates st' = candidates st"
    "ring_until st' = filter (\<lambda>p. snd p > now) (ring_until st)"
    using ring_prune_Inr [OF assms(1)] by metis
  obtain n where "index_of c (candidates st) = Some n" "n < length (candidates st)"
    "candidates st ! n = c"
    using assms(2) index_of_Some by fastforce
  with p show ?thesis
    by (auto simp: ring_next_available_after_def rotation_def ring_cooling_prune_has [OF assms(1)])
qed

lemma ring_detail_Inr:
  assumes "ring_inv st" and "c \<in> set (candidates st)"
  shows "\<exists>st'. ring_cooldown_detail fsub now c st =
    Inr (st', if ring_cooling now c st
              then Some (optional_get (ring_details st) c, fsub (the (map_of (ring_until st) c)) now)
              else None)"
proof -
  obtain st' where p: "ring_prune now st = Inr st'"
    "ring_until st' = filter (\<lambda>p. snd p > now) (ring_until st)"
    "\<forall>k. dhas (ring_until st') k \<longrightarrow> map_of (ring_details st') k = map_of (ring_details st) k"
    using ring_prune_Inr [OF assms(1)] by metis
  have m: "map_of (ring_until st') c = (if ring_cooling now c st then map_of (ring_until st) c else None)"
    using assms(1) unfolding p(2)
    by (cases "map_of (ring_until st) c")
      (auto simp: ring_inv_def map_of_filter_dist ring_cooling_def simp del: map_of_eq_Some_iff)
  show ?thesis
  proof (cases "ring_cooling now c st")
    case True
    then obtain t where t: "map_of (ring_until st) c = Some t" by (auto simp: ring_cooling_def)
    with m True p(3) have "map_of (ring_details st') c = map_of (ring_details st) c"
      by (simp add: dhas_map_of)
    with True t m p(1) assms(2) show ?thesis
      by (simp add: ring_cooldown_detail_def optional_get_def)
  qed (use m p(1) assms(2) in \<open>simp add: ring_cooldown_detail_def\<close>)
qed


section \<open>Properties\<close>


definition demo_ring :: "(nat, int) coordinator" where
  "demo_ring = \<lparr>candidates = [1, 2, 3], current = 2, ring_seconds = 10, ring_until = [],
     ring_started = [], ring_details = [], ring_gate = gate_init\<rparr>"

lemma demo_ring_init: "coordinator_init (\<lambda>_. True) [1, 2, 3] 2 10 = Inr demo_ring"
  by (simp add: coordinator_init_def demo_ring_def)


text \<open>
  C30. \<open>next_available_after\<close> of a candidate goes round the ring from its successor: it returns
  the first candidate that does not cool, the given one last, and \<open>None\<close> exactly when all cool.
\<close>

theorem ring_next_spec:
  assumes "ring_inv st" and "n < length (candidates st)"
  shows "\<exists>st' r. ring_next_available_after now (candidates st ! n) st = Inr (st', r)
    \<and> (r = None \<longleftrightarrow> (\<forall>c \<in> set (candidates st). ring_cooling now c st))
    \<and> (\<forall>c. r = Some c \<longrightarrow> (\<exists>m < length (candidates st).
         c = candidates st ! ((Suc n + m) mod length (candidates st)) \<and> \<not> ring_cooling now c st \<and>
         (\<forall>j < m. ring_cooling now (candidates st ! ((Suc n + j) mod length (candidates st))) st)))"
proof -
  let ?cs = "candidates st" and ?P = "\<lambda>c. \<not> ring_cooling now c st"
  have d: "distinct ?cs" using assms(1) by (simp add: ring_inv_def)
  obtain st' k where r: "ring_next_available_after now (?cs ! n) st =
      Inr (st', find ?P (rotation (Suc k) ?cs))" "k < length ?cs" "?cs ! k = ?cs ! n"
    using ring_next_Inr [OF assms(1) nth_mem [OF assms(2)]] by blast
  then have k: "k = n" using d assms(2) nth_eq_iff_index_eq by blast
  have nth: "rotation (Suc n) ?cs ! j = ?cs ! ((Suc n + j) mod length ?cs)" if "j < length ?cs" for j
  proof (cases "Suc n + j < length ?cs")
    case False
    then have "(Suc n + j) mod length ?cs = Suc n + j - length ?cs"
      using that assms(2) by (simp add: mod_if)
    with False that assms(2) show ?thesis by (auto simp: rotation_def nth_append add.commute)
  next
    case True
    then have "j < length ?cs - Suc n" by arith
    with True show ?thesis by (simp add: rotation_def nth_append)
  qed
  have len: "length (rotation (Suc n) ?cs) = length ?cs"
    by (metis length_rotate rotate_drop_take mset_rotation size_mset)
  have "find ?P (rotation (Suc n) ?cs) = None \<longleftrightarrow> (\<forall>c \<in> set ?cs. ring_cooling now c st)"
    by (auto simp: find_None_iff)
  moreover have "\<exists>m < length ?cs. c = ?cs ! ((Suc n + m) mod length ?cs) \<and> ?P c \<and>
       (\<forall>j < m. ring_cooling now (?cs ! ((Suc n + j) mod length ?cs)) st)"
    if "find ?P (rotation (Suc n) ?cs) = Some c" for c
    using that nth len unfolding find_Some_iff by (metis (no_types, lifting) order.strict_trans)
  ultimately show ?thesis
    unfolding r(1) [unfolded k]
    by (intro exI [of _ st'] exI [of _ "find ?P (rotation (Suc n) ?cs)"]) (simp only: simp_thms, blast)
qed

theorem ring_next_spec_witness:
  "\<exists>st' r. ring_next_available_after 0 3 demo_ring = Inr (st', r) \<and> r \<noteq> None"
proof -
  have i: "ring_inv demo_ring" by (rule ring_inv_init [OF demo_ring_init])
  have l: "2 < length (candidates demo_ring)" and n: "candidates demo_ring ! 2 = 3"
    and c: "1 \<in> set (candidates demo_ring)" "\<not> ring_cooling 0 1 demo_ring"
    by (simp_all add: demo_ring_def ring_cooling_def)
  obtain st' r where "ring_next_available_after 0 3 demo_ring = Inr (st', r)"
    "r = None \<longleftrightarrow> (\<forall>c \<in> set (candidates demo_ring). ring_cooling 0 c demo_ring)"
    using ring_next_spec [OF i l, of 0] unfolding n by blast
  with c show ?thesis by blast
qed

text \<open>
  Marking a candidate as failed starts a cooldown up to the deadline: before it the detail
  and the remaining time are reported and the candidate is not available, from the deadline on
  nothing is reported and it is available again. Clearing on recovery evidence removes the
  cooldown exactly when the evidence is younger than the mark.
\<close>

theorem ring_mark_spec:
  assumes "ring_inv st" and "c \<in> set (candidates st)"
    and "st' = ring_mark_failed fadd now c detail st" and "deadline = fadd now (ring_seconds st)"
  shows "\<exists>s1 s2 s3 xs b. ring_cooldown_detail fsub v c st' =
      Inr (s1, if v < deadline then Some (detail, fsub deadline v) else None)
    \<and> ring_available v st' = Inr (s2, xs) \<and> (c \<in> set xs \<longleftrightarrow> deadline \<le> v)
    \<and> ring_clear_started_before v c ev st' = Inr (s3, b) \<and> (b \<longleftrightarrow> v < deadline \<and> now < ev)
    \<and> (b \<longrightarrow> \<not> ring_cooling v c s3)"
proof -
  have i: "ring_inv st'" unfolding assms(3) by (rule ring_inv_mark [OF assms(1)])
  have f: "candidates st' = candidates st" "map_of (ring_until st') c = Some deadline"
    "map_of (ring_details st') c = Some detail" "map_of (ring_started st') c = Some now"
    by (simp_all add: assms(3,4) ring_mark_failed_def)
  have c: "ring_cooling v c st' \<longleftrightarrow> v < deadline" by (simp add: ring_cooling_def f)
  obtain s1 where s1: "ring_cooldown_detail fsub v c st' =
      Inr (s1, if v < deadline then Some (detail, fsub deadline v) else None)"
    using ring_detail_Inr [OF i, of c fsub v] assms(2) by (auto simp: c f optional_get_def)
  obtain s2 xs where s2: "ring_available v st' = Inr (s2, xs)" "c \<in> set xs \<longleftrightarrow> deadline \<le> v"
    using ring_available_Inr [OF i, of v] assms(2) by (auto simp: f c not_less)
  obtain sp where p: "ring_prune v st' = Inr sp" "candidates sp = candidates st'"
    "ring_until sp = filter (\<lambda>p. snd p > v) (ring_until st')" "ring_inv sp"
    "\<forall>k. dhas (ring_until sp) k \<longrightarrow> map_of (ring_started sp) k = map_of (ring_started st') k"
    using ring_prune_Inr [OF i, of v] by metis
  have "dhas (ring_until sp) c \<longleftrightarrow> v < deadline"
    using ring_cooling_prune_has [OF i, of v c] c p(3) by simp
  moreover have "dhas (ring_until sp) c \<longleftrightarrow> map_of (ring_started sp) c \<noteq> None"
    using p(4) by (simp add: ring_inv_def dhas_map_of map_of_eq_None_iff flip: set_map)
  ultimately have s: "map_of (ring_started sp) c = (if v < deadline then Some now else None)"
    using p(5) f(4) by auto
  have "\<exists>s3 b. ring_clear_started_before v c ev st' = Inr (s3, b) \<and> (b \<longleftrightarrow> v < deadline \<and> now < ev)
      \<and> (b \<longrightarrow> \<not> ring_cooling v c s3)"
    using p(1,2) s f(1) assms(2)
    by (auto simp: ring_clear_started_before_def ring_clear_cooldown_def ring_cooling_drop not_le)
  with s1 s2 show ?thesis by blast
qed

theorem ring_mark_spec_witness:
  "\<exists>s. ring_cooldown_detail (-) 12 3 (ring_mark_failed (+) 7 3 (Some ''503'') demo_ring) =
     Inr (s, Some (Some ''503'', 5))"
proof -
  have "ring_inv demo_ring" by (rule ring_inv_init [OF demo_ring_init])
  moreover have "3 \<in> set (candidates demo_ring)" by (simp add: demo_ring_def)
  ultimately show ?thesis
    using ring_mark_spec [of demo_ring 3 _ "(+)" 7 "Some ''503''" 17 "(-)" 12 0]
    by (auto simp: demo_ring_def)
qed

text \<open>
  \<open>wait\<close> drops the leadership it is given: on a handed-off gate it takes the claim over,
  returns, and leaves a gate on which every later wait and claim blocks although no task leads.
\<close>

theorem ring_wait_drops_leadership:
  assumes "active (ring_gate st)"
  shows "\<exists>st'. ring_wait_poll w (ring_handoff st) = (Some True, st')
    \<and> led (ring_gate st') \<and> current st' = current st
    \<and> fst (ring_wait_poll w' st') = None \<and> fst (ring_claim_observation_poll w' obs st') = None"
  using assms
  by (cases obs)
    (simp add: ring_wait_poll_def ring_handoff_def handoff_def await_active_poll_def led_def
      ring_claim_observation_poll_def claim_with_waited_poll_def)

theorem ring_wait_drops_leadership_witness:
  "fst (ring_wait_poll False (snd (ring_wait_poll False
     (ring_handoff (demo_ring\<lparr>ring_gate := gate_init\<lparr>active := True\<rparr>\<rparr>))))) = None"
  using ring_wait_drops_leadership [of "demo_ring\<lparr>ring_gate := gate_init\<lparr>active := True\<rparr>\<rparr>" False False "(1, 0)"]
  by auto

text \<open>
  Of the tasks that failed on the same observation only the first claim leads: a claim
  leads exactly when the gate is free, nobody has claimed since the observation, and the
  current candidate is still the observed one; where only the candidate has changed, the gate
  is free again afterwards.
\<close>

theorem ring_claim_once:
  assumes "\<not> active (ring_gate st)"
  shows "\<exists>st' leads. ring_claim_observation_poll w (observed, gen) st = (Some (leads, w), st')
    \<and> (leads \<longleftrightarrow> gen = generation (ring_gate st) \<and> observed = current st)
    \<and> (active (ring_gate st') \<longleftrightarrow> leads)
    \<and> (leads \<longrightarrow> fst (ring_claim_observation_poll w' (observed, gen) (ring_publish st')) = Some (False, w'))"
  using assms
  by (auto simp: ring_claim_observation_poll_def claim_with_waited_poll_def ring_publish_def publish_def)

theorem ring_claim_once_witness:
  "\<exists>st' leads. ring_claim_observation_poll False (2, 0) demo_ring = (Some (leads, False), st')
     \<and> leads \<and> active (ring_gate st')"
  using ring_claim_once [of demo_ring False 2 0 False] by (auto simp: demo_ring_def gate_init_def)

end
