(* ===== verification/SearchChainState.thy ===== *)
theory SearchChainState
  imports CooldownTable PyValue
begin

text \<open>
  \<open>gateway/search_provider_chain_state.py\<close>: the bounded cooldown table of the search provider
  chain. Every public method holds the lock from its first read to its last write, so it is one
  step on the state; the state it leaves behind when it raises is part of the result, since the
  clock check has already moved \<open>_last_clock\<close>. \<open>fin\<close> is \<open>math.isfinite\<close> and \<open>now\<close> the clock value.
\<close>

section \<open>State\<close>

record search_candidate =
  row_id :: string
  identity :: string

type_synonym cand_key = "string \<times> string"

record ('r, 't) cooldown_entry =
  cooldown_until :: 't
  cooldown_started_at :: 't
  cooldown_reason :: 'r
  cooldown_order :: nat

record ('r, 't) chain_state =
  cooldown_seconds :: 't
  capacity :: int
  last_clock :: 't
  entries :: "(cand_key \<times> ('r, 't) cooldown_entry) list"
  next_cooldown_order :: nat

text \<open>The argument \<open>evidence_started_at\<close>, whose type the code checks at run time.\<close>

datatype 't evidence_arg = EvNone | EvBool bool | EvInt int | EvFloat 't | EvOther

definition chain_init ::
  "('t::{linorder,zero} \<Rightarrow> bool) \<Rightarrow> 't \<Rightarrow> pyval \<Rightarrow> 't \<Rightarrow> ('r, 't) chain_state res" where
  "chain_init fin cooldown cap started_at =
     (if \<not> fin cooldown \<or> cooldown \<le> 0 then Inl (ValueError ''cooldown_seconds must be positive'')
      else case cap of
        PInt n \<Rightarrow>
          if n \<le> 0 then Inl (ValueError ''state_capacity must be a positive integer'')
          else if \<not> fin started_at then Inl (ValueError ''clock must return a finite value'')
          else Inr \<lparr>cooldown_seconds = cooldown, capacity = n, last_clock = started_at,
                    entries = [], next_cooldown_order = 0\<rparr>
      | _ \<Rightarrow> Inl (ValueError ''state_capacity must be a positive integer''))"

definition chain_key :: "search_candidate \<Rightarrow> cand_key" where
  "chain_key c = (row_id c, identity c)"

section \<open>Helpers under the lock\<close>

definition read_clock ::
  "('t::linorder \<Rightarrow> bool) \<Rightarrow> 't \<Rightarrow> ('r, 't) chain_state \<Rightarrow> ('r, 't) chain_state \<times> 't res" where
  "read_clock fin now st =
     (if \<not> fin now then (st, Inl (ValueError ''clock must return a finite value''))
      else if now < last_clock st then (st, Inl (ValueError ''clock must be monotonic''))
      else (st\<lparr>last_clock := now\<rparr>, Inr now))"

definition prune_expired :: "'t::linorder \<Rightarrow> ('r, 't) chain_state \<Rightarrow> ('r, 't) chain_state" where
  "prune_expired now st =
     (let expired = map fst (filter (\<lambda>(k, e). cooldown_until e \<le> now) (entries st))
      in st\<lparr>entries := fold (\<lambda>k d. ddel d k) expired (entries st)\<rparr>)"

text \<open>\<open>min\<close> returns the first of the keys with the least order.\<close>

fun oldest_key :: "(cand_key \<times> ('r, 't) cooldown_entry) list \<Rightarrow> cand_key option" where
  "oldest_key [] = None"
| "oldest_key ((k, e) # d) =
     (case oldest_key d of
        None \<Rightarrow> Some k
      | Some k' \<Rightarrow>
          (case map_of d k' of
             Some e' \<Rightarrow> if cooldown_order e' < cooldown_order e then Some k' else Some k
           | None \<Rightarrow> Some k))"

definition evict_oldest :: "('r, 't) chain_state \<Rightarrow> ('r, 't) chain_state" where
  "evict_oldest st =
     (case oldest_key (entries st) of
        None \<Rightarrow> st
      | Some k \<Rightarrow> st\<lparr>entries := ddel (entries st) k\<rparr>)"

section \<open>Operations\<close>

definition chain_cooldown_reason ::
  "('t::linorder \<Rightarrow> bool) \<Rightarrow> 't \<Rightarrow> search_candidate \<Rightarrow> ('r, 't) chain_state
   \<Rightarrow> ('r, 't) chain_state \<times> 'r option res" where
  "chain_cooldown_reason fin now candidate st =
     (case read_clock fin now st of
        (st1, Inl e) \<Rightarrow> (st1, Inl e)
      | (st1, Inr n) \<Rightarrow>
          let st2 = prune_expired n st1 in
          (st2, Inr (map_option cooldown_reason (map_of (entries st2) (chain_key candidate)))))"

definition chain_mark_failed ::
  "('t::linorder \<Rightarrow> bool) \<Rightarrow> ('t \<Rightarrow> 't \<Rightarrow> 't) \<Rightarrow> 't \<Rightarrow> search_candidate \<Rightarrow> 'r
   \<Rightarrow> ('r, 't) chain_state \<Rightarrow> ('r, 't) chain_state \<times> 'r res" where
  "chain_mark_failed fin fadd now candidate reason st =
     (case read_clock fin now st of
        (st1, Inl e) \<Rightarrow> (st1, Inl e)
      | (st1, Inr n) \<Rightarrow>
          let until = fadd n (cooldown_seconds st1); key = chain_key candidate in
          if \<not> fin until then (st1, Inl (ValueError ''cooldown deadline must be finite''))
          else if until \<le> n then
            (st1, Inl (ValueError ''cooldown deadline must be later than current time''))
          else
            let st2 = prune_expired n st1;
                st3 = (if \<not> dhas (entries st2) key \<and> int (length (entries st2)) \<ge> capacity st2
                       then evict_oldest st2 else st2);
                order = next_cooldown_order st3 + 1
            in (st3\<lparr>next_cooldown_order := order,
                    entries := dset (entries st3) key
                      \<lparr>cooldown_until = until, cooldown_started_at = n,
                       cooldown_reason = reason, cooldown_order = order\<rparr>\<rparr>,
                Inr reason))"

definition chain_clear ::
  "('t::linorder \<Rightarrow> bool) \<Rightarrow> 't \<Rightarrow> search_candidate \<Rightarrow> ('r, 't) chain_state
   \<Rightarrow> ('r, 't) chain_state \<times> bool res" where
  "chain_clear fin now candidate st =
     (case read_clock fin now st of
        (st1, Inl e) \<Rightarrow> (st1, Inl e)
      | (st1, Inr n) \<Rightarrow>
          let st2 = prune_expired n st1; key = chain_key candidate in
          (st2\<lparr>entries := ddel (entries st2) key\<rparr>, Inr (dhas (entries st2) key)))"

text \<open>\<open>float(evidence_started_at)\<close>: \<open>to_float\<close> gives \<open>None\<close> where it raises \<open>OverflowError\<close>.\<close>

definition evidence_float :: "(int \<Rightarrow> 't option) \<Rightarrow> 't evidence_arg \<Rightarrow> 't option" where
  "evidence_float to_float ev =
     (case ev of EvInt i \<Rightarrow> to_float i | EvFloat t \<Rightarrow> Some t | _ \<Rightarrow> None)"

definition clear_from_health_evidence ::
  "('t::linorder \<Rightarrow> bool) \<Rightarrow> (int \<Rightarrow> 't option) \<Rightarrow> 't \<Rightarrow> search_candidate \<Rightarrow> 'r
   \<Rightarrow> 't evidence_arg \<Rightarrow> 'r \<Rightarrow> ('r, 't) chain_state \<Rightarrow> ('r, 't) chain_state \<times> bool res" where
  "clear_from_health_evidence fin to_float now candidate reason evidence quota_reason st =
     (case evidence_float to_float evidence of
        None \<Rightarrow> (st, Inr False)
      | Some value \<Rightarrow>
          if \<not> fin value then (st, Inr False)
          else case read_clock fin now st of
            (st1, Inl e) \<Rightarrow> (st1, Inl e)
          | (st1, Inr n) \<Rightarrow>
              let st2 = prune_expired n st1; key = chain_key candidate in
              case map_of (entries st2) key of
                None \<Rightarrow> (st2, Inr False)
              | Some entry \<Rightarrow>
                  if cooldown_reason entry \<noteq> quota_reason \<or> reason \<noteq> quota_reason
                     \<or> value \<le> cooldown_started_at entry \<or> value > n
                  then (st2, Inr False)
                  else (st2\<lparr>entries := ddel (entries st2) key\<rparr>, Inr True))"


section \<open>Invariant\<close>

definition chain_inv :: "('r, 't) chain_state \<Rightarrow> bool" where
  "chain_inv st \<longleftrightarrow>
     0 < capacity st \<and> int (length (entries st)) \<le> capacity st \<and> distinct (dkeys (entries st)) \<and>
     (\<forall>k e. map_of (entries st) k = Some e \<longrightarrow> cooldown_order e \<le> next_cooldown_order st)"

definition chain_cooling :: "'t::linorder \<Rightarrow> cand_key \<Rightarrow> ('r, 't) chain_state \<Rightarrow> bool" where
  "chain_cooling u k st \<longleftrightarrow> (\<exists>e. map_of (entries st) k = Some e \<and> u < cooldown_until e)"

lemma prune_expired_entries:
  "chain_inv st \<Longrightarrow> prune_expired now st =
     st\<lparr>entries := filter (\<lambda>p. now < cooldown_until (snd p)) (entries st)\<rparr>"
  by (simp add: prune_expired_def Let_def chain_inv_def fold_ddel_filter split_beta not_le)

lemma map_of_prune_expired:
  assumes "chain_inv st"
  shows "map_of (entries (prune_expired now st)) k =
    (case map_of (entries st) k of Some e \<Rightarrow> if now < cooldown_until e then Some e else None
     | None \<Rightarrow> None)"
  using assms
  by (cases "map_of (entries st) k") (simp_all add: prune_expired_entries chain_inv_def map_of_filter_dist)

lemma prune_expired_other [simp]:
  "capacity (prune_expired now st) = capacity st"
  "cooldown_seconds (prune_expired now st) = cooldown_seconds st"
  "last_clock (prune_expired now st) = last_clock st"
  "next_cooldown_order (prune_expired now st) = next_cooldown_order st"
  by (simp_all add: prune_expired_def Let_def)

lemma chain_inv_prune:
  assumes "chain_inv st"
  shows "chain_inv (prune_expired now st)"
proof -
  have "length (entries (prune_expired now st)) \<le> length (entries st)"
    using assms by (simp add: prune_expired_entries)
  moreover have "distinct (dkeys (entries (prune_expired now st)))"
    using assms by (simp add: prune_expired_entries chain_inv_def distinct_filter_keys)
  ultimately show ?thesis
    using assms unfolding chain_inv_def
    by (auto simp: map_of_prune_expired [OF assms] simp del: prune_expired_entries
        split: option.splits if_splits)
qed


lemma read_clock_cases:
  obtains e where "read_clock fin now st = (st, Inl e)"
  | "read_clock fin now st = (st\<lparr>last_clock := now\<rparr>, Inr now)" "last_clock st \<le> now" "fin now"
  by (cases "fin now"; cases "now < last_clock st") (auto simp: read_clock_def)

lemma chain_inv_clock [simp]: "chain_inv (st\<lparr>last_clock := t\<rparr>) = chain_inv st"
  by (simp add: chain_inv_def)

lemma chain_cooling_clock [simp]: "chain_cooling u k (st\<lparr>last_clock := t\<rparr>) = chain_cooling u k st"
  by (simp add: chain_cooling_def)

lemma chain_cooling_prune:
  "chain_inv st \<Longrightarrow> chain_cooling u k (prune_expired n st) \<Longrightarrow> chain_cooling u k st"
  by (auto simp: chain_cooling_def map_of_prune_expired split: option.splits if_splits)

lemma oldest_key_in: "oldest_key d = Some k \<Longrightarrow> dhas d k"
  by (induction d rule: oldest_key.induct) (auto split: option.splits if_splits)

lemma oldest_key_None [simp]: "oldest_key d = None \<longleftrightarrow> d = []"
  by (induction d rule: oldest_key.induct) (auto split: option.splits)

lemma oldest_key_least:
  "distinct (dkeys d) \<Longrightarrow> oldest_key d = Some k \<Longrightarrow> map_of d k = Some e \<Longrightarrow> map_of d k' = Some e'
   \<Longrightarrow> cooldown_order e \<le> cooldown_order e'"
proof (induction d arbitrary: k e k' e' rule: oldest_key.induct)
  case (2 k0 e0 d)
  show ?case
  proof (cases "oldest_key d")
    case None
    with 2 show ?thesis by (auto split: if_splits)
  next
    case (Some k1)
    then obtain e1 where e1: "map_of d k1 = Some e1"
      using oldest_key_in by (fastforce simp: dhas_map_of)
    have le: "cooldown_order e1 \<le> cooldown_order x" if "map_of d y = Some x" for x y
      using "2.IH" [OF _ Some e1 that] "2.prems"(1) by auto
    have "k1 \<noteq> k0" using "2.prems"(1) e1 by (force dest: map_of_SomeD)
    with Some e1 le "2.prems" show ?thesis by (fastforce split: if_splits)
  qed
qed simp

lemma chain_inv_del: "chain_inv st \<Longrightarrow> chain_inv (st\<lparr>entries := ddel (entries st) k\<rparr>)"
  using length_ddel_le [of "entries st" k]
  by (auto simp: chain_inv_def map_of_ddel)

lemma chain_cooling_del:
  "chain_cooling u k' (st\<lparr>entries := ddel (entries st) k\<rparr>) \<longleftrightarrow> k' \<noteq> k \<and> chain_cooling u k' st"
  by (auto simp: chain_cooling_def map_of_ddel)

text \<open>Making room: eviction runs only when a new key meets a full table.\<close>

definition make_room :: "cand_key \<Rightarrow> ('r, 't) chain_state \<Rightarrow> ('r, 't) chain_state" where
  "make_room key st =
     (if \<not> dhas (entries st) key \<and> int (length (entries st)) \<ge> capacity st
      then evict_oldest st else st)"

lemma make_room_facts:
  assumes "chain_inv st"
  shows "chain_inv (make_room key st)"
    and "dhas (entries (make_room key st)) key \<or>
      int (length (entries (make_room key st))) < capacity (make_room key st)"
    and "chain_cooling u k (make_room key st) \<Longrightarrow> chain_cooling u k st"
    and "next_cooldown_order (make_room key st) = next_cooldown_order st"
proof -
  have "chain_inv (make_room key st) \<and> (dhas (entries (make_room key st)) key \<or>
      int (length (entries (make_room key st))) < capacity (make_room key st)) \<and>
     (chain_cooling u k (make_room key st) \<longrightarrow> chain_cooling u k st) \<and>
     next_cooldown_order (make_room key st) = next_cooldown_order st"
  proof (cases "\<not> dhas (entries st) key \<and> int (length (entries st)) \<ge> capacity st")
    case True
    then have "entries st \<noteq> []" using assms by (auto simp: chain_inv_def)
    then obtain o' where o: "oldest_key (entries st) = Some o'"
      by (metis oldest_key_None option.exhaust)
    have m: "make_room key st = st\<lparr>entries := ddel (entries st) o'\<rparr>"
      using True o by (simp add: make_room_def evict_oldest_def)
    have "length (ddel (entries st) o') < length (entries st)"
      using oldest_key_in [OF o] assms \<open>entries st \<noteq> []\<close> by (simp add: length_ddel chain_inv_def)
    then show ?thesis
      using assms chain_inv_del [OF assms] by (auto simp: m chain_cooling_del chain_inv_def)
  next
    case False
    then have "make_room key st = st" by (simp only: make_room_def if_False)
    with False assms show ?thesis by auto
  qed
  then show "chain_inv (make_room key st)" "dhas (entries (make_room key st)) key \<or>
      int (length (entries (make_room key st))) < capacity (make_room key st)"
    "chain_cooling u k (make_room key st) \<Longrightarrow> chain_cooling u k st"
    "next_cooldown_order (make_room key st) = next_cooldown_order st"
    by auto
qed


lemma chain_mark_failed_eq:
  "chain_mark_failed fin fadd now c r st =
     (case read_clock fin now st of
        (st1, Inl e) \<Rightarrow> (st1, Inl e)
      | (st1, Inr n) \<Rightarrow>
          let until = fadd n (cooldown_seconds st1); st3 = make_room (chain_key c) (prune_expired n st1);
              order = next_cooldown_order st3 + 1 in
          if \<not> fin until then (st1, Inl (ValueError ''cooldown deadline must be finite''))
          else if until \<le> n then
            (st1, Inl (ValueError ''cooldown deadline must be later than current time''))
          else (st3\<lparr>next_cooldown_order := order,
                   entries := dset (entries st3) (chain_key c)
                     \<lparr>cooldown_until = until, cooldown_started_at = n,
                      cooldown_reason = r, cooldown_order = order\<rparr>\<rparr>,
                Inr r))"
  by (simp add: chain_mark_failed_def make_room_def Let_def split: prod.split sum.split)

lemma chain_inv_insert:
  assumes "chain_inv st" and "dhas (entries st) k \<or> int (length (entries st)) < capacity st"
    and "cooldown_order e = next_cooldown_order st + 1"
  shows "chain_inv (st\<lparr>next_cooldown_order := next_cooldown_order st + 1,
    entries := dset (entries st) k e\<rparr>)"
  using assms by (auto simp: chain_inv_def length_dset map_of_dset intro: le_SucI)

lemma chain_inv_mark: "chain_inv st \<Longrightarrow> chain_inv (fst (chain_mark_failed fin fadd now c r st))"
proof (cases rule: read_clock_cases [of fin now st])
  case 2
  let ?m = "make_room (chain_key c) (prune_expired now (st\<lparr>last_clock := now\<rparr>))"
  assume "chain_inv st"
  then have p: "chain_inv (prune_expired now (st\<lparr>last_clock := now\<rparr>))" by (simp add: chain_inv_prune)
  show ?thesis
    using \<open>chain_inv st\<close> 2(1)
      chain_inv_insert [OF make_room_facts(1) [OF p] make_room_facts(2) [OF p],
        of "\<lparr>cooldown_until = fadd now (cooldown_seconds st), cooldown_started_at = now,
             cooldown_reason = r, cooldown_order = next_cooldown_order ?m + 1\<rparr>" "chain_key c"]
    by (simp add: chain_mark_failed_eq Let_def)
qed (simp add: chain_mark_failed_eq)

lemma chain_cooling_mark:
  assumes "chain_inv st" and "k \<noteq> chain_key c"
    and "chain_cooling u k (fst (chain_mark_failed fin fadd now c r st))"
  shows "chain_cooling u k st"
proof (cases rule: read_clock_cases [of fin now st])
  case 2
  let ?p = "prune_expired now (st\<lparr>last_clock := now\<rparr>)"
  have p: "chain_inv ?p" using assms(1) by (simp add: chain_inv_prune)
  have "chain_cooling u k (make_room (chain_key c) ?p) \<or> chain_cooling u k (st\<lparr>last_clock := now\<rparr>)"
    using assms(2,3) 2(1)
    by (auto simp: chain_mark_failed_eq Let_def chain_cooling_def map_of_dset split: if_splits)
  then show ?thesis
    using make_room_facts(3) [OF p, of u k "chain_key c"]
      chain_cooling_prune [of "st\<lparr>last_clock := now\<rparr>" u k now] assms(1)
    by auto
qed (use assms(3) in \<open>simp add: chain_mark_failed_eq\<close>)

lemma chain_inv_clear: "chain_inv st \<Longrightarrow> chain_inv (fst (chain_clear fin now c st))"
  by (cases rule: read_clock_cases [of fin now st])
    (auto simp: chain_clear_def Let_def intro!: chain_inv_del chain_inv_prune)

lemma chain_cooling_clear:
  "chain_inv st \<Longrightarrow> chain_cooling u k (fst (chain_clear fin now c st)) \<Longrightarrow> chain_cooling u k st"
  using chain_cooling_prune [of "st\<lparr>last_clock := now\<rparr>" u k now]
  by (cases rule: read_clock_cases [of fin now st])
    (auto simp: chain_clear_def Let_def chain_cooling_del)

lemma chain_inv_reason: "chain_inv st \<Longrightarrow> chain_inv (fst (chain_cooldown_reason fin now c st))"
  by (cases rule: read_clock_cases [of fin now st])
    (auto simp: chain_cooldown_reason_def Let_def intro!: chain_inv_prune)

lemma chain_cooling_reason:
  "chain_inv st \<Longrightarrow> chain_cooling u k (fst (chain_cooldown_reason fin now c st)) \<Longrightarrow> chain_cooling u k st"
  using chain_cooling_prune [of "st\<lparr>last_clock := now\<rparr>" u k now]
  by (cases rule: read_clock_cases [of fin now st])
    (auto simp: chain_cooldown_reason_def Let_def)

lemma chain_inv_evidence:
  "chain_inv st \<Longrightarrow> chain_inv (fst (clear_from_health_evidence fin to_float now c r ev q st))"
  by (cases rule: read_clock_cases [of fin now st])
    (auto simp: clear_from_health_evidence_def Let_def split: option.splits
      intro!: chain_inv_del chain_inv_prune)


section \<open>The shared contract\<close>

definition chain_mark ::
  "('t::linorder \<Rightarrow> bool) \<Rightarrow> ('t \<Rightarrow> 't \<Rightarrow> 't) \<Rightarrow> 'r \<Rightarrow> 't \<Rightarrow> cand_key
   \<Rightarrow> ('r, 't) chain_state \<Rightarrow> ('r, 't) chain_state" where
  "chain_mark fin fadd r t k st =
     fst (chain_mark_failed fin fadd t \<lparr>row_id = fst k, identity = snd k\<rparr> r st)"

definition chain_unmark ::
  "('t::linorder \<Rightarrow> bool) \<Rightarrow> 't \<Rightarrow> cand_key \<Rightarrow> ('r, 't) chain_state \<Rightarrow> ('r, 't) chain_state" where
  "chain_unmark fin t k st = fst (chain_clear fin t \<lparr>row_id = fst k, identity = snd k\<rparr> st)"

definition chain_look ::
  "('t::linorder \<Rightarrow> bool) \<Rightarrow> 't \<Rightarrow> ('r, 't) chain_state \<Rightarrow> ('r, 't) chain_state" where
  "chain_look fin t st = fst (chain_cooldown_reason fin t \<lparr>row_id = [], identity = []\<rparr> st)"

lemma chain_key_inverse [simp]: "chain_key \<lparr>row_id = fst k, identity = snd k\<rparr> = k"
  by (simp add: chain_key_def)

interpretation chain: cooldown_table chain_inv chain_cooling
  "chain_mark fin fadd r" "chain_unmark fin" "chain_look fin"
  for fin :: "'t::linorder \<Rightarrow> bool" and fadd r
proof
  fix s :: "('b, 't) chain_state" and u v t :: 't and k k' :: cand_key
  assume s: "chain_inv s"
  show "chain_inv (chain_mark fin fadd r t k s)" for r
    using s by (simp add: chain_mark_def chain_inv_mark)
  show "chain_inv (chain_unmark fin t k s)"
    using s by (simp add: chain_unmark_def chain_inv_clear)
  show "chain_inv (chain_look fin t s)"
    using s by (simp add: chain_look_def chain_inv_reason)
  show "chain_cooling u k s \<Longrightarrow> v \<le> u \<Longrightarrow> chain_cooling v k s"
    by (auto simp: chain_cooling_def)
  show "k' \<noteq> k \<Longrightarrow> chain_cooling u k' (chain_mark fin fadd r t k s) \<Longrightarrow> chain_cooling u k' s" for r
    unfolding chain_mark_def by (rule chain_cooling_mark [OF s]) simp_all
  show "chain_cooling u k' (chain_unmark fin t k s) \<Longrightarrow> chain_cooling u k' s"
    using chain_cooling_clear [OF s] by (auto simp: chain_unmark_def)
  show "chain_cooling u k' (chain_look fin t s) \<Longrightarrow> chain_cooling u k' s"
    using chain_cooling_reason [OF s] by (auto simp: chain_look_def)
qed

section \<open>Reachable states\<close>

inductive chain_step ::
  "('t::linorder \<Rightarrow> bool) \<Rightarrow> ('t \<Rightarrow> 't \<Rightarrow> 't) \<Rightarrow> (int \<Rightarrow> 't option)
   \<Rightarrow> ('r, 't) chain_state \<Rightarrow> ('r, 't) chain_state \<Rightarrow> bool"
  for fin fadd to_float where
  mark_step: "chain_step fin fadd to_float s (fst (chain_mark_failed fin fadd now c r s))"
| look_step: "chain_step fin fadd to_float s (fst (chain_cooldown_reason fin now c s))"
| clear_step: "chain_step fin fadd to_float s (fst (chain_clear fin now c s))"
| evidence_step:
    "chain_step fin fadd to_float s (fst (clear_from_health_evidence fin to_float now c r ev q s))"

inductive chain_reachable ::
  "('t::linorder \<Rightarrow> bool) \<Rightarrow> ('t \<Rightarrow> 't \<Rightarrow> 't) \<Rightarrow> (int \<Rightarrow> 't option)
   \<Rightarrow> ('r, 't) chain_state \<Rightarrow> ('r, 't) chain_state \<Rightarrow> bool"
  for fin fadd to_float where
  chain_refl: "chain_reachable fin fadd to_float s s"
| chain_more: "chain_reachable fin fadd to_float s s' \<Longrightarrow> chain_step fin fadd to_float s' s''
    \<Longrightarrow> chain_reachable fin fadd to_float s s''"

lemma make_room_other [simp]:
  "capacity (make_room k st) = capacity st" "last_clock (make_room k st) = last_clock st"
  "cooldown_seconds (make_room k st) = cooldown_seconds st"
  by (auto simp: make_room_def evict_oldest_def split: option.split)

lemma chain_step_monotone:
  assumes "chain_step fin fadd to_float s s'"
  shows "capacity s' = capacity s \<and> cooldown_seconds s' = cooldown_seconds s \<and> last_clock s \<le> last_clock s'"
  using assms
proof cases
  case (mark_step now c r)
  then show ?thesis
    by (cases rule: read_clock_cases [of fin now s]) (simp_all add: chain_mark_failed_eq Let_def)
next
  case (look_step now c)
  then show ?thesis
    by (cases rule: read_clock_cases [of fin now s]) (simp_all add: chain_cooldown_reason_def Let_def)
next
  case (clear_step now c)
  then show ?thesis
    by (cases rule: read_clock_cases [of fin now s]) (simp_all add: chain_clear_def Let_def)
next
  case (evidence_step now c r ev q)
  then show ?thesis
    by (cases rule: read_clock_cases [of fin now s])
      (simp_all add: clear_from_health_evidence_def Let_def split: option.split)
qed

lemma chain_step_inv: "chain_step fin fadd to_float s s' \<Longrightarrow> chain_inv s \<Longrightarrow> chain_inv s'"
  by (induction rule: chain_step.induct)
    (auto intro: chain_inv_mark chain_inv_reason chain_inv_clear chain_inv_evidence)

lemma chain_reachable_inv: "chain_reachable fin fadd to_float s s' \<Longrightarrow> chain_inv s \<Longrightarrow> chain_inv s'"
  by (induction rule: chain_reachable.induct) (auto intro: chain_step_inv)

lemma chain_init_Inr:
  "chain_init fin cd cap t = Inr st \<Longrightarrow>
   fin cd \<and> 0 < cd \<and> fin t \<and> (\<exists>n. cap = PInt n \<and> 0 < n \<and>
     st = \<lparr>cooldown_seconds = cd, capacity = n, last_clock = t, entries = [], next_cooldown_order = 0\<rparr>)"
  by (auto simp: chain_init_def split: if_splits pyval.splits)

lemma chain_init_inv: "chain_init fin cd cap t = Inr st \<Longrightarrow> chain_inv st"
  by (auto dest!: chain_init_Inr simp: chain_inv_def)

section \<open>Properties\<close>


text \<open>Integer instants, a sum that saturates at 100, and finite values below 100.\<close>

definition demo_fadd :: "int \<Rightarrow> int \<Rightarrow> int" where
  "demo_fadd a b = min 100 (a + b)"

definition demo_fin :: "int \<Rightarrow> bool" where
  "demo_fin a \<longleftrightarrow> a < 100"

definition demo_chain :: "(nat, int) chain_state" where
  "demo_chain =
     \<lparr>cooldown_seconds = 10, capacity = 1, last_clock = 3, entries = [], next_cooldown_order = 0\<rparr>"

lemma demo_chain_init: "chain_init demo_fin 10 (PInt 1) 3 = Inr demo_chain"
  by (simp add: chain_init_def demo_fin_def demo_chain_def)


text \<open>
  A mark at a valid clock value either raises because the deadline is not a finite later
  instant, or starts a cooldown: a look before the deadline reports its reason, a look at or
  after the deadline reports none, and making room for it removes at most one other key, the
  one with the least order.
\<close>

theorem chain_mark_then_look:
  assumes "chain_inv st" and "fin now" and "last_clock st \<le> now"
    and "until = fadd now (cooldown_seconds st)" and "fin until" and "now < until"
  shows "\<exists>st'. chain_mark_failed fin fadd now c r st = (st', Inr r)
    \<and> (\<forall>v. fin v \<and> now \<le> v \<longrightarrow>
         snd (chain_cooldown_reason fin v c st') = Inr (if v < until then Some r else None))
    \<and> (\<forall>k e. k \<noteq> chain_key c \<and> map_of (entries st) k = Some e \<and> now < cooldown_until e \<longrightarrow>
         map_of (entries st') k = Some e \<or>
         (\<forall>k' e'. k' \<noteq> chain_key c \<and> map_of (entries st') k' = Some e' \<longrightarrow>
            cooldown_order e \<le> cooldown_order e'))"
proof -
  let ?k = "chain_key c" and ?s1 = "st\<lparr>last_clock := now\<rparr>"
  let ?p = "prune_expired now ?s1"
  let ?m = "make_room ?k ?p"
  let ?e = "\<lparr>cooldown_until = until, cooldown_started_at = now, cooldown_reason = r,
    cooldown_order = next_cooldown_order ?m + 1\<rparr>"
  let ?st = "?m\<lparr>next_cooldown_order := next_cooldown_order ?m + 1, entries := dset (entries ?m) ?k ?e\<rparr>"
  have p: "chain_inv ?p" using assms(1) by (simp add: chain_inv_prune)
  have rc: "read_clock fin now st = (?s1, Inr now)" using assms(2,3) by (simp add: read_clock_def)
  have m: "chain_mark_failed fin fadd now c r st = (?st, Inr r)"
    using assms(4-6) rc by (simp add: chain_mark_failed_eq Let_def)
  have inv: "chain_inv ?st" using chain_inv_mark [OF assms(1)] m by (metis fst_conv)
  have look: "snd (chain_cooldown_reason fin v c ?st) = Inr (if v < until then Some r else None)"
    if "fin v" "now \<le> v" for v
  proof -
    have "read_clock fin v ?st = (?st\<lparr>last_clock := v\<rparr>, Inr v)"
      using that by (simp add: read_clock_def)
    moreover have "chain_inv (?st\<lparr>last_clock := v\<rparr>)" using inv by simp
    ultimately show ?thesis
      by (simp add: chain_cooldown_reason_def Let_def map_of_prune_expired)
  qed
  have keep: "map_of (entries ?st) k = Some e \<or>
      (\<forall>k' e'. k' \<noteq> ?k \<and> map_of (entries ?st) k' = Some e' \<longrightarrow> cooldown_order e \<le> cooldown_order e')"
    if k: "k \<noteq> ?k" "map_of (entries st) k = Some e" "now < cooldown_until e" for k e
  proof -
    have pe: "map_of (entries ?p) k = Some e"
      using k assms(1) by (simp add: map_of_prune_expired)
    show ?thesis
    proof (cases "map_of (entries ?m) k = Some e")
      case False
      then obtain o' where o': "oldest_key (entries ?p) = Some o'" "entries ?m = ddel (entries ?p) o'"
        using pe by (auto simp: make_room_def evict_oldest_def split: if_splits option.splits)
      have "o' = k" using False pe o'(2) by (auto simp: map_of_ddel split: if_splits)
      then show ?thesis
        using oldest_key_least [OF _ o'(1)] pe o'(2) p
        by (auto simp: map_of_dset map_of_ddel chain_inv_def split: if_splits)
    qed (use k in \<open>simp add: map_of_dset\<close>)
  qed
  from m look keep show ?thesis by blast
qed

theorem chain_mark_then_look_witness:
  "\<exists>st'. chain_mark_failed demo_fin demo_fadd 5 \<lparr>row_id = ''r'', identity = ''i''\<rparr> 7 demo_chain = (st', Inr 7)
    \<and> snd (chain_cooldown_reason demo_fin 6 \<lparr>row_id = ''r'', identity = ''i''\<rparr> st') = Inr (Some 7)"
proof -
  have "chain_inv demo_chain" by (rule chain_init_inv [OF demo_chain_init])
  then obtain st' where "chain_mark_failed demo_fin demo_fadd 5 \<lparr>row_id = ''r'', identity = ''i''\<rparr> 7
      demo_chain = (st', Inr 7)"
    "\<forall>v. demo_fin v \<and> 5 \<le> v \<longrightarrow>
       snd (chain_cooldown_reason demo_fin v \<lparr>row_id = ''r'', identity = ''i''\<rparr> st') =
       Inr (if v < 15 then Some 7 else None)"
    using chain_mark_then_look [of demo_chain demo_fin 5 15 demo_fadd
        "\<lparr>row_id = ''r'', identity = ''i''\<rparr>" 7]
    by (auto simp: demo_fin_def demo_fadd_def demo_chain_def)
  moreover have "demo_fin 6" by (simp add: demo_fin_def)
  ultimately show ?thesis by fastforce
qed

text \<open>
  A key that was never marked as failed is never reported as cooling, whatever else is
  marked, cleared or looked at, on a table that began empty.
\<close>

theorem chain_no_spurious_cooldown:
  assumes "chain_init fin cd cap t = Inr s0" and "\<And>u. Marked u (chain_key c) \<notin> set es"
  shows "snd (chain_cooldown_reason fin now c
      (cd_run (chain_mark fin fadd r) (chain_unmark fin) (chain_look fin) es s0)) \<noteq> Inr (Some q)"
proof -
  let ?s = "cd_run (chain_mark fin fadd r) (chain_unmark fin) (chain_look fin) es s0"
  have i: "chain_inv ?s" by (rule chain.inv_run [OF chain_init_inv [OF assms(1)]])
  have "\<not> chain_cooling now (chain_key c) s0"
    using chain_init_Inr [OF assms(1)] by (auto simp: chain_cooling_def)
  then have n: "\<not> chain_cooling now (chain_key c) ?s"
    using chain.run_adds_none [OF chain_init_inv [OF assms(1)] assms(2)] by blast
  show ?thesis
    using i n by (cases rule: read_clock_cases [of fin now ?s])
      (auto simp: chain_cooldown_reason_def Let_def map_of_prune_expired chain_cooling_def
        split: option.splits if_splits)
qed

theorem chain_no_spurious_cooldown_witness:
  "snd (chain_cooldown_reason demo_fin 9 \<lparr>row_id = ''r'', identity = ''i''\<rparr>
     (cd_run (chain_mark demo_fin demo_fadd 7) (chain_unmark demo_fin) (chain_look demo_fin)
        [Marked 5 (''s'', ''i''), Pruned 6] demo_chain)) \<noteq> Inr (Some 7)"
  by (rule chain_no_spurious_cooldown [OF demo_chain_init]) (simp add: chain_key_def)

text \<open>
  Health evidence clears a cooldown exactly when the entry is live, both its reason and
  the given one are the quota reason, and the evidence started after the cooldown and not in
  the future; it never touches another key that is still cooling.
\<close>

theorem chain_evidence_clears_exactly:
  assumes "chain_inv st" and "fin now" and "last_clock st \<le> now"
    and "evidence_float to_float ev = Some v" and "fin v"
  shows "\<exists>st' b. clear_from_health_evidence fin to_float now c r ev q st = (st', Inr b)
    \<and> (b \<longleftrightarrow> (\<exists>e. map_of (entries st) (chain_key c) = Some e \<and> now < cooldown_until e
          \<and> cooldown_reason e = q \<and> r = q \<and> cooldown_started_at e < v \<and> v \<le> now))
    \<and> (\<forall>k u. now \<le> u \<longrightarrow> chain_cooling u k st' = (chain_cooling u k st \<and> \<not> (b \<and> k = chain_key c)))"
proof -
  have rc: "read_clock fin now st = (st\<lparr>last_clock := now\<rparr>, Inr now)"
    using assms(2,3) by (simp add: read_clock_def)
  have i: "chain_inv (st\<lparr>last_clock := now\<rparr>)" using assms(1) by simp
  have pc: "chain_cooling u k (prune_expired now (st\<lparr>last_clock := now\<rparr>)) = chain_cooling u k st"
    if "now \<le> u" for u k
    using that i by (auto simp: chain_cooling_def map_of_prune_expired split: option.splits)
  show ?thesis
    using assms(4,5) rc pc i
    by (auto simp: clear_from_health_evidence_def Let_def map_of_prune_expired chain_cooling_del
        not_le not_less split: option.splits if_splits)
qed

theorem chain_evidence_clears_exactly_witness:
  "\<exists>st' b. clear_from_health_evidence demo_fin (\<lambda>_. None) 6 \<lparr>row_id = ''r'', identity = ''i''\<rparr> 7
     (EvFloat 5) 7 demo_chain = (st', Inr b) \<and> \<not> b"
proof -
  have "chain_inv demo_chain" by (rule chain_init_inv [OF demo_chain_init])
  from chain_evidence_clears_exactly [OF this, of demo_fin 6 "\<lambda>_. None" "EvFloat 5" 5
      "\<lparr>row_id = ''r'', identity = ''i''\<rparr>" 7 7]
  show ?thesis by (auto simp: demo_fin_def demo_chain_def evidence_float_def)
qed

end
