(* ===== verification/StreamPhaseBuffer.thy ===== *)
theory StreamPhaseBuffer
  imports JsonText
begin

text \<open>
  \<open>gateway/stream_phase_buffer.py\<close>: the buffer that delays the message events of a Responses
  stream until it is known whether they are commentary or the final answer.

  An event is a \<open>pdict\<close>. A call that raises does so before it changes the buffer, so the state
  is part of the result of a call that returns. \<open>deepcopy\<close> of an event is the event.
\<close>

section \<open>Constants\<close>

definition message_event_types :: "string list" where
  "message_event_types =
     [''response.content_part.added'', ''response.content_part.done'',
      ''response.output_text.delta'', ''response.output_text.done'']"

definition tool_item_types :: "string list" where
  "tool_item_types =
     [''function_call'', ''custom_tool_call'', ''mcp_call'', ''shell_call'', ''computer_call'',
      ''tool_search_call'', ''web_search_call'', ''image_generation_call'']"

definition tool_event_types :: "string list" where
  "tool_event_types =
     [''response.function_call_arguments.delta'', ''response.function_call_arguments.done'',
      ''response.custom_tool_call_input.delta'', ''response.custom_tool_call_input.done'']"

definition terminal_event_types :: "string list" where
  "terminal_event_types = [''response.completed'', ''response.failed'', ''response.done'']"

definition commentary_phase :: string where "commentary_phase = ''commentary''"
definition final_answer_phase :: string where "final_answer_phase = ''final_answer''"

section \<open>Functions on one event\<close>

definition is_item_event :: "pyval \<Rightarrow> bool" where
  "is_item_event event_type \<longleftrightarrow>
     event_type = PStr ''response.output_item.added'' \<or> event_type = PStr ''response.output_item.done''"

definition item_type :: "pdict \<Rightarrow> string option" where
  "item_type event =
     (case dget event ''item'' of
        PDict item \<Rightarrow> (case dget item ''type'' of PStr t \<Rightarrow> Some t | _ \<Rightarrow> None)
      | _ \<Rightarrow> None)"

definition serialized_size :: "pdict \<Rightarrow> nat" where
  "serialized_size event =
     utf8_len (json_dumps \<lparr>ensure_ascii = False, sort_keys = False, item_sep = '','', key_sep = '':''\<rparr>
       (PDict event))"

fun any_tool_item :: "pyval list \<Rightarrow> bool res" where
  "any_tool_item [] = Inr False"
| "any_tool_item (PDict item # items) =
     rbind (py_in_strs (dget item ''type'') tool_item_types)
       (\<lambda>b. if b then Inr True else any_tool_item items)"
| "any_tool_item (_ # items) = any_tool_item items"

definition completed_has_tool_output :: "pdict \<Rightarrow> bool res" where
  "completed_has_tool_output event =
     (case dget event ''response'' of
        PDict response \<Rightarrow>
          (case dget response ''output'' of PList output \<Rightarrow> any_tool_item output | _ \<Rightarrow> Inr False)
      | _ \<Rightarrow> Inr False)"

definition final_buffer_phase_for_terminal :: "pyval \<Rightarrow> string option" where
  "final_buffer_phase_for_terminal event_type =
     (if event_type = PStr ''response.completed'' then Some final_answer_phase else None)"

definition is_message_item :: "pyval \<Rightarrow> bool" where
  "is_message_item item =
     (case item of PDict d \<Rightarrow> dget d ''type'' = PStr ''message'' | _ \<Rightarrow> False)"

definition phase_item :: "string \<Rightarrow> pyval \<Rightarrow> pyval" where
  "phase_item phase item =
     (case item of
        PDict d \<Rightarrow> if dget d ''type'' = PStr ''message'' then PDict (dset d ''phase'' (PStr phase)) else item
      | _ \<Rightarrow> item)"

definition annotate_completed_messages :: "pdict \<Rightarrow> string \<Rightarrow> pdict" where
  "annotate_completed_messages event phase =
     (case dget event ''response'' of
        PDict response \<Rightarrow>
          (case dget response ''output'' of
             PList output \<Rightarrow>
               if \<not> list_ex is_message_item output then event
               else dset event ''response''
                      (PDict (dset response ''output'' (PList (map (phase_item phase) output))))
           | _ \<Rightarrow> event)
      | _ \<Rightarrow> event)"

definition with_message_phase :: "pdict \<Rightarrow> string \<Rightarrow> pdict" where
  "with_message_phase event phase =
     (let event_type = dget event ''type'' in
      if is_item_event event_type then
        if item_type event \<noteq> Some ''message'' then event
        else (case dget event ''item'' of
                PDict item \<Rightarrow> dset event ''item'' (PDict (dset item ''phase'' (PStr phase)))
              | _ \<Rightarrow> event)
      else if event_type = PStr ''response.completed'' then annotate_completed_messages event phase
      else event)"

definition has_tool_signal :: "pdict \<Rightarrow> bool res" where
  "has_tool_signal event =
     (let event_type = dget event ''type'' in
      rbind (py_in_strs event_type tool_event_types) (\<lambda>b.
        if b then Inr True
        else if is_item_event event_type then
          Inr (case item_type event of None \<Rightarrow> False | Some t \<Rightarrow> t \<in> set tool_item_types)
        else if event_type = PStr ''response.completed'' then completed_has_tool_output event
        else Inr False))"

section \<open>The buffer\<close>

record phase_buffer =
  window_id :: string
  max_buffered_events :: int
  max_buffered_bytes :: int
  buffered :: "pdict list"
  buffered_bytes :: int
  message_item_ids :: "string list"
  commentary :: bool
  terminal_seen :: bool
  passthrough :: bool

definition buffer_init :: "string \<Rightarrow> int \<Rightarrow> int \<Rightarrow> phase_buffer" where
  "buffer_init wid max_events max_bytes =
     \<lparr>window_id = wid, max_buffered_events = max_events, max_buffered_bytes = max_bytes,
      buffered = [], buffered_bytes = 0, message_item_ids = [], commentary = False,
      terminal_seen = False, passthrough = False\<rparr>"

definition flush_buffer :: "string option \<Rightarrow> phase_buffer \<Rightarrow> pdict list \<times> phase_buffer" where
  "flush_buffer phase b =
     (if buffered b = [] then ([], b)
      else ((case phase of None \<Rightarrow> buffered b
             | Some p \<Rightarrow> map (\<lambda>event. with_message_phase event p) (buffered b)),
            b\<lparr>buffered := [], buffered_bytes := 0\<rparr>))"

definition should_buffer :: "pdict \<Rightarrow> phase_buffer \<Rightarrow> bool res" where
  "should_buffer event b =
     (if commentary b then Inr False
      else
        let event_type = dget event ''type'' in
        rbind (py_in_strs event_type message_event_types) (\<lambda>m.
          if m then
            let item_id = dget event ''item_id'' in
            if \<not> py_truthy item_id then Inr True
            else py_in_strs item_id (message_item_ids b)
          else if is_item_event event_type then Inr (item_type event = Some ''message'')
          else Inr False))"

definition remember_message_item :: "pdict \<Rightarrow> phase_buffer \<Rightarrow> phase_buffer" where
  "remember_message_item event b =
     (case dget event ''item'' of
        PDict item \<Rightarrow>
          if dget item ''type'' = PStr ''message'' then
            (case dget item ''id'' of
               PStr i \<Rightarrow> if i \<noteq> [] then b\<lparr>message_item_ids := List.insert i (message_item_ids b)\<rparr> else b
             | _ \<Rightarrow> b)
          else b
      | _ \<Rightarrow> b)"

definition annotate_if_needed :: "phase_buffer \<Rightarrow> pdict \<Rightarrow> pdict" where
  "annotate_if_needed b event =
     (if commentary b then with_message_phase event commentary_phase else event)"

definition process_event :: "pdict \<Rightarrow> phase_buffer \<Rightarrow> (pdict list \<times> phase_buffer) res" where
  "process_event event b =
     (if passthrough b then Inr ([event], b)
      else if terminal_seen b then Inr ([annotate_if_needed b event], b)
      else
        rbind (has_tool_signal event) (\<lambda>signal.
        rbind (py_in_strs (dget event ''type'') terminal_event_types) (\<lambda>terminal.
          if signal then
            let b1 = b\<lparr>commentary := True\<rparr>;
                (emitted, b2) = flush_buffer (Some commentary_phase) b1 in
            Inr (emitted @ [annotate_if_needed b2 event],
                 if terminal then b2\<lparr>terminal_seen := True\<rparr> else b2)
          else if terminal then
            let b1 = b\<lparr>terminal_seen := True\<rparr>;
                phase = (if commentary b then Some commentary_phase
                         else final_buffer_phase_for_terminal (dget event ''type''));
                (emitted, b2) = flush_buffer phase b1 in
            Inr (emitted @ [case phase of None \<Rightarrow> event | Some p \<Rightarrow> with_message_phase event p], b2)
          else
            rbind (should_buffer event b) (\<lambda>hold.
              if hold then
                let event_size = int (serialized_size event) in
                if int (length (buffered b)) \<ge> max_buffered_events b
                   \<or> buffered_bytes b + event_size > max_buffered_bytes b
                then
                  let b1 = b\<lparr>passthrough := True\<rparr>; (emitted, b2) = flush_buffer None b1 in
                  Inr (emitted @ [event], b2)
                else
                  let b1 = remember_message_item event b in
                  Inr ([], b1\<lparr>buffered := buffered b1 @ [event],
                              buffered_bytes := buffered_bytes b1 + event_size\<rparr>)
              else Inr ([annotate_if_needed b event], b)))))"

definition buffer_flush :: "phase_buffer \<Rightarrow> pdict list \<times> phase_buffer" where
  "buffer_flush b = flush_buffer None b"

text \<open>A whole stream: every event in turn, then \<open>flush\<close> at its end.\<close>

fun run_stream :: "pdict list \<Rightarrow> phase_buffer \<Rightarrow> (pdict list \<times> phase_buffer) res" where
  "run_stream [] b = Inr ([], b)"
| "run_stream (event # events) b =
     rbind (process_event event b) (\<lambda>(out, b').
     rbind (run_stream events b') (\<lambda>(outs, b''). Inr (out @ outs, b'')))"

definition stream_output :: "pdict list \<Rightarrow> phase_buffer \<Rightarrow> pdict list res" where
  "stream_output events b =
     rbind (run_stream events b) (\<lambda>(out, b'). Inr (out @ fst (buffer_flush b')))"


section \<open>One event\<close>

definition same_event :: "pdict \<Rightarrow> pdict \<Rightarrow> bool" where
  "same_event e e' \<longleftrightarrow> e' = e \<or> e' = with_message_phase e commentary_phase
     \<or> e' = with_message_phase e final_answer_phase"

lemma same_event_intros [simp, intro]:
  "same_event e e" "same_event e (with_message_phase e commentary_phase)"
  "same_event e (with_message_phase e final_answer_phase)"
  by (auto simp: same_event_def)

lemma same_annotated [simp]: "same_event e (annotate_if_needed b e)"
  by (simp add: annotate_if_needed_def)

lemma list_all2_same_map:
  "list_all2 same_event es es"
  "list_all2 same_event es (map (\<lambda>e. with_message_phase e commentary_phase) es)"
  "list_all2 same_event es (map (\<lambda>e. with_message_phase e final_answer_phase) es)"
  by (auto simp: list_all2_conv_all_nth)

lemma flush_facts [simp]:
  "buffered (snd (flush_buffer p b)) = []"
  "commentary (snd (flush_buffer p b)) = commentary b"
  "passthrough (snd (flush_buffer p b)) = passthrough b"
  "terminal_seen (snd (flush_buffer p b)) = terminal_seen b"
  "max_buffered_events (snd (flush_buffer p b)) = max_buffered_events b"
  "max_buffered_bytes (snd (flush_buffer p b)) = max_buffered_bytes b"
  by (auto simp: flush_buffer_def)

lemma flush_events:
  "fst (flush_buffer p b) =
     (case p of None \<Rightarrow> buffered b | Some q \<Rightarrow> map (\<lambda>e. with_message_phase e q) (buffered b))"
  by (auto simp: flush_buffer_def split: option.split)

lemma remember_facts [simp]:
  "buffered (remember_message_item e b) = buffered b"
  "buffered_bytes (remember_message_item e b) = buffered_bytes b"
  "commentary (remember_message_item e b) = commentary b"
  "passthrough (remember_message_item e b) = passthrough b"
  "terminal_seen (remember_message_item e b) = terminal_seen b"
  "max_buffered_events (remember_message_item e b) = max_buffered_events b"
  "max_buffered_bytes (remember_message_item e b) = max_buffered_bytes b"
  by (auto simp: remember_message_item_def split: pyval.split)

text \<open>What one call does: release everything held and the event, hold the event, or let it pass.\<close>

lemma process_event_cases:
  assumes "process_event e b = Inr (out, b')"
  obtains
    (released) es e' where "list_all2 same_event (buffered b) es" "same_event e e'" "out = es @ [e']"
      "buffered b' = []" "buffered_bytes b' = (if buffered b = [] then buffered_bytes b else 0)"
      "max_buffered_events b' = max_buffered_events b" "max_buffered_bytes b' = max_buffered_bytes b"
  | (held) "out = []" "buffered b' = buffered b @ [e]"
      "buffered_bytes b' = buffered_bytes b + int (serialized_size e)"
      "int (length (buffered b)) < max_buffered_events b"
      "buffered_bytes b + int (serialized_size e) \<le> max_buffered_bytes b"
      "max_buffered_events b' = max_buffered_events b" "max_buffered_bytes b' = max_buffered_bytes b"
  | (passed) e' where "same_event e e'" "out = [e']" "buffered b' = buffered b"
      "buffered_bytes b' = buffered_bytes b"
      "max_buffered_events b' = max_buffered_events b" "max_buffered_bytes b' = max_buffered_bytes b"
proof -
  have bytes: "buffered_bytes (snd (flush_buffer p c)) = (if buffered c = [] then buffered_bytes c else 0)" for p c
    by (simp add: flush_buffer_def)
  have flushed: "list_all2 same_event (buffered c) (fst (flush_buffer p c))"
    if "p \<in> {None, Some commentary_phase, Some final_answer_phase}" for p c
    using that by (auto simp: flush_events list_all2_same_map)
  have final: "final_buffer_phase_for_terminal t \<in> {None, Some commentary_phase, Some final_answer_phase}" for t
    by (simp add: final_buffer_phase_for_terminal_def)
  consider
      "passthrough b \<or> \<not> passthrough b \<and> terminal_seen b"
    | s t where "\<not> passthrough b" "\<not> terminal_seen b" "has_tool_signal e = Inr s"
        "py_in_strs (dget e ''type'') terminal_event_types = Inr t"
    using assms
    by (cases "passthrough b"; cases "terminal_seen b") (auto simp: process_event_def elim!: rbind_InrE)
  then show thesis
  proof cases
    case 1
    then show thesis using assms by (intro passed [of "if passthrough b then e else annotate_if_needed b e"])
      (auto simp: process_event_def)
  next
    case (2 s t)
    note eqs = 2 assms [unfolded process_event_def]
    show thesis
    proof (cases s)
      case True
      let ?f = "flush_buffer (Some commentary_phase) (b\<lparr>commentary := True\<rparr>)"
      show thesis
        using eqs True flushed [of "Some commentary_phase" "b\<lparr>commentary := True\<rparr>"]
          bytes [of "Some commentary_phase" "b\<lparr>commentary := True\<rparr>"]
        by (intro released [of "fst ?f" "annotate_if_needed (snd ?f) e"])
          (auto simp: Let_def split_beta split: if_splits)
    next
      case s: False
      show thesis
      proof (cases t)
        case True
        let ?p = "if commentary b then Some commentary_phase else final_buffer_phase_for_terminal (dget e ''type'')"
        let ?f = "flush_buffer ?p (b\<lparr>terminal_seen := True\<rparr>)"
        have "same_event e (case ?p of None \<Rightarrow> e | Some p \<Rightarrow> with_message_phase e p)"
          using final [of "dget e ''type''"] by auto
        then show thesis
          using eqs s True flushed [of ?p "b\<lparr>terminal_seen := True\<rparr>"] final [of "dget e ''type''"]
            bytes [of ?p "b\<lparr>terminal_seen := True\<rparr>"]
          by (intro released [of "fst ?f" "case ?p of None \<Rightarrow> e | Some p \<Rightarrow> with_message_phase e p"])
            (auto simp: Let_def split_beta)
      next
        case t: False
        then obtain h where h: "should_buffer e b = Inr h" using eqs s by (auto elim!: rbind_InrE)
        show thesis
        proof (cases "h \<and> \<not> (int (length (buffered b)) \<ge> max_buffered_events b
            \<or> buffered_bytes b + int (serialized_size e) > max_buffered_bytes b)")
          case True
          then show thesis using eqs s t h by (intro held) (auto simp: Let_def)
        next
          case no: False
          show thesis
          proof (cases h)
            case True
            let ?f = "flush_buffer None (b\<lparr>passthrough := True\<rparr>)"
            show thesis
              using eqs s t h True no flushed [of None "b\<lparr>passthrough := True\<rparr>"]
                bytes [of None "b\<lparr>passthrough := True\<rparr>"]
              by (intro released [of "fst ?f" e]) (auto simp: Let_def split_beta)
          next
            case False
            then show thesis using eqs s t h by (intro passed [of "annotate_if_needed b e"]) auto
          qed
        qed
      qed
    qed
  qed
qed


section \<open>Whole streams\<close>

lemma shuffles_prepend: "zs \<in> shuffles xs ys \<Longrightarrow> ps @ zs \<in> shuffles (ps @ xs) ys"
  by (induction ps) (auto intro: Cons_in_shuffles_leftI)

lemma run_stream_shuffle:
  assumes "run_stream events b = Inr (outs, b')"
  shows "\<exists>held passed orig. events \<in> shuffles held passed
    \<and> orig \<in> shuffles (buffered b @ held) passed
    \<and> list_all2 same_event orig (outs @ fst (buffer_flush b'))"
  using assms
proof (induction events arbitrary: b outs)
  case Nil
  then show ?case
    by (auto simp: buffer_flush_def flush_events list_all2_same_map intro!: exI [of _ "[]"])
next
  case (Cons e events)
  then obtain out b1 outs1 where p: "process_event e b = Inr (out, b1)"
    and r: "run_stream events b1 = Inr (outs1, b')" and outs: "outs = out @ outs1"
    by (auto elim!: rbind_InrE)
  obtain held passed orig where ih: "events \<in> shuffles held passed"
    "orig \<in> shuffles (buffered b1 @ held) passed"
    "list_all2 same_event orig (outs1 @ fst (buffer_flush b'))"
    using Cons.IH [OF r] by blast
  show ?case
    using p
  proof (cases rule: process_event_cases)
    case (released es e')
    have "buffered b @ e # orig \<in> shuffles (buffered b @ held) (e # passed)"
      using ih(2) released(4) by (intro shuffles_prepend Cons_in_shuffles_rightI) simp
    moreover have "list_all2 same_event (buffered b @ e # orig) (outs @ fst (buffer_flush b'))"
      using released(1-3) ih(3) outs by (simp add: list_all2_appendI)
    ultimately show ?thesis using Cons_in_shuffles_rightI [OF ih(1), of e] by blast
  next
    case held
    then have "orig \<in> shuffles (buffered b @ e # held) passed" using ih(2) by simp
    then show ?thesis using Cons_in_shuffles_leftI [OF ih(1), of e] ih(3) outs held(1) by auto
  next
    case (passed e')
    have "e # orig \<in> shuffles (buffered b @ held) (e # passed)"
      using ih(2) passed(3) by (intro Cons_in_shuffles_rightI) simp
    then show ?thesis using Cons_in_shuffles_rightI [OF ih(1), of e] ih(3) outs passed(1,2) by auto
  qed
qed

definition buffer_inv :: "phase_buffer \<Rightarrow> bool" where
  "buffer_inv b \<longleftrightarrow>
     int (length (buffered b)) \<le> max_buffered_events b \<and> buffered_bytes b \<le> max_buffered_bytes b \<and>
     buffered_bytes b = int (sum_list (map serialized_size (buffered b))) \<and>
     0 \<le> max_buffered_events b \<and> 0 \<le> max_buffered_bytes b"

lemma buffer_inv_process:
  "process_event e b = Inr (out, b') \<Longrightarrow> buffer_inv b \<Longrightarrow> buffer_inv b'"
  by (erule process_event_cases) (auto simp: buffer_inv_def)

lemma run_stream_inv:
  "run_stream events b = Inr (outs, b') \<Longrightarrow> buffer_inv b \<Longrightarrow> buffer_inv b' \<and>
   max_buffered_events b' = max_buffered_events b \<and> max_buffered_bytes b' = max_buffered_bytes b"
proof (induction events arbitrary: b outs)
  case (Cons e events)
  then obtain out b1 outs1 where p: "process_event e b = Inr (out, b1)"
    and r: "run_stream events b1 = Inr (outs1, b')"
    by (auto elim!: rbind_InrE)
  have "max_buffered_events b1 = max_buffered_events b \<and> max_buffered_bytes b1 = max_buffered_bytes b"
    by (rule process_event_cases [OF p]) auto
  with Cons.IH [OF r buffer_inv_process [OF p Cons.prems(2)]] show ?case by simp
qed simp

text \<open>Once the stream is known to be commentary, nothing is held any more.\<close>

definition commenting :: "phase_buffer \<Rightarrow> bool" where
  "commenting b \<longleftrightarrow> commentary b \<and> \<not> passthrough b \<and> buffered b = []"

lemma process_commenting:
  assumes "process_event e b = Inr (out, b')" and "commenting b"
  shows "out = [with_message_phase e commentary_phase] \<and> commenting b'"
  using assms
  by (auto simp: process_event_def commenting_def annotate_if_needed_def flush_buffer_def
      should_buffer_def Let_def split: if_splits elim!: rbind_InrE)

lemma run_commenting:
  "run_stream events b = Inr (outs, b') \<Longrightarrow> commenting b \<Longrightarrow>
   outs = map (\<lambda>e. with_message_phase e commentary_phase) events \<and> commenting b'"
proof (induction events arbitrary: b outs)
  case (Cons e events)
  then obtain out b1 outs1 where p: "process_event e b = Inr (out, b1)"
    and r: "run_stream events b1 = Inr (outs1, b')" and "outs = out @ outs1"
    by (auto elim!: rbind_InrE)
  with process_commenting [OF p Cons.prems(2)] Cons.IH [OF r] show ?case by auto
qed simp

lemma process_tool_signal:
  assumes "process_event e b = Inr (out, b')" and "has_tool_signal e = Inr True"
    and "\<not> passthrough b" and "\<not> terminal_seen b"
  shows "out = map (\<lambda>e. with_message_phase e commentary_phase) (buffered b @ [e]) \<and> commenting b'"
  using assms
  by (auto simp: process_event_def commenting_def Let_def split_beta flush_events
      annotate_if_needed_def flush_buffer_def split: if_splits elim!: rbind_InrE)

section \<open>Typed events\<close>

definition hashable :: "pyval \<Rightarrow> bool" where
  "hashable v \<longleftrightarrow> (\<exists>h. py_hash v = Inr h)"

lemma hashable_simps [simp]:
  "hashable PNone" "hashable (PStr s)" "hashable (PInt i)" "hashable (PBool c)" "hashable (PFloat f)"
  "\<not> hashable (PList xs)" "\<not> hashable (PDict d)"
  by (simp_all add: hashable_def)

text \<open>The fields of an event that the buffer looks up in a set are hashable.\<close>

definition output_types_hashable :: "pyval \<Rightarrow> bool" where
  "output_types_hashable response =
     (case response of
        PDict r \<Rightarrow>
          (case dget r ''output'' of
             PList items \<Rightarrow> list_all (\<lambda>i. case i of PDict d \<Rightarrow> hashable (dget d ''type'') | _ \<Rightarrow> True) items
           | _ \<Rightarrow> True)
      | _ \<Rightarrow> True)"

definition typed_event :: "pdict \<Rightarrow> bool" where
  "typed_event e \<longleftrightarrow> hashable (dget e ''type'') \<and> hashable (dget e ''item_id'')
     \<and> output_types_hashable (dget e ''response'')"

lemma py_in_strs_hashable: "hashable v \<Longrightarrow> \<exists>r. py_in_strs v ss = Inr r"
  by (auto simp: hashable_def py_in_strs_def)

lemma any_tool_item_returns:
  "list_all (\<lambda>i. case i of PDict d \<Rightarrow> hashable (dget d ''type'') | _ \<Rightarrow> True) items \<Longrightarrow>
   \<exists>r. any_tool_item items = Inr r"
proof (induction items rule: any_tool_item.induct)
  case (2 item items)
  then obtain r where "py_in_strs (dget item ''type'') tool_item_types = Inr r"
    using py_in_strs_hashable by fastforce
  with 2 show ?case by (cases r) auto
qed auto

lemma has_tool_signal_returns:
  assumes "typed_event e" shows "\<exists>r. has_tool_signal e = Inr r"
proof -
  obtain t where "py_in_strs (dget e ''type'') tool_event_types = Inr t"
    using assms py_in_strs_hashable unfolding typed_event_def by blast
  moreover have "\<exists>r. completed_has_tool_output e = Inr r"
    using assms any_tool_item_returns
    by (auto simp: completed_has_tool_output_def typed_event_def output_types_hashable_def
        split: pyval.splits)
  ultimately show ?thesis by (auto simp: has_tool_signal_def Let_def)
qed

lemma process_event_returns:
  assumes "typed_event e" shows "\<exists>out b'. process_event e b = Inr (out, b')"
proof -
  have h: "\<exists>r. py_in_strs (dget e ''type'') ss = Inr r" "\<exists>r. py_in_strs (dget e ''item_id'') ss = Inr r" for ss
    using assms py_in_strs_hashable by (auto simp: typed_event_def)
  obtain s where "has_tool_signal e = Inr s" using has_tool_signal_returns [OF assms] by blast
  moreover obtain t where "py_in_strs (dget e ''type'') terminal_event_types = Inr t" using h by blast
  moreover obtain m where "py_in_strs (dget e ''type'') message_event_types = Inr m" using h by blast
  moreover obtain i where "py_in_strs (dget e ''item_id'') (message_item_ids b) = Inr i" using h by blast
  ultimately show ?thesis
    by (auto simp: process_event_def should_buffer_def Let_def split_beta)
qed

lemma run_stream_returns: "\<forall>e \<in> set events. typed_event e \<Longrightarrow> \<exists>outs b'. run_stream events b = Inr (outs, b')"
proof (induction events arbitrary: b)
  case (Cons e events)
  then obtain out b1 where "process_event e b = Inr (out, b1)" using process_event_returns [of e b] by auto
  moreover obtain outs b' where "run_stream events b1 = Inr (outs, b')" using Cons by fastforce
  ultimately show ?case by simp
qed simp


section \<open>A held prefix\<close>

lemma run_stream_append:
  "run_stream (es @ fs) b =
     rbind (run_stream es b) (\<lambda>(out, b1). rbind (run_stream fs b1) (\<lambda>(outs, b2). Inr (out @ outs, b2)))"
proof (induction es arbitrary: b)
  case Nil
  show ?case by (cases "run_stream fs b") auto
next
  case (Cons e es)
  show ?case
  proof (cases "process_event e b")
    case (Inr r)
    then show ?thesis
      by (cases r; cases "run_stream es (snd r)") (auto simp: Cons.IH rbind_assoc split_beta
          intro!: rbind_cong)
  qed simp
qed

lemma process_held:
  assumes "process_event e b = Inr ([], b')"
  shows "buffered b' = buffered b @ [e] \<and> passthrough b' = passthrough b
    \<and> terminal_seen b' = terminal_seen b \<and> commentary b' = commentary b"
proof -
  have b: "buffered b' = buffered b @ [e]"
    using assms by (rule process_event_cases) auto
  show ?thesis
    using assms b
    by (auto simp: process_event_def Let_def split_beta split: if_splits elim!: rbind_InrE)
qed

lemma run_held:
  "run_stream es b = Inr ([], b') \<Longrightarrow> buffered b' = buffered b @ es \<and> passthrough b' = passthrough b
    \<and> terminal_seen b' = terminal_seen b \<and> commentary b' = commentary b"
proof (induction es arbitrary: b)
  case (Cons e es)
  then obtain b1 where "process_event e b = Inr ([], b1)" "run_stream es b1 = Inr ([], b')"
    by (auto elim!: rbind_InrE)
  with process_held Cons.IH show ?case by fastforce
qed simp

section \<open>Properties\<close>

text \<open>
  C23. On typed events a whole stream is processed without an error and nothing is lost,
  duplicated or invented: the events split into those that were held and those that were not,
  the output merges the same two subsequences, each in its order, and every output event is its
  input event up to the message phase.
\<close>

theorem phase_stream_content:
  assumes "\<forall>e \<in> set events. typed_event e"
  shows "\<exists>outs held passed orig. stream_output events (buffer_init w m k) = Inr outs
    \<and> events \<in> shuffles held passed \<and> orig \<in> shuffles held passed \<and> list_all2 same_event orig outs"
proof -
  obtain outs b' where r: "run_stream events (buffer_init w m k) = Inr (outs, b')"
    using run_stream_returns [OF assms] by blast
  then have "stream_output events (buffer_init w m k) = Inr (outs @ fst (buffer_flush b'))"
    by (simp add: stream_output_def)
  moreover have "buffered (buffer_init w m k) = []" by (simp add: buffer_init_def)
  ultimately show ?thesis using run_stream_shuffle [OF r] by auto
qed

definition demo_delta :: pdict where
  "demo_delta = [(''type'', PStr ''response.output_text.delta'')]"

definition demo_done :: pdict where
  "demo_done = [(''type'', PStr ''response.completed'')]"

definition demo_tool :: pdict where
  "demo_tool = [(''type'', PStr ''response.function_call_arguments.delta'')]"

lemma demo_typed: "\<forall>e \<in> set [demo_delta, demo_done, demo_tool]. typed_event e"
  by (simp add: demo_delta_def demo_done_def demo_tool_def typed_event_def output_types_hashable_def)

theorem phase_stream_content_witness:
  "\<exists>outs. stream_output [demo_delta, demo_done] (buffer_init ''w'' 256 1000) = Inr outs \<and> length outs = 2"
proof -
  have "\<forall>e \<in> set [demo_delta, demo_done]. typed_event e" using demo_typed by simp
  from phase_stream_content [OF this, of "''w''" 256 1000] obtain outs held passed orig where r:
    "stream_output [demo_delta, demo_done] (buffer_init ''w'' 256 1000) = Inr outs"
    "[demo_delta, demo_done] \<in> shuffles held passed" "orig \<in> shuffles held passed"
    "list_all2 same_event orig outs" by blast
  then show ?thesis
    using length_shuffles [OF r(2)] length_shuffles [OF r(3)] list_all2_lengthD [OF r(4)] by simp
qed

text \<open>
  The memory the buffer holds is bounded at every point of a stream: never more events
  than the event limit, nor more serialized bytes than the byte limit, and the byte counter is
  exact.
\<close>

theorem phase_buffer_bounded:
  assumes "0 \<le> m" and "0 \<le> k" and "run_stream events (buffer_init w m k) = Inr (outs, b)"
  shows "int (length (buffered b)) \<le> m \<and> int (sum_list (map serialized_size (buffered b))) \<le> k
    \<and> buffered_bytes b = int (sum_list (map serialized_size (buffered b)))"
  using run_stream_inv [OF assms(3)] assms(1,2) by (simp add: buffer_inv_def buffer_init_def)

theorem phase_buffer_bounded_witness:
  "\<exists>outs b. run_stream [demo_delta] (buffer_init ''w'' 256 1000) = Inr (outs, b)
     \<and> int (length (buffered b)) \<le> 256"
proof -
  obtain outs b where r: "run_stream [demo_delta] (buffer_init ''w'' 256 1000) = Inr (outs, b)"
    using run_stream_returns [of "[demo_delta]" "buffer_init ''w'' 256 1000"] demo_typed by auto
  with phase_buffer_bounded [OF _ _ r] show ?thesis by simp
qed

text \<open>
  C31. A tool signal makes the whole response commentary: when the events so far are held and a
  tool signal follows, the output of the stream is the input in its order, every event with the
  commentary phase, whatever follows and without a flush at the end.
\<close>

theorem phase_tool_signal_commentary:
  assumes "run_stream es (buffer_init w m k) = Inr ([], b)" and "has_tool_signal e = Inr True"
    and "\<forall>f \<in> set (e # later). typed_event f"
  shows "stream_output (es @ e # later) (buffer_init w m k) =
    Inr (map (\<lambda>f. with_message_phase f commentary_phase) (es @ e # later))"
proof -
  have b: "buffered b = es" "\<not> passthrough b" "\<not> terminal_seen b"
    using run_held [OF assms(1)] by (auto simp: buffer_init_def)
  obtain out b1 where p: "process_event e b = Inr (out, b1)"
    using process_event_returns assms(3) by fastforce
  note s = process_tool_signal [OF p assms(2) b(2,3)]
  obtain outs b2 where r: "run_stream later b1 = Inr (outs, b2)"
    using run_stream_returns assms(3) by fastforce
  have "outs = map (\<lambda>f. with_message_phase f commentary_phase) later \<and> commenting b2"
    using run_commenting [OF r] s by simp
  then show ?thesis
    using assms(1) p r s b(1)
    by (simp add: stream_output_def run_stream_append buffer_flush_def flush_events commenting_def)
qed

lemma demo_held: "\<exists>b. run_stream [demo_delta] (buffer_init ''w'' 256 1000) = Inr ([], b)"
  by (simp add: demo_delta_def buffer_init_def process_event_def has_tool_signal_def py_in_strs_def
      tool_event_types_def terminal_event_types_def should_buffer_def message_event_types_def
      is_item_event_def serialized_size_def utf8_len_def json_str_def json_char_def ordered_items_def
      join_with_def Let_def)

theorem phase_tool_signal_commentary_witness:
  "stream_output ([demo_delta] @ demo_tool # [demo_done]) (buffer_init ''w'' 256 1000) =
     Inr (map (\<lambda>f. with_message_phase f commentary_phase) ([demo_delta] @ demo_tool # [demo_done]))"
proof -
  obtain b where "run_stream [demo_delta] (buffer_init ''w'' 256 1000) = Inr ([], b)"
    using demo_held by blast
  moreover have "has_tool_signal demo_tool = Inr True"
    by (simp add: has_tool_signal_def demo_tool_def py_in_strs_def tool_event_types_def)
  moreover have "\<forall>f \<in> set (demo_tool # [demo_done]). typed_event f" using demo_typed by simp
  ultimately show ?thesis by (rule phase_tool_signal_commentary)
qed

text \<open>
  A response that completes without any tool output releases what it held as the final
  answer, in order and before the completed event.
\<close>

theorem phase_completed_final:
  assumes "run_stream es (buffer_init w m k) = Inr ([], b)"
    and "dget e ''type'' = PStr ''response.completed''" and "has_tool_signal e = Inr False"
  shows "stream_output (es @ [e]) (buffer_init w m k) =
    Inr (map (\<lambda>f. with_message_phase f final_answer_phase) (es @ [e]))"
proof -
  have b: "buffered b = es" "\<not> passthrough b" "\<not> terminal_seen b" "\<not> commentary b"
    using run_held [OF assms(1)] by (auto simp: buffer_init_def)
  then show ?thesis
    using assms
    by (simp add: stream_output_def run_stream_append process_event_def py_in_strs_def
        terminal_event_types_def final_buffer_phase_for_terminal_def Let_def split_beta
        buffer_flush_def flush_events)
qed

theorem phase_completed_final_witness:
  "stream_output ([demo_delta] @ [demo_done]) (buffer_init ''w'' 256 1000) =
     Inr (map (\<lambda>f. with_message_phase f final_answer_phase) ([demo_delta] @ [demo_done]))"
proof -
  obtain b where "run_stream [demo_delta] (buffer_init ''w'' 256 1000) = Inr ([], b)"
    using demo_held by blast
  then show ?thesis
    by (rule phase_completed_final)
      (simp_all add: demo_done_def has_tool_signal_def py_in_strs_def tool_event_types_def
        is_item_event_def completed_has_tool_output_def)
qed

end
