(* ===== verification/ResponsesContentOps.thy ===== *)
theory ResponsesContentOps
  imports ToolContent ChatContentOps
begin

text \<open>
  \<open>converters/openai_responses/content_ops.py\<close>: texts, images, files, audio, reasoning and citations
  between the IR and the items of the Responses API. A part annotated with a TypedDict is a \<open>pdict\<close>, a
  value annotated \<open>Any\<close> a \<open>pyval\<close>. A Python warning has no effect and is left out.
\<close>

section \<open>Texts\<close>

text \<open>\<open>output\<close> says that the \<open>context\<close> argument is \<open>"output"\<close>.\<close>

definition responses_text_to_p :: "bool \<Rightarrow> pdict \<Rightarrow> pdict res" where
  "responses_text_to_p output ir_text =
     rbind (ditem ir_text ''text'') (\<lambda>t.
       Inr [(''type'', PStr (if output then ''output_text'' else ''input_text'')), (''text'', t)])"

definition responses_text_to_ir :: "pyval \<Rightarrow> pdict res" where
  "responses_text_to_ir provider_text =
     (case (as_str provider_text, as_dict provider_text) of
        (Some s, _) \<Rightarrow> Inr (text_part (PStr s))
      | (None, Some d) \<Rightarrow>
          if dget d ''type'' \<in> {PStr ''input_text'', PStr ''output_text'', PStr ''text''}
          then rbind (ditem d ''text'') (\<lambda>t. Inr (text_part t))
          else Inl (ValueError (''Cannot convert to TextPart: '' @ py_repr provider_text))
      | _ \<Rightarrow> Inl (ValueError (''Cannot convert to TextPart: '' @ py_repr provider_text)))"

section \<open>Images\<close>

definition py_or :: "pyval \<Rightarrow> pyval \<Rightarrow> pyval" where
  "py_or a b = (if py_truthy a then a else b)"

text \<open>\<open>"provider_ref" in part and "file_id" in part["provider_ref"]\<close>, with the id where it holds.\<close>

definition provider_file_id :: "pdict \<Rightarrow> pyval option res" where
  "provider_file_id part =
     (if dhas part ''provider_ref'' then
        rbind (py_contains (dget part ''provider_ref'') ''file_id'') (\<lambda>b.
          if b then rbind (py_item (dget part ''provider_ref'') ''file_id'') (\<lambda>v. Inr (Some v)) else Inr None)
      else Inr None)"

definition responses_image_to_p :: "pdict \<Rightarrow> pdict res" where
  "responses_image_to_p ir_image =
     (let result = [(''type'', PStr ''input_image''), (''detail'', dget_or ir_image ''detail'' (PStr ''auto''))];
          url = py_or (dget ir_image ''image_url'') (dget ir_image ''url''); image_data = dget ir_image ''image_data'' in
      if py_truthy url then Inr (result @ [(''image_url'', url)])
      else if py_truthy image_data then
        rbind (py_item image_data ''media_type'') (\<lambda>mt.
        rbind (py_item image_data ''data'') (\<lambda>data.
          Inr (result @ [(''image_url'', PStr (''data:'' @ py_str mt @ '';base64,'' @ py_str data))])))
      else rbind (provider_file_id ir_image) (\<lambda>fid.
        case fid of
          Some v \<Rightarrow> Inr (result @ [(''file_id'', v)])
        | None \<Rightarrow> Inl (ValueError ''Image part must have either image_url/url or image_data'')))"

definition responses_image_to_ir :: "pyval \<Rightarrow> pdict res" where
  "responses_image_to_ir provider_image =
     (case as_dict provider_image of
        None \<Rightarrow> Inl AttributeError
      | Some p \<Rightarrow>
          let detail = dget_or p ''detail'' (PStr ''auto'') in
          if dhas p ''image_url'' then
            (if is_str (dget p ''image_url'') then Inr (ir_image_of_url (dget p ''image_url'') detail) else Inl AttributeError)
          else if dhas p ''file_id'' then
            Inr [(''type'', PStr ''image''), (''provider_ref'', PDict [(''file_id'', dget p ''file_id'')]), (''detail'', detail)]
          else Inr [(''type'', PStr ''image''), (''detail'', detail)])"

section \<open>Files\<close>

definition responses_file_to_p :: "pdict \<Rightarrow> pdict res" where
  "responses_file_to_p ir_file =
     (let result = [(''type'', PStr ''input_file''), (''filename'', dget_or ir_file ''file_name'' (PStr ''unknown''))] in
      if dhas ir_file ''file_data'' then
        rbind (py_item (dget ir_file ''file_data'') ''data'') (\<lambda>data. Inr (result @ [(''file_data'', data)]))
      else if dhas ir_file ''file_url'' then Inr (result @ [(''file_url'', dget ir_file ''file_url'')])
      else rbind (provider_file_id ir_file) (\<lambda>fid.
        case fid of
          Some v \<Rightarrow> Inr (result @ [(''file_id'', v)])
        | None \<Rightarrow> Inl (ValueError ''File part must have either file_data or file_url'')))"

definition responses_file_to_ir :: "pyval \<Rightarrow> pdict res" where
  "responses_file_to_ir provider_file =
     (case as_dict provider_file of
        None \<Rightarrow> Inl AttributeError
      | Some p \<Rightarrow>
          let file = [(''type'', PStr ''file''), (''file_name'', dget_or p ''filename'' (PStr ''unknown''))] in
          Inr (if dhas p ''file_data'' then
                 file @ [(''file_data'', PDict [(''data'', dget p ''file_data''),
                                                (''media_type'', PStr ''application/octet-stream'')])]
               else if dhas p ''file_url'' then file @ [(''file_url'', dget p ''file_url'')]
               else if dhas p ''file_id'' then file @ [(''provider_ref'', PDict [(''file_id'', dget p ''file_id'')])]
               else file))"

section \<open>Audio\<close>

definition responses_audio_to_p :: "pdict \<Rightarrow> pdict res" where
  "responses_audio_to_p ir_audio =
     (let audio_data = dget ir_audio ''audio_data'' in
      rbind (if py_truthy audio_data then
               rbind (py_get audio_data ''data'' PNone) (\<lambda>data.
               rbind (py_get audio_data ''media_type'' PNone) (\<lambda>media_type.
                 case (as_str data, as_str media_type) of
                   (Some d, Some m) \<Rightarrow> Inr (PStr (''data:'' @ m @ '';base64,'' @ d))
                 | _ \<Rightarrow> Inl (ValueError ''Audio data must have data and media_type'')))
             else Inr (dget ir_audio ''url'')) (\<lambda>audio_url.
        if \<not> is_str audio_url \<or> \<not> py_truthy audio_url then Inl (ValueError ''Audio part must have audio_data or url'')
        else Inr [(''type'', PStr ''input_audio''), (''audio_url'', audio_url)]))"

text \<open>The groups of the pattern \<open>data:([^;]+);base64,(.*)\<close>.\<close>

definition match_data_uri_any :: "string \<Rightarrow> (string \<times> string) option" where
  "match_data_uri_any url =
     (let rest = drop 5 url; mt = takeWhile (\<lambda>c. c \<noteq> CHR '';'') rest; tail = drop (length mt) rest in
      if starts_with url ''data:'' \<and> mt \<noteq> [] \<and> starts_with tail '';base64,''
      then Some (mt, takeWhile (\<lambda>c. c \<noteq> CHR 0x0A) (drop 8 tail)) else None)"

definition responses_audio_to_ir :: "pyval \<Rightarrow> pdict res" where
  "responses_audio_to_ir provider_audio =
     (case as_dict provider_audio of
        None \<Rightarrow> Inl (ValueError ''Audio content must be an object'')
      | Some p \<Rightarrow>
          (case py_or (dget p ''audio_url'') (dget p ''audio'') of
             PStr audio_url \<Rightarrow>
               if audio_url = [] then Inl (ValueError ''Audio content must have audio_url'')
               else (case match_data_uri_any audio_url of
                   Some (media_type, data) \<Rightarrow>
                     Inr [(''type'', PStr ''audio''),
                          (''audio_data'', PDict [(''data'', PStr data), (''media_type'', PStr media_type)])]
                 | None \<Rightarrow> Inr [(''type'', PStr ''audio''), (''url'', PStr audio_url)])
           | _ \<Rightarrow> Inl (ValueError ''Audio content must have audio_url'')))"

section \<open>Reasoning\<close>

text \<open>\<open>metadata = value or {}\<close>, of which the code reads fields.\<close>

definition typed_meta :: "pyval \<Rightarrow> pdict res" where
  "typed_meta v = (if \<not> py_truthy v then Inr [] else case as_dict v of Some d \<Rightarrow> Inr d | None \<Rightarrow> Inl AttributeError)"

definition responses_reasoning_part_to_p :: "pdict \<Rightarrow> pdict res" where
  "responses_reasoning_part_to_p ir_reasoning =
     rbind (typed_meta (dget ir_reasoning ''provider_metadata'')) (\<lambda>metadata.
     let item_id = dget metadata ''responses_reasoning_id''; summary = dget metadata ''responses_reasoning_summary'';
         content = dget_or ir_reasoning ''reasoning'' (PStr ''''); raw_content = dget metadata ''responses_reasoning_content'';
         signature = dget ir_reasoning ''signature'' in
       Inr ([(''type'', PStr ''reasoning'')] @
            (if py_truthy item_id then [(''id'', item_id)] else []) @
            [(''summary'', if py_truthy summary then summary
                           else if py_truthy content
                           then PList [PDict [(''type'', PStr ''summary_text''), (''text'', content)]] else PList [])] @
            (if py_truthy raw_content then [(''content'', raw_content)] else []) @
            (if py_truthy signature then [(''encrypted_content'', signature)] else [])))"

definition summary_texts :: "pyval list \<Rightarrow> pyval list" where
  "summary_texts summary =
     concat (map (\<lambda>s. case as_dict s of
                        Some d \<Rightarrow> if dget d ''type'' = PStr ''summary_text'' then [dget_or d ''text'' (PStr '''')] else []
                      | None \<Rightarrow> []) summary)"

definition responses_reasoning_part_to_ir :: "pyval \<Rightarrow> pdict option res" where
  "responses_reasoning_part_to_ir provider_reasoning =
     (case as_dict provider_reasoning of
        None \<Rightarrow> Inl AttributeError
      | Some p \<Rightarrow>
          let summary = dget p ''summary''; item_id = dget p ''id''; raw_content = dget p ''content'';
              encrypted = dget p ''encrypted_content'' in
          rbind (case as_list summary of
                   Some ss \<Rightarrow> rbind (py_join '''' (summary_texts ss)) (\<lambda>s. Inr (PStr s))
                 | None \<Rightarrow> Inr (py_or (dget p ''reasoning'') raw_content)) (\<lambda>reasoning_content.
          let metadata = (if py_truthy item_id then [(''responses_reasoning_id'', item_id)] else []) @
                         (if is_list summary then [(''responses_reasoning_summary'', summary)] else []) @
                         (if py_truthy raw_content then [(''responses_reasoning_content'', raw_content)] else []);
              reasoning_content = py_or reasoning_content (if py_truthy raw_content then raw_content else reasoning_content);
              part = [(''type'', PStr ''reasoning'')] @
                     (if py_truthy reasoning_content then [(''reasoning'', PStr (py_str reasoning_content))] else []) @
                     (if py_truthy encrypted then [(''signature'', PStr (py_str encrypted))] else []) @
                     (if metadata \<noteq> [] then [(''provider_metadata'', PDict metadata)] else []) in
            Inr (if py_truthy reasoning_content \<or> py_truthy encrypted \<or> metadata \<noteq> [] then Some part else None)))"

section \<open>Refusals and citations\<close>

definition responses_refusal_to_p :: "pdict \<Rightarrow> pdict option" where
  "responses_refusal_to_p ir_refusal = None"

definition responses_refusal_to_ir :: "pyval \<Rightarrow> pdict res" where
  "responses_refusal_to_ir provider_refusal = Inl NotImplementedError"

definition url_fields :: "pdict \<Rightarrow> pdict" where
  "url_fields c =
     [(''start_index'', dget_or c ''start_index'' (PInt 0)), (''end_index'', dget_or c ''end_index'' (PInt 0)),
      (''title'', dget_or c ''title'' (PStr '''')), (''url'', dget_or c ''url'' (PStr ''''))]"

definition responses_citation_to_p :: "pdict \<Rightarrow> pdict option res" where
  "responses_citation_to_p ir_citation =
     (let url_citation = dget ir_citation ''url_citation'' in
      if py_truthy url_citation then
        (case as_dict url_citation of
           Some c \<Rightarrow> Inr (Some ((''type'', PStr ''url_citation'') # url_fields c))
         | None \<Rightarrow> Inl AttributeError)
      else Inr None)"

definition responses_citation_to_ir :: "pyval \<Rightarrow> pdict res" where
  "responses_citation_to_ir provider_citation =
     (case as_dict provider_citation of
        None \<Rightarrow> Inl AttributeError
      | Some p \<Rightarrow>
          Inr (if dget_or p ''type'' (PStr '''') = PStr ''url_citation''
               then [(''type'', PStr ''citation''), (''url_citation'', PDict (url_fields p))]
               else [(''type'', PStr ''citation'')]))"

end
