(* ===== verification/Sha1.thy ===== *)
theory Sha1
  imports PyValue "HOL-Library.Word"
begin

unbundle bit_operations_syntax

text \<open>
  \<open>hashlib.sha1(text.encode()).hexdigest()\<close> of the standard library, on the code points below 256: the
  UTF-8 bytes, the padding, the message schedule and the eighty rounds on 32-bit words.
\<close>

definition utf8_bytes :: "string \<Rightarrow> nat list" where
  "utf8_bytes s =
     concat (map (\<lambda>c. let n = of_char c :: nat in if n < 128 then [n] else [192 + n div 64, 128 + n mod 64]) s)"

definition be_bytes :: "nat \<Rightarrow> nat \<Rightarrow> nat list" where
  "be_bytes k n = map (\<lambda>i. (n div 256 ^ i) mod 256) (rev [0..<k])"

definition sha1_padded :: "nat list \<Rightarrow> nat list" where
  "sha1_padded bs =
     bs @ [128] @ replicate ((119 - length bs mod 64) mod 64) 0 @ be_bytes 8 (8 * length bs)"

fun chunked :: "nat \<Rightarrow> 'a list \<Rightarrow> 'a list list" where
  "chunked n [] = []"
| "chunked n (x # xs) = (x # take (n - 1) xs) # chunked n (drop (n - 1) xs)"

definition be_word :: "nat list \<Rightarrow> 32 word" where
  "be_word bs = of_nat (foldl (\<lambda>a b. a * 256 + b) 0 bs)"

text \<open>The schedule, latest word first.\<close>

fun schedule :: "nat \<Rightarrow> 32 word list \<Rightarrow> 32 word list" where
  "schedule 0 ws = ws"
| "schedule (Suc n) ws = schedule n (word_rotl 1 (ws ! 2 XOR ws ! 7 XOR ws ! 13 XOR ws ! 15) # ws)"

type_synonym sha1_state = "32 word \<times> 32 word \<times> 32 word \<times> 32 word \<times> 32 word"

definition sha1_round :: "sha1_state \<Rightarrow> nat \<times> 32 word \<Rightarrow> sha1_state" where
  "sha1_round s tw =
     (case (s, tw) of ((a, b, c, d, e), (t, w)) \<Rightarrow>
        let (f, k) =
              (if t < 20 then ((b AND c) OR (NOT b AND d), 0x5A827999)
               else if t < 40 then (b XOR c XOR d, 0x6ED9EBA1)
               else if t < 60 then ((b AND c) OR (b AND d) OR (c AND d), 0x8F1BBCDC)
               else (b XOR c XOR d, 0xCA62C1D6)) in
        (word_rotl 5 a + f + e + k + w, a, word_rotl 30 b, c, d))"

definition sha1_block :: "sha1_state \<Rightarrow> nat list \<Rightarrow> sha1_state" where
  "sha1_block s block =
     (let ws = rev (schedule 64 (rev (map be_word (chunked 4 block)))) in
      case (s, foldl sha1_round s (zip [0..<80] ws)) of
        ((a, b, c, d, e), (a', b', c', d', e')) \<Rightarrow> (a + a', b + b', c + c', d + d', e + e'))"

definition word_hex :: "32 word \<Rightarrow> string" where
  "word_hex w = concat (map (\<lambda>b. [hex_char (b div 16), hex_char (b mod 16)]) (be_bytes 4 (unat w)))"

definition sha1_hex :: "string \<Rightarrow> string" where
  "sha1_hex s =
     (case foldl sha1_block (0x67452301, 0xEFCDAB89, 0x98BADCFE, 0x10325476, 0xC3D2E1F0)
             (chunked 64 (sha1_padded (utf8_bytes s))) of
        (a, b, c, d, e) \<Rightarrow> concat (map word_hex [a, b, c, d, e]))"

lemma word_hex_length: "length (word_hex w) = 8"
  by (simp add: word_hex_def be_bytes_def length_concat upt_conv_Cons)

lemma sha1_hex_length: "length (sha1_hex s) = 40"
  by (simp add: sha1_hex_def word_hex_length length_concat split: prod.split)

lemma word_hex_chars: "set (word_hex w) \<subseteq> hex_char ` {..<16}"
proof -
  have "b div 16 < 16 \<and> b mod 16 < 16" if "b \<in> set (be_bytes 4 n)" for b n :: nat
    using that by (auto simp: be_bytes_def intro: less_mult_imp_div_less)
  then show ?thesis by (fastforce simp: word_hex_def)
qed

lemma sha1_hex_chars: "set (sha1_hex s) \<subseteq> hex_char ` {..<16}"
  using word_hex_chars by (auto simp: sha1_hex_def split: prod.split)

end
