(* ===== verification/ResponsesToolOps.thy ===== *)
theory ResponsesToolOps
  imports ChatToolOps ResponsesContentOps Sha1 ToolPairing
begin

text \<open>
  \<open>converters/openai_responses/tool_ops.py\<close>: tool definitions, choices, calls, results and settings
  between the IR and the flat items of the Responses API, the names under which the children of a
  namespace appear in a Chat request, and the pairing of \<open>function_call\<close> and
  \<open>function_call_output\<close> items. The kinds of items are those of \<open>_constants.py\<close>.
\<close>

section \<open>Item types\<close>

definition embedded_json_fields :: "(string \<times> string list) list" where
  "embedded_json_fields =
     [(''function_call'', [''arguments'']), (''mcp_call'', [''arguments'']), (''custom_tool_call'', [''input'']),
      (''shell_call'', [''arguments'']), (''code_interpreter_call'', [''arguments'']),
      (''function_call_output'', [''output'']), (''custom_tool_call_output'', [''output'']),
      (''mcp_call_output'', [''output''])]"

definition tool_result_item_types :: "string list" where
  "tool_result_item_types = map fst (filter (\<lambda>(_, names). ''output'' \<in> set names) embedded_json_fields)"

definition tool_call_item_types :: "string list" where
  "tool_call_item_types =
     filter (\<lambda>t. t \<notin> set tool_result_item_types) (map fst embedded_json_fields) @ [''computer_call'']"

section \<open>Function call items\<close>

definition responses_function_item_id :: "pyval \<Rightarrow> pyval res" where
  "responses_function_item_id tool_call_id =
     (if \<not> py_truthy tool_call_id then Inr PNone
      else case as_str tool_call_id of
        None \<Rightarrow> Inl AttributeError
      | Some s \<Rightarrow>
          Inr (if starts_with s ''fc_'' then tool_call_id
               else if starts_with s ''call_'' then PStr (''fc_'' @ drop 5 s)
               else PStr (''fc_'' @ s)))"

definition responses_function_call_item ::
  "pyval \<Rightarrow> pyval \<Rightarrow> pyval \<Rightarrow> string \<Rightarrow> pyval \<Rightarrow> pdict" where
  "responses_function_call_item item_id cid name arguments namespace =
     [(''type'', PStr ''function_call''), (''call_id'', cid), (''name'', name), (''arguments'', PStr arguments),
      (''status'', PStr ''completed'')] @
     (if py_truthy item_id then [(''id'', item_id)] else []) @
     (if py_truthy namespace then [(''namespace'', namespace)] else [])"

section \<open>Names of namespace children\<close>

definition name_char :: "char \<Rightarrow> bool" where
  "name_char c =
     (let n = of_char c :: nat in
      (65 \<le> n \<and> n \<le> 90) \<or> (97 \<le> n \<and> n \<le> 122) \<or> (48 \<le> n \<and> n \<le> 57) \<or> n = 95 \<or> n = 45)"

text \<open>\<open>re.sub(r"[^A-Za-z0-9_-]+", "_", value)\<close>: one underscore for each run of other characters.\<close>

fun sub_invalid :: "bool \<Rightarrow> string \<Rightarrow> string" where
  "sub_invalid in_run [] = []"
| "sub_invalid in_run (c # s) =
     (if name_char c then c # sub_invalid False s
      else if in_run then sub_invalid True s else CHR ''_'' # sub_invalid True s)"

definition sanitize_name_part :: "string \<Rightarrow> string \<Rightarrow> string" where
  "sanitize_name_part value fallback =
     (let sanitized = sub_invalid False value in if sanitized \<noteq> [] then sanitized else fallback)"

definition chat_name_max_len :: nat where "chat_name_max_len = 64"

definition rstrip_any :: "string \<Rightarrow> string \<Rightarrow> string" where
  "rstrip_any cs s = rev (dropWhile (\<lambda>c. c \<in> set cs) (rev s))"

definition namespace_chat_tool_name :: "string \<Rightarrow> string \<Rightarrow> string \<Rightarrow> string" where
  "namespace_chat_tool_name separator namespace child_name =
     (let namespace_part = sanitize_name_part namespace ''namespace''; child_part = sanitize_name_part child_name ''tool'';
          tool_name = namespace_part @ separator @ child_part in
      if length tool_name \<le> chat_name_max_len then tool_name
      else
        let digest = take 12 (sha1_hex (namespace @ [CHR 0x00] @ child_name));
            suffix = separator @ digest;
            prefix = rstrip_any ''._-'' (take (chat_name_max_len - length suffix) tool_name) in
        (if prefix \<noteq> [] then prefix else ''tool'') @ suffix)"

definition valid_namespace_child :: "pdict \<Rightarrow> bool" where
  "valid_namespace_child child =
     (let child_type = dget_or child ''type'' (PStr ''function''); child_name = dget child ''name'' in
      if \<not> is_str child_type then False
      else if dhas child ''name'' \<and> \<not> is_str child_name then False
      else if child_type = PStr ''function'' then True
      else if dhas child ''description'' \<and> \<not> is_str (dget child ''description'') then False
      else if child_type \<noteq> PStr ''custom'' then True
      else py_truthy child_name)"

section \<open>Orphaned calls and outputs\<close>

definition item_call_ids :: "pdict list \<Rightarrow> string \<Rightarrow> pyval list res" where
  "item_call_ids items itype = extract_part_ids (PList (map PDict items)) itype ''call_id''"

definition output_placeholder :: "string \<Rightarrow> pyval \<Rightarrow> pdict" where
  "output_placeholder placeholder cid =
     [(''type'', PStr ''function_call_output''), (''call_id'', cid), (''output'', PStr placeholder)]"

text \<open>The membership tests hash the id, which cannot fail: every such id is in one of the two sets.\<close>

definition responses_fix_step ::
  "pyval list \<Rightarrow> pyval list \<Rightarrow> string \<Rightarrow> fix_state \<Rightarrow> pdict \<Rightarrow> fix_state" where
  "responses_fix_step known answered placeholder st item =
     (let itype = dget item ''type''; cid = dget item ''call_id'' in
      if itype = PStr ''function_call_output'' \<and> py_truthy cid \<and> \<not> pset_mem cid known
      then st\<lparr>orphaned_result_ids := orphaned_result_ids st @ [cid]\<rparr>
      else
        let st = st\<lparr>patched := patched st @ [item]\<rparr> in
        if itype = PStr ''function_call'' \<and> py_truthy cid \<and> \<not> pset_mem cid answered
        then st\<lparr>orphaned_call_ids := orphaned_call_ids st @ [cid],
                patched := patched st @ [output_placeholder placeholder cid]\<rparr>
        else st)"

definition responses_fix_orphaned :: "string \<Rightarrow> pdict list \<Rightarrow> (pdict list \<times> string list) res" where
  "responses_fix_orphaned placeholder items =
     rbind (item_call_ids items ''function_call'') (\<lambda>known.
     rbind (item_call_ids items ''function_call_output'') (\<lambda>answered.
       if known = [] \<and> answered = [] then Inr (items, [])
       else
         let st = foldl (responses_fix_step known answered placeholder)
                    \<lparr>patched = [], orphaned_call_ids = [], orphaned_result_ids = []\<rparr> items in
         rbind (log_orphan_warnings (orphaned_call_ids st) (orphaned_result_ids st)
                  ''function_call'' ''function_call_output'')
           (\<lambda>logs. Inr (patched st, logs))))"

section \<open>Tool definitions\<close>

text \<open>A list of tools comes back as a \<open>PList\<close>.\<close>

definition hosted_tool_definition_to_ir :: "pdict \<Rightarrow> pyval \<Rightarrow> pyval option" where
  "hosted_tool_definition_to_ir provider_tool tool_type =
     (if tool_type = PStr ''tool_search'' then Some (PList [])
      else if tool_type \<notin> {PStr ''web_search'', PStr ''web_search_preview''} then None
      else
        let synth_params = PDict [(''type'', PStr ''object''),
              (''properties'', PDict [(''query'', PDict [(''type'', PStr ''string'')])]),
              (''required'', PList [PStr ''query''])] in
        Some (PDict [(''type'', PStr ''function''), (''name'', PStr ''web_search''),
          (''description'', dget_or provider_tool ''description'' (PStr '''')),
          (''parameters'', synth_params), (''_passthrough'', PDict provider_tool),
          (''metadata'', PDict [(''provider_type'', PStr ''web_search'')]),
          (''required_parameters'', PList [PStr ''query''])]))"

definition degrade_non_function_tool :: "pdict \<Rightarrow> pyval \<Rightarrow> pyval" where
  "degrade_non_function_tool provider_tool tool_type =
     (case hosted_tool_definition_to_ir provider_tool tool_type of
        Some hosted_tool \<Rightarrow> hosted_tool
      | None \<Rightarrow>
          let named = py_truthy (dget provider_tool ''name'');
              synth_params = (if named
                then [(''type'', PStr ''object''),
                      (''properties'', PDict [(''input'', PDict [(''type'', PStr ''string'')])]),
                      (''required'', PList [PStr ''input''])]
                else []) in
          PDict [(''type'', PStr ''function''), (''name'', dget_or provider_tool ''name'' tool_type),
            (''description'', dget_or provider_tool ''description'' (PStr '''')),
            (''parameters'', PDict synth_params), (''_passthrough'', PDict provider_tool),
            (''metadata'', PDict [(''provider_type'', tool_type)]),
            (''required_parameters'', PList (if named then [PStr ''input''] else []))])"

definition namespace_child_to_ir :: "pyval \<Rightarrow> pyval \<Rightarrow> pyval list \<Rightarrow> pyval \<Rightarrow> pyval list res" where
  "namespace_child_to_ir namespace namespace_description ir_tools child =
     (case as_dict child of
        None \<Rightarrow> Inr ir_tools
      | Some d \<Rightarrow>
          if \<not> valid_namespace_child d then Inr ir_tools
          else if dget_or d ''type'' (PStr ''function'') \<noteq> PStr ''function'' then
            Inr (case degrade_non_function_tool d (dget d ''type'') of
                   PList ts \<Rightarrow> ir_tools @ ts | t \<Rightarrow> ir_tools @ [t])
          else
            let description = dget_or d ''description'' (PStr '''');
                description =
                  (if py_truthy namespace_description then
                     (if py_truthy description
                      then PStr (py_str namespace_description @ [CHR 0x0A, CHR 0x0A] @ py_str description)
                      else namespace_description)
                   else description);
                params = dget_or d ''parameters'' (PDict []);
                child_name = (case dget d ''name'' of PStr s \<Rightarrow> s | _ \<Rightarrow> '''') in
            (case as_str namespace of
               None \<Rightarrow> Inl TypeError
             | Some ns \<Rightarrow>
                 let chat_tool_name = PStr (namespace_chat_tool_name ''-'' ns child_name) in
                 Inr (ir_tools @ [PDict [
                   (''type'', PStr ''function''), (''name'', chat_tool_name), (''description'', description),
                   (''parameters'', params),
                   (''required_parameters'', case as_dict params of
                      Some p \<Rightarrow> dget_or p ''required'' (PList []) | None \<Rightarrow> PList []),
                   (''metadata'', PDict [
                     (''provider_type'', PStr ''namespace''), (''responses_namespace'', namespace),
                     (''responses_namespace_description'', namespace_description),
                     (''responses_namespace_child_name'', PStr child_name),
                     (''responses_chat_tool_name'', chat_tool_name),
                     (''responses_chat_tool_aliases'', PList [
                        PStr (namespace_chat_tool_name ''_'' ns child_name),
                        PStr (namespace_chat_tool_name ''.'' ns child_name)]),
                     (''responses_namespace_child'', child)])]])))"

definition namespace_tool_definitions_to_ir :: "pdict \<Rightarrow> pyval list res" where
  "namespace_tool_definitions_to_ir provider_tool =
     rbind (ditem provider_tool ''tools'') (\<lambda>tools.
     rbind (py_iter tools) (\<lambda>children.
       rfold (namespace_child_to_ir (dget_or provider_tool ''name'' (PStr ''''))
                (dget_or provider_tool ''description'' (PStr ''''))) [] children))"

text \<open>\<open>dict(x)\<close>; the keys of the pairs of a list are texts in the model.\<close>

definition pair_item :: "nat \<times> pyval \<Rightarrow> (string \<times> pyval) res" where
  "pair_item nv =
     rbind (py_iter (snd nv)) (\<lambda>xs.
       if length xs = 2 then rbind (str_of (xs ! 0)) (\<lambda>k. Inr (k, xs ! 1))
       else Inl (ValueError (''dictionary update sequence element #'' @ nat_str (fst nv) @ '' has length '' @
                             nat_str (length xs) @ ''; 2 is required'')))"

definition dict_of :: "pyval \<Rightarrow> pdict res" where
  "dict_of v =
     (case as_dict v of
        Some d \<Rightarrow> Inr d
      | None \<Rightarrow> rbind (py_iter v) (\<lambda>xs. rbind (rmap pair_item (enumerate 0 xs)) (\<lambda>kvs. Inr (dmerge [] kvs))))"

definition responses_tool_definition_to_p ::
  "'t::linorder sanitize_env \<Rightarrow> pdict \<Rightarrow> 't caches \<Rightarrow> (pyval \<times> 't caches) res" where
  "responses_tool_definition_to_p env ir_tool cs =
     (let passthrough = dget ir_tool ''_passthrough'' in
      if passthrough \<noteq> PNone then rbind (dict_of passthrough) (\<lambda>d. Inr (PDict d, cs))
      else
        let parameters = dget_or ir_tool ''parameters'' (PDict []) in
        rbind (case as_dict parameters of Some d \<Rightarrow> sanitize_in env d cs | None \<Rightarrow> Inr (parameters, cs))
          (\<lambda>(parameters, cs).
            rbind (ditem ir_tool ''name'') (\<lambda>name.
              Inr (PDict [(''type'', PStr ''function''), (''name'', name),
                     (''description'', dget_or ir_tool ''description'' (PStr '''')),
                     (''parameters'', parameters), (''strict'', PBool False)], cs))))"

definition function_tool :: "pyval \<Rightarrow> pyval \<Rightarrow> pyval \<Rightarrow> pyval \<Rightarrow> pyval" where
  "function_tool tool_type name description parameters =
     PDict [(''type'', tool_type), (''name'', name), (''description'', description), (''parameters'', parameters),
            (''required_parameters'', case as_dict parameters of
               Some p \<Rightarrow> dget_or p ''required'' (PList []) | None \<Rightarrow> PList []),
            (''metadata'', PDict [])]"

definition responses_tool_definition_to_ir :: "pyval \<Rightarrow> pyval res" where
  "responses_tool_definition_to_ir provider_tool =
     (case as_dict provider_tool of
        None \<Rightarrow> rbind (py_contains provider_tool ''function'') (\<lambda>b. Inl (if b then TypeError else AttributeError))
      | Some d \<Rightarrow>
          (case as_dict (dget d ''function'') of
             Some func \<Rightarrow>
               Inr (function_tool (PStr ''function'') (dget_or func ''name'' (PStr ''''))
                 (dget_or func ''description'' (PStr '''')) (dget_or func ''parameters'' (PDict [])))
           | None \<Rightarrow>
               let tool_type = dget_or d ''type'' (PStr ''function'') in
               if tool_type = PStr ''namespace'' \<and> is_list (dget d ''tools'') then
                 rbind (namespace_tool_definitions_to_ir d) (\<lambda>ts. Inr (PList ts))
               else
                 rbind (py_in_strs tool_type [''function'', ''mcp'']) (\<lambda>allowed.
                   if \<not> allowed then Inr (degrade_non_function_tool d tool_type)
                   else
                     let params = dget_or d ''parameters'' (PDict []);
                         params = (if tool_type \<noteq> PStr ''function'' \<and> \<not> py_truthy params
                                   then dget_or d ''schema'' (PDict []) else params) in
                     Inr (function_tool tool_type (dget_or d ''name'' (PStr ''''))
                            (dget_or d ''description'' (PStr '''')) params))))"

section \<open>Tool choice and settings\<close>

definition responses_tool_choice_to_p :: "pdict \<Rightarrow> pyval res" where
  "responses_tool_choice_to_p ir_tool_choice =
     (let mode = py_or (dget ir_tool_choice ''mode'') (dget ir_tool_choice ''type'') in
      if mode = PStr ''none'' then Inr (PStr ''none'')
      else if mode = PStr ''auto'' then Inr (PStr ''auto'')
      else if mode \<in> {PStr ''any'', PStr ''required''} then Inr (PStr ''required'')
      else if mode \<in> {PStr ''tool'', PStr ''function''} then
        (let tool_name = dget ir_tool_choice ''tool_name'' in
         rbind (if \<not> py_truthy tool_name \<and> dhas ir_tool_choice ''function''
                then py_get (dget ir_tool_choice ''function'') ''name'' PNone else Inr tool_name) (\<lambda>tool_name.
           Inr (if py_truthy tool_name then PDict [(''type'', PStr ''function''), (''name'', tool_name)]
                else PStr ''required'')))
      else Inr (PStr ''auto''))"

definition responses_tool_choice_to_ir :: "pyval \<Rightarrow> pdict res" where
  "responses_tool_choice_to_ir choice =
     (case choice of
        PStr s \<Rightarrow>
          Inr (if s = ''none'' then tool_choice ''none'' (PStr '''')
               else if s = ''auto'' then tool_choice ''auto'' (PStr '''')
               else if s = ''required'' then tool_choice ''any'' (PStr '''')
               else tool_choice ''auto'' (PStr ''''))
      | PDict d \<Rightarrow>
          if dget d ''type'' = PStr ''function'' then
            (let tool_name = dget_or d ''name'' (PStr '''') in
             rbind (if py_truthy tool_name then Inr tool_name
                    else py_get (dget_or d ''function'' (PDict [])) ''name'' (PStr '''')) (\<lambda>tool_name.
               Inr (tool_choice ''tool'' tool_name)))
          else Inr (tool_choice ''auto'' (PStr ''''))
      | _ \<Rightarrow> Inr (tool_choice ''auto'' (PStr '''')))"

definition responses_tool_config_to_p :: "pdict \<Rightarrow> pdict" where
  "responses_tool_config_to_p ir_tool_config =
     copy_fields [(''max_calls'', ''max_tool_calls'')] ir_tool_config
       (if dhas ir_tool_config ''disable_parallel''
        then [(''parallel_tool_calls'', PBool (\<not> py_truthy (dget ir_tool_config ''disable_parallel'')))]
        else [])"

definition responses_tool_config_to_ir :: "pyval \<Rightarrow> pdict" where
  "responses_tool_config_to_ir provider_tool_config =
     (case as_dict provider_tool_config of
        None \<Rightarrow> []
      | Some d \<Rightarrow>
          let parallel = dget d ''parallel_tool_calls''; max_calls = dget d ''max_tool_calls'' in
          (if parallel \<noteq> PNone then [(''disable_parallel'', PBool (\<not> py_truthy parallel))] else []) @
          (if max_calls \<noteq> PNone then [(''max_calls'', max_calls)] else []))"

section \<open>Tool calls\<close>

definition custom_tool_input_to_text :: "pyval \<Rightarrow> string" where
  "custom_tool_input_to_text tool_input =
     (case as_dict tool_input of
        Some d \<Rightarrow> if map fst d = [''input''] then py_str (dget d ''input'') else json_dumps default_opts tool_input
      | None \<Rightarrow> py_str tool_input)"

definition bad_client_tool :: pyexn where
  "bad_client_tool = ValueError ''invalid Responses client-tool adapter metadata''"

definition client_tool_call_to_p :: "pyval \<Rightarrow> pyval \<Rightarrow> pdict \<Rightarrow> pdict option res" where
  "client_tool_call_to_p tool_call_id tool_input metadata =
     (let client_tool = dget metadata ''responses_client_tool'' in
      if client_tool = PNone then Inr None
      else case as_dict client_tool of
        None \<Rightarrow> Inl bad_client_tool
      | Some c \<Rightarrow>
          let item_type = dget c ''item_type''; execution = dget c ''execution'' in
          if \<not> is_str item_type \<or> \<not> py_truthy item_type \<or> execution \<noteq> PStr ''client'' \<or> \<not> is_dict tool_input
          then Inl bad_client_tool
          else Inr (Some [(''type'', item_type), (''call_id'', tool_call_id), (''execution'', execution),
                          (''arguments'', tool_input)]))"

definition mcp_tool_call_to_p :: "pyval \<Rightarrow> pyval \<Rightarrow> pyval \<Rightarrow> string \<Rightarrow> pdict \<Rightarrow> pdict option res" where
  "mcp_tool_call_to_p tool_call_id tool_name tool_type arguments ir_tool_call =
     rbind (if tool_type = PStr ''mcp'' then Inr True
            else if \<not> py_truthy tool_name then Inr False
            else case as_str tool_name of None \<Rightarrow> Inl AttributeError | Some s \<Rightarrow> Inr (starts_with s ''mcp://''))
       (\<lambda>mcp.
         Inr (if \<not> mcp then None
              else Some [(''type'', PStr ''mcp_call''), (''id'', tool_call_id), (''name'', tool_name),
                         (''arguments'', PStr arguments),
                         (''server_label'', dget_or ir_tool_call ''server_name'' (PStr ''default'')),
                         (''status'', PStr ''calling'')]))"

text \<open>\<open>tool_input.get(k, "") if isinstance(tool_input, dict) else ""\<close>.\<close>

definition input_field :: "pyval \<Rightarrow> string \<Rightarrow> pyval" where
  "input_field tool_input k =
     (case as_dict tool_input of Some d \<Rightarrow> dget_or d k (PStr '''') | None \<Rightarrow> PStr '''')"

definition native_tool_call_to_p :: "pyval \<Rightarrow> pyval \<Rightarrow> pdict \<Rightarrow> pdict option" where
  "native_tool_call_to_p tool_call_id tool_input metadata =
     (if dget metadata ''responses_tool_type'' \<noteq> PStr ''web_search'' then None
      else
        let item_id = py_or (dget metadata ''responses_item_id'') tool_call_id; query = input_field tool_input ''query'' in
        Some ([(''type'', PStr ''web_search_call''), (''status'', PStr ''completed'')] @
              (if py_truthy item_id then [(''id'', item_id)] else []) @
              (if py_truthy query
               then [(''action'', PDict [(''type'', PStr ''search''), (''query'', query)])] else [])))"

definition tool_input_text :: "pyval \<Rightarrow> string" where
  "tool_input_text tool_input = (if is_dict tool_input then json_dumps default_opts tool_input else py_str tool_input)"

definition responses_function_call_to_p :: "pyval \<Rightarrow> pyval \<Rightarrow> pyval \<Rightarrow> string \<Rightarrow> pdict \<Rightarrow> pdict res" where
  "responses_function_call_to_p tool_call_id tool_name tool_input arguments metadata =
     (case native_tool_call_to_p tool_call_id tool_input metadata of
        Some item \<Rightarrow> Inr item
      | None \<Rightarrow>
          rbind (if py_truthy (dget metadata ''responses_item_id'') then Inr (dget metadata ''responses_item_id'')
                 else responses_function_item_id tool_call_id) (\<lambda>item_id.
            Inr (responses_function_call_item item_id tool_call_id tool_name arguments (dget metadata ''responses_namespace''))))"

definition responses_tool_call_to_p :: "pdict \<Rightarrow> pdict res" where
  "responses_tool_call_to_p ir_tool_call =
     (let tool_type = dget_or ir_tool_call ''tool_type'' (PStr ''function'');
          tool_call_id = dget_or ir_tool_call ''tool_call_id'' (dget_or ir_tool_call ''id'' (PStr ''''));
          tool_name = dget_or ir_tool_call ''tool_name'' (dget_or ir_tool_call ''name'' (PStr ''''));
          tool_input = dget_or ir_tool_call ''tool_input'' (dget_or ir_tool_call ''arguments'' (PDict []));
          arguments = tool_input_text tool_input in
      rbind (typed_meta (dget ir_tool_call ''provider_metadata'')) (\<lambda>metadata.
      rbind (client_tool_call_to_p tool_call_id tool_input metadata) (\<lambda>client.
      case client of Some item \<Rightarrow> Inr item | None \<Rightarrow>
      rbind (mcp_tool_call_to_p tool_call_id tool_name tool_type arguments ir_tool_call) (\<lambda>mcp.
      case mcp of Some item \<Rightarrow> Inr item | None \<Rightarrow>
        if tool_type = PStr ''function'' then
          responses_function_call_to_p tool_call_id tool_name tool_input arguments metadata
        else if tool_type = PStr ''custom'' then
          Inr [(''type'', PStr ''custom_tool_call''), (''call_id'', tool_call_id), (''name'', tool_name),
               (''input'', PStr (custom_tool_input_to_text tool_input))]
        else if tool_type = PStr ''web_search'' then
          Inr [(''type'', PStr ''function_web_search''), (''call_id'', tool_call_id),
               (''query'', input_field tool_input ''query''), (''arguments'', PStr arguments)]
        else if tool_type = PStr ''code_interpreter'' then
          Inr [(''type'', PStr ''code_interpreter_call''), (''call_id'', tool_call_id),
               (''code'', input_field tool_input ''code''), (''arguments'', PStr arguments)]
        else if tool_type = PStr ''file_search'' then
          Inr [(''type'', PStr ''file_search_call''), (''call_id'', tool_call_id),
               (''query'', input_field tool_input ''query''), (''arguments'', PStr arguments)]
        else if tool_type = PStr ''computer_use'' then
          (case as_dict (dget metadata ''responses_native_item'') of
             Some item \<Rightarrow>
               if dget item ''type'' = PStr ''computer_call'' then Inr item
               else Inl (ValueError ''computer_use requires a preserved Responses computer_call item'')
           | None \<Rightarrow> Inl (ValueError ''computer_use requires a preserved Responses computer_call item''))
        else
          Inr [(''type'', PStr ''function_call''), (''call_id'', tool_call_id),
               (''name'', PStr (py_str tool_type @ ''_'' @ py_str tool_name)), (''arguments'', PStr arguments)]))))"

text \<open>The arguments of a call item: an object, a text in JSON, or nothing.\<close>

definition parse_item_arguments :: "(string \<Rightarrow> string) \<Rightarrow> pyval \<Rightarrow> pyval res" where
  "parse_item_arguments flt arguments =
     (if is_dict arguments then Inr arguments
      else case as_str arguments of
        None \<Rightarrow> Inr (PDict [])
      | Some s \<Rightarrow>
          (case (if s \<noteq> [] then json_loads flt s else Inr (PDict [])) of
             Inr v \<Rightarrow> Inr v
           | Inl e \<Rightarrow> if e = decode_error then Inr (PDict [(''input'', arguments)]) else Inl e))"

definition call_or_item_id :: "pdict \<Rightarrow> pyval" where
  "call_or_item_id item = dget_or item ''call_id'' (dget_or item ''id'' (PStr ''''))"

definition ir_tool_call :: "pyval \<Rightarrow> pyval \<Rightarrow> pyval \<Rightarrow> string \<Rightarrow> pdict" where
  "ir_tool_call tool_call_id tool_name tool_input tool_type =
     [(''type'', PStr ''tool_call''), (''tool_call_id'', tool_call_id), (''tool_name'', tool_name),
      (''tool_input'', tool_input), (''tool_type'', PStr tool_type)]"

definition native_execution_call_to_ir :: "(string \<Rightarrow> string) \<Rightarrow> pdict \<Rightarrow> string \<Rightarrow> pdict res" where
  "native_execution_call_to_ir flt call item_type =
     (if item_type = ''computer_call'' then
        Inr (ir_tool_call (call_or_item_id call) (PStr ''computer'')
               (PDict (copy_fields (same_names [''action'', ''actions'', ''pending_safety_checks'']) call [])) ''computer_use'' @
             [(''provider_metadata'', PDict [(''responses_tool_type'', PStr ''computer_call''),
                                             (''responses_native_item'', PDict call)])])
      else
        rbind (parse_item_arguments flt (dget_or call ''arguments'' (PDict []))) (\<lambda>tool_input.
          Inr (ir_tool_call (call_or_item_id call) (dget_or call ''name'' (PStr item_type)) tool_input
                 (if item_type \<in> {''shell_call'', ''code_interpreter_call''} then ''code_interpreter'' else ''function''))))"

definition function_call_to_ir :: "pdict \<Rightarrow> pyval \<Rightarrow> pdict res" where
  "function_call_to_ir call tool_input =
     (let item_id = dget_or call ''id'' (PStr '''') in
      rbind (if py_truthy (dget call ''call_id'') then Inr (dget call ''call_id'')
             else case as_str item_id of
               None \<Rightarrow> Inl AttributeError
             | Some s \<Rightarrow> Inr (if starts_with s ''fc_'' then PStr (''call_'' @ drop 3 s) else item_id)) (\<lambda>cid.
        Inr (ir_tool_call cid (dget_or call ''name'' (PStr '''')) tool_input ''function'' @
             (if py_truthy item_id \<and> \<not> py_eq item_id cid
              then [(''provider_metadata'', PDict [(''responses_item_id'', item_id)])] else []))))"

definition mcp_call_to_ir :: "pdict \<Rightarrow> pyval \<Rightarrow> pdict" where
  "mcp_call_to_ir call tool_input =
     (let server = dget_or call ''server'' (PStr ''''); tool = dget_or call ''tool'' (dget_or call ''name'' (PStr ''''));
          tool_name = (if py_truthy server \<and> py_truthy tool
                       then PStr (''mcp://'' @ py_str server @ ''/'' @ py_str tool) else tool) in
      ir_tool_call (dget_or call ''id'' (PStr '''')) tool_name tool_input ''mcp'')"

definition custom_call_to_ir :: "(string \<Rightarrow> string) \<Rightarrow> pdict \<Rightarrow> pdict res" where
  "custom_call_to_ir flt call =
     (let input_str = dget_or call ''input'' (PStr '''') in
      rbind (case (if py_truthy input_str then loads_value flt input_str else Inr (PDict [])) of
               Inr v \<Rightarrow> Inr v
             | Inl e \<Rightarrow> if e = decode_error \<or> e = TypeError then Inr (PDict [(''input'', input_str)]) else Inl e)
        (\<lambda>parsed_input.
          let parsed_input = (if is_dict parsed_input then parsed_input else PDict [(''input'', parsed_input)]) in
          Inr (ir_tool_call (call_or_item_id call) (dget_or call ''name'' (PStr '''')) parsed_input ''custom'')))"

definition responses_tool_call_to_ir :: "(string \<Rightarrow> string) \<Rightarrow> pyval \<Rightarrow> pdict res" where
  "responses_tool_call_to_ir flt provider_tool_call =
     (case as_dict provider_tool_call of
        None \<Rightarrow> Inl AttributeError
      | Some call \<Rightarrow>
          let item_type = dget call ''type'' in
          rbind (parse_item_arguments flt (dget_or call ''arguments'' (PDict []))) (\<lambda>tool_input.
            if item_type = PStr ''function_call'' then function_call_to_ir call tool_input
            else if item_type = PStr ''mcp_call'' then Inr (mcp_call_to_ir call tool_input)
            else if item_type = PStr ''shell_call'' then native_execution_call_to_ir flt call ''shell_call''
            else if item_type = PStr ''computer_call'' then native_execution_call_to_ir flt call ''computer_call''
            else if item_type = PStr ''code_interpreter_call''
              then native_execution_call_to_ir flt call ''code_interpreter_call''
            else if item_type = PStr ''custom_tool_call'' then custom_call_to_ir flt call
            else Inl (ValueError (''Unsupported OpenAI Responses item type: '' @ py_str item_type))))"

section \<open>Tool results\<close>

definition kept :: "pdict res \<Rightarrow> pdict option res" where
  "kept r = rbind r (\<lambda>d. Inr (Some d))"

definition responses_content_ops :: content_ops where
  "responses_content_ops =
     \<lparr>op_text_to_p = (\<lambda>d. kept (responses_text_to_p False d)),
      op_image_to_p = (\<lambda>d. kept (responses_image_to_p d)),
      op_file_to_p = (\<lambda>d. kept (responses_file_to_p d)),
      op_audio_to_p = (\<lambda>d. kept (responses_audio_to_p d)),
      op_text_to_ir = responses_text_to_ir,
      op_image_to_ir = responses_image_to_ir,
      op_file_to_ir = responses_file_to_ir,
      op_audio_to_ir = responses_audio_to_ir\<rparr>"

definition responses_tool_result_to_p :: "pdict \<Rightarrow> pdict res" where
  "responses_tool_result_to_p ir_tool_result =
     (let result_content = py_or (dget ir_tool_result ''result'') (dget_or ir_tool_result ''content'' (PStr '''')) in
      rbind (case as_list result_content of
               Some blocks \<Rightarrow>
                 rbind (convert_ir_content_blocks_to_p responses_content_ops blocks) (\<lambda>bs. Inr (PList bs))
             | None \<Rightarrow> Inr (PStr (if is_dict result_content then json_dumps default_opts result_content
                                  else py_str result_content))) (\<lambda>output.
      rbind (ditem ir_tool_result ''tool_call_id'') (\<lambda>cid.
        Inr [(''type'', PStr ''function_call_output''), (''call_id'', cid), (''output'', output)])))"

definition parse_result_text :: "(string \<Rightarrow> string) \<Rightarrow> pyval \<Rightarrow> pyval res" where
  "parse_result_text flt output =
     (case as_str output of
        None \<Rightarrow> Inr output
      | Some s \<Rightarrow>
          (case json_loads flt s of
             Inr v \<Rightarrow> Inr v
           | Inl e \<Rightarrow> if e = decode_error \<or> e = TypeError then Inr output else Inl e))"

definition responses_tool_result_to_ir :: "(string \<Rightarrow> string) \<Rightarrow> pyval \<Rightarrow> pdict res" where
  "responses_tool_result_to_ir flt provider_tool_result =
     (case as_dict provider_tool_result of
        None \<Rightarrow> Inl AttributeError
      | Some d \<Rightarrow>
          let registered = dget d ''type'' \<in> PStr ` set tool_result_item_types;
              output = dget_or d ''output'' (PStr '''') in
          rbind (if registered then parse_result_text flt output else Inr output) (\<lambda>output.
          rbind (case as_list output of
                   Some blocks \<Rightarrow> rbind (convert_content_blocks_to_ir responses_content_ops blocks) (\<lambda>bs. Inr (PList bs))
                 | None \<Rightarrow> Inr output) (\<lambda>output.
            Inr [(''type'', PStr ''tool_result''), (''tool_call_id'', dget_or d ''call_id'' (PStr '''')),
                 (''result'', output), (''is_error'', dget_or d ''is_error'' (PBool False))])))"

section \<open>Tool names\<close>

lemma hex_name_chars: "\<forall>n \<in> {..<16}. name_char (hex_char n)"
  by (simp add: lessThan_nat_numeral hex_char_def name_char_def Let_def take_bit_eq_mod)

lemma hex_char_name: "c \<in> hex_char ` {..<16} \<Longrightarrow> name_char c"
  using hex_name_chars by blast

lemma sub_invalid_chars: "\<forall>c \<in> set (sub_invalid b s). name_char c"
proof (induction b s rule: sub_invalid.induct)
  case (2 b c s)
  have u: "name_char (CHR ''_'')" by (simp add: name_char_def)
  show ?case
  proof (cases "name_char c")
    case True
    with 2(1) show ?thesis by simp
  next
    case False
    with 2(2,3) u show ?thesis by (cases b) simp_all
  qed
qed simp

lemma sanitize_name_chars:
  "\<forall>c \<in> set fallback. name_char c \<Longrightarrow> c \<in> set (sanitize_name_part value fallback) \<Longrightarrow> name_char c"
  using sub_invalid_chars [of False "value"] by (auto simp: sanitize_name_part_def Let_def split: if_splits)

lemma sanitize_name_nonempty: "fallback \<noteq> [] \<Longrightarrow> sanitize_name_part value fallback \<noteq> []"
  by (simp add: sanitize_name_part_def Let_def)

lemma rstrip_prefix: "length (rstrip_any cs s) \<le> length s" "set (rstrip_any cs s) \<subseteq> set s"
  by (auto simp: rstrip_any_def length_dropWhile_le dest: set_dropWhileD
      intro: order_trans [OF length_dropWhile_le])

lemma literal_name_chars:
  "\<forall>c \<in> set ''namespace''. name_char c" "\<forall>c \<in> set ''tool''. name_char c"
  by (simp_all add: name_char_def)

lemma sub_invalid_id: "\<forall>c \<in> set s. name_char c \<Longrightarrow> sub_invalid b s = s"
  by (induction s arbitrary: b) auto

text \<open>
  C38. The name under which a child of a namespace appears in a Chat request is always one the Chat API
  takes: at most 64 characters, not empty, and of letters, digits, underscores and hyphens only, whatever
  the two names are. A pair of names of that kind that fits into 64 characters is only joined by the
  separator.
\<close>

theorem namespace_name_valid:
  "length (namespace_chat_tool_name ''-'' ns child) \<le> 64 \<and> namespace_chat_tool_name ''-'' ns child \<noteq> [] \<and>
   (\<forall>c \<in> set (namespace_chat_tool_name ''-'' ns child). name_char c) \<and>
   (ns \<noteq> [] \<and> child \<noteq> [] \<and> (\<forall>c \<in> set (ns @ child). name_char c) \<and> length ns + length child < 64 \<longrightarrow>
      namespace_chat_tool_name ''-'' ns child = ns @ ''-'' @ child)"
proof -
  let ?full = "sanitize_name_part ns ''namespace'' @ ''-'' @ sanitize_name_part child ''tool''"
  have sep: "name_char (CHR ''-'')" by (simp add: name_char_def)
  have full: "name_char c" if "c \<in> set ?full" for c
    using that sep sanitize_name_chars [OF literal_name_chars(1)] sanitize_name_chars [OF literal_name_chars(2)] by auto
  let ?digest = "take 12 (sha1_hex (ns @ [CHR 0x00] @ child))"
  have len: "length ?digest = 12" by (simp add: sha1_hex_length)
  have dig: "name_char c" if "c \<in> set ?digest" for c
    using that sha1_hex_chars [of "ns @ [CHR 0x00] @ child"] by (blast dest: in_set_takeD intro: hex_char_name)
  let ?prefix = "rstrip_any ''._-'' (take 51 ?full)"
  have pre: "name_char c" if "c \<in> set ?prefix" for c
    using that rstrip_prefix(2) [of "''._-''" "take 51 ?full"] full by (blast dest: in_set_takeD)
  have plen: "length ?prefix \<le> 51"
    using rstrip_prefix(1) [of "''._-''" "take 51 ?full"] by simp
  have e: "namespace_chat_tool_name ''-'' ns child =
      (if length ?full \<le> 64 then ?full else (if ?prefix \<noteq> [] then ?prefix else ''tool'') @ ''-'' @ ?digest)"
    unfolding namespace_chat_tool_name_def Let_def chat_name_max_len_def by (simp add: len sha1_hex_length)
  have "length (namespace_chat_tool_name ''-'' ns child) \<le> 64" using plen len unfolding e by auto
  moreover have "namespace_chat_tool_name ''-'' ns child \<noteq> []" unfolding e by auto
  moreover have "name_char c" if "c \<in> set (namespace_chat_tool_name ''-'' ns child)" for c
    using that full pre dig sep literal_name_chars(2) unfolding e by (auto split: if_splits)
  moreover have "namespace_chat_tool_name ''-'' ns child = ns @ ''-'' @ child"
    if "ns \<noteq> []" "child \<noteq> []" "\<forall>c \<in> set (ns @ child). name_char c" "length ns + length child < 64"
    using that unfolding e by (simp add: sanitize_name_part_def sub_invalid_id)
  ultimately show ?thesis by blast
qed

theorem namespace_name_valid_witness:
  "namespace_chat_tool_name ''-'' ''mcp'' ''get_time'' = ''mcp-get_time''"
  using namespace_name_valid [of "''mcp''" "''get_time''"] by (simp add: name_char_def)

text \<open>Two namespaces can give their children the same name, which no digest tells apart.\<close>

lemma namespace_names_collide:
  "namespace_chat_tool_name ''-'' ''a-b'' ''c'' = namespace_chat_tool_name ''-'' ''a'' ''b-c''"
  "namespace_chat_tool_name ''-'' ''a.b'' ''c'' = namespace_chat_tool_name ''-'' ''a b'' ''c''"
  by (simp_all add: namespace_chat_tool_name_def sanitize_name_part_def name_char_def chat_name_max_len_def)

section \<open>Pairing\<close>

text \<open>The call id of an item of one type, and what the pairing fix puts out for an item.\<close>

definition item_ids :: "string \<Rightarrow> pdict \<Rightarrow> pyval list" where
  "item_ids itype item =
     (if dget item ''type'' = PStr itype \<and> py_truthy (dget item ''call_id'') then [dget item ''call_id''] else [])"

abbreviation item_calls :: "pdict \<Rightarrow> pyval list" where
  "item_calls \<equiv> item_ids ''function_call''"

abbreviation item_outputs :: "pdict \<Rightarrow> pyval list" where
  "item_outputs \<equiv> item_ids ''function_call_output''"

interpretation item_pairs: pairing item_calls item_outputs "output_placeholder p" for p
  by unfold_locales (auto simp: item_ids_def output_placeholder_def split: if_splits)

lemma item_call_ids_concat: "item_call_ids items t = pset_of (concat (map (item_ids t) items))"
proof -
  have "List.map_filter (part_id_of t ''call_id'') (map PDict items) = concat (map (item_ids t) items)"
    by (induction items) (auto simp: item_ids_def List.map_filter_simps)
  then show ?thesis by (simp add: item_call_ids_def extract_part_ids_def)
qed

lemma item_call_ids_mem:
  assumes "item_call_ids items t = Inr S"
  shows "pset_mem v S \<longleftrightarrow> id_in (item_ids t) items v"
  using pset_of_mem [OF assms [unfolded item_call_ids_concat], of v]
  by (auto simp: id_in_def pset_mem_iff)

lemma responses_step_patched:
  "patched (responses_fix_step known answered p st item) =
   patched st @ pair_emitted item_calls item_outputs (output_placeholder p) known answered item"
  by (auto simp: responses_fix_step_def pair_emitted_def item_ids_def pset_diff_def Let_def)

lemma responses_loop_patched:
  "patched (foldl (responses_fix_step known answered p) st items) =
   patched st @ item_pairs.fixed p known answered items"
  by (induction items arbitrary: st) (simp_all add: responses_step_patched)

lemma no_ids_empty:
  assumes "item_call_ids items t = Inr []" "m \<in> set items"
  shows "item_ids t m = []"
proof (cases "item_ids t m")
  case (Cons v vs)
  then have "id_in (item_ids t) items v" using assms(2) unfolding id_in_def by (intro bexI [of _ m]) (simp_all add: pset_mem_iff)
  with item_call_ids_mem [OF assms(1), of v] show ?thesis by (simp add: pset_mem_def)
qed

lemma responses_fix_output:
  assumes "responses_fix_orphaned p items = Inr (out, logs)"
  obtains known answered where "item_call_ids items ''function_call'' = Inr known"
    "item_call_ids items ''function_call_output'' = Inr answered" "out = item_pairs.fixed p known answered items"
proof -
  obtain known answered where c: "item_call_ids items ''function_call'' = Inr known"
      "item_call_ids items ''function_call_output'' = Inr answered"
    using assms by (auto simp: responses_fix_orphaned_def elim!: rbind_InrE)
  have "out = item_pairs.fixed p known answered items"
  proof (cases "known = [] \<and> answered = []")
    case True
    then have "item_pairs.fixed p known answered items = items"
      by (intro item_pairs.fixed_paired) (use c no_ids_empty in auto)
    with True c assms show ?thesis by (simp add: responses_fix_orphaned_def)
  next
    case False
    with c assms show ?thesis
      by (auto simp: responses_fix_orphaned_def responses_loop_patched Let_def elim!: rbind_InrE)
  qed
  with c that show thesis by blast
qed

lemma item_call_ids_total:
  "(\<And>m v. m \<in> set items \<Longrightarrow> v \<in> set (item_ids t m) \<Longrightarrow> \<exists>h. py_hash v = Inr h) \<Longrightarrow> \<exists>S. item_call_ids items t = Inr S"
  unfolding item_call_ids_concat by (rule pset_of_hashable) auto

lemma pset_of_all_hashable:
  "rfold (\<lambda>S v. rbind (py_hash v) (\<lambda>_. Inr (pset_add v S))) S0 vs = Inr S \<Longrightarrow> v \<in> set vs \<Longrightarrow> \<exists>h. py_hash v = Inr h"
  by (induction vs arbitrary: S0) (auto elim!: rbind_InrE)

lemma item_ids_hashable:
  assumes "item_call_ids items t = Inr S" "m \<in> set items" "v \<in> set (item_ids t m)"
  shows "\<exists>h. py_hash v = Inr h"
  using pset_of_all_hashable [OF assms(1) [unfolded item_call_ids_concat pset_of_def]] assms(2,3) by auto

lemma fixed_ids_hashable:
  assumes c: "item_call_ids items ''function_call'' = Inr known" "item_call_ids items ''function_call_output'' = Inr answered"
    and m: "m \<in> set (item_pairs.fixed p known answered items)" and v: "v \<in> set (item_calls m @ item_outputs m)"
  shows "\<exists>h. py_hash v = Inr h"
proof -
  obtain i where i: "i \<in> set items"
    "m \<in> set (pair_emitted item_calls item_outputs (output_placeholder p) known answered i)"
    using m by auto
  from i(2) show ?thesis
  proof (rule item_pairs.emitted_cases)
    assume "m = i"
    with i v item_ids_hashable [OF c(1)] item_ids_hashable [OF c(2)] show ?thesis by auto
  next
    fix w assume w: "w \<in> set (item_calls i)" "m = output_placeholder p w"
    then have "v = w" using v item_pairs.synth_calls [of p w] item_pairs.synth_answers [OF w(1), of p] by simp
    with w i item_ids_hashable [OF c(1)] show ?thesis by blast
  qed
qed

text \<open>
  C39. Whenever the pairing fix of the Responses items returns, every \<open>function_call\<close> of the output has
  a \<open>function_call_output\<close> with its call id and the other way round; the items that are no outputs are
  kept in order; and a second run returns its input with no log record.
\<close>

theorem responses_fix_pairs:
  assumes "responses_fix_orphaned p items = Inr (out, logs)"
  shows "(\<forall>v. id_in item_calls out v \<longleftrightarrow> id_in item_outputs out v) \<and>
    filter (\<lambda>i. dget i ''type'' \<noteq> PStr ''function_call_output'') out =
      filter (\<lambda>i. dget i ''type'' \<noteq> PStr ''function_call_output'') items \<and>
    responses_fix_orphaned p out = Inr (out, [])"
proof -
  obtain known answered where c: "item_call_ids items ''function_call'' = Inr known"
      "item_call_ids items ''function_call_output'' = Inr answered"
    and out: "out = item_pairs.fixed p known answered items"
    using responses_fix_output [OF assms] by blast
  have calls: "id_in item_calls out v \<longleftrightarrow> id_in item_outputs out v" for v
    unfolding out item_pairs.fixed_calls
    by (rule item_pairs.fixed_answers [OF item_call_ids_mem [OF c(1)] item_call_ids_mem [OF c(2)], symmetric])
  have rest: "filter (\<lambda>i. dget i ''type'' \<noteq> PStr ''function_call_output'') out =
      filter (\<lambda>i. dget i ''type'' \<noteq> PStr ''function_call_output'') items"
    unfolding out by (rule item_pairs.fixed_others) (auto simp: item_ids_def output_placeholder_def split: if_splits)
  obtain known' where k: "item_call_ids out ''function_call'' = Inr known'"
    using item_call_ids_total [of out "''function_call''"] fixed_ids_hashable [OF c] unfolding out by fastforce
  obtain answered' where a: "item_call_ids out ''function_call_output'' = Inr answered'"
    using item_call_ids_total [of out "''function_call_output''"] fixed_ids_hashable [OF c] unfolding out by fastforce
  have mem: "pset_mem v known' \<longleftrightarrow> id_in item_calls out v" "pset_mem v answered' \<longleftrightarrow> id_in item_calls out v" for v
    using item_call_ids_mem [OF k, of v] item_call_ids_mem [OF a, of v] calls by simp_all
  have step: "responses_fix_step known' answered' p st i = st\<lparr>patched := patched st @ [i]\<rparr>" if i: "i \<in> set out" for st i
  proof -
    have "pset_mem v answered'" if "v \<in> set (item_calls i)" for v
      unfolding mem id_in_def using i pset_mem_member [OF that] by blast
    moreover have "pset_mem v known'" if "v \<in> set (item_outputs i)" for v
      unfolding mem(1) calls unfolding id_in_def using i pset_mem_member [OF that] by blast
    ultimately show ?thesis by (auto simp: responses_fix_step_def item_ids_def Let_def)
  qed
  have "foldl (responses_fix_step known' answered' p) st is = st\<lparr>patched := patched st @ is\<rparr>"
    if "set is \<subseteq> set out" for st "is"
    using that by (induction "is" arbitrary: st) (simp_all add: step)
  then have "responses_fix_orphaned p out = Inr (out, [])"
    using k a by (simp add: responses_fix_orphaned_def log_orphan_warnings_def)
  with calls rest show ?thesis by blast
qed

definition demo_items :: "pdict list" where
  "demo_items =
     [[(''type'', PStr ''message''), (''role'', PStr ''user'')],
      [(''type'', PStr ''function_call''), (''call_id'', PStr ''a''), (''name'', PStr ''f'')],
      [(''type'', PStr ''function_call_output''), (''call_id'', PStr ''b''), (''output'', PStr ''x'')]]"

lemma demo_items_fix:
  "\<exists>logs. responses_fix_orphaned ''-'' demo_items = Inr (take 2 demo_items @ [output_placeholder ''-'' (PStr ''a'')], logs)"
  by (simp add: demo_items_def responses_fix_orphaned_def item_call_ids_concat item_ids_def pset_of_def
      pset_add_def pset_mem_def responses_fix_step_def output_placeholder_def log_orphan_warnings_def py_join_def Let_def)

theorem responses_fix_pairs_witness:
  "\<exists>out logs. responses_fix_orphaned ''-'' demo_items = Inr (out, logs) \<and> length out = 3 \<and>
     responses_fix_orphaned ''-'' out = Inr (out, [])"
  using demo_items_fix responses_fix_pairs by (fastforce simp: demo_items_def)

section \<open>Calls and results\<close>

text \<open>
  C40. A function call item survives the IR: for an item with a call id, a name, a completed status and
  arguments that are the JSON text of an object, converting it to the IR and back gives the item, its
  item id included, unless that id equals the call id and is none of the Responses API.
\<close>

theorem function_call_item_round_trip:
  assumes "json_ok flt (PDict input)" and "cid \<noteq> []" and "item_id \<noteq> []"
    and "item_id \<noteq> cid \<or> starts_with item_id ''fc_''" and "\<not> starts_with name ''mcp://''"
    and item: "item = [(''type'', PStr ''function_call''), (''call_id'', PStr cid), (''name'', PStr name),
      (''arguments'', PStr (json_dumps default_opts (PDict input))), (''status'', PStr ''completed''),
      (''id'', PStr item_id)]"
  shows "rbind (responses_tool_call_to_ir flt (PDict item)) responses_tool_call_to_p = Inr item"
proof -
  have nonempty: "json_dumps default_opts (PDict input) \<noteq> []" by simp
  have parsed: "parse_item_arguments flt (PStr (json_dumps default_opts (PDict input))) = Inr (PDict input)"
    using json_round_trip [OF default_opts_plain assms(1)] nonempty
    by (simp add: parse_item_arguments_def del: json_dumps.simps)
  show ?thesis
  proof (cases "item_id = cid")
    case True
    with assms show ?thesis unfolding item
      by (cases "name = []") (simp_all add: Let_def responses_tool_call_to_ir_def parsed function_call_to_ir_def ir_tool_call_def responses_tool_call_to_p_def
          typed_meta_def client_tool_call_to_p_def mcp_tool_call_to_p_def responses_function_call_to_p_def
          native_tool_call_to_p_def responses_function_item_id_def responses_function_call_item_def
          tool_input_text_def del: json_dumps.simps json_ok.simps)
  next
    case False
    with assms show ?thesis unfolding item
      by (cases "name = []") (simp_all add: Let_def responses_tool_call_to_ir_def parsed function_call_to_ir_def ir_tool_call_def responses_tool_call_to_p_def
          typed_meta_def client_tool_call_to_p_def mcp_tool_call_to_p_def responses_function_call_to_p_def
          native_tool_call_to_p_def responses_function_call_item_def tool_input_text_def
          del: json_dumps.simps json_ok.simps)
  qed
qed

theorem function_call_item_round_trip_witness:
  "\<exists>item. dget item ''call_id'' = PStr ''call_1'' \<and> dget item ''id'' = PStr ''fc_1'' \<and>
     rbind (responses_tool_call_to_ir id (PDict item)) responses_tool_call_to_p = Inr item"
  by (rule exI, rule conjI [rotated], rule conjI [rotated],
      rule function_call_item_round_trip [of id "[(''q'', PInt 3)]" "''call_1''" "''fc_1''" "''ls''", OF _ _ _ _ _ refl])
    (simp_all add: nat_str.simps)

text \<open>
  A tool result whose text happens to be the JSON text of an empty object, of zero or of false comes
  back as an empty text: the result is parsed, and \<open>result or content\<close> takes the parsed value for none.
\<close>

lemma falsy_result_lost:
  assumes "json_ok flt v" "\<not> py_truthy v"
  shows "rbind (responses_tool_result_to_ir flt (PDict [(''type'', PStr ''function_call_output''),
      (''call_id'', PStr ''c''), (''output'', PStr (json_dumps default_opts v))])) responses_tool_result_to_p =
    Inr [(''type'', PStr ''function_call_output''), (''call_id'', PStr ''c''), (''output'', PStr '''')]"
proof -
  have parsed: "parse_result_text flt (PStr (json_dumps default_opts v)) = Inr v"
    using json_round_trip [OF default_opts_plain assms(1)] by (simp add: parse_result_text_def)
  have registered: "PStr ''function_call_output'' \<in> PStr ` set tool_result_item_types"
    by (simp add: tool_result_item_types_def embedded_json_fields_def)
  have lists: "v = PList []" if "as_list v = Some xs" for xs using that assms(2) by simp
  have "responses_tool_result_to_ir flt (PDict [(''type'', PStr ''function_call_output''),
      (''call_id'', PStr ''c''), (''output'', PStr (json_dumps default_opts v))]) =
    Inr [(''type'', PStr ''tool_result''), (''tool_call_id'', PStr ''c''), (''result'', v), (''is_error'', PBool False)]"
  proof (cases "as_list v")
    case (Some xs)
    with lists have "v = PList []" by blast
    with parsed registered show ?thesis
      by (simp add: responses_tool_result_to_ir_def convert_content_blocks_to_ir_def del: json_dumps.simps)
  qed (use registered in \<open>simp add: responses_tool_result_to_ir_def parsed del: json_dumps.simps\<close>)
  then show ?thesis using assms(2) by (simp add: responses_tool_result_to_p_def py_or_def)
qed

end
