(* ===== verification/ResponsesMessageOps.thy ===== *)
theory ResponsesMessageOps
  imports ResponsesToolOps AnthropicMessageOps
begin

text \<open>
  \<open>converters/openai_responses/message_ops.py\<close>: IR messages to the flat items of the Responses API, and
  items back to messages, where consecutive items of one role make one message. The message under
  construction is never shared with another object, so appending to its content is a new value.
\<close>

definition passthrough_item_types :: "string list" where
  "passthrough_item_types = [''image_generation_call'', ''tool_search_call'', ''tool_search_output'']"

definition unsupported_item_types :: "string list" where
  "unsupported_item_types = [''computer_call_output'']"

section \<open>To items\<close>

text \<open>An operation applied to a part that a guard has shown to be a dict.\<close>

definition on_part :: "(pdict \<Rightarrow> pdict res) \<Rightarrow> pyval \<Rightarrow> pyval res" where
  "on_part f part = (case as_dict part of Some p \<Rightarrow> as_value (f p) | None \<Rightarrow> Inl TypeError)"

text \<open>The content parts, the extra items and the warnings.\<close>

type_synonym input_state = "pyval list \<times> pyval list \<times> string list"

definition responses_input_part :: "string \<Rightarrow> input_state \<Rightarrow> pyval \<Rightarrow> input_state res" where
  "responses_input_part role acc part =
     (let (parts, extra, ws) = acc;
          content = (\<lambda>f. rbind (on_part f part) (\<lambda>v. Inr (parts @ [v], extra, ws)));
          item = (\<lambda>f. rbind (on_part f part) (\<lambda>v. Inr (parts, extra @ [v], ws))) in
      if is_text_part part then content (responses_text_to_p False)
      else if is_image_part part then content responses_image_to_p
      else if is_file_part part then content responses_file_to_p
      else if is_tool_call_part part then item responses_tool_call_to_p
      else if is_tool_result_part part then item responses_tool_result_to_p
      else if is_reasoning_part part then item responses_reasoning_part_to_p
      else rbind (py_get part ''type'' PNone) (\<lambda>t.
        Inr (parts, extra, ws @ [''Unsupported content part type in '' @ role @ '' message: '' @ py_str t])))"

definition message_item :: "string \<Rightarrow> pyval list \<Rightarrow> pyval list" where
  "message_item role parts =
     (if parts \<noteq> []
      then [PDict [(''type'', PStr ''message''), (''role'', PStr role), (''content'', PList parts)]] else [])"

definition responses_input_to_p :: "string \<Rightarrow> pyval list \<Rightarrow> (pyval list \<times> string list) res" where
  "responses_input_to_p role content =
     rbind (rfold (responses_input_part role) ([], [], []) content) (\<lambda>(parts, extra, ws).
       Inr (message_item role parts @ extra, ws))"

text \<open>The content parts, the tool items, the reasoning items and the warnings.\<close>

type_synonym output_state = "pyval list \<times> pyval list \<times> pyval list \<times> string list"

definition responses_assistant_text :: "output_state \<Rightarrow> pdict \<Rightarrow> output_state res" where
  "responses_assistant_text acc part =
     (let (parts, tools, reasoning, ws) = acc in
      rbind (typed_meta (dget part ''provider_metadata'')) (\<lambda>metadata.
        let pt_meta = dget metadata ''_passthrough_content_part'' in
        if py_truthy pt_meta then Inr (parts @ [pt_meta], tools, reasoning, ws)
        else rbind (ditem part ''text'') (\<lambda>t.
          if py_truthy (dget part ''reasoning'')
          then Inr (parts, tools, reasoning @ [PDict [(''type'', PStr ''reasoning''), (''content'', t)]], ws)
          else Inr (parts @ [PDict [(''type'', PStr ''output_text''), (''text'', t)]], tools, reasoning, ws))))"

definition responses_assistant_part :: "output_state \<Rightarrow> pyval \<Rightarrow> output_state res" where
  "responses_assistant_part acc part =
     (let (parts, tools, reasoning, ws) = acc in
      if is_text_part part then
        (case as_dict part of Some p \<Rightarrow> responses_assistant_text acc p | None \<Rightarrow> Inl TypeError)
      else if is_tool_call_part part then
        rbind (on_part responses_tool_call_to_p part) (\<lambda>v. Inr (parts, tools @ [v], reasoning, ws))
      else if is_reasoning_part part then
        rbind (on_part responses_reasoning_part_to_p part) (\<lambda>v. Inr (parts, tools, reasoning @ [v], ws))
      else rbind (py_get part ''type'' PNone) (\<lambda>t.
        Inr (parts, tools, reasoning, ws @ [''Unsupported content part type in assistant message: '' @ py_str t])))"

definition metadata_passthrough :: "pyval \<Rightarrow> pyval res" where
  "metadata_passthrough metadata =
     (if py_truthy metadata then
        rbind (py_get metadata ''custom'' (PDict [])) (\<lambda>custom. py_get custom ''_passthrough_items'' (PList []))
      else Inr (PList []))"

definition responses_assistant_to_p :: "pyval list \<Rightarrow> pyval \<Rightarrow> (pyval list \<times> string list) res" where
  "responses_assistant_to_p content metadata =
     rbind (metadata_passthrough metadata) (\<lambda>passthrough.
     rbind (rfold responses_assistant_part ([], [], [], []) content) (\<lambda>(parts, tools, reasoning, ws).
     rbind (py_iter passthrough) (\<lambda>passthrough_items.
       Inr (reasoning @ message_item ''assistant'' parts @ tools @ passthrough_items, ws))))"

definition responses_tool_messages_to_p :: "pyval list \<Rightarrow> pyval list res" where
  "responses_tool_messages_to_p content =
     rmap (on_part responses_tool_result_to_p) (filter is_tool_result_part content)"

text \<open>The metadata of an assistant message is read before its content.\<close>

definition responses_message_to_p :: "pdict \<Rightarrow> (pyval list \<times> string list) res" where
  "responses_message_to_p message =
     (let content = dget_or message ''content'' (PList []) in
      case dget message ''role'' of
        PStr role \<Rightarrow>
          if role \<in> {''system'', ''user'', ''developer''} then rbind (py_iter content) (responses_input_to_p role)
          else if role = ''assistant'' then
            rbind (metadata_passthrough (dget message ''metadata'')) (\<lambda>_.
            rbind (py_iter content) (\<lambda>parts. responses_assistant_to_p parts (dget message ''metadata'')))
          else if role = ''tool'' then
            rbind (py_iter content) (\<lambda>parts. rbind (responses_tool_messages_to_p parts) (\<lambda>items. Inr (items, [])))
          else Inr ([], [])
      | _ \<Rightarrow> Inr ([], []))"

definition responses_extension_item :: "pdict \<Rightarrow> pyval list \<Rightarrow> (pyval list \<times> string list) res" where
  "responses_extension_item item items =
     (let extension_type = dget item ''type'' in
      if extension_type = PStr ''system_event'' then
        Inr (items @ [PDict [(''type'', PStr ''system_event''), (''event_type'', dget item ''event_type''),
                             (''timestamp'', dget item ''timestamp''),
                             (''message'', dget_or item ''message'' (PStr ''''))]], [])
      else if extension_type = PStr ''tool_chain_node'' then
        (let ws = [''Tool chain converted to sequential calls'']; tool_call = dget item ''tool_call'' in
         if py_truthy tool_call then
           (case as_dict tool_call of
              Some tc \<Rightarrow> rbind (responses_tool_call_to_p tc) (\<lambda>c. Inr (items @ [PDict c], ws))
            | None \<Rightarrow> Inl AttributeError)
         else Inr (items, ws))
      else if extension_type \<in> {PStr ''batch_marker'', PStr ''session_control''} then
        Inr (items, [''Extension item ignored: '' @ py_str extension_type])
      else Inr (items, []))"

definition responses_item_to_p :: "pyval list \<times> string list \<Rightarrow> pyval \<Rightarrow> (pyval list \<times> string list) res" where
  "responses_item_to_p acc item =
     (case as_dict item of
        None \<Rightarrow> Inr acc
      | Some d \<Rightarrow>
          if is_message item then
            rbind (responses_message_to_p d) (\<lambda>(items, ws). Inr (fst acc @ items, snd acc @ ws))
          else
            rbind (is_extension_item item) (\<lambda>ext.
              if ext then rbind (responses_extension_item d (fst acc)) (\<lambda>(items, ws). Inr (items, snd acc @ ws))
              else Inr acc))"

definition responses_messages_to_p :: "pyval list \<Rightarrow> (pyval list \<times> string list) res" where
  "responses_messages_to_p ir_messages = rfold responses_item_to_p ([], []) ir_messages"

section \<open>From items\<close>

definition shorthand_part :: "pyval \<Rightarrow> pyval" where
  "shorthand_part part =
     (case part of
        PStr s \<Rightarrow> PDict [(''type'', PStr ''input_text''), (''text'', part)]
      | PDict d \<Rightarrow> if dhas d ''type'' then part else PDict ((''type'', PStr ''input_text'') # d)
      | _ \<Rightarrow> part)"

definition normalize_shorthand_item :: "pdict \<Rightarrow> pdict res" where
  "normalize_shorthand_item item =
     rbind (ditem item ''role'') (\<lambda>role.
       Inr [(''type'', PStr ''message''), (''role'', role),
            (''content'', case dget_or item ''content'' (PStr '''') of
               PStr s \<Rightarrow> PList [PDict [(''type'', PStr ''input_text''), (''text'', PStr s)]]
             | PList ps \<Rightarrow> PList (map shorthand_part ps)
             | v \<Rightarrow> v)])"

definition responses_content_part_to_ir :: "pyval \<Rightarrow> pdict list res" where
  "responses_content_part_to_ir provider_part =
     (let one = (\<lambda>r. rbind r (\<lambda>d. Inr [d])) in
      if is_str provider_part then one (responses_text_to_ir provider_part)
      else case as_dict provider_part of
        None \<Rightarrow> Inr []
      | Some d \<Rightarrow>
          (case dget d ''type'' of
             PStr part_type \<Rightarrow>
               if part_type \<in> {''input_text'', ''output_text'', ''text''} then one (responses_text_to_ir provider_part)
               else if part_type = ''input_image'' then one (responses_image_to_ir provider_part)
               else if part_type \<in> {''input_audio'', ''audio''} then one (responses_audio_to_ir provider_part)
               else if part_type = ''input_file'' then one (responses_file_to_ir provider_part)
               else if CHR '':'' \<in> set part_type then
                 Inr [[(''type'', PStr ''text''), (''text'', PStr ''''),
                       (''provider_metadata'', PDict [(''_passthrough_content_part'', provider_part)])]]
               else Inr []
           | _ \<Rightarrow> Inr []))"

definition content_parts_to_ir :: "pyval list \<Rightarrow> pyval list res" where
  "content_parts_to_ir parts =
     rbind (rmap responses_content_part_to_ir parts) (\<lambda>ps. Inr (map PDict (concat ps)))"

definition responses_message_to_ir :: "pdict \<Rightarrow> pdict res" where
  "responses_message_to_ir message =
     (let role = dget message ''role'' in
      rbind (case dget message ''content'' of
               PStr s \<Rightarrow> Inr [PDict (text_part (PStr s))]
             | PList parts \<Rightarrow> content_parts_to_ir parts
             | _ \<Rightarrow> Inr []) (\<lambda>ir_content.
        Inr [(''role'', if role = PStr ''developer'' then PStr ''system'' else role), (''content'', PList ir_content)]))"

definition agent_part_to_ir :: "pyval \<Rightarrow> pdict list res" where
  "agent_part_to_ir part =
     (case as_dict part of
        Some d \<Rightarrow>
          if dget d ''type'' = PStr ''encrypted_content'' \<and> is_str (dget d ''encrypted_content'')
          then Inr [text_part (dget d ''encrypted_content'')] else responses_content_part_to_ir part
      | None \<Rightarrow> responses_content_part_to_ir part)"

definition agent_message_to_ir :: "pdict \<Rightarrow> pdict option res" where
  "agent_message_to_ir message =
     rbind (case as_list (dget message ''content'') of
              Some parts \<Rightarrow> rbind (rmap agent_part_to_ir parts) (\<lambda>ps. Inr (map PDict (concat ps)))
            | None \<Rightarrow> Inr []) (\<lambda>ir_content.
       if ir_content = [] then Inr None
       else Inr (Some [(''role'', PStr ''user''), (''content'', PList ir_content),
         (''metadata'', PDict [(''custom'', PDict [(''responses_agent_message'',
            PDict [(''author'', dget message ''author''), (''recipient'', dget message ''recipient'')])])])]))"

definition provider_message_to_ir :: "pdict \<Rightarrow> pdict option res" where
  "provider_message_to_ir message =
     (if dget message ''type'' = PStr ''agent_message'' then agent_message_to_ir message
      else rbind (responses_message_to_ir message) (\<lambda>m. Inr (Some m)))"

section \<open>Grouping of items\<close>

text \<open>The messages put out and the message under construction.\<close>

type_synonym group_state = "pyval list \<times> pdict option"

definition flush_current :: "group_state \<Rightarrow> pyval list" where
  "flush_current st = (case snd st of Some m \<Rightarrow> fst st @ [PDict m] | None \<Rightarrow> fst st)"

definition append_or_start :: "group_state \<Rightarrow> pdict \<Rightarrow> string \<Rightarrow> group_state res" where
  "append_or_start st part target_role =
     (let start = (flush_current st, Some [(''role'', PStr target_role), (''content'', PList [PDict part])]) in
      case snd st of
        None \<Rightarrow> Inr start
      | Some m \<Rightarrow>
          if dget m ''role'' = PStr target_role then
            rbind (ditem m ''content'') (\<lambda>content.
              case as_list content of
                Some ps \<Rightarrow> Inr (fst st, Some (dset m ''content'' (PList (ps @ [PDict part]))))
              | None \<Rightarrow> Inl AttributeError)
          else Inr start)"

definition message_has_payload :: "pdict \<Rightarrow> bool res" where
  "message_has_payload message =
     (if py_truthy (dget message ''content'') then Inr True
      else
        rbind (typed_meta (dget message ''metadata'')) (\<lambda>metadata.
        rbind (py_get (dget_or metadata ''custom'' (PDict [])) ''_passthrough_items'' PNone) (\<lambda>items.
          Inr (py_truthy items))))"

definition add_passthrough_item :: "pdict \<Rightarrow> pdict \<Rightarrow> pdict res" where
  "add_passthrough_item message item =
     (let metadata = dget_or message ''metadata'' (PDict []) in
      rbind (py_setdefault metadata ''custom'' (PDict [])) (\<lambda>custom.
      rbind (py_setdefault custom ''_passthrough_items'' (PList [])) (\<lambda>items.
        case as_list items of
          None \<Rightarrow> Inl AttributeError
        | Some xs \<Rightarrow>
            rbind (set_key custom ''_passthrough_items'' (PList (xs @ [PDict item]))) (\<lambda>custom.
            rbind (set_key metadata ''custom'' custom) (\<lambda>metadata. Inr (dset message ''metadata'' metadata))))))"

definition passthrough_message :: "pdict \<Rightarrow> pdict" where
  "passthrough_message item =
     [(''role'', PStr ''assistant''), (''content'', PList []),
      (''metadata'', PDict [(''custom'', PDict [(''_passthrough_items'', PList [PDict item])])])]"

definition in_assistant :: "group_state \<Rightarrow> bool" where
  "in_assistant st = (case snd st of Some m \<Rightarrow> dget m ''role'' = PStr ''assistant'' | None \<Rightarrow> False)"

definition extend_assistant :: "group_state \<Rightarrow> pdict \<Rightarrow> group_state res" where
  "extend_assistant st item =
     (case snd st of
        Some m \<Rightarrow> rbind (add_passthrough_item m item) (\<lambda>m. Inr (fst st, Some m))
      | None \<Rightarrow> Inr st)"

definition extension_item_to_ir :: "pdict \<Rightarrow> group_state \<Rightarrow> group_state res" where
  "extension_item_to_ir item st =
     (if in_assistant st then extend_assistant st item
      else Inr (flush_current st, Some (passthrough_message item)))"

definition passthrough_item_to_ir :: "pdict \<Rightarrow> group_state \<Rightarrow> group_state res" where
  "passthrough_item_to_ir item st =
     (if in_assistant st then extend_assistant st item
      else
        rbind (case snd st of Some m \<Rightarrow> message_has_payload m | None \<Rightarrow> Inr False) (\<lambda>payload.
          Inr (if payload then flush_current st else fst st, Some (passthrough_message item))))"

definition system_event_of :: "pdict \<Rightarrow> pyval" where
  "system_event_of item =
     PDict [(''type'', PStr ''system_event''), (''event_type'', dget_or item ''event_type'' (PStr ''unknown'')),
            (''timestamp'', dget_or item ''timestamp'' (PStr '''')), (''message'', dget_or item ''message'' (PStr ''''))]"

definition responses_group_item ::
  "(string \<Rightarrow> string) \<Rightarrow> group_state \<Rightarrow> pdict \<Rightarrow> group_state res" where
  "responses_group_item flt st item =
     (let item_type = dget item ''type'' in
      rbind (py_in_strs item_type unsupported_item_types) (\<lambda>unsupported.
      if unsupported then Inl NotImplementedError
      else if item_type \<in> {PStr ''message'', PStr ''agent_message''} then
        rbind (provider_message_to_ir item) (\<lambda>new_message.
          Inr (case new_message of Some m \<Rightarrow> (flush_current st, Some m) | None \<Rightarrow> st))
      else if item_type \<in> PStr ` set tool_call_item_types then
        rbind (responses_tool_call_to_ir flt (PDict item)) (\<lambda>part. append_or_start st part ''assistant'')
      else if item_type \<in> PStr ` set tool_result_item_types then
        rbind (responses_tool_result_to_ir flt (PDict item)) (\<lambda>part. append_or_start st part ''tool'')
      else if item_type = PStr ''reasoning'' then
        rbind (responses_reasoning_part_to_ir (PDict item)) (\<lambda>reasoning.
          case reasoning of Some part \<Rightarrow> append_or_start st part ''assistant'' | None \<Rightarrow> Inr st)
      else if item_type = PStr ''system_event'' then
        Inr (flush_current st @ [system_event_of item], None)
      else if item_type \<in> PStr ` set passthrough_item_types then passthrough_item_to_ir item st
      else case item_type of
        PStr t \<Rightarrow> if CHR '':'' \<in> set t then extension_item_to_ir item st else Inr st
      | _ \<Rightarrow> Inr st))"

text \<open>An item that is no dict has no type and is skipped.\<close>

definition responses_group_step ::
  "(string \<Rightarrow> string) \<Rightarrow> group_state \<Rightarrow> pyval \<Rightarrow> group_state res" where
  "responses_group_step flt st item =
     (case as_dict item of
        None \<Rightarrow> Inr st
      | Some d \<Rightarrow>
          rbind (if \<not> dhas d ''type'' \<and> dhas d ''role'' then normalize_shorthand_item d else Inr d)
            (responses_group_item flt st))"

definition responses_messages_to_ir :: "(string \<Rightarrow> string) \<Rightarrow> pyval list \<Rightarrow> pyval list res" where
  "responses_messages_to_ir flt provider_messages =
     rbind (rfold (responses_group_step flt) ([], None) provider_messages) (\<lambda>st.
       case snd st of
         None \<Rightarrow> Inr (fst st)
       | Some m \<Rightarrow> rbind (message_has_payload m) (\<lambda>payload. Inr (if payload then fst st @ [PDict m] else fst st)))"

end
