(* ===== verification/ResponsesItemTrip.thy ===== *)
theory ResponsesItemTrip
  imports ResponsesMessageOps
begin

text \<open>
  The round trip of Responses items through the IR. The items are texts of a role, function calls with
  their outputs, and reasoning; the conversion to the IR groups them into messages, the conversion back
  takes the messages apart.
\<close>

datatype item =
    Said string "string list"
  | Called string string string pdict
  | Returned string string
  | Thought string "string list" string

section \<open>The items and the parts they become\<close>

definition text_type :: "string \<Rightarrow> string" where
  "text_type role = (if role = ''assistant'' then ''output_text'' else ''input_text'')"

definition item_text :: "string \<Rightarrow> string \<Rightarrow> pyval" where
  "item_text role s = PDict [(''type'', PStr (text_type role)), (''text'', PStr s)]"

definition summary_item :: "string \<Rightarrow> pyval" where
  "summary_item s = PDict [(''type'', PStr ''summary_text''), (''text'', PStr s)]"

fun item_p :: "item \<Rightarrow> pdict" where
  "item_p (Said role ss) =
     [(''type'', PStr ''message''), (''role'', PStr role), (''content'', PList (map (item_text role) ss))]"
| "item_p (Called cid fc name input) =
     [(''type'', PStr ''function_call''), (''call_id'', PStr cid), (''name'', PStr name),
      (''arguments'', PStr (json_dumps default_opts (PDict input))), (''status'', PStr ''completed''), (''id'', PStr fc)]"
| "item_p (Returned cid s) =
     [(''type'', PStr ''function_call_output''), (''call_id'', PStr cid), (''output'', PStr s)]"
| "item_p (Thought i ss e) =
     [(''type'', PStr ''reasoning''), (''id'', PStr i), (''summary'', PList (map summary_item ss)),
      (''encrypted_content'', PStr e)]"

definition text_ir :: "string \<Rightarrow> pdict" where
  "text_ir s = text_part (PStr s)"

definition called_ir :: "string \<Rightarrow> string \<Rightarrow> string \<Rightarrow> pdict \<Rightarrow> pdict" where
  "called_ir cid fc name input =
     ir_tool_call (PStr cid) (PStr name) (PDict input) ''function'' @
     (if fc \<noteq> cid then [(''provider_metadata'', PDict [(''responses_item_id'', PStr fc)])] else [])"

definition returned_ir :: "string \<Rightarrow> string \<Rightarrow> pdict" where
  "returned_ir cid s =
     [(''type'', PStr ''tool_result''), (''tool_call_id'', PStr cid), (''result'', PStr s), (''is_error'', PBool False)]"

definition thought_ir :: "string \<Rightarrow> string list \<Rightarrow> string \<Rightarrow> pdict" where
  "thought_ir i ss e =
     [(''type'', PStr ''reasoning'')] @ (if concat ss \<noteq> [] then [(''reasoning'', PStr (concat ss))] else []) @
     [(''signature'', PStr e),
      (''provider_metadata'', PDict [(''responses_reasoning_id'', PStr i),
         (''responses_reasoning_summary'', PList (map summary_item ss))])]"

text \<open>
  The items that come back as they are: a text has a part, an output is no JSON text, an item id is one
  of the API or differs from the call id, a reasoning item has an id and a signature.
\<close>

fun good_item :: "(string \<Rightarrow> string) \<Rightarrow> item \<Rightarrow> bool" where
  "good_item flt (Said role ss) \<longleftrightarrow> role \<in> {''system'', ''user'', ''assistant''} \<and> ss \<noteq> []"
| "good_item flt (Called cid fc name input) \<longleftrightarrow>
     cid \<noteq> [] \<and> fc \<noteq> [] \<and> (fc \<noteq> cid \<or> starts_with fc ''fc_'') \<and> \<not> starts_with name ''mcp://'' \<and> json_ok flt (PDict input)"
| "good_item flt (Returned cid s) \<longleftrightarrow> json_loads flt s = Inl decode_error"
| "good_item flt (Thought i ss e) \<longleftrightarrow> i \<noteq> [] \<and> e \<noteq> []"

text \<open>Reasoning comes first among the items of an assistant message.\<close>

fun speaks :: "item \<Rightarrow> bool" where
  "speaks (Said role ss) \<longleftrightarrow> role = ''assistant''"
| "speaks (Called _ _ _ _) \<longleftrightarrow> True"
| "speaks _ \<longleftrightarrow> False"

fun thoughts_first :: "bool \<Rightarrow> item list \<Rightarrow> bool" where
  "thoughts_first spoke [] \<longleftrightarrow> True"
| "thoughts_first spoke (Thought i ss e # xs) \<longleftrightarrow> \<not> spoke \<and> thoughts_first False xs"
| "thoughts_first spoke (x # xs) \<longleftrightarrow> thoughts_first (speaks x) xs"

section \<open>One item\<close>

lemma called_to_ir:
  assumes "good_item flt (Called cid fc name input)"
  shows "responses_tool_call_to_ir flt (PDict (item_p (Called cid fc name input))) = Inr (called_ir cid fc name input)"
proof -
  have "parse_item_arguments flt (PStr (json_dumps default_opts (PDict input))) = Inr (PDict input)"
    using json_round_trip [OF default_opts_plain, of flt "PDict input"] assms
    by (simp add: parse_item_arguments_def del: json_dumps.simps json_ok.simps) simp
  with assms show ?thesis
    by (simp add: responses_tool_call_to_ir_def function_call_to_ir_def called_ir_def ir_tool_call_def Let_def
        del: json_dumps.simps)
qed

lemma called_to_p:
  assumes "good_item flt (Called cid fc name input)"
  shows "on_part responses_tool_call_to_p (PDict (called_ir cid fc name input)) =
    Inr (PDict (item_p (Called cid fc name input)))"
  using assms
  by (cases "name = []"; cases "fc = cid")
    (simp_all add: on_part_def as_value_def called_ir_def ir_tool_call_def Let_def responses_tool_call_to_p_def
      typed_meta_def client_tool_call_to_p_def mcp_tool_call_to_p_def responses_function_call_to_p_def
      native_tool_call_to_p_def responses_function_item_id_def responses_function_call_item_def
      tool_input_text_def del: json_dumps.simps json_ok.simps)

lemma returned_to_ir:
  "json_loads flt s = Inl decode_error \<Longrightarrow>
   responses_tool_result_to_ir flt (PDict (item_p (Returned cid s))) = Inr (returned_ir cid s)"
  by (simp add: responses_tool_result_to_ir_def parse_result_text_def returned_ir_def Let_def)

lemma returned_to_p:
  "on_part responses_tool_result_to_p (PDict (returned_ir cid s)) = Inr (PDict (item_p (Returned cid s)))"
  by (simp add: on_part_def as_value_def responses_tool_result_to_p_def returned_ir_def py_or_def Let_def)

lemma summary_texts_items: "summary_texts (map summary_item ss) = map PStr ss"
  by (induction ss) (auto simp: summary_texts_def summary_item_def)

lemma rmap_str_of: "rmap str_of (map PStr ss) = Inr ss"
  by (induction ss) simp_all

lemma join_empty: "join_with '''' ss = concat ss"
proof -
  have "map ((@) []) xs = xs" for xs :: "string list" by (rule map_idI) simp
  then show ?thesis by (cases ss) (simp_all add: join_with_def)
qed

lemma thought_to_ir:
  "i \<noteq> [] \<Longrightarrow> e \<noteq> [] \<Longrightarrow>
   responses_reasoning_part_to_ir (PDict (item_p (Thought i ss e))) = Inr (Some (thought_ir i ss e))"
  by (simp add: responses_reasoning_part_to_ir_def summary_texts_items py_join_def rmap_str_of join_empty thought_ir_def
      py_or_def Let_def)

lemma thought_to_p:
  "i \<noteq> [] \<Longrightarrow> e \<noteq> [] \<Longrightarrow>
   on_part responses_reasoning_part_to_p (PDict (thought_ir i ss e)) = Inr (PDict (item_p (Thought i ss e)))"
  by (cases "concat ss = []"; cases "ss = []")
    (auto simp: on_part_def as_value_def responses_reasoning_part_to_p_def thought_ir_def typed_meta_def Let_def)

lemma ir_guards [simp]:
  "is_text_part (PDict (text_ir s))" "\<not> is_text_part (PDict (called_ir c f n i))" "\<not> is_text_part (PDict (thought_ir t ss e))"
  "is_tool_call_part (PDict (called_ir c f n i))" "\<not> is_tool_call_part (PDict (thought_ir t ss e))"
  "is_reasoning_part (PDict (thought_ir t ss e))" "is_tool_result_part (PDict (returned_ir c s))"
  by (simp_all add: is_text_part_def is_tool_call_part_def is_reasoning_part_def is_tool_result_part_def is_typed_def
      text_ir_def text_part_def called_ir_def ir_tool_call_def thought_ir_def returned_ir_def)

section \<open>Messages\<close>

definition group_message :: "string \<Rightarrow> pyval list \<Rightarrow> pdict" where
  "group_message role parts = [(''role'', PStr role), (''content'', PList parts)]"

lemma group_message_simps [simp]:
  "dget (group_message role parts) ''role'' = PStr role"
  "dget_or (group_message role parts) ''content'' v = PList parts"
  "ditem (group_message role parts) ''content'' = Inr (PList parts)"
  "dget (group_message role parts) ''metadata'' = PNone"
  "dset (group_message role parts) ''content'' (PList ps) = group_message role ps"
  "is_message (PDict (group_message role parts))"
  by (simp_all add: group_message_def is_message_def dset_def)

text \<open>What the parts of a message become, by the role of the message.\<close>

definition renders :: "string \<Rightarrow> bool \<Rightarrow> pyval list \<Rightarrow> pyval list \<Rightarrow> bool" where
  "renders role spoke parts out \<longleftrightarrow>
     (if role = ''assistant'' then
        (\<exists>texts tools reasoning. rfold responses_assistant_part ([], [], [], []) parts = Inr (texts, tools, reasoning, []) \<and>
           out = reasoning @ message_item ''assistant'' texts @ tools \<and> (\<not> spoke \<longrightarrow> texts = [] \<and> tools = []))
      else responses_message_to_p (group_message role parts) = Inr (out, []))"

lemma renders_message: "renders role spoke parts out \<Longrightarrow> responses_message_to_p (group_message role parts) = Inr (out, [])"
  by (auto simp: renders_def responses_message_to_p_def metadata_passthrough_def responses_assistant_to_p_def split: if_splits)

lemma on_part_text:
  "on_part (responses_text_to_p False) (PDict (text_ir s)) = Inr (PDict [(''type'', PStr ''input_text''), (''text'', PStr s)])"
  by (simp add: on_part_def as_value_def responses_text_to_p_def text_ir_def text_part_def)

lemma input_texts:
  "rfold (responses_input_part role) (ps, [], []) (map (\<lambda>s. PDict (text_ir s)) ss) =
   Inr (ps @ map (\<lambda>s. PDict [(''type'', PStr ''input_text''), (''text'', PStr s)]) ss, [], [])"
  by (induction ss arbitrary: ps) (simp_all add: responses_input_part_def on_part_text)

lemma assistant_text_one:
  "responses_assistant_part (ps, ts, rs, ws) (PDict (text_ir s)) =
   Inr (ps @ [PDict [(''type'', PStr ''output_text''), (''text'', PStr s)]], ts, rs, ws)"
  by (simp add: responses_assistant_part_def responses_assistant_text_def typed_meta_def text_ir_def text_part_def
      is_text_part_def is_typed_def)

lemma assistant_texts:
  "rfold responses_assistant_part (ps, [], [], []) (map (\<lambda>s. PDict (text_ir s)) ss) =
   Inr (ps @ map (\<lambda>s. PDict [(''type'', PStr ''output_text''), (''text'', PStr s)]) ss, [], [], [])"
  by (induction ss arbitrary: ps) (simp_all add: assistant_text_one)

lemma said_renders:
  assumes "good_item flt (Said role ss)"
  shows "renders role (role = ''assistant'') (map (\<lambda>s. PDict (text_ir s)) ss) [PDict (item_p (Said role ss))]"
  using assms
  by (auto simp: renders_def responses_message_to_p_def responses_input_to_p_def input_texts assistant_texts
      message_item_def item_text_def [abs_def] text_type_def)

lemma called_renders:
  assumes "good_item flt (Called cid fc name input)" "renders ''assistant'' spoke parts out"
  shows "renders ''assistant'' True (parts @ [PDict (called_ir cid fc name input)]) (out @ [PDict (item_p (Called cid fc name input))])"
  using assms(2) called_to_p [OF assms(1)]
  by (auto simp: renders_def rfold_append responses_assistant_part_def simp del: item_p.simps)

lemma thought_renders:
  assumes "i \<noteq> []" "e \<noteq> []" "renders ''assistant'' False parts out"
  shows "renders ''assistant'' False (parts @ [PDict (thought_ir i ss e)]) (out @ [PDict (item_p (Thought i ss e))])"
  using assms(3) thought_to_p [OF assms(1,2)]
  by (auto simp: renders_def rfold_append responses_assistant_part_def message_item_def simp del: item_p.simps)

lemma returned_renders:
  assumes "renders ''tool'' spoke parts out"
  shows "renders ''tool'' spoke (parts @ [PDict (returned_ir cid s)]) (out @ [PDict (item_p (Returned cid s))])"
  using assms returned_to_p [of cid s]
  by (auto simp: renders_def responses_message_to_p_def responses_tool_messages_to_p_def rmap_append
      simp del: item_p.simps elim!: rbind_InrE)

lemma nothing_renders: "renders ''assistant'' False [] []" "renders ''tool'' spoke [] []"
  by (simp_all add: renders_def message_item_def responses_message_to_p_def responses_tool_messages_to_p_def)

section \<open>The fold over the items\<close>

text \<open>The state after items \<open>js\<close>: what is put out and the open message together give them back.\<close>

definition grouped :: "pyval list \<Rightarrow> bool \<Rightarrow> group_state \<Rightarrow> bool" where
  "grouped js spoke st \<longleftrightarrow>
     (\<exists>past. responses_messages_to_p (fst st) = Inr (past, []) \<and>
       (case snd st of
          None \<Rightarrow> js = past
        | Some m \<Rightarrow> \<exists>role parts out. m = group_message role parts \<and> parts \<noteq> [] \<and> js = past @ out \<and> renders role spoke parts out))"

lemma item_to_p_message:
  assumes "responses_messages_to_p ms = Inr (past, [])" "responses_message_to_p (group_message role parts) = Inr (out, [])"
  shows "responses_messages_to_p (ms @ [PDict (group_message role parts)]) = Inr (past @ out, [])"
  using assms by (simp add: responses_messages_to_p_def rfold_append responses_item_to_p_def)

lemma grouped_flush: "grouped js spoke st \<Longrightarrow> responses_messages_to_p (flush_current st) = Inr (js, [])"
  by (cases "snd st") (auto simp: grouped_def flush_current_def item_to_p_message dest: renders_message)

lemma grouped_new:
  assumes "grouped js spoke st" "parts \<noteq> []" "renders role spoke' parts out"
  shows "grouped (js @ out) spoke' (flush_current st, Some (group_message role parts))"
  unfolding grouped_def using grouped_flush [OF assms(1)] assms(2,3) by auto

lemma grouped_append:
  assumes g: "grouped js spoke st"
    and new: "renders role spoke' [PDict part] [x]"
    and old: "\<And>parts out. snd st = Some (group_message role parts) \<Longrightarrow> renders role spoke parts out \<Longrightarrow>
      renders role spoke' (parts @ [PDict part]) (out @ [x])"
  shows "\<exists>st'. append_or_start st part role = Inr st' \<and> grouped (js @ [x]) spoke' st'"
proof -
  have start: "grouped (js @ [x]) spoke' (flush_current st, Some (group_message role [PDict part]))"
    using grouped_new [OF g _ new] by simp
  show ?thesis
  proof (cases "snd st")
    case None
    with start show ?thesis by (simp add: append_or_start_def group_message_def)
  next
    case (Some m)
    then obtain past r parts out where m: "m = group_message r parts" "parts \<noteq> []" "js = past @ out"
      "renders r spoke parts out" "responses_messages_to_p (fst st) = Inr (past, [])"
      using g by (auto simp: grouped_def)
    show ?thesis
    proof (cases "r = role")
      case True
      have "renders role spoke' (parts @ [PDict part]) (out @ [x])" using old Some m True by simp
      then have "grouped (js @ [x]) spoke' (fst st, Some (group_message role (parts @ [PDict part])))"
        unfolding grouped_def using m by auto
      with Some m True show ?thesis by (simp add: append_or_start_def)
    next
      case False
      with start Some m show ?thesis by (simp add: append_or_start_def group_message_def)
    qed
  qed
qed

lemma texts_to_ir:
  "role \<in> {''system'', ''user'', ''assistant''} \<Longrightarrow>
   content_parts_to_ir (map (item_text role) ss) = Inr (map (\<lambda>s. PDict (text_ir s)) ss)"
proof -
  have "responses_content_part_to_ir (item_text role s) = Inr [text_ir s]" for s
    by (simp add: responses_content_part_to_ir_def item_text_def text_type_def responses_text_to_ir_def text_ir_def)
  then have "rmap responses_content_part_to_ir (map (item_text role) ss) = Inr (map (\<lambda>s. [text_ir s]) ss)"
    by (induction ss) simp_all
  then show ?thesis by (simp add: content_parts_to_ir_def comp_def concat_map_singleton)
qed

lemma group_said:
  assumes good: "good_item flt (Said role ss)"
  shows "responses_group_step flt st (PDict (item_p (Said role ss))) =
    Inr (flush_current st, Some (group_message role (map (\<lambda>s. PDict (text_ir s)) ss)))"
proof -
  have "role \<noteq> ''developer''" using good by auto
  with good texts_to_ir [of role ss] show ?thesis
    by (simp add: responses_group_step_def responses_group_item_def py_in_strs_def unsupported_item_types_def
        provider_message_to_ir_def responses_message_to_ir_def group_message_def Let_def)
qed

lemma group_step_said:
  assumes "grouped js spoke st" and good: "good_item flt (Said role ss)"
  shows "\<exists>st'. responses_group_step flt st (PDict (item_p (Said role ss))) = Inr st' \<and>
    grouped (js @ [PDict (item_p (Said role ss))]) (role = ''assistant'') st'"
proof -
  have "map (\<lambda>s. PDict (text_ir s)) ss \<noteq> []" using good by simp
  with group_said [OF good] grouped_new [OF assms(1) _ said_renders [OF good]] show ?thesis by blast
qed

lemma item_type_sets:
  "PStr ''function_call'' \<in> PStr ` set tool_call_item_types"
  "PStr ''function_call_output'' \<notin> PStr ` set tool_call_item_types"
  "PStr ''function_call_output'' \<in> PStr ` set tool_result_item_types"
  "PStr ''reasoning'' \<notin> PStr ` set tool_call_item_types"
  "PStr ''reasoning'' \<notin> PStr ` set tool_result_item_types"
  by (simp_all add: tool_call_item_types_def tool_result_item_types_def embedded_json_fields_def)

lemma group_step_called:
  assumes g: "grouped js spoke st" and good: "good_item flt (Called cid fc name input)"
  shows "\<exists>st'. responses_group_step flt st (PDict (item_p (Called cid fc name input))) = Inr st' \<and>
    grouped (js @ [PDict (item_p (Called cid fc name input))]) True st'"
proof -
  have "responses_group_step flt st (PDict (item_p (Called cid fc name input))) =
      append_or_start st (called_ir cid fc name input) ''assistant''"
    using called_to_ir [OF good] item_type_sets(1)
    by (simp add: responses_group_step_def responses_group_item_def py_in_strs_def unsupported_item_types_def Let_def
        del: json_dumps.simps)
  moreover have "renders ''assistant'' True [PDict (called_ir cid fc name input)] [PDict (item_p (Called cid fc name input))]"
    using called_renders [OF good nothing_renders(1)] by (simp del: item_p.simps)
  ultimately show ?thesis
    using grouped_append [OF g, of "''assistant''" True "called_ir cid fc name input"] called_renders [OF good] by simp
qed

lemma group_step_returned:
  assumes g: "grouped js spoke st" and good: "good_item flt (Returned cid s)"
  shows "\<exists>st'. responses_group_step flt st (PDict (item_p (Returned cid s))) = Inr st' \<and>
    grouped (js @ [PDict (item_p (Returned cid s))]) False st'"
proof -
  have "responses_tool_result_to_ir flt (PDict (item_p (Returned cid s))) = Inr (returned_ir cid s)"
    by (rule returned_to_ir) (use good in simp)
  then have "responses_group_step flt st (PDict (item_p (Returned cid s))) = append_or_start st (returned_ir cid s) ''tool''"
    using item_type_sets(2,3)
    by (simp add: responses_group_step_def responses_group_item_def py_in_strs_def unsupported_item_types_def Let_def)
  moreover have "renders ''tool'' False [PDict (returned_ir cid s)] [PDict (item_p (Returned cid s))]"
    using returned_renders [OF nothing_renders(2)] by (simp del: item_p.simps)
  moreover have "renders ''tool'' False parts out" if "renders ''tool'' spoke parts out" for parts out
    using that by (simp add: renders_def)
  ultimately show ?thesis
    using grouped_append [OF g, of "''tool''" False "returned_ir cid s"] returned_renders by simp
qed

lemma group_thought:
  "i \<noteq> [] \<Longrightarrow> e \<noteq> [] \<Longrightarrow>
   responses_group_step flt st (PDict (item_p (Thought i ss e))) = append_or_start st (thought_ir i ss e) ''assistant''"
  using thought_to_ir [of i e ss] item_type_sets(4,5)
  by (simp add: responses_group_step_def responses_group_item_def py_in_strs_def unsupported_item_types_def Let_def)

lemma group_step_thought:
  assumes g: "grouped js False st" and good: "i \<noteq> []" "e \<noteq> []"
  shows "\<exists>st'. responses_group_step flt st (PDict (item_p (Thought i ss e))) = Inr st' \<and>
    grouped (js @ [PDict (item_p (Thought i ss e))]) False st'"
proof -
  note group_thought [OF good]
  moreover have "renders ''assistant'' False [PDict (thought_ir i ss e)] [PDict (item_p (Thought i ss e))]"
    using thought_renders [OF good nothing_renders(1)] by (simp del: item_p.simps)
  ultimately show ?thesis
    using grouped_append [OF g, of "''assistant''" False "thought_ir i ss e"] thought_renders [OF good] by simp
qed

lemma group_loop:
  assumes "grouped js spoke st" "list_all (good_item flt) xs" "thoughts_first spoke xs"
  shows "\<exists>st' spoke'. rfold (responses_group_step flt) st (map (\<lambda>x. PDict (item_p x)) xs) = Inr st' \<and>
    grouped (js @ map (\<lambda>x. PDict (item_p x)) xs) spoke' st'"
  using assms
proof (induction xs arbitrary: js spoke st)
  case (Cons x xs)
  have "\<exists>st'. responses_group_step flt st (PDict (item_p x)) = Inr st' \<and>
      grouped (js @ [PDict (item_p x)]) (speaks x) st' \<and> thoughts_first (speaks x) xs"
  proof (cases x)
    case (Said role ss)
    with Cons.prems group_step_said [OF Cons.prems(1), of flt role ss] show ?thesis by (simp del: item_p.simps good_item.simps) 
  next
    case (Called cid fc name input)
    with Cons.prems group_step_called [OF Cons.prems(1), of flt cid fc name input] show ?thesis
      by (simp del: item_p.simps good_item.simps)
  next
    case (Returned cid s)
    with Cons.prems group_step_returned [OF Cons.prems(1), of flt cid s] show ?thesis
      by (simp del: item_p.simps good_item.simps)
  next
    case (Thought i ss e)
    with Cons.prems group_step_thought [of js st i e flt ss] show ?thesis by (simp del: item_p.simps)
  qed
  then obtain st' where s: "responses_group_step flt st (PDict (item_p x)) = Inr st'"
    "grouped (js @ [PDict (item_p x)]) (speaks x) st'" "thoughts_first (speaks x) xs" by blast
  with Cons.IH [OF s(2) _ s(3)] Cons.prems(2) show ?case by simp
qed auto

lemma open_message_payload: "m = group_message role parts \<Longrightarrow> parts \<noteq> [] \<Longrightarrow> message_has_payload m = Inr True"
  by (simp add: message_has_payload_def)


definition demo_conversation :: "item list" where
  "demo_conversation =
     [Said ''user'' [''hi''], Thought ''rs_1'' [''hm''] ''x'', Called ''call_1'' ''fc_1'' ''ls'' [],
      Called ''call_2'' ''fc_2'' ''cat'' [(''f'', PStr ''a'')], Returned ''call_1'' ''a b'', Returned ''call_2'' ''no'',
      Said ''assistant'' [''ok'']]"


text \<open>A reasoning item behind a text of the same turn is moved before it.\<close>

lemma later_thought_moves:
  "\<exists>ms. responses_messages_to_ir flt [PDict (item_p (Said ''assistant'' [''a''])), PDict (item_p (Thought ''r'' [] ''e''))] = Inr ms \<and>
    responses_messages_to_p ms =
      Inr ([PDict (item_p (Thought ''r'' [] ''e'')), PDict (item_p (Said ''assistant'' [''a'']))], [])"
proof -
  let ?parts = "[PDict (text_ir ''a''), PDict (thought_ir ''r'' [] ''e'')]"
  have "responses_messages_to_ir flt [PDict (item_p (Said ''assistant'' [''a''])), PDict (item_p (Thought ''r'' [] ''e''))] =
      Inr [PDict (group_message ''assistant'' ?parts)]"
    by (simp add: responses_messages_to_ir_def group_said group_thought append_or_start_def flush_current_def
        open_message_payload [OF refl] del: item_p.simps)
  moreover have "rfold responses_assistant_part ([], [], [], []) ?parts =
      Inr ([PDict [(''type'', PStr ''output_text''), (''text'', PStr ''a'')]], [],
        [PDict (item_p (Thought ''r'' [] ''e''))], [])"
    using thought_to_p [of "''r''" "''e''" "[]"]
    by (simp add: assistant_text_one responses_assistant_part_def [of _ "PDict (thought_ir t ss e)" for t ss e] del: item_p.simps)
  then have "renders ''assistant'' True ?parts [PDict (item_p (Thought ''r'' [] ''e'')), PDict (item_p (Said ''assistant'' [''a'']))]"
    unfolding renders_def by (simp add: message_item_def item_text_def text_type_def del: item_p.simps(4))
  ultimately show ?thesis
    using item_to_p_message [of "[]" "[]" "''assistant''" ?parts] renders_message
    by (simp add: responses_messages_to_p_def)
qed

end
