(* ===== verification/ResponsesConfigOps.thy ===== *)
theory ResponsesConfigOps
  imports ChatConfigOps
begin

text \<open>
  \<open>converters/openai_responses/config_ops.py\<close>: the generation, response format, stream, reasoning and
  cache configs between the IR and the request of the Responses API. A warning has no effect on a
  result and is left out.
\<close>

definition responses_direct_fields :: "string list" where
  "responses_direct_fields = [''temperature'', ''top_p'', ''top_logprobs'']"

definition responses_generation_to_p :: "pdict \<Rightarrow> pdict" where
  "responses_generation_to_p ir_config =
     copy_fields (same_names responses_direct_fields @ [(''max_tokens'', ''max_output_tokens''), (''truncation'', ''truncation'')])
       ir_config []"

definition responses_generation_to_ir :: "pyval \<Rightarrow> pdict" where
  "responses_generation_to_ir provider_config =
     (case as_dict provider_config of
        None \<Rightarrow> []
      | Some d \<Rightarrow>
          copy_fields (same_names responses_direct_fields @ [(''max_output_tokens'', ''max_tokens''), (''truncation'', ''truncation'')])
            d [])"

definition responses_format_to_p :: "pdict \<Rightarrow> pdict" where
  "responses_format_to_p ir_format =
     (let fmt_type = dget_or ir_format ''type'' (PStr ''text'') in
      if fmt_type = PStr ''text'' then [(''text'', PDict [(''type'', PStr ''text'')])]
      else if fmt_type = PStr ''json_object'' then [(''text'', PDict [(''type'', PStr ''json_object'')])]
      else if fmt_type = PStr ''json_schema'' then
        (let json_schema = dget ir_format ''json_schema'' in
         [(''text'', PDict ([(''type'', PStr ''json_schema'')] @
             (if py_truthy json_schema then [(''json_schema'', json_schema)] else [])))])
      else [])"

definition responses_format_to_ir :: "pyval \<Rightarrow> pdict" where
  "responses_format_to_ir provider_format =
     (case as_dict provider_format of
        None \<Rightarrow> []
      | Some d \<Rightarrow>
          let fmt_type = dget d ''type''; r = (if py_truthy fmt_type then [(''type'', fmt_type)] else []) in
          if fmt_type = PStr ''json_schema'' then copy_fields (same_names [''json_schema'']) d r else r)"

definition responses_stream_to_p :: "pdict \<Rightarrow> pdict" where
  "responses_stream_to_p ir_stream = copy_fields [(''enabled'', ''stream'')] ir_stream []"

definition responses_stream_to_ir :: "pyval \<Rightarrow> pdict res" where
  "responses_stream_to_ir provider_stream =
     (case as_dict provider_stream of
        None \<Rightarrow> Inr []
      | Some d \<Rightarrow>
          let stream = dget d ''stream''; stream_options = dget d ''stream_options'';
              r = (if stream \<noteq> PNone then [(''enabled'', stream)] else []) in
          if \<not> py_truthy stream_options then Inr r
          else rbind (py_get stream_options ''include_usage'' PNone) (\<lambda>u.
            Inr (if py_truthy u then dset r ''include_usage'' (PBool True) else r)))"

definition responses_reasoning_to_p ::
  "(int \<Rightarrow> 'r \<Rightarrow> int) \<Rightarrow> 'r reasoning_cap option \<Rightarrow> pdict \<Rightarrow> pdict res" where
  "responses_reasoning_to_p scale reasoning_cap ir_reasoning =
     (let cap = (case reasoning_cap of Some c \<Rightarrow> c | None \<Rightarrow> the (map_of default_reasoning_caps ''openai_responses'')) in
      apply_reasoning_config scale ir_reasoning cap (Some ''openai_responses'') None)"

definition responses_reasoning_to_ir :: "pyval \<Rightarrow> pdict" where
  "responses_reasoning_to_ir provider_reasoning =
     (case as_dict provider_reasoning of
        None \<Rightarrow> []
      | Some d \<Rightarrow>
          (case as_dict (dget_or d ''reasoning'' provider_reasoning) of
             None \<Rightarrow> []
           | Some reasoning \<Rightarrow>
               let reasoning_type = dget reasoning ''type''; context = dget reasoning ''context'';
                   r = (if reasoning_type = PStr ''enabled'' then [(''mode'', PStr ''enabled'')]
                        else if reasoning_type = PStr ''disabled'' then [(''mode'', PStr ''disabled'')] else []);
                   r = (case map_of reasoning ''effort'' of
                          None \<Rightarrow> r
                        | Some effort \<Rightarrow> if effort = PStr ''none'' then dset r ''mode'' (PStr ''disabled'') else dset r ''effort'' effort);
                   r = (if context \<in> {PStr ''auto'', PStr ''current_turn'', PStr ''all_turns''} then dset r ''context'' context else r) in
               normalize_reasoning_input r))"

definition responses_cache_to_p :: "pdict \<Rightarrow> pdict" where
  "responses_cache_to_p ir_cache =
     copy_fields [(''key'', ''prompt_cache_key''), (''retention'', ''prompt_cache_retention'')] ir_cache []"

definition responses_cache_to_ir :: "pyval \<Rightarrow> pdict" where
  "responses_cache_to_ir provider_cache =
     (case as_dict provider_cache of
        None \<Rightarrow> []
      | Some d \<Rightarrow>
          copy_fields [(''prompt_cache_key'', ''key''), (''prompt_cache_retention'', ''retention'')] d [])"

section \<open>Lemmas\<close>

text \<open>
  The format that the module writes comes back, but a \<open>text\<close> object in the shape that the converter
  itself fills in for a response, with the type under \<open>format\<close>, is read as no format at all.
\<close>

lemma responses_format_back:
  assumes "dget d ''type'' = PStr ''json_schema''" "dget d ''json_schema'' = PDict (kv # s)"
  shows "responses_format_to_ir (dget (responses_format_to_p d) ''text'') =
    [(''type'', PStr ''json_schema''), (''json_schema'', PDict (kv # s))]"
proof -
  have "dget_or d ''type'' (PStr ''text'') = PStr ''json_schema''"
    using assms(1) by (auto simp: dget_or_def split: option.splits)
  then show ?thesis using assms
    by (simp add: responses_format_to_p_def responses_format_to_ir_def Let_def copy_fields_def same_names_def dset_def)
qed

lemma nested_format_ignored: "responses_format_to_ir (PDict [(''format'', PDict f)]) = []"
  by (simp add: responses_format_to_ir_def)

end
