(* ===== verification/ResponsesConverter.thy ===== *)
theory ResponsesConverter
  imports ResponsesMessageOps ResponsesConfigOps AnthropicConverter
begin

text \<open>
  The requests and responses of \<open>converters/openai_responses/converter.py\<close>: \<open>OpenAIResponsesConverter\<close>
  composed of the content, tool, message and configuration operations. A \<open>responses_env\<close> holds, beside
  what a Chat conversion takes from outside, \<open>int(x)\<close> of a float or a text, the clock in seconds, the
  sum of token counts one of which is a float, and a fresh UUID.

  A conversion without a context is one with an empty context. Copies of values that are not changed
  afterwards, and the sharing of a cached or an echoed object with a result, are left out.
\<close>

record ('t, 'r) responses_env = "('t, 'r) chat_env" +
  int_text :: "pyval \<Rightarrow> pyval res"
  now_secs :: int
  token_sum :: "pyval \<Rightarrow> pyval \<Rightarrow> pyval"
  fresh_uuid :: string

definition responses_tag :: string where
  "responses_tag = ''openai_responses''"

text \<open>\<open>int(v)\<close>.\<close>

definition py_int :: "(pyval \<Rightarrow> pyval res) \<Rightarrow> pyval \<Rightarrow> pyval res" where
  "py_int conv v =
     (case v of
        PInt i \<Rightarrow> Inr v
      | PBool b \<Rightarrow> Inr (PInt (if b then 1 else 0))
      | PFloat s \<Rightarrow> conv v
      | PStr s \<Rightarrow> conv v
      | _ \<Rightarrow> Inl TypeError)"

section \<open>Constants\<close>

definition responses_status_to_reason :: "(string \<times> string) list" where
  "responses_status_to_reason = [(''completed'', ''stop''), (''failed'', ''error''), (''cancelled'', ''cancelled'')]"

definition responses_incomplete_to_ir :: "(string \<times> string) list" where
  "responses_incomplete_to_ir = [(''max_output_tokens'', ''length''), (''content_filter'', ''content_filter'')]"

definition responses_reason_to_status :: "(string \<times> string) list" where
  "responses_reason_to_status =
     [(''stop'', ''completed''), (''length'', ''incomplete''), (''error'', ''failed''), (''tool_calls'', ''completed''),
      (''content_filter'', ''incomplete''), (''cancelled'', ''cancelled''), (''refusal'', ''completed'')]"

definition responses_reason_to_incomplete :: "(string \<times> string) list" where
  "responses_reason_to_incomplete = [(''length'', ''max_output_tokens''), (''content_filter'', ''content_filter'')]"

definition responses_preserve_fields :: "string list" where
  "responses_preserve_fields =
     [''background'', ''frequency_penalty'', ''instructions'', ''max_output_tokens'', ''max_tool_calls'',
      ''parallel_tool_calls'', ''presence_penalty'', ''previous_response_id'', ''prompt_cache_key'',
      ''prompt_cache_retention'', ''reasoning'', ''safety_identifier'', ''service_tier'', ''store'', ''temperature'',
      ''text'', ''tool_choice'', ''tools'', ''top_logprobs'', ''top_p'', ''truncation'', ''user'', ''metadata'',
      ''billing'', ''error'', ''incomplete_details'']"

definition responses_required_defaults :: pdict where
  "responses_required_defaults =
     [(''background'', PBool False), (''completed_at'', PNone), (''error'', PNone), (''incomplete_details'', PNone),
      (''instructions'', PNone), (''max_output_tokens'', PNone), (''max_tool_calls'', PNone), (''metadata'', PDict []),
      (''parallel_tool_calls'', PBool True), (''previous_response_id'', PNone), (''prompt_cache_key'', PNone),
      (''reasoning'', PNone), (''safety_identifier'', PNone), (''service_tier'', PStr ''default''),
      (''store'', PBool True), (''temperature'', PInt 1),
      (''text'', PDict [(''format'', PDict [(''type'', PStr ''text'')])]), (''tool_choice'', PStr ''auto''),
      (''tools'', PList []), (''top_p'', PInt 1), (''truncation'', PStr ''disabled''), (''top_logprobs'', PInt 0),
      (''frequency_penalty'', PInt 0), (''presence_penalty'', PInt 0)]"

text \<open>\<open>s.strip()\<close> removes the blanks that Python counts as white space.\<close>

definition is_space :: "char \<Rightarrow> bool" where
  "is_space c = (let n = of_char c :: nat in (9 \<le> n \<and> n \<le> 13) \<or> (28 \<le> n \<and> n \<le> 32) \<or> n = 133 \<or> n = 160)"

definition py_strip :: "string \<Rightarrow> string" where
  "py_strip s = rev (dropWhile is_space (rev (dropWhile is_space s)))"

definition generate_message_id :: "pyval \<Rightarrow> pyval res" where
  "generate_message_id rid =
     (case as_str rid of
        None \<Rightarrow> Inl AttributeError
      | Some s \<Rightarrow> let suffix = py_strip s in Inr (if suffix \<noteq> [] then PStr (''msg_'' @ suffix) else PNone))"

section \<open>Usage\<close>

definition valid_budget_units :: "pyval \<Rightarrow> bool" where
  "valid_budget_units v =
     (case v of
        PInt i \<Rightarrow> 0 \<le> i
      | PFloat s \<Rightarrow> s \<notin> {''nan'', ''inf'', ''-inf''} \<and> (s = ''-0.0'' \<or> \<not> starts_with s ''-'')
      | _ \<Rightarrow> False)"

text \<open>\<open>if src in details: usage[dst] = details[src]\<close>.\<close>

definition lift_field :: "pyval \<Rightarrow> string \<Rightarrow> string \<Rightarrow> pdict \<Rightarrow> pdict res" where
  "lift_field details src dst usage =
     rbind (py_contains details src) (\<lambda>b.
       if b then rbind (py_item details src) (\<lambda>v. Inr (dset usage dst v)) else Inr usage)"

definition responses_ir_usage :: "pyval \<Rightarrow> pdict res" where
  "responses_ir_usage p_usage =
     (case as_dict p_usage of
        None \<Rightarrow> Inl AttributeError
      | Some u \<Rightarrow>
          let usage = [(''prompt_tokens'', or_zero (dget u ''input_tokens'')),
                       (''completion_tokens'', or_zero (dget u ''output_tokens'')),
                       (''total_tokens'', or_zero (dget u ''total_tokens''))];
              budget_units = dget u ''codex_rollout_budget_units'';
              usage = (if valid_budget_units budget_units then dset usage ''codex_rollout_budget_units'' budget_units else usage);
              input_details = dget u ''input_tokens_details''; output_details = dget u ''output_tokens_details'' in
          rbind (if py_truthy input_details
                 then rbind (lift_field input_details ''cached_tokens'' ''cache_read_tokens'' usage)
                        (lift_field input_details ''cache_write_tokens'' ''cache_creation_tokens'')
                 else Inr usage) (\<lambda>usage.
            if py_truthy output_details
            then lift_field output_details ''reasoning_tokens'' ''reasoning_tokens'' usage else Inr usage))"

definition responses_provider_usage :: "pdict \<Rightarrow> pdict" where
  "responses_provider_usage u =
     (let usage = [(''input_tokens'', or_zero (dget u ''prompt_tokens'')),
                   (''output_tokens'', or_zero (dget u ''completion_tokens'')),
                   (''total_tokens'', or_zero (dget u ''total_tokens'')),
                   (''input_tokens_details'', PDict [(''cached_tokens'', dget_or u ''cache_read_tokens'' (PInt 0)),
                                                     (''cache_write_tokens'', dget_or u ''cache_creation_tokens'' (PInt 0))]),
                   (''output_tokens_details'', PDict [(''reasoning_tokens'', dget_or u ''reasoning_tokens'' (PInt 0))])];
          budget_units = dget u ''codex_rollout_budget_units'' in
      if valid_budget_units budget_units then dset usage ''codex_rollout_budget_units'' budget_units else usage)"

section \<open>Requests to the provider\<close>

text \<open>
  The tools put out so far; the entry of a namespace is marked with its name, and a later child of the
  namespace is added to it.
\<close>

type_synonym tool_output = "(string option \<times> pdict) list"

definition add_namespace_child :: "string \<Rightarrow> pyval \<Rightarrow> pyval \<Rightarrow> tool_output \<Rightarrow> tool_output" where
  "add_namespace_child namespace description child out =
     (let out = (if Some namespace \<in> fst ` set out then out
                 else out @ [(Some namespace, [(''type'', PStr ''namespace''), (''name'', PStr namespace),
                                               (''description'', description), (''tools'', PList [])])]) in
      map (\<lambda>(ns, entry). if ns = Some namespace
             then (ns, case dget entry ''tools'' of
                         PList ts \<Rightarrow> dset entry ''tools'' (PList (ts @ [child])) | _ \<Rightarrow> entry)
             else (ns, entry)) out)"

definition convert_tool_to_p ::
  "('t::linorder, 'r) responses_env \<Rightarrow> nat \<Rightarrow> pdict \<Rightarrow> 't caches \<Rightarrow> (pdict \<times> 't caches) res" where
  "convert_tool_to_p env n tool cs =
     (let tag = responses_tag @ '':to_p''; (cached, cs) = look_tool (tool_caches env) n tag (PDict tool) cs in
      case cached of
        Some v \<Rightarrow> rbind (typed_dict v) (\<lambda>d. Inr (d, cs))
      | None \<Rightarrow>
          rbind (responses_tool_definition_to_p (schema_env env n) tool cs) (\<lambda>(converted, cs).
          rbind (store_tool (tool_caches env) n tag (PDict tool) converted cs) (\<lambda>cs.
          rbind (typed_dict converted) (\<lambda>d. Inr (d, cs)))))"

definition namespace_tool_step ::
  "('t::linorder, 'r) responses_env \<Rightarrow> tool_output \<times> 't caches \<Rightarrow> nat \<times> pyval \<Rightarrow> (tool_output \<times> 't caches) res" where
  "namespace_tool_step env acc nt =
     (case as_dict (snd nt) of
        None \<Rightarrow> Inl AttributeError
      | Some tool \<Rightarrow>
          rbind (convert_tool_to_p env (fst nt) tool (snd acc)) (\<lambda>(converted, cs).
          rbind (typed_meta (dget tool ''metadata'')) (\<lambda>metadata.
            case (dget metadata ''provider_type'' = PStr ''namespace'', as_str (dget metadata ''responses_namespace'')) of
              (True, Some namespace) \<Rightarrow>
                let child = dget metadata ''responses_namespace_child'' in
                Inr (add_namespace_child namespace (dget_or metadata ''responses_namespace_description'' (PStr ''''))
                       (if is_dict child then child else PDict (ddel converted ''strict'')) (fst acc), cs)
            | _ \<Rightarrow> Inr (fst acc @ [(None, converted)], cs))))"

definition tools_preserving_namespaces ::
  "('t::linorder, 'r) responses_env \<Rightarrow> pyval list \<Rightarrow> 't caches \<Rightarrow> (pdict list \<times> 't caches) res" where
  "tools_preserving_namespaces env ir_tools cs =
     rbind (rfold (namespace_tool_step env) ([], cs) (enumerate 0 ir_tools)) (\<lambda>(out, cs). Inr (map snd out, cs))"

definition responses_apply_tool_config ::
  "('t::linorder, 'r) responses_env \<Rightarrow> pdict \<Rightarrow> pdict \<Rightarrow> 't caches \<Rightarrow> (pdict \<times> 't caches) res" where
  "responses_apply_tool_config env ir_request result cs =
     (let tools = dget ir_request ''tools''; tc = dget ir_request ''tool_choice''; tcfg = dget ir_request ''tool_config'' in
      rbind (if py_truthy tools then
               rbind (py_iter tools) (\<lambda>ts.
               rbind (tools_preserving_namespaces env ts cs) (\<lambda>(ps, cs).
                 Inr (dset result ''tools'' (PList (map PDict ps)), cs)))
             else Inr (result, cs)) (\<lambda>(result, cs).
      rbind (if py_truthy tc
             then rbind (typed_dict tc) (\<lambda>d. rbind (responses_tool_choice_to_p d) (\<lambda>v. Inr (dset result ''tool_choice'' v)))
             else Inr result) (\<lambda>result.
      if py_truthy tcfg
      then rbind (typed_dict tcfg) (\<lambda>d. Inr (dmerge result (responses_tool_config_to_p d), cs))
      else Inr (result, cs))))"

definition responses_settings :: "('t, 'r) responses_env \<Rightarrow> pdict \<Rightarrow> pdict \<Rightarrow> pdict res" where
  "responses_settings env ir_request result =
     rbind (apply_setting ir_request ''generation'' (\<lambda>d. Inr (responses_generation_to_p d)) result) (\<lambda>result.
     rbind (apply_setting ir_request ''response_format'' (\<lambda>d. Inr (responses_format_to_p d)) result) (\<lambda>result.
     rbind (apply_setting ir_request ''stream'' (\<lambda>d. Inr (responses_stream_to_p d)) result) (\<lambda>result.
     rbind (apply_setting ir_request ''reasoning'' (responses_reasoning_to_p (budget_scale env) (cap_option env)) result)
       (\<lambda>result.
     rbind (apply_setting ir_request ''cache'' (\<lambda>d. Inr (responses_cache_to_p d)) result) (\<lambda>result.
       apply_setting ir_request ''provider_extensions'' Inr result)))))"

text \<open>The result, the request without an orphaned tool setting, the context and the caches.\<close>

definition responses_request_to_p ::
  "('t::linorder, 'r) responses_env \<Rightarrow> pdict \<Rightarrow> conversion_context \<Rightarrow> 't caches \<Rightarrow>
   (pdict \<times> pdict \<times> conversion_context \<times> 't caches) res" where
  "responses_request_to_p env ir_request ctx cs =
     rbind (ditem ir_request ''model'') (\<lambda>mdl.
     let instructions = dget ir_request ''system_instruction'';
         result = [(''model'', mdl)] @ (if py_truthy instructions then [(''instructions'', instructions)] else []) in
     rbind (typed_dicts (dget_or ir_request ''messages'' (PList []))) (\<lambda>messages.
     rbind (fix_orphaned_tool_calls_ir (set_order env) ''[No output available yet]'' messages) (\<lambda>(ir_messages, _).
     let (ir_request, config_warnings) = strip_orphaned_tool_config ir_request in
     rbind (responses_messages_to_p (map PDict ir_messages)) (\<lambda>(items, msg_warnings).
     let ctx = ctx\<lparr>ctx_warnings := ctx_warnings ctx @ config_warnings @ msg_warnings\<rparr> in
     rbind (responses_apply_tool_config env ir_request (dset result ''input'' (PList items)) cs) (\<lambda>(result, cs).
     rbind (responses_settings env ir_request result) (\<lambda>result.
       Inr (result, ir_request, ctx, cs)))))))"

section \<open>Requests from the provider\<close>

definition collect_request_tools :: "pdict \<Rightarrow> pyval \<Rightarrow> pyval list" where
  "collect_request_tools p input_items =
     (let embedded = (case as_list input_items of
            Some items \<Rightarrow>
              concat (map (\<lambda>item. case as_dict item of
                 Some d \<Rightarrow> if dget d ''type'' = PStr ''additional_tools'' then [dget d ''tools''] else []
               | None \<Rightarrow> []) items)
          | None \<Rightarrow> []) in
      concat (map (\<lambda>tools. case as_list tools of Some ts \<Rightarrow> ts | None \<Rightarrow> []) (dget p ''tools'' # embedded)))"

definition active_tool :: "pyval \<Rightarrow> bool" where
  "active_tool t = (case as_dict t of Some d \<Rightarrow> dget d ''external_web_access'' \<noteq> PBool False | None \<Rightarrow> True)"

text \<open>The tools kept, the tools by name, and the warnings.\<close>

definition dedup_step ::
  "pyval list \<times> pdict \<times> string list \<Rightarrow> pyval \<Rightarrow> pyval list \<times> pdict \<times> string list" where
  "dedup_step acc tool =
     (let (out, by_name, ws) = acc in
      case (case as_dict tool of Some d \<Rightarrow> dget d ''name'' | None \<Rightarrow> PNone) of
        PStr name \<Rightarrow>
          if name = [] then (out @ [tool], by_name, ws)
          else (case map_of by_name name of
              None \<Rightarrow> (out @ [tool], dset by_name name tool, ws)
            | Some existing \<Rightarrow>
                (out, by_name,
                 if \<not> py_eq existing tool
                 then ws @ [''Conflicting Responses tool definitions resolve to '' @ repr_str name @
                            ''; keeping the first definition'']
                 else ws))
      | _ \<Rightarrow> (out @ [tool], by_name, ws))"

definition deduplicate_ir_tools :: "pyval list \<Rightarrow> pyval list \<times> string list" where
  "deduplicate_ir_tools ir_tools = (let (out, _, ws) = foldl dedup_step ([], [], []) ir_tools in (out, ws))"

definition filled_strs :: "pyval list \<Rightarrow> pyval list" where
  "filled_strs vs = filter (\<lambda>v. is_str v \<and> py_truthy v) vs"

text \<open>The entry of a namespace child, and the set of its names.\<close>

definition namespace_restore_entry :: "pdict \<Rightarrow> (pdict \<times> pyval list) option res" where
  "namespace_restore_entry tool =
     rbind (typed_meta (dget tool ''metadata'')) (\<lambda>metadata.
     let namespace = dget metadata ''responses_namespace'';
         chat_tool_name = py_or (dget metadata ''responses_chat_tool_name'') (dget tool ''name'');
         filled = (\<lambda>v. is_str v \<and> py_truthy v);
         given = dget metadata ''responses_namespace_child_name'';
         child_name = (if filled given then given
                       else case as_dict (dget metadata ''responses_namespace_child'') of
                         Some c \<Rightarrow> dget c ''name'' | None \<Rightarrow> PNone) in
       Inr (if dget metadata ''provider_type'' \<noteq> PStr ''namespace'' \<or> \<not> filled namespace \<or> \<not> filled chat_tool_name then None
            else Some ([(''namespace'', namespace)] @ (if filled child_name then [(''child_name'', child_name)] else []),
              pset_union []
                ((case as_list (dget metadata ''responses_chat_tool_aliases'') of Some xs \<Rightarrow> filled_strs xs | None \<Rightarrow> []) @
                 filled_strs [chat_tool_name, dget metadata ''responses_chat_tool_alias'', child_name]))))"

definition add_candidate :: "pdict \<Rightarrow> (string \<times> pdict list) list \<Rightarrow> pyval \<Rightarrow> (string \<times> pdict list) list" where
  "add_candidate entry candidates name =
     (case name of
        PStr s \<Rightarrow> dset candidates s ((case map_of candidates s of Some es \<Rightarrow> es | None \<Rightarrow> []) @ [entry])
      | _ \<Rightarrow> candidates)"

definition restore_step ::
  "(pyval list \<Rightarrow> pyval list) \<Rightarrow> (string \<times> pdict list) list \<times> string list \<Rightarrow> pyval \<Rightarrow>
   ((string \<times> pdict list) list \<times> string list) res" where
  "restore_step enum acc tool =
     (case as_dict tool of
        None \<Rightarrow> Inr acc
      | Some d \<Rightarrow>
          rbind (typed_meta (dget d ''metadata'')) (\<lambda>metadata.
            if dget metadata ''provider_type'' \<noteq> PStr ''namespace'' then
              Inr (case dget d ''name'' of
                     PStr s \<Rightarrow> if s \<noteq> [] then (fst acc, snd acc @ [s]) else acc | _ \<Rightarrow> acc)
            else
              rbind (namespace_restore_entry d) (\<lambda>restore.
                Inr (case restore of
                       None \<Rightarrow> acc
                     | Some (entry, names) \<Rightarrow> (foldl (add_candidate entry) (fst acc) (enum names), snd acc)))))"

definition restore_mapping :: "(string \<times> pdict list) list \<times> string list \<Rightarrow> pdict" where
  "restore_mapping acc =
     concat (map (\<lambda>(name, entries). case entries of
        [entry] \<Rightarrow> if name \<in> set (snd acc) then [] else [(name, PDict entry)] | _ \<Rightarrow> []) (fst acc))"

definition store_namespace_tool_map ::
  "(pyval list \<Rightarrow> pyval list) \<Rightarrow> pyval list \<Rightarrow> 'a conversion_context_scheme \<Rightarrow> 'a conversion_context_scheme res" where
  "store_namespace_tool_map enum ir_tools ctx =
     rbind (rfold (restore_step enum) ([], []) ir_tools) (\<lambda>acc.
       store_responses_namespace_tool_map (restore_mapping acc) ctx)"

definition native_type_step :: "pdict \<Rightarrow> pyval \<Rightarrow> pdict res" where
  "native_type_step mapping tool =
     (case as_dict tool of
        None \<Rightarrow> Inr mapping
      | Some d \<Rightarrow>
          rbind (typed_meta (dget d ''metadata'')) (\<lambda>metadata.
          let provider_type = dget metadata ''provider_type'' in
            Inr (case dget d ''name'' of
                   PStr name \<Rightarrow> if provider_type \<in> {PStr ''custom'', PStr ''web_search''}
                                then dset mapping name provider_type else mapping
                 | _ \<Rightarrow> mapping)))"

definition store_native_tool_type_map ::
  "pyval list \<Rightarrow> 'a conversion_context_scheme \<Rightarrow> 'a conversion_context_scheme res" where
  "store_native_tool_type_map ir_tools ctx =
     rbind (rfold native_type_step [] ir_tools) (\<lambda>mapping. store_responses_native_tool_type_map mapping ctx)"

definition responses_tools_from_p ::
  "('t::linorder, 'r) responses_env \<Rightarrow> pdict \<Rightarrow> pyval \<Rightarrow> pdict \<Rightarrow> conversion_context \<Rightarrow> 't caches \<Rightarrow>
   (pdict \<times> conversion_context \<times> 't caches) res" where
  "responses_tools_from_p env p input_items r ctx cs =
     (let active = filter active_tool (collect_request_tools p input_items) in
      if active = [] then Inr (r, ctx, cs)
      else
        rbind (get_cached_tools_from_p (tool_caches env) (exn_text env) responses_tool_definition_to_ir responses_tag active cs)
          (\<lambda>(expanded, cs).
        rbind (store_namespace_tool_map (set_order env) expanded ctx) (\<lambda>ctx.
        let (ir_tools, ws) = deduplicate_ir_tools expanded; ctx = ctx\<lparr>ctx_warnings := ctx_warnings ctx @ ws\<rparr> in
        if ir_tools = [] then Inr (r, ctx, cs)
        else rbind (store_native_tool_type_map ir_tools ctx) (\<lambda>ctx.
          Inr (dset r ''tools'' (PList ir_tools), ctx, cs)))))"

definition responses_tool_config_from_p :: "pdict \<Rightarrow> pdict \<Rightarrow> pdict res" where
  "responses_tool_config_from_p p r =
     rbind (set_if_given ''tool_choice'' (dget p ''tool_choice'')
              (\<lambda>v. rbind (responses_tool_choice_to_ir v) (\<lambda>d. Inr (PDict d))) r) (\<lambda>r.
     let fields = copy_fields (same_names [''parallel_tool_calls'', ''max_tool_calls'']) p [] in
       Inr (if fields \<noteq> [] then dset r ''tool_config'' (PDict (responses_tool_config_to_ir (PDict fields))) else r))"

definition responses_cache_from_p :: "pdict \<Rightarrow> pdict \<Rightarrow> pdict" where
  "responses_cache_from_p p r =
     (let fields = copy_fields (same_names [''prompt_cache_key'', ''prompt_cache_retention'']) p [] in
      if fields \<noteq> [] then dset r ''cache'' (PDict (responses_cache_to_ir (PDict fields))) else r)"

text \<open>\<open>if v is not None: ir_request.setdefault("provider_extensions", {})[k] = v\<close>.\<close>

definition add_extension :: "string \<Rightarrow> pyval \<Rightarrow> pdict \<Rightarrow> pdict" where
  "add_extension k v r =
     (if v = PNone then r
      else dset r ''provider_extensions''
        (PDict (dset (case dget r ''provider_extensions'' of PDict d \<Rightarrow> d | _ \<Rightarrow> []) k v)))"

definition responses_settings_from_p :: "pdict \<Rightarrow> pdict \<Rightarrow> pdict res" where
  "responses_settings_from_p p r =
     rbind (responses_tool_config_from_p p r) (\<lambda>r.
     let r = set_if_filled ''generation'' (responses_generation_to_ir (PDict p)) r;
         text_format = dget p ''text'';
         r = (if py_truthy text_format then dset r ''response_format'' (PDict (responses_format_to_ir text_format)) else r);
         r = set_if_filled ''reasoning'' (responses_reasoning_to_ir (PDict p)) r;
         stream = dget p ''stream''; stream_options = dget p ''stream_options'' in
     rbind (if stream \<noteq> PNone \<or> py_truthy stream_options
            then rbind (responses_stream_to_ir (PDict [(''stream'', stream), (''stream_options'', stream_options)]))
                   (\<lambda>d. Inr (dset r ''stream'' (PDict d)))
            else Inr r) (\<lambda>r.
       Inr (add_extension ''allowed_tools'' (dget p ''allowed_tools'')
             (add_extension ''include'' (dget p ''include'') (responses_cache_from_p p r)))))"

definition request_input :: "pyval \<Rightarrow> pyval" where
  "request_input v =
     (if is_str v
      then PList [PDict [(''type'', PStr ''message''), (''role'', PStr ''user''),
                         (''content'', PList [PDict [(''type'', PStr ''input_text''), (''text'', v)]])]]
      else v)"

definition preserved_fields :: "pdict \<Rightarrow> pdict" where
  "preserved_fields p = filter (\<lambda>kv. fst kv \<in> set responses_preserve_fields) p"

definition responses_request_from_p ::
  "('t::linorder, 'r) responses_env \<Rightarrow> pdict \<Rightarrow> conversion_context \<Rightarrow> 't caches \<Rightarrow>
   (pdict \<times> conversion_context \<times> 't caches) res" where
  "responses_request_from_p env p ctx cs =
     (let instructions = dget p ''instructions''; input_items = request_input (dget_or p ''input'' (PList []));
          r = [(''model'', dget_or p ''model'' (PStr '''')), (''messages'', PList [])] @
              (if py_truthy instructions then [(''system_instruction'', instructions)] else []) in
      rbind (case as_list input_items of
               Some items \<Rightarrow>
                 rbind (responses_messages_to_ir (float_text env) items) (\<lambda>ms. Inr (dset r ''messages'' (PList ms)))
             | None \<Rightarrow> Inr r) (\<lambda>r.
      rbind (responses_tools_from_p env p input_items r ctx cs) (\<lambda>(r, ctx, cs).
      rbind (responses_settings_from_p p r) (\<lambda>r.
      let echo = preserved_fields p;
          ctx = (if metadata_mode ctx = PStr ''preserve'' \<and> echo \<noteq> [] then store_request_echo echo ctx else ctx) in
      rbind (validate_ir_request (tool_caches env) (validate_output env) (ir_validators env) r cs) (\<lambda>(r, cs).
        Inr (r, ctx, cs))))))"

section \<open>Metadata kept for a round trip\<close>

definition response_part_meta :: "pyval list \<Rightarrow> pdict list" where
  "response_part_meta content =
     concat (map (\<lambda>cp. case as_dict cp of
       Some d \<Rightarrow> [copy_fields (same_names [''annotations'', ''logprobs'']) d []] | None \<Rightarrow> []) content)"

definition response_item_meta :: "pdict \<Rightarrow> pdict" where
  "response_item_meta item =
     (let meta = copy_fields (same_names [''id'', ''status'']) item [];
          parts_meta = (case dget_or item ''content'' (PList []) of PList ps \<Rightarrow> response_part_meta ps | _ \<Rightarrow> []) in
      if parts_meta \<noteq> [] then dset meta ''content_meta'' (PList (map PDict parts_meta)) else meta)"

definition responses_capture_metadata ::
  "pdict \<Rightarrow> 'a conversion_context_scheme \<Rightarrow> 'a conversion_context_scheme res" where
  "responses_capture_metadata p ctx =
     (let extras = filter (\<lambda>kv. snd kv \<noteq> PNone) (preserved_fields p);
          ctx = (if extras \<noteq> [] then store_response_extras extras ctx else ctx) in
      rbind (py_iter (dget_or p ''output'' (PList []))) (\<lambda>items.
        let metas = concat (map (\<lambda>item. case as_dict item of Some d \<Rightarrow> [response_item_meta d] | None \<Rightarrow> []) items) in
        Inr (if metas \<noteq> [] then store_output_items_meta metas ctx else ctx)))"

definition responses_core_keys :: "string list" where
  "responses_core_keys = [''id'', ''object'', ''created_at'', ''model'', ''output'', ''status'', ''usage'']"

text \<open>The required fields that are absent, then the echoed ones, none of them a core field.\<close>

definition inject_echo :: "pdict \<Rightarrow> pdict \<Rightarrow> pdict" where
  "inject_echo echo p =
     (let p = foldl (\<lambda>p (k, v). if k \<in> set responses_core_keys \<or> dhas p k then p else dset p k v) p responses_required_defaults in
      dmerge p (filter (\<lambda>kv. fst kv \<notin> set responses_core_keys) echo))"

definition strict_tool :: "pyval \<Rightarrow> pyval" where
  "strict_tool tool =
     (case as_dict tool of
        Some d \<Rightarrow> if dget d ''type'' = PStr ''function'' \<and> \<not> dhas d ''strict'' then PDict (dset d ''strict'' PNone) else tool
      | None \<Rightarrow> tool)"

text \<open>\<open>tool.setdefault("strict", None)\<close> on the tools, wherever they are a list.\<close>

definition strict_tools :: "pdict \<Rightarrow> pdict res" where
  "strict_tools p =
     rbind (py_iter (dget_or p ''tools'' (PList []))) (\<lambda>_.
       Inr (case dget p ''tools'' of PList ts \<Rightarrow> dset p ''tools'' (PList (map strict_tool ts)) | _ \<Rightarrow> p))"

text \<open>\<open>content[j][k] = pm[k]\<close> for the two keys of a content part, and for each part that has a meta.\<close>

definition restore_part :: "pyval \<Rightarrow> pyval \<Rightarrow> pyval res" where
  "restore_part pm part =
     rbind (typed_dict pm) (\<lambda>m.
     rbind (if dhas m ''annotations'' then set_key part ''annotations'' (dget m ''annotations'') else Inr part) (\<lambda>part.
       if dhas m ''logprobs'' then set_key part ''logprobs'' (dget m ''logprobs'') else Inr part))"

fun restore_parts :: "pyval list \<Rightarrow> pyval list \<Rightarrow> pyval list res" where
  "restore_parts (pm # pms) (part # parts) =
     rbind (restore_part pm part) (\<lambda>p. rbind (restore_parts pms parts) (\<lambda>ps. Inr (p # ps)))"
| "restore_parts _ parts = Inr parts"

text \<open>The content of an item that the converter has built is a list or a text.\<close>

definition restore_item :: "pdict \<Rightarrow> pdict \<Rightarrow> pdict res" where
  "restore_item meta item =
     (let item = copy_fields (same_names [''id'', ''status'']) meta item in
      rbind (py_iter (dget_or meta ''content_meta'' (PList []))) (\<lambda>content_meta.
        if content_meta = [] then Inr item
        else
          rbind (py_iter (dget_or item ''content'' (PList []))) (\<lambda>content.
          rbind (restore_parts content_meta content) (\<lambda>content.
            Inr (case dget item ''content'' of PList _ \<Rightarrow> dset item ''content'' (PList content) | _ \<Rightarrow> item)))))"

fun restore_items :: "pyval list \<Rightarrow> pdict list \<Rightarrow> pdict list res" where
  "restore_items (m # ms) (item # items) =
     rbind (typed_dict m) (\<lambda>d. rbind (restore_item d item) (\<lambda>i. rbind (restore_items ms items) (\<lambda>is. Inr (i # is))))"
| "restore_items _ items = Inr items"

definition responses_apply_metadata ::
  "pdict \<Rightarrow> pdict list \<Rightarrow> 'a conversion_context_scheme \<Rightarrow> pdict res" where
  "responses_apply_metadata p output ctx =
     rbind (get_echo_fields ctx) (\<lambda>echo.
     rbind (strict_tools (inject_echo echo p)) (\<lambda>p.
     rbind (py_iter (get_output_items_meta ctx)) (\<lambda>items_meta.
     rbind (restore_items items_meta output) (\<lambda>output.
       Inr (dset p ''output'' (PList (map PDict output)))))))"

section \<open>Responses from the provider\<close>

definition incomplete_reason :: "pdict \<Rightarrow> pyval" where
  "incomplete_reason response =
     (case as_dict (dget_or response ''incomplete_details'' (PDict [])) of
        Some d \<Rightarrow> dget_or d ''reason'' (PStr '''') | None \<Rightarrow> PStr '''')"

definition status_reason :: "pdict \<Rightarrow> pyval \<Rightarrow> pyval res" where
  "status_reason response status =
     (if status = PStr ''incomplete'' then reason_or ''stop'' responses_incomplete_to_ir (incomplete_reason response)
      else reason_or ''stop'' responses_status_to_reason status)"

text \<open>The content of the messages, and the opaque items beside them.\<close>

definition response_message_step :: "pyval list \<times> pyval list \<Rightarrow> pyval \<Rightarrow> (pyval list \<times> pyval list) res" where
  "response_message_step acc ir_item =
     (case as_dict ir_item of
        None \<Rightarrow> Inr acc
      | Some m \<Rightarrow>
          if \<not> dhas m ''role'' then Inr acc
          else
            rbind (py_iter (dget_or m ''content'' (PList []))) (\<lambda>content.
            rbind (typed_meta (dget m ''metadata'')) (\<lambda>metadata.
            rbind (py_get (dget_or metadata ''custom'' (PDict [])) ''_passthrough_items'' (PList [])) (\<lambda>items.
            rbind (py_iter items) (\<lambda>items.
              Inr (fst acc @ content, snd acc @ filter is_dict items))))))"

definition has_tool_call :: "pyval list \<Rightarrow> bool" where
  "has_tool_call parts = list_ex is_tool_call_part parts"

definition response_choices :: "pyval list \<Rightarrow> pyval list \<Rightarrow> pyval \<Rightarrow> pyval list" where
  "response_choices content opaque reason =
     (if content = [] \<and> opaque = [] then []
      else
        let message = [(''role'', PStr ''assistant''), (''content'', PList content)] @
              (if opaque \<noteq> []
               then [(''metadata'', PDict [(''custom'', PDict [(''_passthrough_items'', PList opaque)])])] else []) in
        [PDict [(''index'', PInt 0), (''message'', PDict message),
                (''finish_reason'', PDict [(''reason'', reason)])]])"

definition responses_response_from_p ::
  "('t, 'r) responses_env \<Rightarrow> pdict \<Rightarrow> 'a conversion_context_scheme \<Rightarrow> (pdict \<times> 'a conversion_context_scheme) res" where
  "responses_response_from_p env p ctx =
     (let status = dget p ''status'' in
      rbind (status_reason p (if status = PStr ''incomplete'' then status else py_or status (PStr ''''))) (\<lambda>reason.
      rbind (py_iter (dget_or p ''output'' (PList []))) (\<lambda>output_items.
      rbind (responses_messages_to_ir (float_text env) output_items) (\<lambda>ir_items.
      rbind (rfold response_message_step ([], []) ir_items) (\<lambda>(content, opaque).
      let reason = (if reason = PStr ''stop'' \<and> has_tool_call content then PStr ''tool_calls'' else reason) in
      rbind (py_int (int_text env) (dget_or p ''created_at'' (PInt 0))) (\<lambda>created_at.
      let r = [(''id'', dget_or p ''id'' (PStr '''')), (''object'', PStr ''response''), (''created'', created_at),
               (''model'', dget_or p ''model'' (PStr '''')), (''choices'', PList (response_choices content opaque reason))] in
      rbind (if py_truthy (dget p ''usage'')
             then rbind (responses_ir_usage (dget p ''usage'')) (\<lambda>u. Inr (dset r ''usage'' (PDict u))) else Inr r) (\<lambda>r.
      rbind (set_if_given ''service_tier'' (dget p ''service_tier'') Inr r) (\<lambda>r.
      rbind (if metadata_mode ctx = PStr ''preserve'' then responses_capture_metadata p ctx else Inr ctx) (\<lambda>ctx.
      rbind (validate_ir_response (validate_output env) (ir_validators env) r) (\<lambda>r. Inr (r, ctx)))))))))))"

section \<open>Responses to the provider\<close>

definition patched_metadata :: "pdict \<Rightarrow> string \<Rightarrow> pyval \<Rightarrow> pdict res" where
  "patched_metadata part k v =
     rbind (typed_meta (dget part ''provider_metadata'')) (\<lambda>pm.
       Inr (dset part ''provider_metadata'' (PDict (if dhas pm k then pm else dset pm k v))))"

definition tool_call_with_context ::
  "pdict \<Rightarrow> 'a conversion_context_scheme \<Rightarrow> pdict res" where
  "tool_call_with_context part ctx =
     (case as_str (dget_or part ''tool_name'' (dget_or part ''name'' (PStr ''''))) of
        None \<Rightarrow> responses_tool_call_to_p part
      | Some tool_name \<Rightarrow>
          (case get_responses_native_tool_type tool_name ctx of
             Some native \<Rightarrow>
               rbind (patched_metadata part ''responses_tool_type'' (PStr native)) (\<lambda>patched.
                 responses_tool_call_to_p
                   (if native = ''custom'' then dset patched ''tool_type'' (PStr ''custom'') else patched))
           | None \<Rightarrow>
               let namespace = get_responses_namespace_for_tool tool_name ctx;
                   child_name = get_responses_child_name_for_tool tool_name ctx in
               if \<not> py_truthy namespace then responses_tool_call_to_p part
               else rbind (patched_metadata (if py_truthy child_name then dset part ''tool_name'' child_name else part)
                             ''responses_namespace'' namespace)
                      responses_tool_call_to_p))"

definition output_text :: "pyval \<Rightarrow> pyval" where
  "output_text t =
     PDict [(''type'', PStr ''output_text''), (''text'', t), (''annotations'', PList []), (''logprobs'', PList [])]"

text \<open>The output items and the text parts.\<close>

definition response_part_step ::
  "'a conversion_context_scheme \<Rightarrow> pdict list \<times> pyval list \<Rightarrow> pyval \<Rightarrow> (pdict list \<times> pyval list) res" where
  "response_part_step ctx acc part =
     (case as_dict part of
        None \<Rightarrow> Inr acc
      | Some p \<Rightarrow>
          if is_text_part part then rbind (ditem p ''text'') (\<lambda>t. Inr (fst acc, snd acc @ [output_text t]))
          else if is_tool_call_part part then
            rbind (tool_call_with_context p ctx) (\<lambda>item. Inr (fst acc @ [item], snd acc))
          else if is_reasoning_part part then
            rbind (responses_reasoning_part_to_p p) (\<lambda>item. Inr (fst acc @ [item], snd acc))
          else Inr acc)"

definition response_message_item :: "pyval \<Rightarrow> pyval list \<Rightarrow> pdict list" where
  "response_message_item msg_item_id texts =
     (if texts = [] then []
      else [[(''type'', PStr ''message''), (''role'', PStr ''assistant''), (''status'', PStr ''completed''),
             (''content'', PList texts)] @ (if msg_item_id \<noteq> PNone then [(''id'', msg_item_id)] else [])])"

text \<open>The output so far and the response with the status of the last choice.\<close>

definition response_choice_step ::
  "'a conversion_context_scheme \<Rightarrow> pyval \<Rightarrow> pdict list \<times> pdict \<Rightarrow> pyval \<Rightarrow> (pdict list \<times> pdict) res" where
  "response_choice_step ctx msg_item_id acc choice =
     rbind (typed_dict choice) (\<lambda>c.
     let message = dget c ''message'' in
     if \<not> py_truthy message then Inr acc
     else
       rbind (typed_dict message) (\<lambda>m.
       rbind (typed_meta (dget m ''metadata'')) (\<lambda>metadata.
       rbind (py_get (dget_or metadata ''custom'' (PDict [])) ''_passthrough_items'' (PList [])) (\<lambda>items.
       let passthrough = (case as_list items of
             Some xs \<Rightarrow> concat (map (\<lambda>x. case as_dict x of Some d \<Rightarrow> [d] | None \<Rightarrow> []) xs) | None \<Rightarrow> []) in
       rbind (py_iter (dget_or m ''content'' (PList []))) (\<lambda>parts.
       rbind (rfold (response_part_step ctx) (fst acc @ passthrough, []) parts) (\<lambda>(output, texts).
       rbind (py_get (dget_or c ''finish_reason'' (PDict [])) ''reason'' (PStr ''stop'')) (\<lambda>finish_reason.
       rbind (reason_or ''completed'' responses_reason_to_status finish_reason) (\<lambda>status.
       rbind (dget_dyn responses_reason_to_incomplete finish_reason) (\<lambda>incomplete.
       let r = dset (snd acc) ''status'' status;
           r = (case incomplete of
                  Some s \<Rightarrow> dset r ''incomplete_details'' (PDict [(''reason'', PStr s)]) | None \<Rightarrow> r) in
         Inr (response_message_item msg_item_id texts @ output, r))))))))))"

definition responses_response_to_p :: "pdict \<Rightarrow> 'a conversion_context_scheme \<Rightarrow> pdict res" where
  "responses_response_to_p ir ctx =
     rbind (generate_message_id (dget_or ir ''id'' (PStr ''''))) (\<lambda>msg_item_id.
     rbind (py_iter (dget_or ir ''choices'' (PList []))) (\<lambda>choices.
     rbind (rfold (response_choice_step ctx msg_item_id)
       ([], [(''id'', dget_or ir ''id'' (PStr '''')), (''object'', PStr ''response''),
             (''created_at'', dget_or ir ''created'' (PInt 0)), (''model'', dget_or ir ''model'' (PStr '''')),
             (''output'', PList []), (''status'', PStr ''completed'')]) choices) (\<lambda>(output, r).
     let r = dset r ''output'' (PList (map PDict output)); ir_usage = dget ir ''usage'' in
     rbind (if py_truthy ir_usage
            then rbind (typed_dict ir_usage) (\<lambda>u. Inr (dset r ''usage'' (PDict (responses_provider_usage u))))
            else Inr r) (\<lambda>r.
     let r = copy_fields (same_names [''service_tier'']) ir r in
       if metadata_mode ctx = PStr ''preserve'' then responses_apply_metadata r output ctx else Inr r))))"

section \<open>Message lists\<close>

definition responses_messages_to_provider :: "pyval list \<Rightarrow> (pyval list \<times> string list) res" where
  "responses_messages_to_provider messages = responses_messages_to_p messages"

definition responses_messages_from_provider :: "(string \<Rightarrow> string) \<Rightarrow> pyval list \<Rightarrow> pyval list res" where
  "responses_messages_from_provider flt provider_messages = responses_messages_to_ir flt provider_messages"

text \<open>The old interface: a request, or a plain list of messages with tools and a choice.\<close>

definition responses_to_provider ::
  "('t::linorder, 'r) responses_env \<Rightarrow> pyval \<Rightarrow> pyval \<Rightarrow> pyval \<Rightarrow> 't caches \<Rightarrow> (pdict \<times> string list \<times> 't caches) res" where
  "responses_to_provider env ir_input tools choice cs =
     (case (case as_dict ir_input of Some d \<Rightarrow> if dhas d ''messages'' then Some d else None | None \<Rightarrow> None) of
        Some ir_request \<Rightarrow>
          rbind (responses_request_to_p env ir_request \<lparr>ctx_warnings = [], ctx_options = [], ctx_metadata = []\<rparr> cs)
            (\<lambda>(result, _, ctx, cs). Inr (result, ctx_warnings ctx, cs))
      | None \<Rightarrow>
          rbind (py_iter ir_input) (\<lambda>messages.
          rbind (responses_messages_to_p messages) (\<lambda>(items, ws).
          let result = [(''input'', PList items)] in
          rbind (if py_truthy tools then
                   rbind (py_iter tools) (\<lambda>ts.
                   rbind (rfold (\<lambda>(ps, cs) (n, t). rbind (typed_dict t) (\<lambda>d.
                            rbind (responses_tool_definition_to_p (schema_env env n) d cs) (\<lambda>(p, cs). Inr (ps @ [p], cs))))
                          ([], cs) (enumerate 0 ts)) (\<lambda>(ps, cs).
                     Inr (dset result ''tools'' (PList ps), cs)))
                 else Inr (result, cs)) (\<lambda>(result, cs).
          rbind (if py_truthy choice
                 then rbind (typed_dict choice) (\<lambda>d.
                      rbind (responses_tool_choice_to_p d) (\<lambda>v. Inr (dset result ''tool_choice'' v)))
                 else Inr result) (\<lambda>result.
            Inr (result, ws, cs))))))"

section \<open>Identifiers of restored items\<close>

text \<open>
  With the preserve mode a response of a reasoning item and a message gets the ids of the two exchanged:
  the ids are restored by position, and the message is put first.
\<close>

definition demo_output :: "pdict list" where
  "demo_output =
     [[(''type'', PStr ''reasoning''), (''id'', PStr ''rs_1''), (''summary'', PList [])],
      [(''type'', PStr ''message''), (''role'', PStr ''assistant''), (''id'', PStr ''msg_1''),
       (''content'', PList [PDict [(''type'', PStr ''output_text''), (''text'', PStr ''ok'')]])]]"

definition demo_choice :: pyval where
  "demo_choice =
     PDict [(''message'', PDict [(''role'', PStr ''assistant''),
        (''content'', PList [PDict [(''type'', PStr ''reasoning''), (''reasoning'', PStr ''hm'')],
                             PDict [(''type'', PStr ''text''), (''text'', PStr ''ok'')]])])]"

lemma ids_swapped:
  "\<exists>message thought r.
     response_choice_step ctx (PStr ''msg_resp_1'') ([], []) demo_choice = Inr ([message, thought], r) \<and>
     dget message ''type'' = PStr ''message'' \<and> dget thought ''type'' = PStr ''reasoning'' \<and>
     restore_items (map (\<lambda>item. PDict (response_item_meta item)) demo_output) [message, thought] =
       Inr [dset message ''id'' (PStr ''rs_1''), dset thought ''id'' (PStr ''msg_1'')]"
  by (simp add: response_choice_step_def demo_choice_def demo_output_def typed_dict_def typed_meta_def
      response_part_step_def output_text_def response_message_item_def restore_item_def response_item_meta_def
      response_part_meta_def restore_part_def responses_reasoning_part_to_p_def copy_fields_def reason_or_def dget_dyn_def
      responses_reason_to_status_def responses_reason_to_incomplete_def
      is_text_part_def is_tool_call_part_def is_reasoning_part_def ditem_def is_typed_def same_names_def Let_def)
end
