(* ===== verification/Spec2Isabelle.thy ===== *)
theory Spec2Isabelle
  imports AnthropicTrip AnthropicStreamTrip OrderedFailover SearchChainState
    StreamPhaseBuffer LruCache ToolOrphanFix ResponsesItemTrip ResponsesConverter
begin

text \<open>
  A verification development for Codex-Rosetta.
\<close>

end
